(* ===== verification/Prelude.thy ===== *)
theory Prelude
  imports Main "HOL-Library.Char_ord"
begin

text \<open>
  Shared vocabulary of the development.

  \<^item> Programs: Python code that reads and writes a state and may raise is a function
    \<open>'s \<Rightarrow> ('e + 'a) \<times> 's\<close>. The state after an exception is kept, because the code
    that catches it sees every write made before the raise.
  \<^item> \<open>triple\<close> (pre, normal post, exceptional post) and \<open>evolves\<close> (a relation between
    the states before and after, whatever the outcome), with one rule per combinator,
    and the locale \<open>evolution\<close> that gives those rules for a reflexive, transitive relation.
  \<^item> SQL tables as lists of rows: \<open>sql_update\<close> is \<open>UPDATE .. WHERE\<close>, \<open>sql_any\<close> says
    whether \<open>RETURNING\<close> has a row, \<open>rows_evolve\<close> relates a table to a later one, and the locale
    \<open>versioned\<close> is the contract of compare-and-swap updates.
  \<^item> Python strings: \<open>strip\<close>, \<open>lower\<close>, \<open>contains\<close>, \<open>split_on\<close>, decimal digits.
\<close>

section \<open>Programs with state and exceptions\<close>

type_synonym ('s, 'e, 'a) prog = "'s \<Rightarrow> ('e + 'a) \<times> 's"

definition ret :: "'a \<Rightarrow> ('s, 'e, 'a) prog" where
  "ret x = (\<lambda>s. (Inr x, s))"

definition throw :: "'e \<Rightarrow> ('s, 'e, 'a) prog" where
  "throw e = (\<lambda>s. (Inl e, s))"

definition bnd :: "('s, 'e, 'a) prog \<Rightarrow> ('a \<Rightarrow> ('s, 'e, 'b) prog) \<Rightarrow> ('s, 'e, 'b) prog" where
  "bnd m f = (\<lambda>s. case m s of (Inl e, t) \<Rightarrow> (Inl e, t) | (Inr x, t) \<Rightarrow> f x t)"

definition handle :: "('s, 'e, 'a) prog \<Rightarrow> ('e \<Rightarrow> ('s, 'e, 'a) prog) \<Rightarrow> ('s, 'e, 'a) prog" where
  "handle m h = (\<lambda>s. case m s of (Inl e, t) \<Rightarrow> h e t | (Inr x, t) \<Rightarrow> (Inr x, t))"

definition gets :: "('s \<Rightarrow> 'a) \<Rightarrow> ('s, 'e, 'a) prog" where
  "gets f = (\<lambda>s. (Inr (f s), s))"

definition modify :: "('s \<Rightarrow> 's) \<Rightarrow> ('s, 'e, unit) prog" where
  "modify f = (\<lambda>s. (Inr (), f s))"

text \<open>\<open>if not b: raise e\<close>.\<close>

definition require :: "bool \<Rightarrow> 'e \<Rightarrow> ('s, 'e, unit) prog" where
  "require b e = (if b then ret () else throw e)"

text \<open>A call whose result is computed from the state alone and may be an exception.\<close>

definition lift :: "('s \<Rightarrow> 'e + 'a) \<Rightarrow> ('s, 'e, 'a) prog" where
  "lift f = (\<lambda>s. (f s, s))"

text \<open>\<open>for x in xs\<close>, collecting the results.\<close>

fun for_each :: "('x \<Rightarrow> ('s, 'e, 'a) prog) \<Rightarrow> 'x list \<Rightarrow> ('s, 'e, 'a list) prog" where
  "for_each f [] = ret []"
| "for_each f (x # xs) = bnd (f x) (\<lambda>y. bnd (for_each f xs) (\<lambda>ys. ret (y # ys)))"

lemmas prog_defs = ret_def throw_def bnd_def handle_def gets_def modify_def require_def lift_def

lemma run_ret [simp]: "ret x s = (Inr x, s)"
  by (simp add: ret_def)

lemma run_throw [simp]: "throw e s = (Inl e, s)"
  by (simp add: throw_def)

lemma run_gets [simp]: "gets f s = (Inr (f s), s)"
  by (simp add: gets_def)

lemma run_modify [simp]: "modify f s = (Inr (), f s)"
  by (simp add: modify_def)

lemma run_require [simp]: "require b e s = (if b then (Inr (), s) else (Inl e, s))"
  by (simp add: require_def)

lemma run_lift [simp]: "lift f s = (f s, s)"
  by (simp add: lift_def)

lemma bnd_Inr: "bnd m f s = (Inr y, u) \<longleftrightarrow> (\<exists>x t. m s = (Inr x, t) \<and> f x t = (Inr y, u))"
  by (auto simp: bnd_def split: prod.splits sum.splits)

lemma bnd_Inl:
  "bnd m f s = (Inl e, u) \<longleftrightarrow> m s = (Inl e, u) \<or> (\<exists>x t. m s = (Inr x, t) \<and> f x t = (Inl e, u))"
  by (auto simp: bnd_def split: prod.splits sum.splits)

lemma bnd_run_Inr [simp]: "m s = (Inr x, t) \<Longrightarrow> bnd m f s = f x t"
  by (simp add: bnd_def)

lemma bnd_run_Inl [simp]: "m s = (Inl e, t) \<Longrightarrow> bnd m f s = (Inl e, t)"
  by (simp add: bnd_def)

lemma handle_run_Inr [simp]: "m s = (Inr x, t) \<Longrightarrow> handle m h s = (Inr x, t)"
  by (simp add: handle_def)

lemma handle_run_Inl [simp]: "m s = (Inl e, t) \<Longrightarrow> handle m h s = h e t"
  by (simp add: handle_def)

lemma lift_Inr_iff: "lift f s = (Inr x, t) \<longleftrightarrow> f s = Inr x \<and> t = s"
  by (auto simp: lift_def)

subsection \<open>Pre- and postconditions\<close>

definition triple ::
    "('s \<Rightarrow> bool) \<Rightarrow> ('s, 'e, 'a) prog \<Rightarrow> ('a \<Rightarrow> 's \<Rightarrow> bool) \<Rightarrow> ('e \<Rightarrow> 's \<Rightarrow> bool) \<Rightarrow> bool" where
  "triple P m Q E \<longleftrightarrow>
     (\<forall>s. P s \<longrightarrow> (case m s of (Inl e, t) \<Rightarrow> E e t | (Inr x, t) \<Rightarrow> Q x t))"

named_theorems triple_rules

lemma tripleI:
  assumes "\<And>s x t. P s \<Longrightarrow> m s = (Inr x, t) \<Longrightarrow> Q x t"
    and "\<And>s e t. P s \<Longrightarrow> m s = (Inl e, t) \<Longrightarrow> E e t"
  shows "triple P m Q E"
  using assms by (auto simp: triple_def split: prod.splits sum.splits)

lemma triple_Inr: "triple P m Q E \<Longrightarrow> P s \<Longrightarrow> m s = (Inr x, t) \<Longrightarrow> Q x t"
  by (fastforce simp: triple_def)

lemma triple_Inl: "triple P m Q E \<Longrightarrow> P s \<Longrightarrow> m s = (Inl e, t) \<Longrightarrow> E e t"
  by (fastforce simp: triple_def)

lemma triple_ret [triple_rules]: "(\<And>s. P s \<Longrightarrow> Q x s) \<Longrightarrow> triple P (ret x) Q E"
  by (simp add: triple_def)

lemma triple_throw [triple_rules]: "(\<And>s. P s \<Longrightarrow> E e s) \<Longrightarrow> triple P (throw e) Q E"
  by (simp add: triple_def)

lemma triple_bnd [triple_rules]:
  assumes "triple P m R E" and "\<And>x. triple (R x) (f x) Q E"
  shows "triple P (bnd m f) Q E"
  using assms unfolding triple_def bnd_def by (fastforce split: prod.splits sum.splits)

lemma triple_handle [triple_rules]:
  assumes "triple P m Q R" and "\<And>e. triple (R e) (h e) Q E"
  shows "triple P (handle m h) Q E"
  using assms unfolding triple_def handle_def by (fastforce split: prod.splits sum.splits)

lemma triple_conseq:
  assumes "triple P' m Q' E'" and "\<And>s. P s \<Longrightarrow> P' s"
    and "\<And>x s. Q' x s \<Longrightarrow> Q x s" and "\<And>e s. E' e s \<Longrightarrow> E e s"
  shows "triple P m Q E"
  using assms unfolding triple_def by (fastforce split: prod.splits sum.splits)

subsection \<open>Relations between the states before and after\<close>

definition evolves :: "('s \<Rightarrow> 's \<Rightarrow> bool) \<Rightarrow> ('s, 'e, 'a) prog \<Rightarrow> bool" where
  "evolves R m \<longleftrightarrow> (\<forall>s. R s (snd (m s)))"

lemma evolvesI: "(\<And>s. R s (snd (m s))) \<Longrightarrow> evolves R m"
  by (simp add: evolves_def)

lemma evolvesD: "evolves R m \<Longrightarrow> m s = (r, t) \<Longrightarrow> R s t"
  by (metis evolves_def snd_conv)

locale evolution =
  fixes R :: "'s \<Rightarrow> 's \<Rightarrow> bool"
  assumes refl: "R s s"
    and trans: "R s t \<Longrightarrow> R t u \<Longrightarrow> R s u"
begin

lemma ret: "evolves R (ret x)"
  by (simp add: evolves_def refl)

lemma throw: "evolves R (throw e)"
  by (simp add: evolves_def refl)

lemma gets: "evolves R (gets f)"
  by (simp add: evolves_def refl)

lemma require: "evolves R (require b e)"
  by (simp add: evolves_def refl)

lemma lift: "evolves R (lift f)"
  by (simp add: evolves_def refl)

lemma bnd: "evolves R m \<Longrightarrow> (\<And>x. evolves R (f x)) \<Longrightarrow> evolves R (bnd m f)"
  unfolding evolves_def bnd_def
  by (auto split: prod.splits sum.splits) (metis snd_conv trans)+

lemma handle: "evolves R m \<Longrightarrow> (\<And>e. evolves R (h e)) \<Longrightarrow> evolves R (handle m h)"
  unfolding evolves_def handle_def
  by (auto split: prod.splits sum.splits) (metis snd_conv trans)+

lemma if_prog: "(b \<Longrightarrow> evolves R m) \<Longrightarrow> (\<not> b \<Longrightarrow> evolves R n) \<Longrightarrow> evolves R (if b then m else n)"
  by simp

lemma case_option: "evolves R m \<Longrightarrow> (\<And>x. evolves R (f x)) \<Longrightarrow> evolves R (case z of None \<Rightarrow> m | Some x \<Rightarrow> f x)"
  by (cases z) simp_all

lemma for_each: "(\<And>x. evolves R (f x)) \<Longrightarrow> evolves R (for_each f xs)"
  by (induction xs) (auto intro!: ret bnd)

lemmas rules = ret throw gets require lift bnd handle if_prog case_option for_each

lemma require_bnd: "(b \<Longrightarrow> evolves R m) \<Longrightarrow> evolves R (bnd (require b e) (\<lambda>_. m))"
  by (cases b) (simp_all add: evolves_def bnd_def refl)

lemma bnd_at: "R s (snd (m s)) \<Longrightarrow> (\<And>x. evolves R (f x)) \<Longrightarrow> R s (snd (bnd m f s))"
  unfolding evolves_def bnd_def
  by (auto split: prod.splits sum.splits) (metis snd_conv trans)+

end

text \<open>A predicate on states that every operation keeps is a relation of this kind.\<close>

definition keeps :: "('s \<Rightarrow> bool) \<Rightarrow> 's \<Rightarrow> 's \<Rightarrow> bool" where
  "keeps I s t \<longleftrightarrow> (I s \<longrightarrow> I t)"

interpretation keeping: evolution "keeps I" for I
  by unfold_locales (auto simp: keeps_def)

text \<open>A part of the state that an operation does not write.\<close>

definition frames :: "('s \<Rightarrow> 'v) \<Rightarrow> 's \<Rightarrow> 's \<Rightarrow> bool" where
  "frames f s t \<longleftrightarrow> f t = f s"

interpretation framing: evolution "frames f" for f
  by unfold_locales (auto simp: frames_def)

section \<open>SQL tables as lists of rows\<close>

definition sql_update :: "('r \<Rightarrow> bool) \<Rightarrow> ('r \<Rightarrow> 'r) \<Rightarrow> 'r list \<Rightarrow> 'r list" where
  "sql_update P f rows = map (\<lambda>r. if P r then f r else r) rows"

definition sql_any :: "('r \<Rightarrow> bool) \<Rightarrow> 'r list \<Rightarrow> bool" where
  "sql_any P rows = list_ex P rows"

lemma sql_any_iff: "sql_any P rows \<longleftrightarrow> (\<exists>r \<in> set rows. P r)"
  by (simp add: sql_any_def list_ex_iff)

lemma sql_update_none: "\<not> sql_any P rows \<Longrightarrow> sql_update P f rows = rows"
  by (auto simp: sql_any_iff sql_update_def intro: map_idI)

lemma set_sql_update: "set (sql_update P f rows) = (\<lambda>r. if P r then f r else r) ` set rows"
  by (simp add: sql_update_def)

lemma length_sql_update [simp]: "length (sql_update P f rows) = length rows"
  by (simp add: sql_update_def)

lemma map_sql_update: "(\<And>r. P r \<Longrightarrow> g (f r) = g r) \<Longrightarrow> map g (sql_update P f rows) = map g rows"
  by (auto simp: sql_update_def)

lemma find_distinct_key:
  "distinct (map key rows) \<Longrightarrow> r \<in> set rows \<Longrightarrow> key r = k \<Longrightarrow> find (\<lambda>x. key x = k) rows = Some r"
  by (induction rows) auto

lemma find_SomeD: "find P rows = Some r \<Longrightarrow> r \<in> set rows \<and> P r"
  by (induction rows) (auto split: if_splits)

lemma find_SomeD_sym: "Some r = find P rows \<Longrightarrow> r \<in> set rows \<and> P r"
  by (rule find_SomeD) simp

lemma find_None_iff_any: "find P rows = None \<longleftrightarrow> \<not> sql_any P rows"
  by (induction rows) (auto simp: sql_any_def)

lemma find_sql_update:
  assumes "\<And>r. key (f r) = key r"
  shows "find (\<lambda>x. key x = k) (sql_update P f rows) =
     map_option (\<lambda>r. if P r then f r else r) (find (\<lambda>x. key x = k) rows)"
  using assms by (induction rows) (auto simp: sql_update_def)

subsection \<open>Histories of rows\<close>

text \<open>
  \<open>rows_evolve step fresh old new\<close>: the rows of \<open>new\<close> are those of \<open>old\<close> followed by rows that
  were inserted as \<open>fresh\<close>, each moved along \<open>step\<close> any number of times.
\<close>

definition rows_evolve :: "('r \<Rightarrow> 'r \<Rightarrow> bool) \<Rightarrow> ('r \<Rightarrow> bool) \<Rightarrow> 'r list \<Rightarrow> 'r list \<Rightarrow> bool" where
  "rows_evolve step fresh old new \<longleftrightarrow>
     (\<exists>add. (\<forall>r \<in> set add. fresh r) \<and> list_all2 step\<^sup>*\<^sup>* (old @ add) new)"

lemma rows_evolve_refl [simp]: "rows_evolve step fresh rs rs"
  unfolding rows_evolve_def by (rule exI[of _ "[]"]) (simp add: list_all2_refl)

lemma rows_evolve_trans:
  assumes "rows_evolve step fresh a b" and "rows_evolve step fresh b c"
  shows "rows_evolve step fresh a c"
proof -
  obtain m n where m: "\<forall>r \<in> set m. fresh r" and ab: "list_all2 step\<^sup>*\<^sup>* (a @ m) b"
    and n: "\<forall>r \<in> set n. fresh r" and bc: "list_all2 step\<^sup>*\<^sup>* (b @ n) c"
    using assms by (auto simp: rows_evolve_def)
  have "list_all2 step\<^sup>*\<^sup>* ((a @ m) @ n) (b @ n)"
    using ab by (intro list_all2_appendI) (simp_all add: list_all2_refl)
  then have "list_all2 step\<^sup>*\<^sup>* ((a @ m) @ n) c"
    using bc by (rule list_all2_trans[of "step\<^sup>*\<^sup>*" "step\<^sup>*\<^sup>*" "step\<^sup>*\<^sup>*", rotated]) (rule rtranclp_trans)
  then show ?thesis using m n unfolding rows_evolve_def by (intro exI[of _ "m @ n"]) auto
qed

lemma rows_evolve_update:
  assumes "\<And>r. r \<in> set rs \<Longrightarrow> P r \<Longrightarrow> step r (f r)"
  shows "rows_evolve step fresh rs (sql_update P f rs)"
  unfolding rows_evolve_def sql_update_def
  by (rule exI[of _ "[]"]) (use assms in \<open>auto simp: list_all2_conv_all_nth\<close>)

lemma rows_evolve_insert: "fresh r \<Longrightarrow> rows_evolve step fresh rs (rs @ [r])"
  unfolding rows_evolve_def by (rule exI[of _ "[r]"]) (simp add: list_all2_refl)

lemma rows_evolve_invariant:
  assumes "rows_evolve step fresh old new" and "\<forall>r \<in> set old. I r"
    and "\<And>r. fresh r \<Longrightarrow> I r" and "\<And>r r'. step r r' \<Longrightarrow> I r \<Longrightarrow> I r'"
  shows "\<forall>r \<in> set new. I r"
proof -
  obtain add where add: "\<forall>r \<in> set add. fresh r" and rel: "list_all2 step\<^sup>*\<^sup>* (old @ add) new"
    using assms(1) by (auto simp: rows_evolve_def)
  have star: "I r'" if "step\<^sup>*\<^sup>* r r'" and "I r" for r r'
    using that by (induction rule: rtranclp_induct) (auto intro: assms(4))
  show ?thesis
  proof
    fix r' assume "r' \<in> set new"
    then obtain r where "r \<in> set (old @ add)" and "step\<^sup>*\<^sup>* r r'"
      using rel by (metis in_set_conv_nth list_all2_conv_all_nth)
    then show "I r'" using star add assms(2,3) by auto
  qed
qed

lemma rows_evolve_row:
  assumes "rows_evolve step fresh old new" and "i < length old"
  shows "i < length new \<and> step\<^sup>*\<^sup>* (old ! i) (new ! i)"
proof -
  obtain add where "list_all2 step\<^sup>*\<^sup>* (old @ add) new"
    using assms(1) by (auto simp: rows_evolve_def)
  then show ?thesis
    using assms(2) by (auto simp: list_all2_conv_all_nth nth_append dest!: spec[of _ i])
qed

text \<open>A row found by its key is found again, moved along its life cycle.\<close>

lemma rows_evolve_find:
  assumes "rows_evolve step fresh old new" and "find (\<lambda>r. key r = k) old = Some r"
    and "\<And>r r'. step r r' \<Longrightarrow> key r' = key r" and "distinct (map key new)"
  shows "\<exists>r'. find (\<lambda>r. key r = k) new = Some r' \<and> step\<^sup>*\<^sup>* r r'"
proof -
  obtain i where i: "i < length old" "old ! i = r" "key r = k"
    using find_SomeD[OF assms(2)] by (metis in_set_conv_nth)
  have same: "key r' = key r" if "step\<^sup>*\<^sup>* r r'" for r r'
    using that by (induction rule: rtranclp_induct) (auto dest: assms(3))
  note s = rows_evolve_row[OF assms(1) i(1)]
  then have "find (\<lambda>r. key r = k) new = Some (new ! i)"
    using i same by (intro find_distinct_key[OF assms(4)]) auto
  with s i show ?thesis by auto
qed

subsection \<open>Versioned rows\<close>

text \<open>
  The contract of compare-and-swap updates: an attempt names the version it saw, succeeds only
  on that version and increments it, and no attempt ever takes a version back.
\<close>

locale versioned =
  fixes version :: "'s \<Rightarrow> 'k \<Rightarrow> int option"
    and attempt :: "'op \<Rightarrow> 'k \<Rightarrow> int \<Rightarrow> ('s, 'e, 'a) prog"
    and ok :: "'s \<Rightarrow> bool"
  assumes attempt_ok: "ok s \<Longrightarrow> ok (snd (attempt op k v s))"
    and success: "ok s \<Longrightarrow> attempt op k v s = (Inr x, t) \<Longrightarrow> version s k = Some v \<and> version t k = Some (v + 1)"
    and grows: "ok s \<Longrightarrow> version s k' = Some n \<Longrightarrow> \<exists>m. version (snd (attempt op k v s)) k' = Some m \<and> n \<le> m"
begin

definition attempts :: "('op \<times> 'k \<times> int) list \<Rightarrow> 's \<Rightarrow> 's" where
  "attempts as s = fold (\<lambda>(op, k, v) s. snd (attempt op k v s)) as s"

lemma attempts_ok: "ok s \<Longrightarrow> ok (attempts as s)"
  unfolding attempts_def by (induction as arbitrary: s) (auto simp: attempt_ok)

lemma attempts_grow:
  "ok s \<Longrightarrow> version s k = Some n \<Longrightarrow> \<exists>m. version (attempts as s) k = Some m \<and> n \<le> m"
proof (induction as arbitrary: s n)
  case (Cons a as)
  obtain op k' v where a: "a = (op, k', v)" by (cases a)
  obtain m where "version (snd (attempt op k' v s)) k = Some m" and "n \<le> m"
    using grows[OF Cons.prems] by blast
  then show ?case
    using Cons.IH[OF attempt_ok[OF Cons.prems(1)], of op k' v m] a by (fastforce simp: attempts_def)
qed (simp add: attempts_def)

text \<open>Of all attempts that saw the same version of a key, at most one succeeds.\<close>

lemma one_winner:
  assumes "ok s" and "attempt op k v s = (Inr x, t)"
  shows "\<exists>e. fst (attempt op' k v (attempts as t)) = Inl e"
proof -
  have "ok t" using attempt_ok[OF assms(1), of op k v] assms(2) by simp
  then obtain m where m: "version (attempts as t) k = Some m" "v + 1 \<le> m"
    using attempts_grow success[OF assms] by blast
  show ?thesis
  proof (cases "attempt op' k v (attempts as t)")
    case (Pair r u)
    then show ?thesis
      using success[OF attempts_ok[OF \<open>ok t\<close>], of op' k v as] m by (cases r) auto
  qed
qed

end

section \<open>Python strings\<close>

text \<open>
  A Python \<open>str\<close> is a list of characters below code point 256 here; \<open>str.strip\<close> and
  \<open>str.isspace\<close> treat code points 9--13, 28--32, 133 and 160 of that range as white space.
  \<open>lower\<close> is \<open>str.lower\<close> on that range. It also stands for \<open>casefold\<close>, which differs from it there
  on the code points 181 and 223 only.
\<close>

definition py_space :: "char \<Rightarrow> bool" where
  "py_space c = (let n = (of_char c :: nat) in (9 \<le> n \<and> n \<le> 13) \<or> (28 \<le> n \<and> n \<le> 32) \<or> n = 133 \<or> n = 160)"

definition lstrip :: "string \<Rightarrow> string" where
  "lstrip s = dropWhile py_space s"

definition strip :: "string \<Rightarrow> string" where
  "strip s = rev (dropWhile py_space (rev (dropWhile py_space s)))"

definition lower_char :: "char \<Rightarrow> char" where
  "lower_char c = (let n = (of_char c :: nat)
      in if (65 \<le> n \<and> n \<le> 90) \<or> (192 \<le> n \<and> n \<le> 222 \<and> n \<noteq> 215) then char_of (n + 32) else c)"

definition lower :: "string \<Rightarrow> string" where
  "lower s = map lower_char s"

fun has_prefix :: "string \<Rightarrow> string \<Rightarrow> bool" where
  "has_prefix [] s = True"
| "has_prefix (x # xs) [] = False"
| "has_prefix (x # xs) (y # ys) = (x = y \<and> has_prefix xs ys)"

text \<open>\<open>needle in s\<close>.\<close>

fun contains :: "string \<Rightarrow> string \<Rightarrow> bool" where
  "contains needle [] = (needle = [])"
| "contains needle (c # s) = (has_prefix needle (c # s) \<or> contains needle s)"

text \<open>\<open>s.split(sep)\<close> for a one-character separator: never empty.\<close>

fun split_on :: "char \<Rightarrow> string \<Rightarrow> string list" where
  "split_on sep [] = [[]]"
| "split_on sep (c # s) =
     (if c = sep then [] # split_on sep s
      else (case split_on sep s of [] \<Rightarrow> [[c]] | w # ws \<Rightarrow> (c # w) # ws))"

lemma split_on_nonempty: "split_on sep s \<noteq> []"
  by (induction s) (auto split: list.splits)

lemma dropWhile_idem: "dropWhile P (dropWhile P s) = dropWhile P s"
  by (induction s) auto

lemma hd_strip: "dropWhile P (rev (dropWhile P s)) \<noteq> [] \<Longrightarrow>
    hd (rev (dropWhile P (rev (dropWhile P s)))) = hd (dropWhile P s)"
proof -
  let ?t = "dropWhile P s"
  assume ne: "dropWhile P (rev ?t) \<noteq> []"
  have "rev ?t = takeWhile P (rev ?t) @ dropWhile P (rev ?t)"
    by simp
  then have "?t = rev (dropWhile P (rev ?t)) @ rev (takeWhile P (rev ?t))"
    by (metis rev_append rev_rev_ident)
  then show ?thesis
    using ne by (metis hd_append2 rev_is_Nil_conv)
qed

lemma strip_ends:
  assumes "strip s \<noteq> []"
  shows "\<not> py_space (hd (strip s))" and "\<not> py_space (last (strip s))"
proof -
  have ne: "dropWhile py_space (rev (dropWhile py_space s)) \<noteq> []"
    using assms by (simp add: strip_def)
  then have "dropWhile py_space s \<noteq> []"
    by fastforce
  then show "\<not> py_space (hd (strip s))"
    using hd_strip[OF ne] hd_dropWhile by (metis strip_def)
  show "\<not> py_space (last (strip s))"
    using ne hd_dropWhile by (metis last_rev strip_def)
qed

lemma strip_fixed:
  assumes "t = [] \<or> (\<not> py_space (hd t) \<and> \<not> py_space (last t))"
  shows "strip t = t"
proof (cases "t = []")
  case True
  then show ?thesis by (simp add: strip_def)
next
  case False
  then have "dropWhile py_space t = t" and "dropWhile py_space (rev t) = rev t"
    using assms by (simp_all add: dropWhile_eq_self_iff hd_rev)
  then show ?thesis by (simp add: strip_def)
qed

lemma strip_strip [simp]: "strip (strip s) = strip s"
  using strip_ends by (intro strip_fixed) blast

text \<open>Decimal digits, and the zero-padded fields of \<open>date.isoformat()\<close>.\<close>

definition digit_char :: "nat \<Rightarrow> char" where
  "digit_char d = char_of (48 + d)"

fun nat_str :: "nat \<Rightarrow> string" where
  "nat_str n = (if n < 10 then [digit_char n] else nat_str (n div 10) @ [digit_char (n mod 10)])"

declare nat_str.simps [simp del]

definition pad_zero :: "nat \<Rightarrow> string \<Rightarrow> string" where
  "pad_zero w s = replicate (w - length s) (CHR ''0'') @ s"

datatype date = Date (year: nat) (month: nat) (day: nat)

definition isoformat :: "date \<Rightarrow> string" where
  "isoformat d = pad_zero 4 (nat_str (year d)) @ ''-'' @ pad_zero 2 (nat_str (month d)) @ ''-'' @
     pad_zero 2 (nat_str (day d))"

text \<open>\<open>digest.hexdigest()\<close> of the digest's bytes.\<close>

definition hex_digit :: "nat \<Rightarrow> char" where
  "hex_digit n = (if n < 10 then char_of (48 + n) else char_of (87 + n))"

definition hexdigest :: "nat list \<Rightarrow> string" where
  "hexdigest bytes = concat (map (\<lambda>b. [hex_digit (b mod 256 div 16), hex_digit (b mod 16)]) bytes)"

subsection \<open>Calendar arithmetic\<close>

text \<open>\<open>date.toordinal()\<close>: days since 31 December of the year 0, and the order of dates.\<close>

definition is_leap :: "nat \<Rightarrow> bool" where
  "is_leap y \<longleftrightarrow> y mod 4 = 0 \<and> (y mod 100 \<noteq> 0 \<or> y mod 400 = 0)"

definition days_before_year :: "nat \<Rightarrow> int" where
  "days_before_year y = (let n = int y - 1 in n * 365 + n div 4 - n div 100 + n div 400)"

definition month_lengths :: "nat \<Rightarrow> nat list" where
  "month_lengths y = [31, if is_leap y then 29 else 28, 31, 30, 31, 30, 31, 31, 30, 31, 30, 31]"

definition toordinal :: "date \<Rightarrow> int" where
  "toordinal d = days_before_year (year d) + int (sum_list (take (month d - 1) (month_lengths (year d)))) + int (day d)"

definition date_before :: "date \<Rightarrow> date \<Rightarrow> bool" where
  "date_before a b \<longleftrightarrow> year a < year b \<or> (year a = year b \<and> (month a < month b \<or> (month a = month b \<and> day a < day b)))"

end
