(* ===== verification/Sql_Text.thy ===== *)
theory Sql_Text
  imports Prelude
begin

text \<open>
  \<open>pipelines/common/clickhouse.py\<close>: the identifiers and literals the platform puts into
  ClickHouse statements. The reader of string literals belongs to ClickHouse and is a parameter; the
  quoting is proved against \<open>reads_literals\<close>, the rules of its documented syntax that the quoting
  meets: an escaped quote or backslash and a doubled quote stand for one character, a character that
  is neither stands for itself, and a quote that no second quote follows ends the literal. What
  other escapes mean (line breaks, hexadecimal codes) is left open.
\<close>

datatype text_error = Not_Qualified | Unsafe_Identifier

definition safe_identifier_char :: "char \<Rightarrow> bool" where
  "safe_identifier_char c =
     (let n = (of_char c :: nat)
      in (97 \<le> n \<and> n \<le> 122) \<or> (65 \<le> n \<and> n \<le> 90) \<or> (48 \<le> n \<and> n \<le> 57) \<or> n = 95)"

definition validate_clickhouse_identifier :: "string \<Rightarrow> text_error + unit" where
  "validate_clickhouse_identifier identifier =
     (if identifier = [] \<or> list_ex (\<lambda>c. \<not> safe_identifier_char c) identifier
      then Inl Unsafe_Identifier else Inr ())"

definition split_table_name :: "string \<Rightarrow> text_error + string \<times> string" where
  "split_table_name table_name =
     (case split_on (CHR ''.'') table_name of
        [database, table] \<Rightarrow>
          (case validate_clickhouse_identifier database of
             Inl e \<Rightarrow> Inl e
           | Inr _ \<Rightarrow>
               (case validate_clickhouse_identifier table of
                  Inl e \<Rightarrow> Inl e
                | Inr _ \<Rightarrow> Inr (database, table)))
      | _ \<Rightarrow> Inl Not_Qualified)"

definition validate_qualified_table_name :: "string \<Rightarrow> text_error + string" where
  "validate_qualified_table_name table_name =
     (case split_table_name table_name of Inl e \<Rightarrow> Inl e | Inr _ \<Rightarrow> Inr table_name)"

definition replace_char :: "char \<Rightarrow> string \<Rightarrow> string \<Rightarrow> string" where
  "replace_char old new s = concat (map (\<lambda>c. if c = old then new else [c]) s)"

definition quote_sql_literal :: "string \<Rightarrow> string" where
  "quote_sql_literal value =
     (let escaped = replace_char (CHR 0x27) [CHR 0x5C, CHR 0x27]
                      (replace_char (CHR 0x5C) [CHR 0x5C, CHR 0x5C] value)
      in CHR 0x27 # escaped @ [CHR 0x27])"

definition format_date_literal :: "date \<Rightarrow> string" where
  "format_date_literal value = ''toDate('' @ [CHR 0x27] @ isoformat value @ [CHR 0x27] @ '')''"

subsection \<open>Specification of a quoted literal\<close>

definition reads_literals :: "(string \<Rightarrow> (string \<times> string) option) \<Rightarrow> bool" where
  "reads_literals body \<longleftrightarrow>
     (\<forall>rest. (rest = [] \<or> hd rest \<noteq> CHR 0x27) \<longrightarrow> body (CHR 0x27 # rest) = Some ([], rest)) \<and>
     (\<forall>s. body (CHR 0x27 # CHR 0x27 # s) = map_option (map_prod (Cons (CHR 0x27)) id) (body s)) \<and>
     (\<forall>c s. c \<in> {CHR 0x27, CHR 0x5C} \<longrightarrow> body (CHR 0x5C # c # s) = map_option (map_prod (Cons c) id) (body s)) \<and>
     (\<forall>c s. c \<notin> {CHR 0x27, CHR 0x5C} \<longrightarrow> body (c # s) = map_option (map_prod (Cons c) id) (body s))"

text \<open>A reader that obeys these rules, with the one-letter escapes of the documentation.\<close>

definition named_escape :: "char \<Rightarrow> char" where
  "named_escape c = (case map_of [(CHR ''b'', CHR 0x08), (CHR ''f'', CHR 0x0C), (CHR ''r'', CHR 0x0D), (CHR ''n'', CHR 0x0A),
     (CHR ''t'', CHR 0x09), (CHR ''0'', CHR 0x00), (CHR ''a'', CHR 0x07), (CHR ''v'', CHR 0x0B)] c of None \<Rightarrow> c | Some d \<Rightarrow> d)"

fun literal_body :: "string \<Rightarrow> (string \<times> string) option" where
  "literal_body [] = None"
| "literal_body [c] = (if c = CHR 0x27 then Some ([], []) else None)"
| "literal_body (c # d # s) =
     (if c = CHR 0x27
      then (if d = CHR 0x27 then map_option (map_prod (Cons d) id) (literal_body s) else Some ([], d # s))
      else if c = CHR 0x5C then map_option (map_prod (Cons (named_escape d)) id) (literal_body s)
      else map_option (map_prod (Cons c) id) (literal_body (d # s)))"

lemma literal_body_reads: "reads_literals literal_body"
proof -
  have "literal_body (CHR 0x27 # rest) = Some ([], rest)" if "rest = [] \<or> hd rest \<noteq> CHR 0x27" for rest
    using that by (cases rest) auto
  moreover have "literal_body (c # s) = map_option (map_prod (Cons c) id) (literal_body s)"
    if "c \<notin> {CHR 0x27, CHR 0x5C}" for c s
    using that by (cases s) auto
  ultimately show ?thesis by (auto simp: reads_literals_def named_escape_def)
qed

definition escape_char :: "char \<Rightarrow> string" where
  "escape_char c = (if c = CHR 0x5C \<or> c = CHR 0x27 then [CHR 0x5C, c] else [c])"

lemma quote_by_char: "quote_sql_literal v = CHR 0x27 # concat (map escape_char v) @ [CHR 0x27]"
  by (induction v) (auto simp: quote_sql_literal_def replace_char_def escape_char_def)

lemma reads_escape: "reads_literals body \<Longrightarrow> body (escape_char c @ t) = map_option (map_prod (Cons c) id) (body t)"
  by (simp add: reads_literals_def escape_char_def)

lemma reads_end:
  assumes "reads_literals body" and "rest = [] \<or> hd rest \<noteq> CHR 0x27"
  shows "body (CHR 0x27 # rest) = Some ([], rest)"
  by (rule mp[OF spec[OF conjunct1[OF assms(1)[unfolded reads_literals_def]]] assms(2)])

lemma reads_escaped:
  assumes "reads_literals body" and "rest = [] \<or> hd rest \<noteq> CHR 0x27"
  shows "body (concat (map escape_char v) @ CHR 0x27 # rest) = Some (v, rest)"
  using assms by (induction v) (simp_all add: reads_escape reads_end)

text \<open>
  C1. A value put into a statement with \<open>quote_sql_literal\<close> is read back as exactly that value, and
  the text after the literal stays outside it, by every reader that follows the documented rules: no
  value can end its literal early or run on into the statement. The text after the literal must not
  start with a quote, which the syntax would take as part of the literal; the statements of the
  program go on with a blank, a comma, a parenthesis or nothing.
\<close>

theorem quote_sql_literal_roundtrip:
  assumes "reads_literals body" and "rest = [] \<or> hd rest \<noteq> CHR 0x27"
  shows "\<exists>text. quote_sql_literal value = CHR 0x27 # text \<and> body (text @ rest) = Some (value, rest)"
  using reads_escaped[OF assms] by (simp add: quote_by_char)

lemma quote_sql_literal_roundtrip_witness:
  "literal_body (tl (quote_sql_literal [CHR 0x27, CHR ''n'', CHR 0x5C]) @ '' OR 1'') = Some ([CHR 0x27, CHR ''n'', CHR 0x5C], '' OR 1'')"
  using quote_sql_literal_roundtrip[OF literal_body_reads, of "'' OR 1''" "[CHR 0x27, CHR ''n'', CHR 0x5C]"] by auto

subsection \<open>Qualified names\<close>

lemma validate_ok_iff:
  "validate_clickhouse_identifier w = Inr u \<longleftrightarrow> w \<noteq> [] \<and> (\<forall>c \<in> set w. safe_identifier_char c)"
  by (auto simp: validate_clickhouse_identifier_def list_ex_iff)

lemma split_on_two: "split_on sep s = [a, b] \<Longrightarrow> s = a @ sep # b"
proof (induction s arbitrary: a)
  case (Cons c s)
  have one: "split_on sep t = [w] \<Longrightarrow> t = w" for t w
    by (induction t arbitrary: w) (auto split: if_splits list.splits simp: split_on_nonempty)
  from Cons show ?case
    by (auto split: if_splits list.splits simp: split_on_nonempty dest: one)
qed simp

lemma split_table_name_ok:
  assumes "split_table_name t = Inr (d, n)"
  shows "t = d @ CHR ''.'' # n" and "d \<noteq> []" and "n \<noteq> []"
    and "\<forall>c \<in> set (d @ n). safe_identifier_char c"
  using assms
  by (auto simp: split_table_name_def validate_ok_iff split: list.splits sum.splits dest!: split_on_two)

end
