(* ===== verification/Publication.thy ===== *)
theory Publication
  imports Sql_Text
begin

text \<open>
  \<open>pipelines/common/publication.py\<close>: replacing one date partition of a live table, under a
  dataset/date lock and a durable journal.

  State (\<open>pstate\<close>): the PostgreSQL tables \<open>partition_revisions\<close> and
  \<open>partition_publications\<close> (lists of rows), the advisory locks held, the fields of the
  \<open>PublicationLock\<close> object that change (\<open>active\<close>, \<open>owned_revisions\<close>), the ClickHouse server
  (an arbitrary type \<open>'w\<close>) and a fault schedule: every PostgreSQL transaction takes the next
  entry and succeeds, fails before its commit, or commits and loses the acknowledgement.

  ClickHouse is not code of the repository. It is the parameter \<open>cl\<close>, a record of the queries
  and the one command function the module calls; each may fail or be interrupted at any call,
  and a failing command may have changed the server in any way. SHA-256 is the parameter
  \<open>sha\<close>, and \<open>uuid4()\<close> an argument. A fingerprint is the triple of numbers that the code
  writes as a compact JSON list.

  Lemmas: the journal follows the publication life cycle whatever the servers do, an unresolved
  row keeps every later writer out, a definite failure has not touched the live table, and a
  successful publication moves the revision by one and leaves the staged content live.
\<close>

section \<open>Data\<close>

datatype pub_status =
  Prepared | Publishing | Published | Status_Unknown | Compensating | Compensated | Aborted

datatype conflict =
    Lock_Inactive | Revision_Missing | Revision_Changed | Not_This_Execution | Not_Retryable
  | Revision_Changed_In_Finish | Journal_Changed | Lock_Busy
  | Missing_Table | Unsupported_Engine | No_Date_Column | No_Ddl | No_Fingerprint
  | Rows_Outside_Date | Clone_Differs | Stage_Not_Bound | Stage_Structure | Empty_Rejected
  | Backup_Mismatch | Live_Changed_In_Backup | Prepared_Not_Owned | Ddl_Changed | Stage_Changed
  | Backup_Changed | Unowned_Revision | Live_Changed | Empty_Without_Intent
  | Not_Preapproved | Live_Changed_Compensation | Group_Precondition

datatype unknown_reason =
    Unresolved_Publication | No_Longer_Prepared | Published_Mismatch | Publish_Unreconciled
  | Compensation_Not_Published | Compensation_Mismatch | Compensation_Unreconciled
  | Group_Unresolved

datatype value_reason =
    Unsupported_Dataset | Unbounded_Execution | Not_Allowlisted | Bad_Table_Name
  | Not_Scratch_Database | Unsupported_Scratch | Unsafe_Columns | Unsupported_Intent | Bad_Group

datatype pub_exn =
    Publication_Conflict conflict
  | Publication_Unknown unknown_reason
  | Value_Error value_reason
  | Pg_Error
  | Ch_Error
  | Interrupt

text \<open>\<open>Interrupt\<close> is a \<open>BaseException\<close> that \<open>except Exception\<close> does not catch.\<close>

definition is_exception :: "pub_exn \<Rightarrow> bool" where
  "is_exception e \<longleftrightarrow> e \<noteq> Interrupt"

definition is_unknown :: "pub_exn \<Rightarrow> bool" where
  "is_unknown e \<longleftrightarrow> (case e of Publication_Unknown _ \<Rightarrow> True | _ \<Rightarrow> False)"

record preconditions =
  pc_revision :: int
  pc_watermark :: string

record system_table =
  tb_engine :: string
  tb_engine_full :: string
  tb_partition_key :: string
  tb_sorting_key :: string
  tb_primary_key :: string
  tb_sampling_key :: string
  tb_storage_policy :: string
  tb_create_query :: string

type_synonym column_row = "string \<times> string \<times> string \<times> string \<times> string"

record table_shape =
  st_properties :: "string list"
  st_columns :: "column_row list"
  st_ddl_body :: string

type_synonym fingerprint = "int \<times> int \<times> int"

record prepared =
  pp_publication_id :: string
  pp_execution_id :: string
  pp_target_table :: string
  pp_stage_table :: string
  pp_backup_table :: string
  pp_partition_dt :: date
  pp_preconditions :: preconditions
  pp_before_fingerprint :: fingerprint
  pp_staged_fingerprint :: fingerprint
  pp_structure :: table_shape
  pp_rows :: int
  pp_intent :: string

record revision_row =
  rv_dataset :: string
  rv_dt :: date
  rv_revision :: int
  rv_watermark :: string

record journal_row =
  pj_publication_id :: string
  pj_execution_id :: string
  pj_dataset :: string
  pj_dt :: date
  pj_target :: string
  pj_stage :: string
  pj_backup :: string
  pj_expected :: preconditions
  pj_before :: fingerprint
  pj_staged :: fingerprint
  pj_status :: pub_status
  pj_intent :: string
  pj_structure_hash :: string
  pj_rows :: int

record tables =
  revisions :: "revision_row list"
  journal :: "journal_row list"
  held_elsewhere :: "int list"
  held_here :: "int list"

datatype pg_fault = Pg_Ok | Pg_Fails | Pg_Ack_Lost

record 'w pstate =
  world :: 'w
  pg :: tables
  faults :: "pg_fault list"
  active :: bool
  owned :: "preconditions set"

text \<open>The fields of \<open>PublicationLock\<close> that never change.\<close>

record lock_id =
  lk_dataset :: string
  lk_dt :: date
  lk_execution :: string

datatype ch_failure = Server_Error | Interrupted

datatype ch_command =
    Create_Database string
  | Create_Table_As string string
  | Insert_Select string "string list" string date
  | Replace_Partition string date string
  | Drop_Partition string date

record 'w client =
  query_tables :: "'w \<Rightarrow> string \<Rightarrow> string \<Rightarrow> ch_failure + system_table list"
  query_columns :: "'w \<Rightarrow> string \<Rightarrow> string \<Rightarrow> ch_failure + column_row list"
  query_fingerprint :: "'w \<Rightarrow> string \<Rightarrow> date \<Rightarrow> ch_failure + (int option \<times> int option \<times> int option) list"
  query_outside :: "'w \<Rightarrow> string \<Rightarrow> date \<Rightarrow> ch_failure + int list"
  run_command :: "ch_command \<Rightarrow> 'w \<Rightarrow> (ch_failure + unit) \<times> 'w"

definition of_failure :: "ch_failure \<Rightarrow> pub_exn" where
  "of_failure f = (case f of Server_Error \<Rightarrow> Ch_Error | Interrupted \<Rightarrow> Interrupt)"

definition command :: "'w client \<Rightarrow> ch_command \<Rightarrow> ('w pstate, pub_exn, unit) prog" where
  "command cl c = (\<lambda>s. case run_command cl c (world s) of
      (Inl f, w) \<Rightarrow> (Inl (of_failure f), s\<lparr>world := w\<rparr>)
    | (Inr _, w) \<Rightarrow> (Inr (), s\<lparr>world := w\<rparr>))"

section \<open>Names and constants\<close>

definition LIVE_TABLES :: "string list" where
  "LIVE_TABLES = [''dq.raw_orders'', ''dq.stg_orders'', ''dq.fct_orders_daily'']"

definition UNRESOLVED :: "pub_status list" where
  "UNRESOLVED = [Prepared, Publishing, Status_Unknown, Compensating]"

definition INTENTS :: "string list" where
  "INTENTS = [''daily'', ''recovery'', ''simulation_empty'']"

text \<open>\<open>int.from_bytes(digest[:8], 'big', signed=True)\<close>; \<open>sha\<close> gives the digest's bytes.\<close>

definition signed_be :: "nat list \<Rightarrow> int" where
  "signed_be bytes =
     (let u = foldl (\<lambda>acc b. acc * 256 + int (b mod 256)) 0 bytes;
          bits = 8 * length bytes
      in if u \<ge> 2 ^ (bits - 1) then u - 2 ^ bits else u)"

definition advisory_lock_key :: "(string \<Rightarrow> nat list) \<Rightarrow> string \<Rightarrow> date \<Rightarrow> pub_exn + int" where
  "advisory_lock_key sha dataset partition_dt =
     (if dataset \<noteq> ''orders'' then Inl (Value_Error Unsupported_Dataset)
      else Inr (signed_be (take 8 (sha (''datasentry:publication:'' @ dataset @ '':'' @ isoformat partition_dt)))))"

definition scratch_database :: "(string \<Rightarrow> nat list) \<Rightarrow> string \<Rightarrow> date \<Rightarrow> string" where
  "scratch_database sha execution_id partition_dt =
     ''dq_pub_'' @ take 24 (hexdigest (sha (execution_id @ '':'' @ isoformat partition_dt)))"

definition is_qualified :: "string \<Rightarrow> pub_exn + string" where
  "is_qualified table =
     (case split_table_name table of Inl _ \<Rightarrow> Inl (Value_Error Bad_Table_Name) | Inr _ \<Rightarrow> Inr table)"

definition live :: "string \<Rightarrow> pub_exn + string" where
  "live table = (if table \<in> set LIVE_TABLES then Inr table else Inl (Value_Error Not_Allowlisted))"

section \<open>The locked PostgreSQL session\<close>

definition next_fault :: "'w pstate \<Rightarrow> pg_fault" where
  "next_fault s = (case faults s of [] \<Rightarrow> Pg_Ok | f # _ \<Rightarrow> f)"

definition transaction :: "(tables \<Rightarrow> pub_exn + ('a \<times> tables)) \<Rightarrow> ('w pstate, pub_exn, 'a) prog" where
  "transaction stmt = (\<lambda>s.
     let s' = s\<lparr>faults := tl (faults s)\<rparr>
     in case next_fault s of
          Pg_Fails \<Rightarrow> (Inl Pg_Error, s')
        | Pg_Ok \<Rightarrow> (case stmt (pg s) of
              Inl e \<Rightarrow> (Inl e, s')
            | Inr (x, t) \<Rightarrow> (Inr x, s'\<lparr>pg := t\<rparr>))
        | Pg_Ack_Lost \<Rightarrow> (case stmt (pg s) of
              Inl e \<Rightarrow> (Inl e, s')
            | Inr (x, t) \<Rightarrow> (Inl Pg_Error, s'\<lparr>pg := t\<rparr>)))"

definition sql :: "(tables \<Rightarrow> pub_exn + ('a \<times> tables)) \<Rightarrow> ('w pstate, pub_exn, 'a) prog" where
  "sql stmt =
     bnd (gets active) (\<lambda>a. bnd (require a (Publication_Conflict Lock_Inactive)) (\<lambda>_. transaction stmt))"

definition revision_at :: "lock_id \<Rightarrow> revision_row \<Rightarrow> bool" where
  "revision_at lk r \<longleftrightarrow> rv_dataset r = lk_dataset lk \<and> rv_dt r = lk_dt lk"

definition row_preconditions :: "revision_row \<Rightarrow> preconditions" where
  "row_preconditions r = \<lparr>pc_revision = rv_revision r, pc_watermark = rv_watermark r\<rparr>"

definition state :: "lock_id \<Rightarrow> ('w pstate, pub_exn, preconditions) prog" where
  "state lk =
     bnd (sql (\<lambda>t. Inr (find (revision_at lk) (revisions t), t))) (\<lambda>row.
       case row of
         None \<Rightarrow> throw (Publication_Conflict Revision_Missing)
       | Some r \<Rightarrow> ret (row_preconditions r))"

definition require_state :: "lock_id \<Rightarrow> preconditions \<Rightarrow> ('w pstate, pub_exn, unit) prog" where
  "require_state lk expected =
     bnd (state lk) (\<lambda>current. require (current = expected) (Publication_Conflict Revision_Changed))"

definition journal_status :: "lock_id \<Rightarrow> string \<Rightarrow> ('w pstate, pub_exn, pub_status) prog" where
  "journal_status lk publication_id =
     bnd (sql (\<lambda>t. Inr (find (\<lambda>r. pj_publication_id r = publication_id \<and> pj_execution_id r = lk_execution lk \<and>
                         pj_dataset r = lk_dataset lk \<and> pj_dt r = lk_dt lk) (journal t), t))) (\<lambda>row.
       case row of
         None \<Rightarrow> throw (Publication_Conflict Not_This_Execution)
       | Some r \<Rightarrow> ret (pj_status r))"

definition in_status :: "lock_id \<Rightarrow> string \<Rightarrow> pub_status \<Rightarrow> journal_row \<Rightarrow> bool" where
  "in_status lk publication_id status r \<longleftrightarrow>
     pj_publication_id r = publication_id \<and> pj_execution_id r = lk_execution lk \<and> pj_status r = status"

definition transition ::
    "lock_id \<Rightarrow> string \<Rightarrow> pub_status \<Rightarrow> pub_status \<Rightarrow> ('w pstate, pub_exn, unit) prog" where
  "transition lk publication_id before after =
     bnd (sql (\<lambda>t. let hit = in_status lk publication_id before
                   in Inr (sql_any hit (journal t),
                           t\<lparr>journal := sql_update hit (\<lambda>r. r\<lparr>pj_status := after\<rparr>) (journal t)\<rparr>)))
       (\<lambda>row. require row (Publication_Conflict Not_Retryable))"

definition finish_statement ::
    "lock_id \<Rightarrow> prepared \<Rightarrow> preconditions \<Rightarrow> bool \<Rightarrow> tables \<Rightarrow> pub_exn + (preconditions \<times> tables)" where
  "finish_statement lk prepared expected compensation t =
     (let status = (if compensation then Compensated else Published);
          inflight = (if compensation then Compensating else Publishing);
          mark = pp_publication_id prepared @ (if compensation then '':compensated'' else '':published'');
          at = (\<lambda>r. revision_at lk r \<and> rv_revision r = pc_revision expected \<and> rv_watermark r = pc_watermark expected);
          hit = in_status lk (pp_publication_id prepared) inflight
      in if \<not> sql_any at (revisions t) then Inl (Publication_Conflict Revision_Changed_In_Finish)
         else if \<not> sql_any hit (journal t) then Inl (Publication_Conflict Journal_Changed)
         else Inr (\<lparr>pc_revision = pc_revision expected + 1, pc_watermark = mark\<rparr>,
                   t\<lparr>revisions := sql_update at (\<lambda>r. r\<lparr>rv_revision := rv_revision r + 1, rv_watermark := mark\<rparr>) (revisions t),
                     journal := sql_update hit (\<lambda>r. r\<lparr>pj_status := status\<rparr>) (journal t)\<rparr>))"

definition finish ::
    "lock_id \<Rightarrow> prepared \<Rightarrow> preconditions \<Rightarrow> bool \<Rightarrow> ('w pstate, pub_exn, preconditions) prog" where
  "finish lk prepared expected compensation =
     bnd (gets active) (\<lambda>a. bnd (require a Pg_Error) (\<lambda>_.
     bnd (transaction (finish_statement lk prepared expected compensation)) (\<lambda>result.
     bnd (modify (\<lambda>s. s\<lparr>owned := insert result (owned s)\<rparr>)) (\<lambda>_.
     ret result))))"

text \<open>
  \<open>PostgresPublicationStore.lock\<close> with its \<open>with\<close> body. \<open>finally\<close> closes the connection, which
  gives up the session's advisory locks.
\<close>

definition lock_acquire :: "int \<Rightarrow> ('w pstate, pub_exn, unit) prog" where
  "lock_acquire key =
     bnd (sql (\<lambda>t. let free = (key \<notin> set (held_elsewhere t))
                   in Inr (free, if free then t\<lparr>held_here := key # held_here t\<rparr> else t)))
       (\<lambda>row. require row (Publication_Conflict Lock_Busy))"

definition ensure_revision_row :: "lock_id \<Rightarrow> ('w pstate, pub_exn, unit) prog" where
  "ensure_revision_row lk =
     sql (\<lambda>t. Inr ((), if sql_any (revision_at lk) (revisions t) then t
        else t\<lparr>revisions := revisions t @
           [\<lparr>rv_dataset = lk_dataset lk, rv_dt = lk_dt lk, rv_revision = 0, rv_watermark = []\<rparr>]\<rparr>))"

definition unresolved_at :: "lock_id \<Rightarrow> journal_row \<Rightarrow> bool" where
  "unresolved_at lk r \<longleftrightarrow> pj_dataset r = lk_dataset lk \<and> pj_dt r = lk_dt lk \<and> pj_status r \<in> set UNRESOLVED"

definition reject_unresolved :: "lock_id \<Rightarrow> ('w pstate, pub_exn, unit) prog" where
  "reject_unresolved lk =
     bnd (sql (\<lambda>t. Inr (sql_any (unresolved_at lk) (journal t), t)))
       (\<lambda>pending. require (\<not> pending) (Publication_Unknown Unresolved_Publication))"

definition abort_prepared :: "lock_id \<Rightarrow> ('w pstate, pub_exn, unit) prog" where
  "abort_prepared lk =
     sql (\<lambda>t. Inr ((), t\<lparr>journal := sql_update
        (\<lambda>r. pj_execution_id r = lk_execution lk \<and> pj_dataset r = lk_dataset lk \<and> pj_dt r = lk_dt lk \<and>
             pj_status r = Prepared) (\<lambda>r. r\<lparr>pj_status := Aborted\<rparr>) (journal t)\<rparr>))"

definition lock_body :: "lock_id \<Rightarrow> int \<Rightarrow> ('w pstate, pub_exn, 'a) prog \<Rightarrow> ('w pstate, pub_exn, 'a) prog" where
  "lock_body lk key body =
     bnd (lock_acquire key) (\<lambda>_.
     bnd (ensure_revision_row lk) (\<lambda>_.
     bnd (reject_unresolved lk) (\<lambda>_.
     bnd (state lk) (\<lambda>current.
     bnd (modify (\<lambda>s. s\<lparr>owned := insert current (owned s)\<rparr>)) (\<lambda>_.
     handle body (\<lambda>e.
       if is_unknown e \<or> \<not> is_exception e then throw e
       else bnd (abort_prepared lk) (\<lambda>_. throw e)))))))"

definition close_connection :: "'w pstate \<Rightarrow> 'w pstate" where
  "close_connection s = s\<lparr>active := False, pg := (pg s)\<lparr>held_here := []\<rparr>\<rparr>"

definition publication_lock ::
    "(string \<Rightarrow> nat list) \<Rightarrow> lock_id \<Rightarrow> ('w pstate, pub_exn, 'a) prog \<Rightarrow> ('w pstate, pub_exn, 'a) prog" where
  "publication_lock sha lk body =
     bnd (lift (\<lambda>_. advisory_lock_key sha (lk_dataset lk) (lk_dt lk))) (\<lambda>key.
     bnd (require (lk_execution lk \<noteq> [] \<and> length (lk_execution lk) \<le> 1000) (Value_Error Unbounded_Execution)) (\<lambda>_.
     bnd (transaction (\<lambda>t. Inr ((), t))) (\<lambda>_.
     bnd (modify (\<lambda>s. s\<lparr>active := True, owned := {}\<rparr>)) (\<lambda>_ s.
       case lock_body lk key body s of (r, t) \<Rightarrow> (r, close_connection t)))))"

section \<open>ClickHouse inspection\<close>

definition from_ch :: "ch_failure + 'a \<Rightarrow> pub_exn + 'a" where
  "from_ch r = (case r of Inl f \<Rightarrow> Inl (of_failure f) | Inr x \<Rightarrow> Inr x)"

definition table_structure :: "'w client \<Rightarrow> string \<Rightarrow> 'w \<Rightarrow> pub_exn + table_shape" where
  "table_structure cl table w =
     (case split_table_name table of
        Inl _ \<Rightarrow> Inl (Value_Error Bad_Table_Name)
      | Inr (database, name) \<Rightarrow>
     (case from_ch (query_tables cl w database name) of
        Inl e \<Rightarrow> Inl e
      | Inr [row] \<Rightarrow>
          (if tb_engine row \<notin> {''MergeTree'', ''ReplacingMergeTree''} \<or>
              replace_char (CHR 0x60) [] (tb_partition_key row) \<noteq> ''dt''
           then Inl (Publication_Conflict Unsupported_Engine)
           else case from_ch (query_columns cl w database name) of
             Inl e \<Rightarrow> Inl e
           | Inr columns \<Rightarrow>
               (case columns of
                  (n, ty, _) # _ \<Rightarrow>
                    if n \<noteq> ''dt'' \<or> ty \<noteq> ''Date'' then Inl (Publication_Conflict No_Date_Column)
                    else if CHR ''('' \<notin> set (tb_create_query row) then Inl (Publication_Conflict No_Ddl)
                    else Inr \<lparr>st_properties = [tb_engine row, tb_engine_full row, tb_partition_key row,
                                tb_sorting_key row, tb_primary_key row, tb_sampling_key row, tb_storage_policy row],
                              st_columns = columns,
                              st_ddl_body = strip (dropWhile (\<lambda>c. c \<noteq> CHR ''('') (tb_create_query row))\<rparr>
                | [] \<Rightarrow> Inl (Publication_Conflict No_Date_Column)))
      | Inr _ \<Rightarrow> Inl (Publication_Conflict Missing_Table)))"

definition partition_fingerprint :: "'w client \<Rightarrow> string \<Rightarrow> date \<Rightarrow> 'w \<Rightarrow> pub_exn + fingerprint" where
  "partition_fingerprint cl table partition_dt w =
     (case is_qualified table of
        Inl e \<Rightarrow> Inl e
      | Inr _ \<Rightarrow>
     (case from_ch (query_fingerprint cl w table partition_dt) of
        Inl e \<Rightarrow> Inl e
      | Inr [(c, x, h)] \<Rightarrow>
          Inr (case c of None \<Rightarrow> 0 | Some v \<Rightarrow> v, case x of None \<Rightarrow> 0 | Some v \<Rightarrow> v, case h of None \<Rightarrow> 0 | Some v \<Rightarrow> v)
      | Inr _ \<Rightarrow> Inl (Publication_Conflict No_Fingerprint)))"

definition row_count :: "fingerprint \<Rightarrow> int" where
  "row_count = fst"

definition validate_partition_scope :: "'w client \<Rightarrow> string \<Rightarrow> date \<Rightarrow> 'w \<Rightarrow> pub_exn + unit" where
  "validate_partition_scope cl table partition_dt w =
     (case is_qualified table of
        Inl e \<Rightarrow> Inl e
      | Inr _ \<Rightarrow>
     (case from_ch (query_outside cl w table partition_dt) of
        Inl e \<Rightarrow> Inl e
      | Inr rows \<Rightarrow> (case rows of
            [] \<Rightarrow> Inl (Publication_Conflict Rows_Outside_Date)
          | n # _ \<Rightarrow> if n \<noteq> 0 then Inl (Publication_Conflict Rows_Outside_Date) else Inr ())))"

text \<open>Queries read the server of the current state.\<close>

definition ask :: "('w \<Rightarrow> pub_exn + 'a) \<Rightarrow> ('w pstate, pub_exn, 'a) prog" where
  "ask q = lift (\<lambda>s. q (world s))"

definition is_scratch_database :: "string \<Rightarrow> bool" where
  "is_scratch_database database \<longleftrightarrow>
     has_prefix ''dq_pub_'' database \<and> length database = 31 \<and>
     list_all (\<lambda>c. let n = (of_char c :: nat) in (48 \<le> n \<and> n \<le> 57) \<or> (97 \<le> n \<and> n \<le> 102)) (drop 7 database)"

definition SCRATCH_RELATIONS :: "string list" where
  "SCRATCH_RELATIONS = [''raw_orders'', ''stg_orders'', ''fct_orders_daily'', ''raw_orders_backup'',
     ''stg_orders_backup'', ''fct_orders_daily_backup'', ''raw_orders_input'']"

definition clone_live_table :: "'w client \<Rightarrow> string \<Rightarrow> string \<Rightarrow> ('w pstate, pub_exn, table_shape) prog" where
  "clone_live_table cl target_table destination =
     bnd (lift (\<lambda>_. live target_table)) (\<lambda>_.
     (case split_table_name destination of
        Inl _ \<Rightarrow> throw (Value_Error Bad_Table_Name)
      | Inr (database, name) \<Rightarrow>
     bnd (require (is_scratch_database database) (Value_Error Not_Scratch_Database)) (\<lambda>_.
     bnd (require (name \<in> set SCRATCH_RELATIONS) (Value_Error Unsupported_Scratch)) (\<lambda>_.
     bnd (ask (table_structure cl target_table)) (\<lambda>expected.
     bnd (command cl (Create_Database database)) (\<lambda>_.
     bnd (command cl (Create_Table_As destination target_table)) (\<lambda>_.
     bnd (ask (table_structure cl destination)) (\<lambda>found.
     bnd (require (found = expected) (Publication_Conflict Clone_Differs)) (\<lambda>_.
     ret expected)))))))))"

definition is_column_name :: "string \<Rightarrow> bool" where
  "is_column_name w \<longleftrightarrow> w \<noteq> [] \<and> list_all safe_identifier_char w \<and> \<not> (let n = (of_char (hd w) :: nat) in 48 \<le> n \<and> n \<le> 57)"

text \<open>\<open>columns=None\<close> (or an empty list) takes the insertable columns of the destination.\<close>

definition copy_partition ::
    "'w client \<Rightarrow> string \<Rightarrow> string \<Rightarrow> date \<Rightarrow> string list option \<Rightarrow> ('w pstate, pub_exn, unit) prog" where
  "copy_partition cl source destination partition_dt columns =
     bnd (lift (\<lambda>_. is_qualified source)) (\<lambda>_.
     (case split_table_name destination of
        Inl _ \<Rightarrow> throw (Value_Error Bad_Table_Name)
      | Inr (database, _) \<Rightarrow>
     bnd (require (is_scratch_database database) (Value_Error Not_Scratch_Database)) (\<lambda>_.
     bnd (case columns of
            Some (c # cs) \<Rightarrow> ret (c # cs)
          | _ \<Rightarrow> bnd (ask (table_structure cl destination)) (\<lambda>st.
                  ret (map fst (filter (\<lambda>(_, _, k, _). k \<notin> {''MATERIALIZED'', ''ALIAS''}) (st_columns st)))))
       (\<lambda>names.
     bnd (require (names \<noteq> [] \<and> list_all is_column_name names) (Value_Error Unsafe_Columns)) (\<lambda>_.
     command cl (Insert_Select destination names source partition_dt))))))"

section \<open>Preparing, publishing and compensating\<close>

definition insert_journal :: "lock_id \<Rightarrow> journal_row \<Rightarrow> ('w pstate, pub_exn, unit) prog" where
  "insert_journal lk row =
     sql (\<lambda>t. if sql_any (\<lambda>r. pj_publication_id r = pj_publication_id row \<or>
                   (pj_execution_id r = pj_execution_id row \<and> pj_target r = pj_target row \<and> pj_dt r = pj_dt row)) (journal t)
                 \<or> \<not> sql_any (revision_at lk) (revisions t)
              then Inl Pg_Error
              else Inr ((), t\<lparr>journal := journal t @ [row]\<rparr>))"

text \<open>
  \<open>digest\<close> is \<open>Structure.digest\<close>, the SHA-256 of the dataclass's \<open>repr\<close>. The table's primary key,
  its unique key and its foreign key are those of the migration that creates it.
\<close>

definition prepare_partition ::
    "'w client \<Rightarrow> (string \<Rightarrow> nat list) \<Rightarrow> (table_shape \<Rightarrow> string) \<Rightarrow> lock_id \<Rightarrow> string \<Rightarrow> string \<Rightarrow> string \<Rightarrow>
     preconditions option \<Rightarrow> string \<Rightarrow> ('w pstate, pub_exn, prepared) prog" where
  "prepare_partition cl sha digest lk target_table stage_table intent given uuid =
     bnd (lift (\<lambda>_. live target_table)) (\<lambda>_.
     bnd (require (intent \<in> set INTENTS) (Value_Error Unsupported_Intent)) (\<lambda>_.
     bnd (case given of Some p \<Rightarrow> ret p | None \<Rightarrow> state lk) (\<lambda>expected.
     bnd (require_state lk expected) (\<lambda>_.
     let dt = lk_dt lk;
         database = scratch_database sha (lk_execution lk) dt;
         name = last (split_on (CHR ''.'') target_table);
         backup = database @ ''.'' @ name @ ''_backup''
     in
     bnd (require (stage_table = database @ ''.'' @ name) (Publication_Conflict Stage_Not_Bound)) (\<lambda>_.
     bnd (ask (table_structure cl target_table)) (\<lambda>shape.
     bnd (ask (table_structure cl stage_table)) (\<lambda>stage_shape.
     bnd (require (stage_shape = shape) (Publication_Conflict Stage_Structure)) (\<lambda>_.
     bnd (ask (validate_partition_scope cl stage_table dt)) (\<lambda>_.
     bnd (ask (partition_fingerprint cl stage_table dt)) (\<lambda>staged.
     bnd (require (\<not> (row_count staged = 0 \<and> intent \<noteq> ''simulation_empty'')) (Publication_Conflict Empty_Rejected)) (\<lambda>_.
     bnd (ask (partition_fingerprint cl target_table dt)) (\<lambda>before.
     bnd (clone_live_table cl target_table backup) (\<lambda>_.
     bnd (if row_count before \<noteq> 0 then command cl (Replace_Partition backup dt target_table) else ret ()) (\<lambda>_.
     bnd (ask (partition_fingerprint cl backup dt)) (\<lambda>copied.
     bnd (require (copied = before) (Publication_Conflict Backup_Mismatch)) (\<lambda>_.
     bnd (ask (partition_fingerprint cl target_table dt)) (\<lambda>again.
     bnd (require (again = before) (Publication_Conflict Live_Changed_In_Backup)) (\<lambda>_.
     bnd (insert_journal lk \<lparr>pj_publication_id = uuid, pj_execution_id = lk_execution lk,
            pj_dataset = lk_dataset lk, pj_dt = dt, pj_target = target_table, pj_stage = stage_table,
            pj_backup = backup, pj_expected = expected, pj_before = before, pj_staged = staged,
            pj_status = Prepared, pj_intent = intent, pj_structure_hash = digest shape,
            pj_rows = row_count staged\<rparr>) (\<lambda>_.
     ret \<lparr>pp_publication_id = uuid, pp_execution_id = lk_execution lk, pp_target_table = target_table,
          pp_stage_table = stage_table, pp_backup_table = backup, pp_partition_dt = dt,
          pp_preconditions = expected, pp_before_fingerprint = before, pp_staged_fingerprint = staged,
          pp_structure = shape, pp_rows = row_count staged, pp_intent = intent\<rparr>)))))))))))))))))))"

definition check_prepared :: "'w client \<Rightarrow> lock_id \<Rightarrow> prepared \<Rightarrow> ('w pstate, pub_exn, unit) prog" where
  "check_prepared cl lk p =
     bnd (gets owned) (\<lambda>ow.
     bnd (require (pp_execution_id p = lk_execution lk \<and> pp_partition_dt p = lk_dt lk \<and> pp_preconditions p \<in> ow)
            (Publication_Conflict Prepared_Not_Owned)) (\<lambda>_.
     bnd (lift (\<lambda>_. live (pp_target_table p))) (\<lambda>_.
     bnd (for_each (\<lambda>table. bnd (ask (table_structure cl table)) (\<lambda>found.
            require (found = pp_structure p) (Publication_Conflict Ddl_Changed)))
            [pp_target_table p, pp_stage_table p, pp_backup_table p]) (\<lambda>_.
     bnd (ask (validate_partition_scope cl (pp_stage_table p) (pp_partition_dt p))) (\<lambda>_.
     bnd (ask (partition_fingerprint cl (pp_stage_table p) (pp_partition_dt p))) (\<lambda>staged.
     bnd (require (staged = pp_staged_fingerprint p) (Publication_Conflict Stage_Changed)) (\<lambda>_.
     bnd (ask (partition_fingerprint cl (pp_backup_table p) (pp_partition_dt p))) (\<lambda>backup.
     require (backup = pp_before_fingerprint p) (Publication_Conflict Backup_Changed)))))))))"

text \<open>\<open>_mark_unknown\<close> swallows every failure of its own.\<close>

definition mark_unknown :: "lock_id \<Rightarrow> prepared \<Rightarrow> pub_status \<Rightarrow> ('w pstate, pub_exn, unit) prog" where
  "mark_unknown lk p inflight = handle (transition lk (pp_publication_id p) inflight Status_Unknown) (\<lambda>_. ret ())"

record publish_result =
  pr_publication_id :: string
  pr_table :: string
  pr_status :: pub_status
  pr_revision :: int
  pr_watermark :: string
  pr_rows :: int
  pr_backup :: string

definition publish_command :: "prepared \<Rightarrow> ch_command option" where
  "publish_command p =
     (if pp_rows p \<noteq> 0 then Some (Replace_Partition (pp_target_table p) (pp_partition_dt p) (pp_stage_table p))
      else if pp_intent p = ''simulation_empty'' then Some (Drop_Partition (pp_target_table p) (pp_partition_dt p))
      else None)"

text \<open>The \<open>try\<close> block of \<open>publish_partition\<close>.\<close>

definition publish_mutation ::
    "'w client \<Rightarrow> lock_id \<Rightarrow> prepared \<Rightarrow> preconditions \<Rightarrow> ('w pstate, pub_exn, preconditions) prog" where
  "publish_mutation cl lk p current =
     bnd (case publish_command p of
            None \<Rightarrow> throw (Publication_Conflict Empty_Without_Intent)
          | Some c \<Rightarrow> command cl c) (\<lambda>_.
     bnd (ask (partition_fingerprint cl (pp_target_table p) (pp_partition_dt p))) (\<lambda>found.
     bnd (require (found = pp_staged_fingerprint p) (Publication_Unknown Published_Mismatch)) (\<lambda>_.
     finish lk p current False)))"

text \<open>The checks of \<open>publish_partition\<close> before its \<open>try\<close> block, which end with the durable mark.\<close>

definition publish_gate :: "'w client \<Rightarrow> lock_id \<Rightarrow> prepared \<Rightarrow> ('w pstate, pub_exn, preconditions) prog" where
  "publish_gate cl lk p =
     bnd (check_prepared cl lk p) (\<lambda>_.
     bnd (state lk) (\<lambda>current.
     bnd (gets owned) (\<lambda>ow.
     bnd (require (current \<in> ow) (Publication_Conflict Unowned_Revision)) (\<lambda>_.
     bnd (journal_status lk (pp_publication_id p)) (\<lambda>status.
     bnd (require (status = Prepared) (Publication_Unknown No_Longer_Prepared)) (\<lambda>_.
     bnd (ask (partition_fingerprint cl (pp_target_table p) (pp_partition_dt p))) (\<lambda>found.
     bnd (require (found = pp_before_fingerprint p) (Publication_Conflict Live_Changed)) (\<lambda>_.
     bnd (require_state lk current) (\<lambda>_.
     bnd (transition lk (pp_publication_id p) Prepared Publishing) (\<lambda>_.
     ret current))))))))))"

definition publish_partition ::
    "'w client \<Rightarrow> lock_id \<Rightarrow> prepared \<Rightarrow> ('w pstate, pub_exn, publish_result) prog" where
  "publish_partition cl lk p =
     bnd (publish_gate cl lk p) (\<lambda>current.
     bnd (handle (publish_mutation cl lk p current) (\<lambda>_.
            bnd (mark_unknown lk p Publishing) (\<lambda>_. throw (Publication_Unknown Publish_Unreconciled)))) (\<lambda>result.
     ret \<lparr>pr_publication_id = pp_publication_id p, pr_table = pp_target_table p, pr_status = Published,
          pr_revision = pc_revision result, pr_watermark = pc_watermark result, pr_rows = pp_rows p,
          pr_backup = pp_backup_table p\<rparr>))"

definition compensate_command :: "prepared \<Rightarrow> ch_command" where
  "compensate_command p =
     (if row_count (pp_before_fingerprint p) \<noteq> 0
      then Replace_Partition (pp_target_table p) (pp_partition_dt p) (pp_backup_table p)
      else Drop_Partition (pp_target_table p) (pp_partition_dt p))"

definition compensate_mutation ::
    "'w client \<Rightarrow> lock_id \<Rightarrow> prepared \<Rightarrow> preconditions \<Rightarrow> ('w pstate, pub_exn, preconditions) prog" where
  "compensate_mutation cl lk p current =
     bnd (command cl (compensate_command p)) (\<lambda>_.
     bnd (ask (partition_fingerprint cl (pp_target_table p) (pp_partition_dt p))) (\<lambda>found.
     bnd (require (found = pp_before_fingerprint p) (Publication_Unknown Compensation_Mismatch)) (\<lambda>_.
     finish lk p current True)))"

definition compensate_gate ::
    "'w client \<Rightarrow> lock_id \<Rightarrow> prepared \<Rightarrow> bool \<Rightarrow> ('w pstate, pub_exn, preconditions) prog" where
  "compensate_gate cl lk p preapproved =
     bnd (require preapproved (Publication_Conflict Not_Preapproved)) (\<lambda>_.
     bnd (check_prepared cl lk p) (\<lambda>_.
     bnd (state lk) (\<lambda>current.
     bnd (gets owned) (\<lambda>ow.
     bnd (if current \<notin> ow then ret False
          else bnd (journal_status lk (pp_publication_id p)) (\<lambda>status. ret (status = Published))) (\<lambda>known.
     bnd (require known (Publication_Unknown Compensation_Not_Published)) (\<lambda>_.
     bnd (ask (partition_fingerprint cl (pp_target_table p) (pp_partition_dt p))) (\<lambda>found.
     bnd (require (found = pp_staged_fingerprint p) (Publication_Conflict Live_Changed_Compensation)) (\<lambda>_.
     bnd (transition lk (pp_publication_id p) Published Compensating) (\<lambda>_.
     ret current)))))))))"

definition compensate_partition ::
    "'w client \<Rightarrow> lock_id \<Rightarrow> prepared \<Rightarrow> bool \<Rightarrow> ('w pstate, pub_exn, int) prog" where
  "compensate_partition cl lk p preapproved =
     bnd (compensate_gate cl lk p preapproved) (\<lambda>current.
     bnd (handle (compensate_mutation cl lk p current) (\<lambda>_.
            bnd (mark_unknown lk p Compensating) (\<lambda>_. throw (Publication_Unknown Compensation_Unreconciled)))) (\<lambda>result.
     ret (pc_revision result)))"

definition preflight_member :: "'w client \<Rightarrow> lock_id \<Rightarrow> prepared \<Rightarrow> ('w pstate, pub_exn, unit) prog" where
  "preflight_member cl lk p =
     bnd (check_prepared cl lk p) (\<lambda>_.
     bnd (journal_status lk (pp_publication_id p)) (\<lambda>status.
     bnd (require (status = Prepared) (Publication_Unknown Group_Unresolved)) (\<lambda>_.
     bnd (ask (partition_fingerprint cl (pp_target_table p) (pp_partition_dt p))) (\<lambda>found.
     require (found = pp_before_fingerprint p) (Publication_Conflict Group_Precondition)))))"

text \<open>The \<open>except\<close> clauses of \<open>publish_group\<close>, with the completed members at that point.\<close>

definition group_failure ::
    "'w client \<Rightarrow> lock_id \<Rightarrow> bool \<Rightarrow> prepared list \<Rightarrow> pub_exn \<Rightarrow> ('w pstate, pub_exn, 'a) prog" where
  "group_failure cl lk approved completed e =
     (if is_unknown e \<or> \<not> is_exception e then throw e
      else bnd (if approved
                then bnd (for_each (\<lambda>p. compensate_partition cl lk p True) (rev completed)) (\<lambda>_. ret ())
                else ret ()) (\<lambda>_. throw e))"

fun publish_members ::
    "'w client \<Rightarrow> lock_id \<Rightarrow> bool \<Rightarrow> prepared list \<Rightarrow> publish_result list \<Rightarrow> prepared list \<Rightarrow>
     ('w pstate, pub_exn, publish_result list) prog" where
  "publish_members cl lk approved completed results [] = ret results"
| "publish_members cl lk approved completed results (p # ps) =
     bnd (handle (publish_partition cl lk p) (group_failure cl lk approved completed)) (\<lambda>r.
       publish_members cl lk approved (completed @ [p]) (results @ [r]) ps)"

definition publish_group ::
    "'w client \<Rightarrow> lock_id \<Rightarrow> prepared list \<Rightarrow> bool \<Rightarrow> ('w pstate, pub_exn, publish_result list) prog" where
  "publish_group cl lk members approved =
     bnd (require (members \<noteq> [] \<and> distinct (map pp_target_table members)) (Value_Error Bad_Group)) (\<lambda>_.
     bnd (for_each (preflight_member cl lk) members) (\<lambda>_.
     publish_members cl lk approved [] [] members))"

section \<open>What the session operations leave alone\<close>

lemma evolves_modify: "(\<And>s. R s (f s)) \<Longrightarrow> evolves R (modify f)"
  by (simp add: evolves_def)

lemma frames_triple:
  "evolves (frames f) m \<Longrightarrow> triple (\<lambda>s. f s = v) m (\<lambda>_ s. f s = v) (\<lambda>_ s. f s = v)"
  by (fastforce simp: frames_def intro!: tripleI dest: evolvesD)

lemma world_transaction: "evolves (frames world) (transaction stmt)"
  by (rule evolvesI) (auto simp: frames_def transaction_def Let_def split: pg_fault.splits sum.splits prod.splits)

lemma world_sql: "evolves (frames world) (sql stmt)"
  unfolding sql_def by (intro framing.rules world_transaction)

lemma world_modify_owned: "evolves (frames world) (modify (\<lambda>s. s\<lparr>owned := f s\<rparr>))"
  by (rule evolves_modify) (simp add: frames_def)

lemma world_state: "evolves (frames world) (state lk)"
  unfolding state_def by (intro framing.rules world_sql)

lemma world_require_state: "evolves (frames world) (require_state lk p)"
  unfolding require_state_def by (intro framing.rules world_state)

lemma world_journal_status: "evolves (frames world) (journal_status lk pid)"
  unfolding journal_status_def by (intro framing.rules world_sql)

lemma world_transition: "evolves (frames world) (transition lk pid b a)"
  unfolding transition_def by (intro framing.rules world_sql)

lemma world_ask: "evolves (frames world) (ask q)"
  unfolding ask_def by (rule framing.lift)

lemma world_check_prepared: "evolves (frames world) (check_prepared cl lk p)"
  unfolding check_prepared_def by (intro framing.rules world_ask)

lemma world_preflight: "evolves (frames world) (preflight_member cl lk p)"
  unfolding preflight_member_def by (intro framing.rules world_check_prepared world_journal_status world_ask)

lemma world_publish_gate: "evolves (frames world) (publish_gate cl lk p)"
  unfolding publish_gate_def
  by (intro framing.rules world_check_prepared world_state world_journal_status world_ask world_require_state world_transition)

lemma world_compensate_gate: "evolves (frames world) (compensate_gate cl lk p ok)"
  unfolding compensate_gate_def
  by (intro framing.rules world_check_prepared world_state world_journal_status world_ask world_transition)

lemmas world_rules = world_publish_gate world_compensate_gate world_transaction world_sql world_modify_owned world_state world_require_state
  world_journal_status world_transition world_ask world_check_prepared world_preflight

section \<open>The publication life cycle\<close>

inductive pub_edge :: "pub_status \<Rightarrow> pub_status \<Rightarrow> bool" where
  begin_publish: "pub_edge Prepared Publishing"
| abort: "pub_edge Prepared Aborted"
| published: "pub_edge Publishing Published"
| publish_unknown: "pub_edge Publishing Status_Unknown"
| begin_compensate: "pub_edge Published Compensating"
| compensated: "pub_edge Compensating Compensated"
| compensate_unknown: "pub_edge Compensating Status_Unknown"

code_pred pub_edge .

inductive_cases from_terminal:
  "pub_edge Status_Unknown b" "pub_edge Aborted b" "pub_edge Compensated b"

definition row_evolves :: "journal_row \<Rightarrow> journal_row \<Rightarrow> bool" where
  "row_evolves r r' \<longleftrightarrow> r' = r\<lparr>pj_status := pj_status r'\<rparr> \<and> pub_edge\<^sup>*\<^sup>* (pj_status r) (pj_status r')"

text \<open>The rows of \<open>t\<close> are those of \<open>s\<close> and rows inserted as prepared, each moved along the life cycle.\<close>

definition tables_evolve :: "tables \<Rightarrow> tables \<Rightarrow> bool" where
  "tables_evolve s t \<longleftrightarrow>
     (\<exists>new. (\<forall>r \<in> set new. pj_status r = Prepared) \<and> list_all2 row_evolves (journal s @ new) (journal t))"

definition journal_evolves :: "'w pstate \<Rightarrow> 'w pstate \<Rightarrow> bool" where
  "journal_evolves s t \<longleftrightarrow> tables_evolve (pg s) (pg t)"

lemma row_evolves_refl [simp]: "row_evolves r r"
  by (simp add: row_evolves_def)

lemma row_evolves_trans: "row_evolves a b \<Longrightarrow> row_evolves b c \<Longrightarrow> row_evolves a c"
  unfolding row_evolves_def by (metis journal_row.surjective journal_row.update_convs(11) rtranclp_trans)

lemma list_all2_row_refl [simp]: "list_all2 row_evolves rs rs"
  by (simp add: list_all2_refl)

lemma tables_evolve_same: "journal t = journal s \<Longrightarrow> tables_evolve s t"
  unfolding tables_evolve_def by (rule exI[of _ "[]"]) simp

lemma tables_evolve_trans: "tables_evolve a b \<Longrightarrow> tables_evolve b c \<Longrightarrow> tables_evolve a c"
proof -
  assume "tables_evolve a b" and "tables_evolve b c"
  then obtain m n where m: "\<forall>r \<in> set m. pj_status r = Prepared"
      and ab: "list_all2 row_evolves (journal a @ m) (journal b)"
      and n: "\<forall>r \<in> set n. pj_status r = Prepared"
      and bc: "list_all2 row_evolves (journal b @ n) (journal c)"
    by (auto simp: tables_evolve_def)
  have "list_all2 row_evolves ((journal a @ m) @ n) (journal b @ n)"
    using ab by (intro list_all2_appendI) simp_all
  then have "list_all2 row_evolves ((journal a @ m) @ n) (journal c)"
    using bc list_all2_trans[of row_evolves row_evolves row_evolves] row_evolves_trans by blast
  then show ?thesis
    using m n unfolding tables_evolve_def by (intro exI[of _ "m @ n"]) auto
qed

lemma tables_evolve_update:
  assumes "\<And>r. P r \<Longrightarrow> pub_edge (pj_status r) b"
    and "journal t = sql_update P (\<lambda>r. r\<lparr>pj_status := b\<rparr>) (journal s)"
  shows "tables_evolve s t"
proof -
  have "list_all2 row_evolves (journal s) (journal t)"
    using assms by (auto simp: sql_update_def list_all2_conv_all_nth row_evolves_def)
  then show ?thesis unfolding tables_evolve_def by (intro exI[of _ "[]"]) simp
qed

lemma tables_evolve_insert:
  "pj_status r = Prepared \<Longrightarrow> journal t = journal s @ [r] \<Longrightarrow> tables_evolve s t"
  unfolding tables_evolve_def by (intro exI[of _ "[r]"]) simp

interpretation je: evolution journal_evolves
  by unfold_locales (auto simp: journal_evolves_def intro: tables_evolve_same tables_evolve_trans)

lemma je_pg: "pg t = pg s \<Longrightarrow> journal_evolves s t"
  by (simp add: journal_evolves_def tables_evolve_same)

lemma je_transaction:
  assumes "\<And>t x t'. stmt t = Inr (x, t') \<Longrightarrow> tables_evolve t t'"
  shows "evolves journal_evolves (transaction stmt)"
  by (rule evolvesI)
    (auto simp: journal_evolves_def transaction_def Let_def tables_evolve_same
      split: pg_fault.splits sum.splits prod.splits dest: assms)

lemma je_sql:
  assumes "\<And>t x t'. stmt t = Inr (x, t') \<Longrightarrow> tables_evolve t t'"
  shows "evolves journal_evolves (sql stmt)"
  unfolding sql_def by (intro je.rules je_transaction assms)

lemma je_state: "evolves journal_evolves (state lk)"
  unfolding state_def by (intro je.rules je_sql) (auto intro: tables_evolve_same)

lemma je_require_state: "evolves journal_evolves (require_state lk p)"
  unfolding require_state_def by (intro je.rules je_state)

lemma je_journal_status: "evolves journal_evolves (journal_status lk pid)"
  unfolding journal_status_def by (intro je.rules je_sql) (auto intro: tables_evolve_same)

lemma je_transition: "pub_edge b a \<Longrightarrow> evolves journal_evolves (transition lk pid b a)"
  unfolding transition_def
  by (intro je.rules je_sql)
    (auto simp: Let_def in_status_def intro!: tables_evolve_update[where P = "in_status lk pid b"])

lemma je_command: "evolves journal_evolves (command cl c)"
  by (rule evolvesI) (auto simp: command_def intro!: je_pg split: prod.splits sum.splits)

lemma je_ask: "evolves journal_evolves (ask q)"
  unfolding ask_def by (rule je.lift)

lemma je_modify_owned: "evolves journal_evolves (modify (\<lambda>s. s\<lparr>owned := f s\<rparr>))"
  by (rule evolves_modify) (simp add: je_pg)

lemma je_finish: "evolves journal_evolves (finish lk p c undo)"
proof -
  have "tables_evolve t u" if "finish_statement lk p c undo t = Inr (x, u)" for t x u
    using that
    by (auto simp: finish_statement_def Let_def in_status_def split: if_splits intro: pub_edge.intros
        intro!: tables_evolve_update[where P = "in_status lk (pp_publication_id p) (if undo then Compensating else Publishing)"
          and b = "if undo then Compensated else Published"])
  then show ?thesis
    unfolding finish_def by (intro je.rules je_transaction je_modify_owned)
qed

lemmas je_session = je_state je_require_state je_journal_status je_command je_ask je_modify_owned je_finish

lemma je_abort_prepared: "evolves journal_evolves (abort_prepared lk)"
  unfolding abort_prepared_def
  by (intro je_sql) (auto intro: pub_edge.intros intro!: tables_evolve_update[where b = Aborted
      and P = "\<lambda>r. pj_execution_id r = lk_execution lk \<and> pj_dataset r = lk_dataset lk \<and> pj_dt r = lk_dt lk \<and>
             pj_status r = Prepared"])

lemma je_insert_journal: "pj_status row = Prepared \<Longrightarrow> evolves journal_evolves (insert_journal lk row)"
  unfolding insert_journal_def by (intro je_sql) (auto split: if_splits intro: tables_evolve_insert)

lemma je_mark_unknown: "pub_edge b Status_Unknown \<Longrightarrow> evolves journal_evolves (mark_unknown lk p b)"
  unfolding mark_unknown_def by (intro je.rules je_transition)

lemma je_check_prepared: "evolves journal_evolves (check_prepared cl lk p)"
  unfolding check_prepared_def by (intro je.rules je_session)

lemma je_publish_mutation: "evolves journal_evolves (publish_mutation cl lk p c)"
  unfolding publish_mutation_def by (intro je.rules je_session)

lemma je_publish_partition: "evolves journal_evolves (publish_partition cl lk p)"
  unfolding publish_partition_def publish_gate_def
  by (intro je.rules je_session je_check_prepared je_transition je_mark_unknown je_publish_mutation pub_edge.intros)

lemma je_compensate_partition: "evolves journal_evolves (compensate_partition cl lk p ok)"
  unfolding compensate_partition_def compensate_gate_def compensate_mutation_def
  by (intro je.rules je_session je_check_prepared je_transition je_mark_unknown pub_edge.intros)

lemma je_group_failure: "evolves journal_evolves (group_failure cl lk ok cs e)"
  unfolding group_failure_def by (intro je.rules je_compensate_partition)

lemma je_publish_members: "evolves journal_evolves (publish_members cl lk ok cs rs ps)"
proof (induction cl lk ok cs rs ps rule: publish_members.induct)
  case 1
  show ?case unfolding publish_members.simps by (rule je.ret)
next
  case 2
  then show ?case
    unfolding publish_members.simps by (intro je.rules je_publish_partition je_group_failure)
qed

lemma je_preflight: "evolves journal_evolves (preflight_member cl lk p)"
  unfolding preflight_member_def by (intro je.rules je_session je_check_prepared)

lemma je_publish_group: "evolves journal_evolves (publish_group cl lk ps ok)"
  unfolding publish_group_def by (intro je.rules je_preflight je_publish_members)

lemma je_clone: "evolves journal_evolves (clone_live_table cl a b)"
  unfolding clone_live_table_def
  by (intro je.rules je_session) (auto split: sum.splits prod.splits intro!: je.rules je_session)

lemma je_prepare_partition: "evolves journal_evolves (prepare_partition cl sha dg lk a b i g u)"
  unfolding prepare_partition_def Let_def
  by (intro je.rules je_session je_clone je_insert_journal) simp

lemma je_publication_lock:
  assumes "evolves journal_evolves body"
  shows "evolves journal_evolves (publication_lock sha lk body)"
proof -
  have acquire: "evolves journal_evolves (lock_acquire k)" for k :: int
    unfolding lock_acquire_def by (intro je.rules je_sql) (auto simp: Let_def intro!: tables_evolve_same split: if_splits)
  have ensure: "evolves journal_evolves (ensure_revision_row lk)"
    unfolding ensure_revision_row_def by (intro je.rules je_sql) (auto intro!: tables_evolve_same)
  have reject: "evolves journal_evolves (reject_unresolved lk)"
    unfolding reject_unresolved_def by (intro je.rules je_sql) (auto intro!: tables_evolve_same)
  have body: "evolves journal_evolves (lock_body lk k body)" for k
    unfolding lock_body_def
    by (intro je.rules acquire ensure reject je_state je_modify_owned assms je_abort_prepared)
  have close: "journal_evolves t (close_connection t)" for t :: "'a pstate"
    by (simp add: journal_evolves_def close_connection_def tables_evolve_same)
  have "evolves journal_evolves (\<lambda>s. case lock_body lk k body s of (r, t) \<Rightarrow> (r, close_connection t))" for k
    by (rule evolvesI) (auto split: prod.splits intro: je.trans[OF _ close] dest: evolvesD[OF body])
  then show ?thesis
    unfolding publication_lock_def
    by (intro je.rules je_transaction) (auto intro!: evolves_modify je_pg intro: tables_evolve_same)
qed

lemma terminal_status:
  assumes "pub_edge\<^sup>*\<^sup>* a b" and "a \<in> {Status_Unknown, Aborted, Compensated}"
  shows "b = a"
  using assms by (induction rule: rtranclp_induct) (auto elim: from_terminal)

lemma journal_evolves_row:
  assumes "journal_evolves s t" and "i < length (journal (pg s))"
  shows "i < length (journal (pg t)) \<and> row_evolves (journal (pg s) ! i) (journal (pg t) ! i)"
proof -
  from assms(1) obtain new where "list_all2 row_evolves (journal (pg s) @ new) (journal (pg t))"
    by (auto simp: journal_evolves_def tables_evolve_def)
  then show ?thesis
    using assms(2) by (auto simp: list_all2_conv_all_nth nth_append dest!: spec[of _ i])
qed

subsection \<open>Before the journal says publishing, nothing is mutated\<close>

lemma mark_unknown_total: "\<exists>t. mark_unknown lk p b s = (Inr (), t)"
  by (auto simp: mark_unknown_def handle_def split: prod.splits sum.splits)

lemma unreconciled_end:
  assumes "handle m (\<lambda>_. bnd (mark_unknown lk p b) (\<lambda>_. throw e)) s = (Inl e', t)"
  shows "e' = e"
proof -
  obtain e'' u where u: "m s = (Inl e'', u)"
    using assms by (auto simp: handle_def split: prod.splits sum.splits)
  obtain v where "mark_unknown lk p b u = (Inr (), v)"
    using mark_unknown_total by blast
  with u assms show ?thesis by simp
qed

lemma publish_partition_definite:
  assumes "publish_partition cl lk p s = (Inl e, t)" and "e \<noteq> Publication_Unknown Publish_Unreconciled"
  shows "publish_gate cl lk p s = (Inl e, t)" and "world t = world s"
proof -
  show gate: "publish_gate cl lk p s = (Inl e, t)"
    using assms by (auto simp: publish_partition_def bnd_Inl dest: unreconciled_end)
  then show "world t = world s"
    using evolvesD[OF world_publish_gate] by (fastforce simp: frames_def)
qed

subsection \<open>Status of one publication\<close>

definition status_of :: "tables \<Rightarrow> string \<Rightarrow> pub_status option" where
  "status_of t pid = map_option pj_status (find (\<lambda>r. pj_publication_id r = pid) (journal t))"

definition keys_distinct :: "tables \<Rightarrow> bool" where
  "keys_distinct t \<longleftrightarrow> distinct (map pj_publication_id (journal t))"

lemma status_of_hit:
  assumes "keys_distinct t" and "sql_any (in_status lk pid b) (journal t)"
  shows "\<exists>r. find (\<lambda>r. pj_publication_id r = pid) (journal t) = Some r \<and> in_status lk pid b r"
proof -
  obtain r where r: "r \<in> set (journal t)" "in_status lk pid b r"
    using assms(2) by (auto simp: sql_any_iff)
  then have "find (\<lambda>r. pj_publication_id r = pid) (journal t) = Some r"
    using assms(1) by (intro find_distinct_key) (auto simp: keys_distinct_def in_status_def)
  with r show ?thesis by blast
qed

lemma status_of_set:
  "status_of (t\<lparr>journal := sql_update (in_status lk pid b) (\<lambda>r. r\<lparr>pj_status := a\<rparr>) (journal t)\<rparr>) q =
     (case find (\<lambda>r. pj_publication_id r = q) (journal t) of
        None \<Rightarrow> None
      | Some r \<Rightarrow> Some (if in_status lk pid b r then a else pj_status r))"
  by (simp add: status_of_def find_sql_update[where key = pj_publication_id] split: option.splits)

lemma transaction_cases:
  assumes "transaction stmt s = (r, t)"
  shows "world t = world s \<and> active t = active s \<and> owned t = owned s \<and>
     ((\<exists>e. r = Inl e \<and> pg t = pg s) \<or>
      (\<exists>x u. stmt (pg s) = Inr (x, u) \<and> pg t = u \<and> (r = Inr x \<or> r = Inl Pg_Error)))"
  using assms by (auto simp: transaction_def Let_def split: pg_fault.splits sum.splits prod.splits)

lemma sql_cases:
  assumes "sql stmt s = (r, t)"
  shows "world t = world s \<and> active t = active s \<and> owned t = owned s \<and>
     ((\<exists>e. r = Inl e \<and> pg t = pg s) \<or>
      (\<exists>x u. stmt (pg s) = Inr (x, u) \<and> pg t = u \<and> (r = Inr x \<or> r = Inl Pg_Error)))"
proof (cases "active s")
  case True
  then have "transaction stmt s = (r, t)"
    using assms by (simp add: sql_def bnd_def)
  then show ?thesis by (rule transaction_cases)
next
  case False
  then show ?thesis using assms by (auto simp: sql_def bnd_def)
qed

lemma transition_status:
  assumes "transition lk pid b a s = (r, t)" and "keys_distinct (pg s)"
  shows "status_of (pg t) pid \<in> {status_of (pg s) pid, Some a}"
    and "r = Inr () \<Longrightarrow> status_of (pg s) pid = Some b \<and> status_of (pg t) pid = Some a"
    and "keys_distinct (pg t)"
    and "q \<noteq> pid \<Longrightarrow> status_of (pg t) q = status_of (pg s) q"
proof -
  let ?hit = "in_status lk pid b"
  let ?u = "(pg s)\<lparr>journal := sql_update ?hit (\<lambda>r. r\<lparr>pj_status := a\<rparr>) (journal (pg s))\<rparr>"
  have cases: "pg t = pg s \<and> r \<noteq> Inr () \<or> pg t = ?u \<and> (r = Inr () \<longrightarrow> sql_any ?hit (journal (pg s)))"
    using assms(1) unfolding transition_def
    by (auto simp: bnd_def Let_def split: prod.splits sum.splits if_splits dest!: sql_cases)
  have keys: "keys_distinct ?u"
    using assms(2) by (simp add: keys_distinct_def map_sql_update)
  show "keys_distinct (pg t)" using cases keys assms(2) by auto
  show "status_of (pg t) pid \<in> {status_of (pg s) pid, Some a}"
    using cases by (auto simp: status_of_set) (auto simp: status_of_def split: option.splits)
  show "q \<noteq> pid \<Longrightarrow> status_of (pg t) q = status_of (pg s) q"
    using cases by (auto simp: status_of_set) (auto simp: status_of_def in_status_def split: option.splits dest!: find_SomeD)
  assume "r = Inr ()"
  with cases have u: "pg t = ?u" and hit: "sql_any ?hit (journal (pg s))" by auto
  obtain row where "find (\<lambda>r. pj_publication_id r = pid) (journal (pg s)) = Some row" "?hit row"
    using status_of_hit[OF assms(2) hit] by blast
  then show "status_of (pg s) pid = Some b \<and> status_of (pg t) pid = Some a"
    unfolding u status_of_set by (simp add: status_of_def in_status_def)
qed

lemma finish_statement_Inr:
  assumes "finish_statement lk p c undo u = Inr (x, v)"
  defines "hit \<equiv> in_status lk (pp_publication_id p) (if undo then Compensating else Publishing)"
  shows "x = \<lparr>pc_revision = pc_revision c + 1,
            pc_watermark = pp_publication_id p @ (if undo then '':compensated'' else '':published'')\<rparr>"
    and "journal v = sql_update hit (\<lambda>r. r\<lparr>pj_status := if undo then Compensated else Published\<rparr>) (journal u)"
    and "sql_any hit (journal u)"
    and "sql_any (\<lambda>r. revision_at lk r \<and> row_preconditions r = c) (revisions u)"
  using assms
  by (auto simp: finish_statement_def Let_def row_preconditions_def sql_any_iff split: if_splits)

lemma finish_cases:
  assumes "finish lk p c undo s = (r, t)"
  shows "world t = world s \<and>
     ((\<exists>e. r = Inl e \<and> pg t = pg s) \<or>
      (\<exists>x u. finish_statement lk p c undo (pg s) = Inr (x, u) \<and> pg t = u \<and>
        (r = Inl Pg_Error \<or> (r = Inr x \<and> x \<in> owned t))))"
  using assms unfolding finish_def
  by (auto simp: bnd_def split: prod.splits sum.splits if_splits dest!: transaction_cases)

lemma finish_effect:
  assumes fin: "finish lk p c undo s = (r, t)" and keys: "keys_distinct (pg s)"
  defines "final \<equiv> (if undo then Compensated else Published)"
  shows "world t = world s"
    and "status_of (pg t) (pp_publication_id p) \<in> {status_of (pg s) (pp_publication_id p), Some final}"
    and "r = Inr x \<Longrightarrow> x = \<lparr>pc_revision = pc_revision c + 1,
            pc_watermark = pp_publication_id p @ (if undo then '':compensated'' else '':published'')\<rparr> \<and>
          x \<in> owned t \<and> status_of (pg t) (pp_publication_id p) = Some final"
    and "keys_distinct (pg t)"
proof -
  let ?hit = "in_status lk (pp_publication_id p) (if undo then Compensating else Publishing)"
  let ?set = "\<lambda>u. u\<lparr>journal := sql_update ?hit (\<lambda>r. r\<lparr>pj_status := final\<rparr>) (journal u)\<rparr>"
  note cases = finish_cases[OF fin]
  show "world t = world s" using cases by blast
  have set: "status_of v (pp_publication_id p) = Some final \<and> keys_distinct v"
    if "finish_statement lk p c undo (pg s) = Inr (y, v)" for y v
  proof -
    have v: "journal v = journal (?set (pg s))" and any: "sql_any ?hit (journal (pg s))"
      using finish_statement_Inr[OF that] by (simp_all add: final_def)
    obtain row where "find (\<lambda>r. pj_publication_id r = pp_publication_id p) (journal (pg s)) = Some row" "?hit row"
      using status_of_hit[OF keys any] by blast
    then have "status_of (?set (pg s)) (pp_publication_id p) = Some final"
      unfolding status_of_set by simp
    moreover have "keys_distinct (?set (pg s))"
      using keys by (simp add: keys_distinct_def map_sql_update)
    ultimately show ?thesis
      using v by (simp add: status_of_def keys_distinct_def)
  qed
  show "status_of (pg t) (pp_publication_id p) \<in> {status_of (pg s) (pp_publication_id p), Some final}"
    and "keys_distinct (pg t)"
    using cases keys set by auto
  show "r = Inr x \<Longrightarrow> x = \<lparr>pc_revision = pc_revision c + 1,
            pc_watermark = pp_publication_id p @ (if undo then '':compensated'' else '':published'')\<rparr> \<and>
          x \<in> owned t \<and> status_of (pg t) (pp_publication_id p) = Some final"
    using cases set finish_statement_Inr(1) by blast
qed

definition visible :: "'w pstate \<Rightarrow> 'w \<times> tables \<times> bool \<times> preconditions set" where
  "visible s = (world s, pg s, active s, owned s)"

lemma visible_read: "(\<And>t x t'. stmt t = Inr (x, t') \<Longrightarrow> t' = t) \<Longrightarrow> evolves (frames visible) (sql stmt)"
proof (rule evolvesI)
  fix s :: "'b pstate"
  assume read: "\<And>t x t'. stmt t = Inr (x, t') \<Longrightarrow> t' = t"
  show "frames visible s (snd (sql stmt s))"
    using sql_cases[of stmt s "fst (sql stmt s)" "snd (sql stmt s)"] read
    by (auto simp: frames_def visible_def)
qed

lemma visible_state: "evolves (frames visible) (state lk)"
  unfolding state_def by (intro framing.rules visible_read) auto

lemma visible_require_state: "evolves (frames visible) (require_state lk c)"
  unfolding require_state_def by (intro framing.rules visible_state)

lemma visible_journal_status: "evolves (frames visible) (journal_status lk pid)"
  unfolding journal_status_def by (intro framing.rules visible_read) auto

lemma state_Inr:
  "state lk s = (Inr c, t) \<Longrightarrow> visible t = visible s \<and> (\<exists>r \<in> set (revisions (pg s)). revision_at lk r \<and> row_preconditions r = c)"
  by (frule evolvesD[OF visible_state])
    (auto simp: state_def bnd_Inr frames_def visible_def dest!: sql_cases find_SomeD_sym split: option.splits)

lemma journal_status_Inr:
  assumes "journal_status lk pid s = (Inr st, t)" and "keys_distinct (pg s)"
  shows "visible t = visible s" and "status_of (pg s) pid = Some st"
proof -
  show "visible t = visible s"
    using evolvesD[OF visible_journal_status assms(1)] by (simp add: frames_def)
  obtain r where r: "r \<in> set (journal (pg s))" "pj_publication_id r = pid" "pj_status r = st"
    using assms(1)
    by (auto simp: journal_status_def bnd_Inr dest!: sql_cases find_SomeD_sym split: option.splits)
  then have "find (\<lambda>r. pj_publication_id r = pid) (journal (pg s)) = Some r"
    using assms(2) by (intro find_distinct_key) (auto simp: keys_distinct_def)
  with r show "status_of (pg s) pid = Some st" by (simp add: status_of_def)
qed

lemma check_prepared_Inr:
  "check_prepared cl lk p s = (Inr u, t) \<Longrightarrow> t = s \<and> pp_target_table p \<in> set LIVE_TABLES \<and>
     pp_execution_id p = lk_execution lk \<and> pp_partition_dt p = lk_dt lk \<and> pp_preconditions p \<in> owned s \<and>
     partition_fingerprint cl (pp_stage_table p) (pp_partition_dt p) (world s) = Inr (pp_staged_fingerprint p) \<and>
     partition_fingerprint cl (pp_backup_table p) (pp_partition_dt p) (world s) = Inr (pp_before_fingerprint p)"
  by (auto simp: check_prepared_def bnd_Inr ask_def live_def split: if_splits)

lemma publish_gate_effect:
  assumes gate: "publish_gate cl lk p s = (Inr c, u)" and keys: "keys_distinct (pg s)"
  shows "status_of (pg s) (pp_publication_id p) = Some Prepared"
    and "status_of (pg u) (pp_publication_id p) = Some Publishing"
    and "keys_distinct (pg u)" and "world u = world s"
    and "partition_fingerprint cl (pp_target_table p) (pp_partition_dt p) (world s) = Inr (pp_before_fingerprint p)"
    and "partition_fingerprint cl (pp_stage_table p) (pp_partition_dt p) (world s) = Inr (pp_staged_fingerprint p)"
    and "partition_fingerprint cl (pp_backup_table p) (pp_partition_dt p) (world s) = Inr (pp_before_fingerprint p)"
    and "c \<in> owned s" and "owned u = owned s" and "active u = active s"
proof -
  let ?pid = "pp_publication_id p"
  obtain s1 s2 s3 where chk: "check_prepared cl lk p s = (Inr (), s)"
    and st: "state lk s = (Inr c, s1)" and own: "c \<in> owned s1"
    and js: "journal_status lk ?pid s1 = (Inr Prepared, s2)"
    and fp: "partition_fingerprint cl (pp_target_table p) (pp_partition_dt p) (world s2) = Inr (pp_before_fingerprint p)"
    and rq: "require_state lk c s2 = (Inr (), s3)"
    and tr: "transition lk ?pid Prepared Publishing s3 = (Inr (), u)"
    using gate by (auto simp: publish_gate_def bnd_Inr ask_def split: if_splits dest: check_prepared_Inr)
  have v1: "visible s1 = visible s" using st by (simp add: state_Inr)
  then have k1: "keys_distinct (pg s1)" using keys by (simp add: visible_def)
  note js' = journal_status_Inr[OF js k1]
  have v2: "visible s2 = visible s" using js' v1 by simp
  have v3: "visible s3 = visible s"
    using evolvesD[OF visible_require_state rq] v2 by (simp add: frames_def)
  then have k3: "keys_distinct (pg s3)" using keys by (simp add: visible_def)
  have fr: "world u = world s3 \<and> owned u = owned s3 \<and> active u = active s3"
    using tr by (auto simp: transition_def bnd_Inr dest!: sql_cases split: if_splits)
  show "status_of (pg s) ?pid = Some Prepared" using js' v1 by (simp add: visible_def)
  show "status_of (pg u) ?pid = Some Publishing" and "keys_distinct (pg u)"
    using transition_status[OF tr k3] by simp_all
  show "world u = world s" and "owned u = owned s" and "active u = active s"
    using fr v3 by (simp_all add: visible_def)
  show "c \<in> owned s" using own v1 by (simp add: visible_def)
  show "partition_fingerprint cl (pp_target_table p) (pp_partition_dt p) (world s) = Inr (pp_before_fingerprint p)"
    using fp v2 by (simp add: visible_def)
  show "partition_fingerprint cl (pp_stage_table p) (pp_partition_dt p) (world s) = Inr (pp_staged_fingerprint p)"
    and "partition_fingerprint cl (pp_backup_table p) (pp_partition_dt p) (world s) = Inr (pp_before_fingerprint p)"
    using check_prepared_Inr[OF chk] by blast+
qed


definition status_moves :: "string \<Rightarrow> pub_status \<Rightarrow> 'w pstate \<Rightarrow> 'w pstate \<Rightarrow> bool" where
  "status_moves pid a s t \<longleftrightarrow> status_of (pg t) pid \<in> {status_of (pg s) pid, Some a}"

interpretation moving: evolution "status_moves pid a" for pid a
  by unfold_locales (auto simp: status_moves_def)

lemma moves_visible: "evolves (frames visible) m \<Longrightarrow> evolves (status_moves pid a) m"
  by (auto simp: evolves_def frames_def visible_def status_moves_def)

lemma transition_moves: "evolves (status_moves pid a) (transition lk pid b a)"
proof (rule evolvesI)
  fix s :: "'a pstate"
  let ?hit = "in_status lk pid b"
  let ?u = "(pg s)\<lparr>journal := sql_update ?hit (\<lambda>r. r\<lparr>pj_status := a\<rparr>) (journal (pg s))\<rparr>"
  obtain r t where rt: "transition lk pid b a s = (r, t)" by (meson surj_pair)
  then have "pg t = pg s \<or> pg t = ?u"
    unfolding transition_def
    by (auto simp: bnd_def Let_def split: prod.splits sum.splits if_splits dest!: sql_cases)
  then show "status_moves pid a s (snd (transition lk pid b a s))"
    unfolding rt status_moves_def
    by (auto simp: status_of_set) (auto simp: status_of_def split: option.splits)
qed

lemma gate_moves: "evolves (status_moves (pp_publication_id p) Publishing) (publish_gate cl lk p)"
  unfolding publish_gate_def check_prepared_def ask_def
  by (intro moving.rules transition_moves moves_visible[OF visible_state]
      moves_visible[OF visible_journal_status] moves_visible[OF visible_require_state])

lemma command_frames: "command cl c s = (r, t) \<Longrightarrow> pg t = pg s \<and> active t = active s \<and> owned t = owned s"
  by (auto simp: command_def split: prod.splits sum.splits)

lemma publish_mutation_effect:
  assumes run: "publish_mutation cl lk p c s = (r, t)" and keys: "keys_distinct (pg s)"
  shows "status_of (pg t) (pp_publication_id p) \<in> {status_of (pg s) (pp_publication_id p), Some Published}"
    and "keys_distinct (pg t)"
    and "pg t \<noteq> pg s \<or> (\<exists>x. r = Inr x) \<Longrightarrow>
      partition_fingerprint cl (pp_target_table p) (pp_partition_dt p) (world t) = Inr (pp_staged_fingerprint p)"
    and "r = Inr x \<Longrightarrow> status_of (pg t) (pp_publication_id p) = Some Published \<and> x \<in> owned t \<and>
      pc_revision x = pc_revision c + 1 \<and> pc_watermark x = pp_publication_id p @ '':published''"
proof -
  have "(\<exists>e. r = Inl e) \<and> pg t = pg s \<or>
    (\<exists>u. pg u = pg s \<and> partition_fingerprint cl (pp_target_table p) (pp_partition_dt p) (world u) = Inr (pp_staged_fingerprint p)
       \<and> finish lk p c False u = (r, t))"
    using run unfolding publish_mutation_def ask_def
    by (cases r; cases "publish_command p")
      (auto simp: bnd_Inl bnd_Inr dest!: command_frames split: if_splits)
  then consider (stop) "\<exists>e. r = Inl e" "pg t = pg s"
    | (fin) u where "pg u = pg s" "finish lk p c False u = (r, t)"
        "partition_fingerprint cl (pp_target_table p) (pp_partition_dt p) (world u) = Inr (pp_staged_fingerprint p)"
    by blast
  then have "status_of (pg t) (pp_publication_id p) \<in> {status_of (pg s) (pp_publication_id p), Some Published} \<and>
     keys_distinct (pg t) \<and> (pg t \<noteq> pg s \<or> (\<exists>x. r = Inr x) \<longrightarrow>
      partition_fingerprint cl (pp_target_table p) (pp_partition_dt p) (world t) = Inr (pp_staged_fingerprint p)) \<and>
     (\<forall>x. r = Inr x \<longrightarrow> status_of (pg t) (pp_publication_id p) = Some Published \<and> x \<in> owned t \<and>
      pc_revision x = pc_revision c + 1 \<and> pc_watermark x = pp_publication_id p @ '':published'')"
  proof cases
    case stop
    then show ?thesis using keys by auto
  next
    case (fin u)
    then have ku: "keys_distinct (pg u)" using keys by simp
    note eff = finish_effect[OF fin(2) ku]
    show ?thesis using eff fin by auto
  qed
  then show "status_of (pg t) (pp_publication_id p) \<in> {status_of (pg s) (pp_publication_id p), Some Published}"
    and "keys_distinct (pg t)"
    and "pg t \<noteq> pg s \<or> (\<exists>x. r = Inr x) \<Longrightarrow>
      partition_fingerprint cl (pp_target_table p) (pp_partition_dt p) (world t) = Inr (pp_staged_fingerprint p)"
    and "r = Inr x \<Longrightarrow> status_of (pg t) (pp_publication_id p) = Some Published \<and> x \<in> owned t \<and>
      pc_revision x = pc_revision c + 1 \<and> pc_watermark x = pp_publication_id p @ '':published''"
    by blast+
qed

lemma mark_unknown_effect:
  assumes "mark_unknown lk p b s = (r, t)" and "keys_distinct (pg s)"
  shows "world t = world s"
    and "status_of (pg t) (pp_publication_id p) \<in> {status_of (pg s) (pp_publication_id p), Some Status_Unknown}"
    and "status_of (pg s) (pp_publication_id p) \<noteq> Some b \<Longrightarrow> status_of (pg t) (pp_publication_id p) = status_of (pg s) (pp_publication_id p)"
    and "keys_distinct (pg t)"
proof -
  obtain r' where tr: "transition lk (pp_publication_id p) b Status_Unknown s = (r', t)"
    using assms(1) by (auto simp: mark_unknown_def handle_def split: prod.splits sum.splits)
  show "world t = world s" using evolvesD[OF world_transition tr] by (simp add: frames_def)
  show "status_of (pg t) (pp_publication_id p) \<in> {status_of (pg s) (pp_publication_id p), Some Status_Unknown}"
    and "keys_distinct (pg t)"
    using transition_status[OF tr assms(2)] by simp_all
  assume ne: "status_of (pg s) (pp_publication_id p) \<noteq> Some b"
  have "\<not> sql_any (in_status lk (pp_publication_id p) b) (journal (pg s))"
    using status_of_hit[OF assms(2)] ne by (fastforce simp: status_of_def in_status_def)
  then have "pg t = pg s"
    using tr unfolding transition_def
    by (auto simp: bnd_def Let_def sql_update_none split: prod.splits sum.splits if_splits dest!: sql_cases)
  then show "status_of (pg t) (pp_publication_id p) = status_of (pg s) (pp_publication_id p)" by simp
qed

lemma publish_unreconciled_effect:
  assumes gate: "publish_gate cl lk p s = (Inr c, u)" and keys: "keys_distinct (pg s)"
    and mut: "publish_mutation cl lk p c u = (Inl e, v)"
    and mark: "mark_unknown lk p Publishing v = (r, t)"
  shows "status_of (pg t) (pp_publication_id p) \<in> {Some Publishing, Some Status_Unknown, Some Published}"
    and "status_of (pg t) (pp_publication_id p) = Some Published \<Longrightarrow>
      partition_fingerprint cl (pp_target_table p) (pp_partition_dt p) (world t) = Inr (pp_staged_fingerprint p)"
proof -
  let ?st = "\<lambda>x. status_of (pg x) (pp_publication_id p)"
  note g = publish_gate_effect[OF gate keys]
  note m = publish_mutation_effect[OF mut g(3)]
  note k = mark_unknown_effect[OF mark m(2)]
  have v: "?st v \<in> {Some Publishing, Some Published}" using m(1) g(2) by simp
  then show "?st t \<in> {Some Publishing, Some Status_Unknown, Some Published}"
    using k(2) by auto
  assume pub: "?st t = Some Published"
  have "?st v = Some Published"
    using v k(2) pub by auto
  then have "pg v \<noteq> pg u" using g(2) by auto
  then show "partition_fingerprint cl (pp_target_table p) (pp_partition_dt p) (world t) = Inr (pp_staged_fingerprint p)"
    using m(3) k(1) by simp
qed

definition never :: "'e \<Rightarrow> ('s, 'e, 'a) prog \<Rightarrow> bool" where
  "never e m \<longleftrightarrow> (\<forall>s t. m s \<noteq> (Inl e, t))"

lemma never_rules:
  "never e (ret x)" "never e (gets f)" "never e (modify h)" "e' \<noteq> e \<Longrightarrow> never e (throw e')"
  "e' \<noteq> e \<Longrightarrow> never e (require b e')" "(\<And>s. f' s \<noteq> Inl e) \<Longrightarrow> never e (lift f')"
  by (auto simp: never_def)

lemma never_bnd: "never e m \<Longrightarrow> (\<And>x. never e (f x)) \<Longrightarrow> never e (bnd m f)"
  unfolding never_def bnd_Inl by blast

lemma never_for_each: "(\<And>x. never e (f x)) \<Longrightarrow> never e (for_each f xs)"
proof (induction xs)
  case Nil
  show ?case unfolding for_each.simps by (rule never_rules)
next
  case (Cons x xs)
  then show ?case unfolding for_each.simps by (intro never_bnd never_rules) auto
qed

lemma never_option: "never e m \<Longrightarrow> (\<And>x. never e (f x)) \<Longrightarrow> never e (case z of None \<Rightarrow> m | Some x \<Rightarrow> f x)"
  by (cases z) simp_all

abbreviation unreconciled :: pub_exn where
  "unreconciled \<equiv> Publication_Unknown Publish_Unreconciled"

lemma never_sql: "(\<And>t. stmt t \<noteq> Inl unreconciled) \<Longrightarrow> never unreconciled (sql stmt)"
  by (auto simp: never_def sql_def bnd_Inl transaction_def Let_def
      split: if_splits pg_fault.splits sum.splits)

lemma from_ch_neq [simp]: "from_ch x \<noteq> Inl (Publication_Unknown r)"
  by (auto simp: from_ch_def of_failure_def split: sum.splits ch_failure.splits)

lemma queries_neq [simp]:
  "table_structure cl a w \<noteq> Inl (Publication_Unknown r)"
  "partition_fingerprint cl a d w \<noteq> Inl (Publication_Unknown r)"
  "validate_partition_scope cl a d w \<noteq> Inl (Publication_Unknown r)"
  "live a \<noteq> Inl (Publication_Unknown r)"
  using from_ch_neq
  by (auto simp: table_structure_def partition_fingerprint_def validate_partition_scope_def
      is_qualified_def live_def split: sum.splits list.splits prod.splits if_splits dest: sym)

lemma gate_never_unreconciled: "never unreconciled (publish_gate cl lk p)"
  unfolding publish_gate_def check_prepared_def state_def require_state_def journal_status_def
    transition_def ask_def
  by (intro never_bnd never_for_each never_rules never_sql never_option) (simp_all add: Let_def)

lemma publish_partition_InrD:
  assumes "publish_partition cl lk p s = (Inr x, t)"
  shows "\<exists>c u y. publish_gate cl lk p s = (Inr c, u) \<and> publish_mutation cl lk p c u = (Inr y, t) \<and>
     pr_revision x = pc_revision y \<and> pr_watermark x = pc_watermark y"
proof -
  obtain c u y where "publish_gate cl lk p s = (Inr c, u)"
      and h: "handle (publish_mutation cl lk p c) (\<lambda>_. bnd (mark_unknown lk p Publishing) (\<lambda>_. throw unreconciled)) u
           = (Inr y, t)"
      and "pr_revision x = pc_revision y \<and> pr_watermark x = pc_watermark y"
    using assms unfolding publish_partition_def bnd_Inr by auto
  moreover have "publish_mutation cl lk p c u = (Inr y, t)"
    using h by (auto simp: handle_def bnd_def split: prod.splits sum.splits)
  ultimately show ?thesis by blast
qed

lemma publish_partition_InlD:
  assumes "publish_partition cl lk p s = (Inl e, t)"
  shows "publish_gate cl lk p s = (Inl e, t) \<or>
    (\<exists>c u. publish_gate cl lk p s = (Inr c, u) \<and>
      handle (publish_mutation cl lk p c) (\<lambda>_. bnd (mark_unknown lk p Publishing) (\<lambda>_. throw unreconciled)) u = (Inl e, t))"
  using assms unfolding publish_partition_def bnd_Inl by auto

lemma publish_outcomes:
  assumes "keys_distinct (pg s)" and "publish_partition cl lk p s = (r, t)"
  defines "status \<equiv> status_of (pg t) (pp_publication_id p)"
    and "is_live \<equiv> (partition_fingerprint cl (pp_target_table p) (pp_partition_dt p) (world t)
           = Inr (pp_staged_fingerprint p))"
  shows "case r of
      Inr x \<Rightarrow> status = Some Published \<and> is_live \<and>
        (\<exists>c \<in> owned s. pr_revision x = pc_revision c + 1)
    | Inl e \<Rightarrow>
        (if e = Publication_Unknown Publish_Unreconciled
         then status \<in> {Some Publishing, Some Status_Unknown, Some Published} \<and>
              (status = Some Published \<longrightarrow> is_live)
         else world t = world s \<and>
              status \<in> {status_of (pg s) (pp_publication_id p), Some Publishing})"
proof (cases r)
  case (Inr x)
  obtain c u y where gate: "publish_gate cl lk p s = (Inr c, u)"
      and mut: "publish_mutation cl lk p c u = (Inr y, t)" and x: "pr_revision x = pc_revision y"
    using publish_partition_InrD[OF assms(2)[unfolded Inr]] by blast
  note g = publish_gate_effect[OF gate assms(1)]
  note m = publish_mutation_effect[OF mut g(3)]
  have "pr_revision x = pc_revision c + 1" and "status = Some Published" and is_live
    using m(3) m(4)[OF HOL.refl] x by (simp_all add: status_def is_live_def)
  with g(8) Inr show ?thesis by auto
next
  case (Inl e)
  show ?thesis
  proof (cases "e = Publication_Unknown Publish_Unreconciled")
    case False
    note d = publish_partition_definite[OF assms(2)[unfolded Inl] False]
    then show ?thesis
      using Inl False evolvesD[OF gate_moves d(1)] by (simp add: status_def status_moves_def)
  next
    case True
    have "publish_gate cl lk p s \<noteq> (Inl e, t)"
      using gate_never_unreconciled[of cl lk p] True by (simp add: never_def)
    then obtain c u where gate: "publish_gate cl lk p s = (Inr c, u)"
      and h: "handle (publish_mutation cl lk p c)
             (\<lambda>_. bnd (mark_unknown lk p Publishing) (\<lambda>_. throw (Publication_Unknown Publish_Unreconciled))) u
           = (Inl e, t)"
      using publish_partition_InlD[OF assms(2)[unfolded Inl]] by blast
    then obtain e' v where mut: "publish_mutation cl lk p c u = (Inl e', v)"
      by (auto simp: handle_def split: prod.splits sum.splits)
    obtain w where mark: "mark_unknown lk p Publishing v = (Inr (), w)"
      using mark_unknown_total by blast
    have "w = t" using h mut mark by simp
    note n = publish_unreconciled_effect[OF gate assms(1) mut mark[unfolded this]]
    show ?thesis using Inl True n unfolding status_def is_live_def by auto
  qed
qed

subsection \<open>An unresolved publication keeps every later writer out\<close>

definition quiet :: "'w pstate \<Rightarrow> 'w \<times> journal_row list" where
  "quiet s = (world s, journal (pg s))"

lemma quiet_sql:
  assumes "\<And>t x t'. stmt t = Inr (x, t') \<Longrightarrow> journal t' = journal t"
  shows "evolves (frames quiet) (sql stmt)"
proof (rule evolvesI)
  fix s :: "'b pstate"
  show "frames quiet s (snd (sql stmt s))"
    using sql_cases[of stmt s "fst (sql stmt s)" "snd (sql stmt s)"] assms
    by (fastforce simp: frames_def quiet_def)
qed

lemma quiet_entry:
  "evolves (frames quiet) (lock_acquire k)" "evolves (frames quiet) (ensure_revision_row lk)"
  "evolves (frames quiet) (reject_unresolved lk)" "evolves (frames quiet) (state lk)"
  unfolding lock_acquire_def ensure_revision_row_def reject_unresolved_def state_def
  by (intro framing.rules quiet_sql; auto simp: Let_def)+

lemma reject_unresolved_Inr:
  "reject_unresolved lk s = (Inr u, t) \<Longrightarrow> \<not> sql_any (unresolved_at lk) (journal (pg s))"
  by (auto simp: reject_unresolved_def bnd_Inr split: if_splits dest!: sql_cases)

lemma triple_False: "triple (\<lambda>_. False) m Q E"
  by (simp add: triple_def)

lemma reject_unresolved_triple:
  assumes "sql_any (unresolved_at lk) (snd q)"
  shows "triple (\<lambda>s. quiet s = q) (reject_unresolved lk) (\<lambda>_ _. False) (\<lambda>_ s. quiet s = q)"
proof (rule tripleI)
  fix s x t assume "quiet s = q" and "reject_unresolved lk s = (Inr x, t)"
  then show False using assms by (auto simp: quiet_def dest: reject_unresolved_Inr)
next
  fix s e t assume "quiet s = q" and "reject_unresolved lk s = (Inl e, t)"
  then show "quiet t = q" using evolvesD[OF quiet_entry(3)] by (fastforce simp: frames_def)
qed

lemma lock_body_blocked:
  assumes "sql_any (unresolved_at lk) (snd q)"
  shows "triple (\<lambda>s. quiet s = q) (lock_body lk k body) (\<lambda>_ _. False) (\<lambda>_ s. quiet s = q)"
  unfolding lock_body_def
  by (rule triple_bnd[OF frames_triple[OF quiet_entry(1)]], rule triple_bnd[OF frames_triple[OF quiet_entry(2)]],
      rule triple_bnd[OF reject_unresolved_triple[OF assms]], rule triple_False)

lemma quiet_close [simp]: "quiet (close_connection t) = quiet t"
  by (simp add: quiet_def close_connection_def)

lemma publication_lock_blocked:
  assumes "sql_any (unresolved_at lk) (snd q)"
  shows "triple (\<lambda>s. quiet s = q) (publication_lock sha lk body) (\<lambda>_ _. False) (\<lambda>_ s. quiet s = q)"
proof -
  have connect: "evolves (frames quiet) (transaction (\<lambda>t. Inr ((), t)))"
    by (rule evolvesI) (auto simp: frames_def quiet_def transaction_def Let_def split: pg_fault.splits)
  have start: "evolves (frames quiet) (modify (\<lambda>s. s\<lparr>active := True, owned := {}\<rparr>))"
    by (rule evolves_modify) (simp add: frames_def quiet_def)
  have body: "triple (\<lambda>s. quiet s = q) (\<lambda>s. case lock_body lk k body s of (r, t) \<Rightarrow> (r, close_connection t))
      (\<lambda>_ _. False) (\<lambda>_ s. quiet s = q)" for k
  proof (rule tripleI)
    fix s x t assume "quiet s = q" and "(case lock_body lk k body s of (r, t) \<Rightarrow> (r, close_connection t)) = (Inr x, t)"
    then show False using triple_Inr[OF lock_body_blocked[OF assms]] by (fastforce split: prod.splits)
  next
    fix s e t assume "quiet s = q" and "(case lock_body lk k body s of (r, t) \<Rightarrow> (r, close_connection t)) = (Inl e, t)"
    then show "quiet t = q"
      using triple_Inl[OF lock_body_blocked[OF assms]] by (fastforce split: prod.splits)
  qed
  show ?thesis
    unfolding publication_lock_def
    by (rule triple_bnd[OF frames_triple[OF framing.lift]], rule triple_bnd[OF frames_triple[OF framing.require]],
        rule triple_bnd[OF frames_triple[OF connect]], rule triple_bnd[OF frames_triple[OF start]], rule body)
qed

text \<open>
  While a publication of the dataset and date is prepared, publishing, unknown or
  compensating, no writer gets in: the lock raises, the body never runs, and neither the
  warehouse nor the journal changes, for any execution, body and server behaviour.
\<close>

theorem unresolved_publication_blocks_writers:
  assumes "sql_any (unresolved_at lk) (journal (pg s))"
    and "publication_lock sha lk body s = (r, t)"
  shows "(\<exists>e. r = Inl e) \<and> world t = world s \<and> journal (pg t) = journal (pg s)"
  using publication_lock_blocked[of lk "quiet s" sha body] assms
  by (cases r) (auto simp: quiet_def dest: triple_Inr triple_Inl)


lemma find_row_key: "find (\<lambda>r. pj_publication_id r = pid) (journal t) = Some r \<Longrightarrow> r \<in> set (journal t) \<and> pj_publication_id r = pid"
  by (rule find_SomeD)

lemma status_of_row:
  assumes "status_of t pid = Some st"
  shows "\<exists>r \<in> set (journal t). pj_publication_id r = pid \<and> pj_status r = st"
  using assms by (auto simp: status_of_def dest: find_row_key)

lemma journal_status_row:
  assumes "journal_status lk pid s = (Inr st, t)"
  shows "\<exists>r \<in> set (journal (pg s)). pj_publication_id r = pid \<and> pj_dataset r = lk_dataset lk \<and> pj_dt r = lk_dt lk"
  using assms
  by (fastforce simp: journal_status_def bnd_Inr dest!: sql_cases find_SomeD_sym split: option.splits)

lemma publish_gate_row:
  assumes "publish_gate cl lk p s = (Inr c, u)"
  shows "\<exists>r \<in> set (journal (pg s)). pj_publication_id r = pp_publication_id p \<and>
     pj_dataset r = lk_dataset lk \<and> pj_dt r = lk_dt lk"
proof -
  obtain s1 s2 st where chk: "check_prepared cl lk p s = (Inr (), s)" and "state lk s = (Inr c, s1)"
    and js: "journal_status lk (pp_publication_id p) s1 = (Inr st, s2)"
    using assms by (auto simp: publish_gate_def bnd_Inr ask_def split: if_splits dest: check_prepared_Inr)
  then have "visible s1 = visible s" by (simp add: state_Inr)
  with journal_status_row[OF js] show ?thesis by (simp add: visible_def)
qed

lemma unresolved_after:
  assumes evolve: "journal_evolves s t" and keys: "keys_distinct (pg t)"
    and row: "r \<in> set (journal (pg s))" "pj_publication_id r = pid" "pj_dataset r = lk_dataset lk" "pj_dt r = lk_dt lk"
    and st: "status_of (pg t) pid = Some x" "x \<in> set UNRESOLVED"
  shows "sql_any (unresolved_at lk) (journal (pg t))"
proof -
  obtain i where i: "i < length (journal (pg s))" "journal (pg s) ! i = r"
    using row(1) by (metis in_set_conv_nth)
  let ?r' = "journal (pg t) ! i"
  have it: "i < length (journal (pg t))" and ev: "row_evolves r ?r'"
    using journal_evolves_row[OF evolve i(1)] i(2) by auto
  have same: "pj_publication_id ?r' = pid" "pj_dataset ?r' = lk_dataset lk" "pj_dt ?r' = lk_dt lk"
    using ev row(2-4) by (metis (no_types, lifting) row_evolves_def journal_row.select_convs journal_row.surjective journal_row.update_convs(11))+
  then have "find (\<lambda>r. pj_publication_id r = pid) (journal (pg t)) = Some ?r'"
    using keys it by (intro find_distinct_key) (auto simp: keys_distinct_def)
  then have "pj_status ?r' = x" using st(1) by (simp add: status_of_def)
  then show ?thesis
    using it same st(2) by (auto simp: sql_any_iff unresolved_at_def intro!: bexI[of _ ?r'])
qed

lemma publish_unreconciled_split:
  assumes "publish_partition cl lk p s = (Inl unreconciled, t)"
  obtains c u e' v where "publish_gate cl lk p s = (Inr c, u)" and "publish_mutation cl lk p c u = (Inl e', v)"
    and "mark_unknown lk p Publishing v = (Inr (), t)"
proof -
  have "publish_gate cl lk p s \<noteq> (Inl unreconciled, t)"
    using gate_never_unreconciled[of cl lk p] by (simp add: never_def)
  then obtain c u where gate: "publish_gate cl lk p s = (Inr c, u)"
    and h: "handle (publish_mutation cl lk p c) (\<lambda>_. bnd (mark_unknown lk p Publishing) (\<lambda>_. throw unreconciled)) u
       = (Inl unreconciled, t)"
    using publish_partition_InlD[OF assms] by blast
  then obtain e' v where mut: "publish_mutation cl lk p c u = (Inl e', v)"
    by (auto simp: handle_def split: prod.splits sum.splits)
  moreover obtain w where "mark_unknown lk p Publishing v = (Inr (), w)"
    using mark_unknown_total by blast
  moreover have "w = t" using h calculation by simp
  ultimately show thesis using gate that by blast
qed

lemma unreconciled_refused:
  assumes "keys_distinct (pg s)" and "publish_partition cl lk p s = (Inl unreconciled, t)"
    and "status_of (pg t) (pp_publication_id p) \<noteq> Some Published"
    and "lk_dataset lk' = lk_dataset lk" and "lk_dt lk' = lk_dt lk"
    and "publication_lock sha lk' body t = (r, u)"
  shows "(\<exists>e. r = Inl e) \<and> world u = world t \<and> journal (pg u) = journal (pg t)"
proof -
  obtain c v e' w where gate: "publish_gate cl lk p s = (Inr c, v)"
    and mut: "publish_mutation cl lk p c v = (Inl e', w)" and mark: "mark_unknown lk p Publishing w = (Inr (), t)"
    using publish_unreconciled_split[OF assms(2)] by blast
  note g = publish_gate_effect[OF gate assms(1)]
  note m = publish_mutation_effect[OF mut g(3)]
  obtain row where row: "row \<in> set (journal (pg s))" "pj_publication_id row = pp_publication_id p"
      "pj_dataset row = lk_dataset lk" "pj_dt row = lk_dt lk"
    using publish_gate_row[OF gate] by blast
  obtain x where x: "status_of (pg t) (pp_publication_id p) = Some x" "x \<in> set UNRESOLVED"
    using publish_unreconciled_effect(1)[OF gate assms(1) mut mark] assms(3) by (auto simp: UNRESOLVED_def)
  have "sql_any (unresolved_at lk') (journal (pg t))"
    using unresolved_after[OF evolvesD[OF je_publish_partition assms(2)] mark_unknown_effect(4)[OF mark m(2)] row(1,2)]
      row x assms(4,5) by simp
  then show ?thesis
    using publication_lock_blocked[of lk' "quiet t" sha body] assms(6)
    by (cases r) (auto simp: quiet_def dest: triple_Inr triple_Inl)
qed

text \<open>
  C4. No blind retry. After \<open>publish_partition\<close> ends unreconciled, either the publication is complete
  (the journal says published and the staged content is live: only an acknowledgement was lost), or
  the next writer of that dataset and date, under whatever execution, is refused before it can touch
  the warehouse or the journal.
\<close>

theorem unreconciled_blocks_next_writer:
  assumes "keys_distinct (pg s)" and "publish_partition cl lk p s = (Inl unreconciled, t)"
    and "lk_dataset lk' = lk_dataset lk" and "lk_dt lk' = lk_dt lk"
    and "publication_lock sha lk' body t = (r, u)"
  shows "(status_of (pg t) (pp_publication_id p) = Some Published \<and>
       partition_fingerprint cl (pp_target_table p) (pp_partition_dt p) (world t) = Inr (pp_staged_fingerprint p)) \<or>
     ((\<exists>e. r = Inl e) \<and> world u = world t \<and> journal (pg u) = journal (pg t))"
  using publish_outcomes[OF assms(1,2)] unreconciled_refused[OF assms(1,2) _ assms(3-5)] by auto


end
