(* ===== verification/Publication_Group.thy ===== *)
theory Publication_Group
  imports Publication
begin

text \<open>
  Groups of partitions: what \<open>publish_group\<close> guarantees when it returns, and what its
  compensation restores when a later member fails before touching the warehouse. The only fact
  about ClickHouse used here is that a command writes no table but its own
  (\<open>writes_only_target\<close>); that a command had its effect is checked by the code itself.
\<close>

fun command_table :: "ch_command \<Rightarrow> string option" where
  "command_table (Create_Database d) = None"
| "command_table (Create_Table_As d t) = Some d"
| "command_table (Insert_Select d cs s dt) = Some d"
| "command_table (Replace_Partition t dt s) = Some t"
| "command_table (Drop_Partition t dt) = Some t"

definition writes_only_target :: "'w client \<Rightarrow> bool" where
  "writes_only_target cl \<longleftrightarrow>
     (\<forall>c w table. command_table c \<noteq> Some table \<longrightarrow>
        query_fingerprint cl (snd (run_command cl c w)) table = query_fingerprint cl w table)"

definition fingerprint_is :: "'w client \<Rightarrow> prepared \<Rightarrow> fingerprint \<Rightarrow> 'w pstate \<Rightarrow> bool" where
  "fingerprint_is cl p f s \<longleftrightarrow> partition_fingerprint cl (pp_target_table p) (pp_partition_dt p) (world s) = Inr f"

definition others_same :: "'w client \<Rightarrow> string \<Rightarrow> 'w pstate \<Rightarrow> 'w pstate \<Rightarrow> bool" where
  "others_same cl table s t \<longleftrightarrow>
     (\<forall>other. other \<noteq> table \<longrightarrow> query_fingerprint cl (world t) other = query_fingerprint cl (world s) other)"

interpretation others: evolution "others_same cl table" for cl table
  by unfold_locales (auto simp: others_same_def)

lemma others_world: "evolves (frames world) m \<Longrightarrow> evolves (others_same cl table) m"
  by (auto simp: evolves_def frames_def others_same_def)

lemma others_command:
  assumes "writes_only_target cl" and "command_table c = Some table"
  shows "evolves (others_same cl table) (command cl c)"
proof (rule evolvesI)
  fix s
  have "world (snd (command cl c s)) = snd (run_command cl c (world s))"
    by (simp add: command_def split: prod.splits sum.splits)
  then show "others_same cl table s (snd (command cl c s))"
    using assms by (auto simp: others_same_def writes_only_target_def)
qed

lemma world_finish: "evolves (frames world) (finish lk p c undo)"
  unfolding finish_def by (intro framing.rules world_transaction world_modify_owned)

lemma world_mark_unknown: "evolves (frames world) (mark_unknown lk p b)"
  unfolding mark_unknown_def by (intro framing.rules world_transition)

lemma others_publish:
  assumes "writes_only_target cl"
  shows "evolves (others_same cl (pp_target_table p)) (publish_partition cl lk p)"
proof -
  have "evolves (others_same cl (pp_target_table p)) (command cl c)" if "publish_command p = Some c" for c
    using that by (intro others_command assms) (auto simp: publish_command_def split: if_splits)
  then have "evolves (others_same cl (pp_target_table p)) (publish_mutation cl lk p c)" for c
    unfolding publish_mutation_def
    by (cases "publish_command p")
      (auto intro!: others.rules others_world[OF world_ask] others_world[OF world_finish])
  then show ?thesis
    unfolding publish_partition_def
    by (intro others.rules others_world[OF world_publish_gate] others_world[OF world_mark_unknown])
qed

lemma others_compensate:
  assumes "writes_only_target cl"
  shows "evolves (others_same cl (pp_target_table p)) (compensate_partition cl lk p ok)"
  unfolding compensate_partition_def compensate_mutation_def
  by (intro others.rules others_world[OF world_compensate_gate] others_world[OF world_mark_unknown]
      others_world[OF world_finish] others_world[OF world_ask] others_command assms)
    (simp add: compensate_command_def)

lemma fingerprint_is_others:
  "others_same cl table s t \<Longrightarrow> pp_target_table q \<noteq> table \<Longrightarrow> fingerprint_is cl q f t = fingerprint_is cl q f s"
  by (simp add: fingerprint_is_def partition_fingerprint_def others_same_def cong: sum.case_cong)

subsection \<open>The status of the other publications\<close>

abbreviation status_frame :: "string \<Rightarrow> 'w pstate \<Rightarrow> 'w pstate \<Rightarrow> bool" where
  "status_frame q \<equiv> frames (\<lambda>s. status_of (pg s) q)"

lemma status_visible: "evolves (frames visible) m \<Longrightarrow> evolves (status_frame q) m"
  by (auto simp: evolves_def frames_def visible_def)

lemma status_of_other_row:
  assumes "q \<noteq> pid"
    and "journal u = sql_update (in_status lk pid b) (\<lambda>r. r\<lparr>pj_status := a\<rparr>) (journal t)"
  shows "status_of u q = status_of t q"
proof -
  have "status_of u q = status_of (t\<lparr>journal := sql_update (in_status lk pid b) (\<lambda>r. r\<lparr>pj_status := a\<rparr>) (journal t)\<rparr>) q"
    using assms(2) by (simp add: status_of_def)
  also have "\<dots> = status_of t q"
    unfolding status_of_set using assms(1)
    by (auto simp: status_of_def in_status_def split: option.splits dest!: find_SomeD)
  finally show ?thesis .
qed

lemma status_frame_sql:
  assumes "\<And>t x u. stmt t = Inr (x, u) \<Longrightarrow> status_of u q = status_of t q"
  shows "evolves (status_frame q) (transaction stmt)" and "evolves (status_frame q) (sql stmt)"
proof -
  show t: "evolves (status_frame q) (transaction stmt)"
    using assms by (auto simp: evolves_def frames_def transaction_def Let_def split: pg_fault.splits sum.splits)
  show "evolves (status_frame q) (sql stmt)"
    unfolding sql_def by (intro framing.rules t)
qed

lemma status_transition: "q \<noteq> pid \<Longrightarrow> evolves (status_frame q) (transition lk pid b a)"
  unfolding transition_def
  by (intro framing.rules status_frame_sql(2)) (auto simp: Let_def intro: status_of_other_row)

lemma status_finish: "q \<noteq> pp_publication_id p \<Longrightarrow> evolves (status_frame q) (finish lk p c undo)"
  unfolding finish_def
  by (intro framing.rules status_frame_sql(1) evolves_modify)
    (auto simp: frames_def dest: finish_statement_Inr(2) intro: status_of_other_row)

lemma status_command: "evolves (status_frame q) (command cl c)"
  by (rule evolvesI) (auto simp: frames_def command_def split: prod.splits sum.splits)

lemma status_check_prepared: "evolves (status_frame q) (check_prepared cl lk p)"
  unfolding check_prepared_def ask_def by (intro framing.rules)

lemmas status_session = status_visible[OF visible_state] status_visible[OF visible_require_state]
  status_visible[OF visible_journal_status] status_command status_check_prepared

lemma status_publish:
  assumes "q \<noteq> pp_publication_id p"
  shows "evolves (status_frame q) (publish_partition cl lk p)"
  unfolding publish_partition_def publish_gate_def publish_mutation_def mark_unknown_def ask_def
  by (intro framing.rules status_session status_transition status_finish assms)

lemma status_compensate:
  assumes "q \<noteq> pp_publication_id p"
  shows "evolves (status_frame q) (compensate_partition cl lk p ok)"
  unfolding compensate_partition_def compensate_gate_def compensate_mutation_def mark_unknown_def ask_def
  by (intro framing.rules status_session status_transition status_finish assms)

subsection \<open>A successful member\<close>

lemma publish_partition_success:
  assumes "publish_partition cl lk p s = (Inr x, t)" and "keys_distinct (pg s)"
  shows "status_of (pg s) (pp_publication_id p) = Some Prepared"
    and "status_of (pg t) (pp_publication_id p) = Some Published"
    and "fingerprint_is cl p (pp_staged_fingerprint p) t" and "keys_distinct (pg t)"
proof -
  obtain c u y where gate: "publish_gate cl lk p s = (Inr c, u)" and mut: "publish_mutation cl lk p c u = (Inr y, t)"
    using publish_partition_InrD[OF assms(1)] by blast
  note g = publish_gate_effect[OF gate assms(2)]
  note m = publish_mutation_effect[OF mut g(3)]
  show "status_of (pg s) (pp_publication_id p) = Some Prepared"
    and "status_of (pg t) (pp_publication_id p) = Some Published"
    and "fingerprint_is cl p (pp_staged_fingerprint p) t" and "keys_distinct (pg t)"
    using g(1) m(2) m(3) m(4)[OF HOL.refl] by (simp_all add: fingerprint_is_def)
qed

definition published_live :: "'w client \<Rightarrow> prepared \<Rightarrow> 'w pstate \<Rightarrow> bool" where
  "published_live cl p s \<longleftrightarrow>
     status_of (pg s) (pp_publication_id p) = Some Published \<and> fingerprint_is cl p (pp_staged_fingerprint p) s"

lemma published_live_kept:
  assumes "published_live cl q s" and "publish_partition cl lk p s = (Inr x, t)" and "keys_distinct (pg s)"
    and "writes_only_target cl" and "pp_target_table q \<noteq> pp_target_table p"
  shows "published_live cl q t"
proof -
  have ne: "pp_publication_id q \<noteq> pp_publication_id p"
    using publish_partition_success(1)[OF assms(2,3)] assms(1) by (auto simp: published_live_def)
  show ?thesis
    using evolvesD[OF status_publish[OF ne] assms(2)] evolvesD[OF others_publish[OF assms(4)] assms(2)]
      assms(1,5)
    by (simp add: published_live_def frames_def fingerprint_is_others)
qed

lemma publish_members_success:
  assumes "publish_members cl lk ok cs rs ps s = (Inr out, t)" and "keys_distinct (pg s)"
    and "writes_only_target cl" and "distinct (map pp_target_table (cs @ ps))"
    and "\<forall>p \<in> set cs. published_live cl p s"
  shows "\<forall>p \<in> set (cs @ ps). published_live cl p t"
  using assms
proof (induction cl lk ok cs rs ps arbitrary: s rule: publish_members.induct)
  case (1 cl lk ok cs rs)
  then show ?case by simp
next
  case (2 cl lk ok cs rs p ps)
  obtain x u where h: "handle (publish_partition cl lk p) (group_failure cl lk ok cs) s = (Inr x, u)"
    and rest: "publish_members cl lk ok (cs @ [p]) (rs @ [x]) ps u = (Inr out, t)"
    using "2.prems"(1) by (auto simp: bnd_Inr)
  have pub: "publish_partition cl lk p s = (Inr x, u)"
    using h by (auto simp: handle_def group_failure_def bnd_def split: prod.splits sum.splits if_splits)
  note succ = publish_partition_success[OF pub "2.prems"(2)]
  have "\<forall>q \<in> set cs. published_live cl q u"
    using "2.prems" published_live_kept[OF _ pub] by (auto simp: image_iff)
  then have "\<forall>q \<in> set (cs @ [p]). published_live cl q u"
    using succ by (auto simp: published_live_def)
  then show ?case
    using "2.IH"[OF rest succ(4) "2.prems"(3)] "2.prems"(4) by simp
qed

lemma preflight_unchanged: "evolves (frames visible) (preflight_member cl lk p)"
  unfolding preflight_member_def check_prepared_def ask_def
  by (intro framing.rules visible_journal_status)

text \<open>
  C5. When \<open>publish_group\<close> returns, every member is recorded as published and its staged content
  is live, all at the same time: no later member has overwritten an earlier one.
\<close>

theorem publish_group_success:
  assumes "publish_group cl lk members approved s = (Inr out, t)" and "keys_distinct (pg s)"
    and "writes_only_target cl"
  shows "\<forall>p \<in> set members. published_live cl p t"
proof -
  obtain ys u where pre: "for_each (preflight_member cl lk) members s = (Inr ys, u)"
    and run: "publish_members cl lk approved [] [] members u = (Inr out, t)"
    and dist: "distinct (map pp_target_table members)"
    using assms(1) by (auto simp: publish_group_def bnd_Inr split: if_splits)
  have "visible u = visible s"
    using evolvesD[OF framing.for_each[OF preflight_unchanged] pre] by (simp add: frames_def)
  then have "keys_distinct (pg u)" using assms(2) by (simp add: visible_def)
  then show ?thesis
    using publish_members_success[OF run _ assms(3)] dist by simp
qed

subsection \<open>Compensation\<close>

lemma compensate_gate_effect:
  assumes gate: "compensate_gate cl lk p ok s = (Inr c, u)" and keys: "keys_distinct (pg s)"
  shows "status_of (pg s) (pp_publication_id p) = Some Published"
    and "fingerprint_is cl p (pp_staged_fingerprint p) s"
    and "status_of (pg u) (pp_publication_id p) = Some Compensating"
    and "keys_distinct (pg u)"
proof -
  let ?pid = "pp_publication_id p"
  obtain s1 s2 where "check_prepared cl lk p s = (Inr (), s)"
    and st: "state lk s = (Inr c, s1)"
    and js: "journal_status lk ?pid s1 = (Inr Published, s2)"
    and fp: "partition_fingerprint cl (pp_target_table p) (pp_partition_dt p) (world s2) = Inr (pp_staged_fingerprint p)"
    and tr: "transition lk ?pid Published Compensating s2 = (Inr (), u)"
    using gate by (auto simp: compensate_gate_def bnd_Inr ask_def split: if_splits dest: check_prepared_Inr)
  have v1: "visible s1 = visible s" using st by (simp add: state_Inr)
  then have k1: "keys_distinct (pg s1)" using keys by (simp add: visible_def)
  note js' = journal_status_Inr[OF js k1]
  have v2: "visible s2 = visible s" using js' v1 by simp
  then have k2: "keys_distinct (pg s2)" using keys by (simp add: visible_def)
  show "status_of (pg s) ?pid = Some Published" using js' v1 by (simp add: visible_def)
  show "fingerprint_is cl p (pp_staged_fingerprint p) s" using fp v2 by (simp add: fingerprint_is_def visible_def)
  show "status_of (pg u) ?pid = Some Compensating" and "keys_distinct (pg u)"
    using transition_status[OF tr k2] by simp_all
qed

definition restored :: "'w client \<Rightarrow> prepared \<Rightarrow> 'w pstate \<Rightarrow> bool" where
  "restored cl p s \<longleftrightarrow>
     status_of (pg s) (pp_publication_id p) = Some Compensated \<and> fingerprint_is cl p (pp_before_fingerprint p) s"

lemma compensate_partition_success:
  assumes "compensate_partition cl lk p ok s = (Inr x, t)" and "keys_distinct (pg s)"
  shows "status_of (pg s) (pp_publication_id p) = Some Published" and "restored cl p t" and "keys_distinct (pg t)"
proof -
  obtain c u y where gate: "compensate_gate cl lk p ok s = (Inr c, u)"
    and h: "handle (compensate_mutation cl lk p c)
        (\<lambda>_. bnd (mark_unknown lk p Compensating) (\<lambda>_. throw (Publication_Unknown Compensation_Unreconciled))) u = (Inr y, t)"
    using assms(1) unfolding compensate_partition_def bnd_Inr by auto
  have "compensate_mutation cl lk p c u = (Inr y, t)"
    using h by (auto simp: handle_def bnd_def split: prod.splits sum.splits)
  then obtain v w where cmd: "command cl (compensate_command p) u = (Inr (), v)"
    and fp: "partition_fingerprint cl (pp_target_table p) (pp_partition_dt p) (world v) = Inr (pp_before_fingerprint p)"
    and fin: "finish lk p c True v = (Inr y, t)"
    by (auto simp: compensate_mutation_def ask_def bnd_Inr split: if_splits)
  note g = compensate_gate_effect[OF gate assms(2)]
  have "keys_distinct (pg v)" using command_frames[OF cmd] g(4) by simp
  note f = finish_effect[OF fin this]
  show "status_of (pg s) (pp_publication_id p) = Some Published" by (rule g(1))
  show "restored cl p t"
    using f(1) f(3)[OF HOL.refl] fp by (simp add: restored_def fingerprint_is_def)
  show "keys_distinct (pg t)" by (rule f(4))
qed

lemma restored_kept:
  assumes "restored cl q s" and "compensate_partition cl lk p ok s = (Inr x, t)" and "keys_distinct (pg s)"
    and "writes_only_target cl" and "pp_target_table q \<noteq> pp_target_table p"
  shows "restored cl q t"
proof -
  have ne: "pp_publication_id q \<noteq> pp_publication_id p"
    using compensate_partition_success(1)[OF assms(2,3)] assms(1) by (auto simp: restored_def)
  show ?thesis
    using evolvesD[OF status_compensate[OF ne] assms(2)] evolvesD[OF others_compensate[OF assms(4)] assms(2)]
      assms(1,5)
    by (simp add: restored_def frames_def fingerprint_is_others)
qed

abbreviation compensate_all :: "'w client \<Rightarrow> lock_id \<Rightarrow> prepared list \<Rightarrow> ('w pstate, pub_exn, int list) prog" where
  "compensate_all cl lk ps \<equiv> for_each (\<lambda>p. compensate_partition cl lk p True) ps"

lemma compensation_restores:
  assumes "compensate_all cl lk ps s = (Inr out, t)" and "keys_distinct (pg s)"
    and "writes_only_target cl" and "distinct (map pp_target_table (cs @ ps))"
    and "\<forall>p \<in> set cs. restored cl p s"
  shows "\<forall>p \<in> set (cs @ ps). restored cl p t"
  using assms
proof (induction ps arbitrary: s cs out)
  case Nil
  then show ?case by simp
next
  case (Cons p ps)
  obtain x u out' where one: "compensate_partition cl lk p True s = (Inr x, u)"
    and rest: "compensate_all cl lk ps u = (Inr out', t)"
    using Cons.prems(1) by (auto simp: bnd_Inr)
  note succ = compensate_partition_success[OF one Cons.prems(2)]
  have "\<forall>q \<in> set cs. restored cl q u"
    using Cons.prems restored_kept[OF _ one] by (auto simp: image_iff)
  then show ?case
    using Cons.IH[OF rest succ(3) Cons.prems(3), of "cs @ [p]"] Cons.prems(4) succ(2) by auto
qed

lemma compensation_others:
  assumes "compensate_all cl lk ps s = (r, t)" and "writes_only_target cl"
    and "pp_target_table q \<notin> pp_target_table ` set ps"
  shows "fingerprint_is cl q f t = fingerprint_is cl q f s"
  using assms
proof (induction ps arbitrary: s r)
  case Nil
  then show ?case by simp
next
  case (Cons p ps)
  obtain r' u where one: "compensate_partition cl lk p True s = (r', u)" by (meson surj_pair)
  have same: "fingerprint_is cl q f u = fingerprint_is cl q f s"
    using evolvesD[OF others_compensate[OF Cons.prems(2)] one] Cons.prems(3) by (simp add: fingerprint_is_others)
  obtain r'' where "t = u \<or> compensate_all cl lk ps u = (r'', t)"
    using Cons.prems(1) one by (cases r'; cases "compensate_all cl lk ps u"; cases "fst (compensate_all cl lk ps u)") auto
  then show ?case using Cons.IH[of u r''] Cons.prems(2,3) same by auto
qed

abbreviation publication_ids :: "'w pstate \<Rightarrow> string list" where
  "publication_ids s \<equiv> map pj_publication_id (journal (pg s))"

lemma ids_visible: "evolves (frames visible) m \<Longrightarrow> evolves (frames publication_ids) m"
  by (auto simp: evolves_def frames_def visible_def)

lemma ids_transition: "evolves (frames publication_ids) (transition lk pid b a)"
  unfolding transition_def
proof (intro framing.rules, rule evolvesI)
  fix s :: "'a pstate"
  show "frames publication_ids s (snd (sql (\<lambda>t. let hit = in_status lk pid b in Inr (sql_any hit (journal t),
      t\<lparr>journal := sql_update hit (\<lambda>r. r\<lparr>pj_status := a\<rparr>) (journal t)\<rparr>)) s))" (is "frames _ _ (snd (sql ?m s))")
    using sql_cases[of ?m s "fst (sql ?m s)" "snd (sql ?m s)"] by (auto simp: frames_def Let_def map_sql_update)
qed

lemma keys_publish_gate: "evolves (frames publication_ids) (publish_gate cl lk p)"
  unfolding publish_gate_def check_prepared_def ask_def
  by (intro framing.rules ids_transition ids_visible[OF visible_state] ids_visible[OF visible_require_state]
      ids_visible[OF visible_journal_status])

lemma preflight_member_before:
  assumes "preflight_member cl lk p s = (Inr x, t)"
  shows "fingerprint_is cl p (pp_before_fingerprint p) s" and "visible t = visible s"
proof -
  show v: "visible t = visible s"
    using evolvesD[OF preflight_unchanged assms] by (simp add: frames_def)
  have "fingerprint_is cl p (pp_before_fingerprint p) t"
    using assms
    by (auto simp: preflight_member_def bnd_Inr ask_def fingerprint_is_def split: if_splits)
  with v show "fingerprint_is cl p (pp_before_fingerprint p) s"
    by (simp add: fingerprint_is_def visible_def)
qed

lemma preflight_all_before:
  "for_each (preflight_member cl lk) ps s = (Inr ys, t) \<Longrightarrow>
     (\<forall>p \<in> set ps. fingerprint_is cl p (pp_before_fingerprint p) s) \<and> visible t = visible s"
proof (induction ps arbitrary: s ys)
  case (Cons p ps)
  obtain x u ys' where one: "preflight_member cl lk p s = (Inr x, u)"
    and rest: "for_each (preflight_member cl lk) ps u = (Inr ys', t)"
    using Cons.prems by (auto simp: bnd_Inr)
  show ?case
    using preflight_member_before[OF one] Cons.IH[OF rest]
    by (auto simp: fingerprint_is_def visible_def)
qed simp

definition live_kept :: "'w client \<Rightarrow> prepared list \<Rightarrow> 'w pstate \<Rightarrow> 'w pstate \<Rightarrow> bool" where
  "live_kept cl ps s t \<longleftrightarrow> (\<forall>p \<in> set ps. \<forall>f. fingerprint_is cl p f t = fingerprint_is cl p f s)"

lemma before_live_kept:
  "fingerprint_is cl p (pp_before_fingerprint p) s \<Longrightarrow> fingerprint_is cl p (pp_before_fingerprint p) t \<Longrightarrow>
     fingerprint_is cl p f t = fingerprint_is cl p f s"
  by (simp add: fingerprint_is_def)

lemma compensated_group_kept:
  assumes comp: "compensate_all cl lk (rev cs) s = (Inr out, t)" and keys: "keys_distinct (pg s)"
    and cl: "writes_only_target cl" and dist: "distinct (map pp_target_table (cs @ ps))"
    and before: "\<forall>p \<in> set (cs @ ps). fingerprint_is cl p (pp_before_fingerprint p) s0"
    and same: "live_kept cl ps s0 s"
  shows "live_kept cl (cs @ ps) s0 t"
proof -
  have "\<forall>p \<in> set cs. restored cl p t"
    using compensation_restores[OF comp keys cl, of "[]"] dist by (simp add: rev_map[symmetric])
  then have "live_kept cl cs s0 t"
    using before before_live_kept unfolding live_kept_def restored_def by (metis UnCI set_append)
  moreover have "live_kept cl ps s0 t"
    using same compensation_others[OF comp cl] dist by (fastforce simp: live_kept_def)
  ultimately show ?thesis by (auto simp: live_kept_def)
qed

lemma for_each_snoc:
  "for_each f xs s = (Inr ys, t) \<Longrightarrow> f x t = (Inr y, u) \<Longrightarrow> for_each f (xs @ [x]) s = (Inr (ys @ [y]), u)"
proof (induction xs arbitrary: s ys)
  case (Cons z zs)
  then obtain a s1 as where "f z s = (Inr a, s1)" "for_each f zs s1 = (Inr as, t)" "ys = a # as"
    by (auto simp: bnd_Inr)
  with Cons.IH[of s1 as] Cons.prems(2) show ?case by (simp add: bnd_def)
qed (simp add: bnd_def)

lemma for_each_Inl:
  "for_each f xs s = (Inl e, t) \<Longrightarrow>
     \<exists>ds x rest ys u. xs = ds @ x # rest \<and> for_each f ds s = (Inr ys, u) \<and> f x u = (Inl e, t)"
proof (induction xs arbitrary: s)
  case (Cons z zs)
  consider (now) "f z s = (Inl e, t)"
    | (later) a u where "f z s = (Inr a, u)" "for_each f zs u = (Inl e, t)"
    using Cons.prems by (auto simp: bnd_Inl bnd_Inr)
  then show ?case
  proof cases
    case now
    then show ?thesis by (intro exI[of _ "[]"] exI[of _ z] exI[of _ zs]) simp
  next
    case later
    then obtain ds x rest ys v where "zs = ds @ x # rest" "for_each f ds u = (Inr ys, v)" "f x v = (Inl e, t)"
      using Cons.IH by blast
    then show ?thesis using later(1)
      by (intro exI[of _ "z # ds"] exI[of _ x] exI[of _ rest] exI[of _ "a # ys"] exI[of _ v]) (simp add: bnd_def)
  qed
qed simp

subsection \<open>A compensation that is refused\<close>

text \<open>A step that only moves rows out of one status does nothing to a row in another.\<close>

definition idle_unless :: "string \<Rightarrow> pub_status \<Rightarrow> 'w pstate \<Rightarrow> 'w pstate \<Rightarrow> bool" where
  "idle_unless pid b s t \<longleftrightarrow> (keys_distinct (pg s) \<and> status_of (pg s) pid \<noteq> Some b \<longrightarrow> pg t = pg s)"

interpretation idle: evolution "idle_unless pid b" for pid b
  by unfold_locales (auto simp: idle_unless_def)

lemma idle_visible: "evolves (frames visible) m \<Longrightarrow> evolves (idle_unless pid b) m"
  by (auto simp: evolves_def frames_def visible_def idle_unless_def)

lemma idle_transition: "evolves (idle_unless pid b) (transition lk pid b a)"
proof (rule evolvesI)
  fix s :: "'a pstate"
  obtain r t where tr: "transition lk pid b a s = (r, t)" by (meson surj_pair)
  have "pg t = pg s" if "keys_distinct (pg s)" and "status_of (pg s) pid \<noteq> Some b"
  proof -
    have "\<not> sql_any (in_status lk pid b) (journal (pg s))"
      using status_of_hit[OF that(1)] that(2) by (fastforce simp: status_of_def in_status_def)
    then show ?thesis
      using tr unfolding transition_def
      by (auto simp: bnd_def Let_def sql_update_none split: prod.splits sum.splits if_splits dest!: sql_cases)
  qed
  then show "idle_unless pid b s (snd (transition lk pid b a s))"
    by (simp add: idle_unless_def tr)
qed

lemma idle_gate: "evolves (idle_unless (pp_publication_id p) Prepared) (publish_gate cl lk p)"
  unfolding publish_gate_def check_prepared_def ask_def
  by (intro idle.rules idle_transition idle_visible[OF visible_state] idle_visible[OF visible_require_state]
      idle_visible[OF visible_journal_status])

lemma compensate_gate_status: "evolves (status_moves (pp_publication_id p) Compensating) (compensate_gate cl lk p ok)"
  unfolding compensate_gate_def check_prepared_def ask_def
  by (intro moving.rules transition_moves moves_visible[OF visible_state] moves_visible[OF visible_journal_status])

lemma keys_compensate_gate: "evolves (frames publication_ids) (compensate_gate cl lk p ok)"
  unfolding compensate_gate_def check_prepared_def ask_def
  by (intro framing.rules ids_transition ids_visible[OF visible_state] ids_visible[OF visible_journal_status])

lemma compensate_partition_definite:
  assumes "compensate_partition cl lk p ok s = (Inl e, t)" and "\<not> is_unknown e"
  shows "compensate_gate cl lk p ok s = (Inl e, t)" and "world t = world s"
proof -
  show gate: "compensate_gate cl lk p ok s = (Inl e, t)"
    using assms by (auto simp: compensate_partition_def bnd_Inl is_unknown_def dest: unreconciled_end)
  show "world t = world s" using evolvesD[OF world_compensate_gate gate] by (simp add: frames_def)
qed

text \<open>A member whose publication fails definitely leaves the completed ones published and live.\<close>

lemma published_live_after_failure:
  assumes "publish_partition cl lk p s = (Inl e, t)" and "e \<noteq> Publication_Unknown Publish_Unreconciled"
    and "keys_distinct (pg s)" and "published_live cl q s"
  shows "published_live cl q t"
proof -
  note d = publish_partition_definite[OF assms(1,2)]
  have "status_of (pg t) (pp_publication_id q) = status_of (pg s) (pp_publication_id q)"
  proof (cases "pp_publication_id q = pp_publication_id p")
    case True
    then have "pg t = pg s"
      using evolvesD[OF idle_gate d(1)] assms(3,4) by (simp add: idle_unless_def published_live_def)
    then show ?thesis by simp
  next
    case False
    then show ?thesis using evolvesD[OF status_publish assms(1)] by (simp add: frames_def)
  qed
  then show ?thesis using assms(4) d(2) by (simp add: published_live_def fingerprint_is_def)
qed

lemma published_live_compensate:
  assumes "compensate_partition cl lk p True s = (r, t)" and "published_live cl q s" and "writes_only_target cl"
    and "pp_publication_id q \<noteq> pp_publication_id p" and "pp_target_table q \<noteq> pp_target_table p"
  shows "published_live cl q t"
  using evolvesD[OF status_compensate[OF assms(4)] assms(1)] evolvesD[OF others_compensate[OF assms(3)] assms(1)]
    assms(2,5)
  by (simp add: published_live_def frames_def fingerprint_is_others)

lemma compensation_keeps_published:
  assumes "compensate_all cl lk ps s = (Inr out, t)" and "keys_distinct (pg s)" and "writes_only_target cl"
    and "published_live cl q s" and "pp_publication_id q \<notin> pp_publication_id ` set ps"
    and "pp_target_table q \<notin> pp_target_table ` set ps"
  shows "published_live cl q t" and "keys_distinct (pg t)"
proof -
  have "published_live cl q t \<and> keys_distinct (pg t)"
    using assms
  proof (induction ps arbitrary: s out)
    case (Cons p ps)
    obtain x u out' where one: "compensate_partition cl lk p True s = (Inr x, u)"
      and rest: "compensate_all cl lk ps u = (Inr out', t)"
      using Cons.prems(1) by (auto simp: bnd_Inr)
    show ?case
      using Cons.IH[OF rest compensate_partition_success(3)[OF one Cons.prems(2)] Cons.prems(3)]
        published_live_compensate[OF one Cons.prems(4,3)] Cons.prems(5,6) by simp
  qed simp
  then show "published_live cl q t" and "keys_distinct (pg t)" by simp_all
qed

text \<open>
  The compensation of \<open>q\<close> was refused with \<open>e\<close>: the members up to \<open>left @ [q] @ finished\<close> had been
  published, the next one failed definitely, the later ones were compensated in reverse order, and
  \<open>q\<close> came next.
\<close>

definition compensation_refused ::
    "'w client \<Rightarrow> lock_id \<Rightarrow> 'w pstate \<Rightarrow> prepared list \<Rightarrow> prepared list \<Rightarrow> prepared \<Rightarrow> prepared list \<Rightarrow> pub_exn \<Rightarrow>
     'w pstate \<Rightarrow> bool" where
  "compensation_refused cl lk s members left q finished e t \<longleftrightarrow>
     (\<exists>f rest xs s2 e0 s3 out v.
        members = left @ [q] @ finished @ f # rest \<and>
        for_each (publish_partition cl lk) (left @ [q] @ finished) s = (Inr xs, s2) \<and>
        publish_partition cl lk f s2 = (Inl e0, s3) \<and> \<not> is_unknown e0 \<and> is_exception e0 \<and>
        compensate_all cl lk (rev finished) s3 = (Inr out, v) \<and>
        compensate_partition cl lk q True v = (Inl e, t))"

text \<open>What that leaves: nothing is half done.\<close>

definition split_at :: "'w client \<Rightarrow> 'w pstate \<Rightarrow> 'w pstate \<Rightarrow> prepared list \<Rightarrow> prepared \<Rightarrow> prepared list \<Rightarrow> prepared list \<Rightarrow> bool" where
  "split_at cl s t left q finished rest \<longleftrightarrow>
     (\<forall>p \<in> set left. published_live cl p t) \<and>
     fingerprint_is cl q (pp_staged_fingerprint q) t \<and>
     status_of (pg t) (pp_publication_id q) \<in> {Some Published, Some Compensating} \<and>
     (\<forall>p \<in> set finished. restored cl p t) \<and>
     live_kept cl (finished @ rest) s t"

lemma key_before: "distinct (map key (xs @ q # ys)) \<Longrightarrow> p \<in> set xs \<Longrightarrow> key p \<noteq> key q"
  by (induction xs) auto

lemma restored_after_refusal:
  assumes "restored cl p s" and "compensate_partition cl lk q True s = (Inl e, t)" and "published_live cl q s"
    and "\<not> is_unknown e"
  shows "restored cl p t"
proof -
  have "pp_publication_id p \<noteq> pp_publication_id q"
    using assms(1,3) by (auto simp: restored_def published_live_def)
  from evolvesD[OF status_compensate[OF this] assms(2)] compensate_partition_definite[OF assms(2,4)] assms(1)
  show ?thesis by (simp add: restored_def frames_def fingerprint_is_def)
qed

lemma refused_compensation_splits:
  assumes comp: "compensate_all cl lk (rev cs) s = (Inl e, t)" and e: "\<not> is_unknown e"
    and keys: "keys_distinct (pg s)" and cl: "writes_only_target cl"
    and tables: "distinct (map pp_target_table (cs @ ps))" and ids: "distinct (map pp_publication_id cs)"
    and pub: "\<forall>p \<in> set cs. published_live cl p s"
    and before: "\<forall>p \<in> set (cs @ ps). fingerprint_is cl p (pp_before_fingerprint p) s0"
    and same: "live_kept cl ps s0 s"
  shows "\<exists>left q finished out v. cs = left @ [q] @ finished \<and> compensate_all cl lk (rev finished) s = (Inr out, v) \<and>
     compensate_partition cl lk q True v = (Inl e, t) \<and> split_at cl s0 t left q finished ps"
proof -
  obtain ds q rs out v where cs: "rev cs = ds @ q # rs" and ds: "compensate_all cl lk ds s = (Inr out, v)"
    and q: "compensate_partition cl lk q True v = (Inl e, t)"
    using for_each_Inl[OF comp] by blast
  let ?left = "rev rs" and ?fin = "rev ds"
  have cs': "cs = ?left @ [q] @ ?fin" using arg_cong[OF cs, of rev] by simp
  have "published_live cl p v" if "p \<in> set (?left @ [q])" for p
  proof -
    have "published_live cl p s" using pub that unfolding cs' by auto
    moreover have "pp_publication_id p \<notin> pp_publication_id ` set ds"
      using ids that unfolding cs' by (auto dest: imageI[where f = pp_publication_id])
    moreover have "pp_target_table p \<notin> pp_target_table ` set ds"
      using tables that unfolding cs' by (auto dest: imageI[where f = pp_target_table])
    ultimately show ?thesis using compensation_keeps_published(1)[OF ds keys cl] by blast
  qed
  then have left: "\<forall>p \<in> set ?left. published_live cl p v" and qv: "published_live cl q v" by simp_all
  have fin: "\<forall>p \<in> set ?fin. restored cl p v"
    using compensation_restores[OF ds keys cl, of "[]"] tables unfolding cs' by (simp add: rev_map[symmetric])
  note d = compensate_partition_definite[OF q e]
  have "\<forall>p \<in> set ?left. published_live cl p t"
  proof
    fix p assume p: "p \<in> set ?left"
    have "pp_publication_id p \<noteq> pp_publication_id q" "pp_target_table p \<noteq> pp_target_table q"
      using key_before[of pp_publication_id ?left q ?fin, OF _ p]
        key_before[of pp_target_table ?left q "?fin @ ps", OF _ p] ids tables
      unfolding cs' by simp_all
    then show "published_live cl p t" using published_live_compensate[OF q _ cl] left p by blast
  qed
  moreover have "fingerprint_is cl q (pp_staged_fingerprint q) t"
    using qv d(2) by (simp add: published_live_def fingerprint_is_def)
  moreover have "status_of (pg t) (pp_publication_id q) \<in> {Some Published, Some Compensating}"
    using evolvesD[OF compensate_gate_status d(1)] qv by (auto simp: status_moves_def published_live_def)
  moreover have fin': "\<forall>p \<in> set ?fin. restored cl p t"
    using fin restored_after_refusal[OF _ q qv e] by blast
  moreover have "live_kept cl (?fin @ ps) s0 t"
  proof -
    have "live_kept cl ?fin s0 t"
      unfolding live_kept_def
    proof (intro ballI allI)
      fix p f assume "p \<in> set ?fin"
      then have "fingerprint_is cl p (pp_before_fingerprint p) t" and "p \<in> set (cs @ ps)"
        using fin' unfolding cs' by (auto simp: restored_def)
      then show "fingerprint_is cl p f t = fingerprint_is cl p f s0"
        using before before_live_kept by blast
    qed
    moreover have "live_kept cl ps s0 v"
      unfolding live_kept_def
    proof (intro ballI allI)
      fix p f assume p: "p \<in> set ps"
      have "pp_target_table p \<notin> pp_target_table ` set ds"
        using tables imageI[OF p, of pp_target_table] unfolding cs' by auto
      then show "fingerprint_is cl p f v = fingerprint_is cl p f s0"
        using compensation_others[OF ds cl, of p f] same p
        unfolding live_kept_def by blast
    qed
    ultimately show ?thesis using d(2) by (auto simp: live_kept_def fingerprint_is_def)
  qed
  ultimately have "split_at cl s0 t ?left q ?fin ps"
    unfolding split_at_def by blast
  then show ?thesis using cs' ds q
    by (intro exI[of _ ?left] exI[of _ q] exI[of _ ?fin] exI[of _ out] exI[of _ v]) simp
qed

lemma publish_members_failure:
  assumes "publish_members cl lk True cs rs ps s = (Inl e, t)" and "\<not> is_unknown e" and "is_exception e"
    and "keys_distinct (pg s)" and "writes_only_target cl" and "distinct (map pp_target_table (cs @ ps))"
    and "\<forall>p \<in> set (cs @ ps). fingerprint_is cl p (pp_before_fingerprint p) s0" and "live_kept cl ps s0 s"
    and "for_each (publish_partition cl lk) cs s1 = (Inr xs, s)" and "\<forall>p \<in> set cs. published_live cl p s"
    and "distinct (map pp_publication_id cs)"
  shows "live_kept cl (cs @ ps) s0 t \<or>
     (\<exists>left q finished rest. cs @ ps = left @ [q] @ finished @ rest \<and>
        compensation_refused cl lk s1 (cs @ ps) left q finished e t \<and> split_at cl s0 t left q finished rest)"
  using assms
proof (induction ps arbitrary: cs rs s xs)
  case Nil
  then show ?case by simp
next
  case (Cons p ps)
  let ?h = "handle (publish_partition cl lk p) (group_failure cl lk True cs)"
  consider (fail) "?h s = (Inl e, t)"
    | (next_member) x u where "?h s = (Inr x, u)" and "publish_members cl lk True (cs @ [p]) (rs @ [x]) ps u = (Inl e, t)"
    using Cons.prems(1) by (auto simp: bnd_Inl)
  then show ?case
  proof cases
    case fail
    then obtain e1 u where one: "publish_partition cl lk p s = (Inl e1, u)"
      and gf: "(group_failure cl lk True cs e1 :: ('a pstate, pub_exn, publish_result) prog) u = (Inl e, t)"
      by (auto simp: handle_def split: prod.splits sum.splits)
    then have e1: "\<not> is_unknown e1 \<and> is_exception e1"
      using Cons.prems(2,3) unfolding group_failure_def
      by (cases "is_unknown e1 \<or> \<not> is_exception e1") auto
    then have ne: "e1 \<noteq> Publication_Unknown Publish_Unreconciled"
      by (auto simp: is_unknown_def)
    note definite = publish_partition_definite[OF one ne]
    have keys: "keys_distinct (pg u)"
      using evolvesD[OF keys_publish_gate definite(1)] Cons.prems(4) by (simp add: frames_def keys_distinct_def)
    have same: "live_kept cl (p # ps) s0 u"
      using Cons.prems(8) definite(2) by (simp add: live_kept_def fingerprint_is_def)
    have pub: "\<forall>q \<in> set cs. published_live cl q u"
      using Cons.prems(10) published_live_after_failure[OF one ne Cons.prems(4)] by blast
    consider (restored) out where "compensate_all cl lk (rev cs) u = (Inr out, t)"
      | (refused) "compensate_all cl lk (rev cs) u = (Inl e, t)"
      using gf e1 by (auto simp: group_failure_def bnd_Inl bnd_Inr)
    then show ?thesis
    proof cases
      case restored
      then show ?thesis
        using compensated_group_kept[OF _ keys Cons.prems(5,6,7) same] by blast
    next
      case refused
      obtain left q finished out v where split: "cs = left @ [q] @ finished"
          "compensate_all cl lk (rev finished) u = (Inr out, v)"
          "compensate_partition cl lk q True v = (Inl e, t)" "split_at cl s0 t left q finished (p # ps)"
        using refused_compensation_splits[OF refused Cons.prems(2) keys Cons.prems(5,6,11) pub Cons.prems(7) same]
        by blast
      have "compensation_refused cl lk s1 (cs @ p # ps) left q finished e t"
        unfolding compensation_refused_def
        using split(1-3) Cons.prems(9) one e1
        by (intro exI[of _ p] exI[of _ ps] exI[of _ xs] exI[of _ s] exI[of _ e1] exI[of _ u] exI[of _ out] exI[of _ v]) simp
      then show ?thesis using split(1,4)
        by (intro disjI2 exI[of _ left] exI[of _ q] exI[of _ finished] exI[of _ "p # ps"]) simp
    qed
  next
    case next_member
    have pub: "publish_partition cl lk p s = (Inr x, u)"
      using next_member(1) by (auto simp: handle_def group_failure_def bnd_def split: prod.splits sum.splits if_splits)
    note succ = publish_partition_success[OF pub Cons.prems(4)]
    have "live_kept cl ps s u"
      using evolvesD[OF others_publish[OF Cons.prems(5)] pub] Cons.prems(6)
      by (auto simp: live_kept_def fingerprint_is_others image_iff)
    then have same: "live_kept cl ps s0 u" using Cons.prems(8) by (simp add: live_kept_def)
    have "\<forall>q \<in> set cs. published_live cl q u"
      using Cons.prems(4-6,10) published_live_kept[OF _ pub] by (auto simp: image_iff)
    then have live: "\<forall>q \<in> set (cs @ [p]). published_live cl q u"
      using succ by (auto simp: published_live_def)
    have ids: "distinct (map pp_publication_id (cs @ [p]))"
      using Cons.prems(10,11) succ(1) by (auto simp: published_live_def)
    show ?thesis
      using Cons.IH[OF next_member(2) Cons.prems(2,3) succ(4) Cons.prems(5) _ _ same
          for_each_snoc[OF Cons.prems(9) pub] live ids] Cons.prems(6,7)
      by simp
  qed
qed


text \<open>
  C7. A writer's whole run (take the lock, prepare the members, publish them as a group, give up the
  lock) moves every journal row along the publication life cycle only, whatever the servers do at
  any point: rows are never dropped or rewritten, a new row starts as prepared, and an unknown,
  aborted or compensated publication is never revived.
\<close>

theorem writer_follows_life_cycle:
  "journal_evolves s (snd (publication_lock sha lk
      (bnd (for_each (\<lambda>(target, stage, intent, given, uuid).
              prepare_partition cl sha digest lk target stage intent given uuid) plan)
         (\<lambda>members. publish_group cl lk members approved)) s))"
proof -
  have "evolves journal_evolves (bnd (for_each (\<lambda>(target, stage, intent, given, uuid).
          prepare_partition cl sha digest lk target stage intent given uuid) plan)
        (\<lambda>members. publish_group cl lk members approved))"
    by (intro je.bnd je.for_each je_publish_group) (auto intro: je_prepare_partition split: prod.split)
  then show ?thesis
    using je_publication_lock evolves_def by blast
qed

lemma be_value_bounds:
  "0 \<le> acc \<Longrightarrow> acc < 256 ^ k \<Longrightarrow>
     0 \<le> foldl (\<lambda>acc b. acc * 256 + int (b mod 256)) acc bytes \<and>
     foldl (\<lambda>acc b. acc * 256 + int (b mod 256)) acc bytes < 256 ^ (k + length bytes)"
proof (induction bytes arbitrary: acc k)
  case (Cons b bytes)
  have "acc * 256 + int (b mod 256) < 256 ^ Suc k"
  proof -
    have "acc * 256 + int (b mod 256) < (acc + 1) * 256" by simp
    also have "\<dots> \<le> 256 ^ k * 256" using Cons.prems by (intro mult_right_mono) auto
    finally show ?thesis by simp
  qed
  then show ?case using Cons.IH[of "acc * 256 + int (b mod 256)" "Suc k"] Cons.prems by simp
qed simp

lemma signed_be_bounds:
  assumes "bytes \<noteq> []"
  shows "- (2 ^ (8 * length bytes - 1)) \<le> signed_be bytes \<and> signed_be bytes < 2 ^ (8 * length bytes - 1)"
proof -
  let ?u = "foldl (\<lambda>acc b. acc * 256 + int (b mod 256)) 0 bytes"
  have "0 \<le> ?u \<and> ?u < 256 ^ length bytes" using be_value_bounds[of 0 0 bytes] by simp
  moreover have "(256::int) ^ length bytes = 2 ^ (8 * length bytes)"
    by (simp add: power_mult)
  moreover have "(2::int) ^ (8 * length bytes) = 2 * 2 ^ (8 * length bytes - 1)"
    using assms by (subst power_eq_if) simp
  ultimately show ?thesis by (auto simp: signed_be_def Let_def)
qed

text \<open>
  The advisory lock key fits the \<open>bigint\<close> parameter of \<open>pg_try_advisory_lock\<close>, whatever the
  digest, and only the \<open>orders\<close> dataset has one.
\<close>

theorem advisory_lock_key_is_bigint:
  "case advisory_lock_key sha dataset dt of
     Inl e \<Rightarrow> e = Value_Error Unsupported_Dataset \<and> dataset \<noteq> ''orders''
   | Inr key \<Rightarrow> dataset = ''orders'' \<and> - (2 ^ 63) \<le> key \<and> key < 2 ^ 63"
proof -
  have "- (2 ^ 63) \<le> signed_be (take 8 bytes) \<and> signed_be (take 8 bytes) < 2 ^ 63" for bytes
  proof (cases "bytes = []")
    case True
    then show ?thesis by (simp add: signed_be_def)
  next
    case False
    then have "take 8 bytes \<noteq> []" by simp
    moreover have "(2::int) ^ (8 * length (take 8 bytes) - 1) \<le> 2 ^ 63" by (rule power_increasing) auto
    ultimately show ?thesis using signed_be_bounds[of "take 8 bytes"] by linarith
  qed
  then show ?thesis by (simp add: advisory_lock_key_def)
qed


end
