(* ===== verification/Publication_Instance.thy ===== *)
theory Publication_Instance
  imports Publication_Group
begin

text \<open>
  A small ClickHouse for the publication theorems: every table has the same structure, a
  partition is its fingerprint, replacing copies one and dropping empties it. Commands on a
  table of \<open>bad\<close> fail without effect, those on a table of \<open>torn\<close> fail after it. The theorems'
  hypotheses hold of it, and the runs below evaluate the model on it.
\<close>

type_synonym store = "((string \<times> date) \<times> fingerprint) list"

definition stored :: "store \<Rightarrow> string \<Rightarrow> date \<Rightarrow> fingerprint" where
  "stored w table dt = (case find (\<lambda>e. fst e = (table, dt)) w of None \<Rightarrow> (0, 0, 0) | Some e \<Rightarrow> snd e)"

fun execute :: "ch_command \<Rightarrow> store \<Rightarrow> store" where
  "execute (Create_Database d) w = w"
| "execute (Create_Table_As d t) w = w"
| "execute (Insert_Select d cs s dt) w = ((d, dt), stored w s dt) # w"
| "execute (Replace_Partition t dt s) w = ((t, dt), stored w s dt) # w"
| "execute (Drop_Partition t dt) w = ((t, dt), (0, 0, 0)) # w"

definition demo_client :: "string list \<Rightarrow> string list \<Rightarrow> store client" where
  "demo_client bad torn =
     \<lparr>query_tables = (\<lambda>w d n. Inr [\<lparr>tb_engine = ''MergeTree'', tb_engine_full = [], tb_partition_key = ''dt'',
        tb_sorting_key = [], tb_primary_key = [], tb_sampling_key = [], tb_storage_policy = [],
        tb_create_query = ''CREATE TABLE t (dt Date)''\<rparr>]),
      query_columns = (\<lambda>w d n. Inr [(''dt'', ''Date'', [], [], [])]),
      query_fingerprint = (\<lambda>w t dt. Inr [(case stored w t dt of (a, b, c) \<Rightarrow> (Some a, Some b, Some c))]),
      query_outside = (\<lambda>w t dt. Inr [0]),
      run_command = (\<lambda>c w. case command_table c of
          Some t \<Rightarrow> if t \<in> set bad then (Inl Server_Error, w)
                    else if t \<in> set torn then (Inl Server_Error, execute c w) else (Inr (), execute c w)
        | None \<Rightarrow> (Inr (), execute c w))\<rparr>"

lemma stored_execute: "command_table c \<noteq> Some t \<Longrightarrow> stored (execute c w) t = stored w t"
  by (cases c) (auto simp: stored_def fun_eq_iff)

lemma demo_writes_only_target: "writes_only_target (demo_client bad torn)"
  by (auto simp: writes_only_target_def demo_client_def stored_execute split: option.splits)

definition demo_date :: date where "demo_date = Date 2024 1 2"

definition demo_lock :: lock_id where
  "demo_lock = \<lparr>lk_dataset = ''orders'', lk_dt = demo_date, lk_execution = ''run''\<rparr>"

definition demo_shape :: table_shape where
  "demo_shape = \<lparr>st_properties = [''MergeTree'', [], ''dt'', [], [], [], []],
     st_columns = [(''dt'', ''Date'', [], [], [])], st_ddl_body = ''(dt Date)''\<rparr>"

definition demo_pre :: preconditions where
  "demo_pre = \<lparr>pc_revision = 4, pc_watermark = ''w''\<rparr>"

definition demo_prepared :: "string \<Rightarrow> string \<Rightarrow> prepared" where
  "demo_prepared pid name =
     \<lparr>pp_publication_id = pid, pp_execution_id = ''run'', pp_target_table = ''dq.'' @ name,
      pp_stage_table = ''s.'' @ name, pp_backup_table = ''b.'' @ name, pp_partition_dt = demo_date,
      pp_preconditions = demo_pre, pp_before_fingerprint = (1, 2, 3), pp_staged_fingerprint = (2, 5, 7),
      pp_structure = demo_shape, pp_rows = 2, pp_intent = ''daily''\<rparr>"

definition demo_row :: "pub_status \<Rightarrow> prepared \<Rightarrow> journal_row" where
  "demo_row st p =
     \<lparr>pj_publication_id = pp_publication_id p, pj_execution_id = ''run'', pj_dataset = ''orders'',
      pj_dt = demo_date, pj_target = pp_target_table p, pj_stage = pp_stage_table p,
      pj_backup = pp_backup_table p, pj_expected = demo_pre, pj_before = (1, 2, 3), pj_staged = (2, 5, 7),
      pj_status = st, pj_intent = ''daily'', pj_structure_hash = [], pj_rows = 2\<rparr>"

definition demo_members :: "prepared list" where
  "demo_members = [demo_prepared ''p1'' ''raw_orders'', demo_prepared ''p2'' ''stg_orders'']"

definition demo_cells :: store where
  "demo_cells = [((''dq.raw_orders'', demo_date), (1, 2, 3)), ((''s.raw_orders'', demo_date), (2, 5, 7)),
     ((''b.raw_orders'', demo_date), (1, 2, 3)), ((''dq.stg_orders'', demo_date), (1, 2, 3)),
     ((''s.stg_orders'', demo_date), (2, 5, 7)), ((''b.stg_orders'', demo_date), (1, 2, 3))]"

definition demo_at :: "pub_status \<Rightarrow> pub_status \<Rightarrow> preconditions \<Rightarrow> store \<Rightarrow> pg_fault list \<Rightarrow> preconditions set \<Rightarrow> store pstate" where
  "demo_at a b pre w fs own =
     \<lparr>world = w @ demo_cells,
      pg = \<lparr>revisions = [\<lparr>rv_dataset = ''orders'', rv_dt = demo_date, rv_revision = pc_revision pre,
                rv_watermark = pc_watermark pre\<rparr>],
            journal = [demo_row a (hd demo_members), demo_row b (last demo_members)],
            held_elsewhere = [], held_here = []\<rparr>,
      faults = fs, active = True, owned = own\<rparr>"

definition demo_state :: "pub_status \<Rightarrow> pg_fault list \<Rightarrow> store pstate" where
  "demo_state st fs = demo_at st st demo_pre [] fs {demo_pre}"

lemma demo_keys: "keys_distinct (pg (demo_state st fs))"
  by code_simp

definition succeeds :: "('e + 'a) \<times> 's \<Rightarrow> bool" where
  "succeeds r = (case fst r of Inr _ \<Rightarrow> True | Inl _ \<Rightarrow> False)"

definition fails_with :: "'e \<Rightarrow> ('e + 'a) \<times> 's \<Rightarrow> bool" where
  "fails_with e r = (case fst r of Inr _ \<Rightarrow> False | Inl e' \<Rightarrow> e' = e)"

lemma succeedsE: "succeeds r \<Longrightarrow> (\<And>x t. r = (Inr x, t) \<Longrightarrow> P) \<Longrightarrow> P"
  by (cases r) (auto simp: succeeds_def split: sum.splits)

lemma fails_withE: "fails_with e r \<Longrightarrow> (\<And>t. r = (Inl e, t) \<Longrightarrow> P) \<Longrightarrow> P"
  by (cases r) (auto simp: fails_with_def split: sum.splits)


definition demo_writer :: "lock_id" where
  "demo_writer = \<lparr>lk_dataset = ''orders'', lk_dt = demo_date, lk_execution = ''other''\<rparr>"

lemma unresolved_publication_blocks_writers_witness:
  "world (snd (publication_lock (\<lambda>_. []) demo_writer (ret ()) (demo_state Status_Unknown []))) = world (demo_state Status_Unknown [])"
proof -
  have "sql_any (unresolved_at demo_writer) (journal (pg (demo_state Status_Unknown [])))"
    by code_simp
  from unresolved_publication_blocks_writers[OF this surjective_pairing] show ?thesis by blast
qed

lemma unreconciled_blocks_next_writer_witness:
  "\<exists>t. publish_partition (demo_client [] [''dq.raw_orders'']) demo_lock (hd demo_members) (demo_state Prepared [])
        = (Inl (Publication_Unknown Publish_Unreconciled), t) \<and>
     (\<exists>e. fst (publication_lock (\<lambda>_. []) demo_writer (ret ()) t) = Inl e) \<and>
     world (snd (publication_lock (\<lambda>_. []) demo_writer (ret ()) t)) = world t"
proof -
  let ?r = "publish_partition (demo_client [] [''dq.raw_orders'']) demo_lock (hd demo_members) (demo_state Prepared [])"
  have "fails_with unreconciled ?r" by code_simp
  then obtain t where run: "?r = (Inl unreconciled, t)" by (rule fails_withE)
  have "status_of (pg (snd ?r)) (pp_publication_id (hd demo_members)) \<noteq> Some Published" by code_simp
  then have st: "status_of (pg t) (pp_publication_id (hd demo_members)) \<noteq> Some Published" by (simp add: run)
  have same: "lk_dataset demo_writer = lk_dataset demo_lock" "lk_dt demo_writer = lk_dt demo_lock"
    by (simp_all add: demo_lock_def demo_writer_def)
  show ?thesis
    using unreconciled_blocks_next_writer[OF demo_keys run same surjective_pairing, of "\<lambda>_. []" "ret ()"] st run by blast
qed


subsection \<open>A group of two members\<close>

definition demo_next :: preconditions where
  "demo_next = \<lparr>pc_revision = 5, pc_watermark = ''p1:published''\<rparr>"

lemma demo_preflight:
  "preflight_member (demo_client [] []) demo_lock (hd demo_members) (demo_state Prepared (Pg_Ok # fs))
     = (Inr (), demo_state Prepared fs)"
  "preflight_member (demo_client [] []) demo_lock (last demo_members) (demo_state Prepared (Pg_Ok # fs))
     = (Inr (), demo_state Prepared fs)"
  by code_simp+

definition demo_half :: "pg_fault list \<Rightarrow> store pstate" where
  "demo_half fs = demo_at Published Prepared demo_next [((''dq.raw_orders'', demo_date), (2, 5, 7))] fs {demo_next, demo_pre}"

lemma demo_publish_first:
  "publish_partition (demo_client [] []) demo_lock (hd demo_members)
      (demo_state Prepared (Pg_Ok # Pg_Ok # Pg_Ok # Pg_Ok # Pg_Ok # fs)) =
     (Inr \<lparr>pr_publication_id = ''p1'', pr_table = ''dq.raw_orders'', pr_status = Published, pr_revision = 5,
        pr_watermark = ''p1:published'', pr_rows = 2, pr_backup = ''b.raw_orders''\<rparr>,
      demo_half fs)"
  by code_simp

lemma demo_publish_second:
  "succeeds (publish_partition (demo_client [] []) demo_lock (last demo_members)
     (demo_half []))"
  by code_simp

lemma demo_second_fails:
  "publish_partition (demo_client [] []) demo_lock (last demo_members) (demo_half [Pg_Fails]) = (Inl Pg_Error, demo_half [])"
  by code_simp

lemma demo_compensate_first:
  "succeeds (compensate_partition (demo_client [] []) demo_lock (hd demo_members) True
     (demo_half []))"
  by code_simp

lemma demo_split: "demo_members = [hd demo_members, last demo_members]"
  by (simp add: demo_members_def)

lemma demo_group_start: "demo_members \<noteq> [] \<and> distinct (map pp_target_table demo_members)"
  by code_simp

lemma publish_group_success_witness:
  "\<exists>out t. publish_group (demo_client [] []) demo_lock demo_members True
      (demo_state Prepared (replicate 7 Pg_Ok)) = (Inr out, t) \<and>
     (\<forall>p \<in> set demo_members. published_live (demo_client [] []) p t)"
proof -
  obtain x t where "publish_partition (demo_client [] []) demo_lock (last demo_members)
     (demo_half []) = (Inr x, t)"
    using demo_publish_second by (rule succeedsE)
  then have "succeeds (publish_group (demo_client [] []) demo_lock demo_members True (demo_state Prepared (replicate 7 Pg_Ok)))"
    using demo_group_start unfolding publish_group_def
    by (subst (1 2) demo_split) (simp add: bnd_def demo_preflight demo_publish_first eval_nat_numeral succeeds_def handle_def)
  then show ?thesis
    by (rule succeedsE) (use publish_group_success[OF _ demo_keys demo_writes_only_target] in blast)
qed


end
