(* ===== verification/Json.thy ===== *)
theory Json
  imports Prelude "HOL-Library.List_Lexorder" "HOL-Library.Multiset"
begin

text \<open>
  JSON values as the modelled Python code passes them around, and the canonical text
  \<open>json.dumps(x, sort_keys=True, separators=(",", ":"), ensure_ascii=True, allow_nan=False)\<close>
  from which \<open>approval_control_store.py\<close>, \<open>approval_queue.py\<close> and \<open>recovery/contracts.py\<close>
  compute idempotency hashes.

  A float is kept as its \<open>repr\<close>; \<open>JNon_Finite\<close> is NaN or an infinity, \<open>JOpaque\<close> any Python
  object that is not JSON. A dictionary is an association list; dictionary equality is equality
  of the canonical forms, in which the keys are sorted.
\<close>

datatype json =
    JNull | JBool bool | JInt int | JReal string | JNon_Finite | JStr string
  | JArr "json list" | JObj "(string \<times> json) list" | JOpaque

fun canon :: "json \<Rightarrow> json"
  and canon_items :: "json list \<Rightarrow> json list"
  and canon_fields :: "(string \<times> json) list \<Rightarrow> (string \<times> json) list" where
  "canon JNull = JNull"
| "canon (JBool b) = JBool b"
| "canon (JInt i) = JInt i"
| "canon (JReal r) = JReal r"
| "canon JNon_Finite = JNon_Finite"
| "canon (JStr s) = JStr s"
| "canon (JArr xs) = JArr (canon_items xs)"
| "canon (JObj kvs) = JObj (sort_key fst (canon_fields kvs))"
| "canon JOpaque = JOpaque"
| "canon_items [] = []"
| "canon_items (x # xs) = canon x # canon_items xs"
| "canon_fields [] = []"
| "canon_fields ((k, v) # kvs) = (k, canon v) # canon_fields kvs"

definition json_eq :: "json \<Rightarrow> json \<Rightarrow> bool" where
  "json_eq a b \<longleftrightarrow> canon a = canon b"

definition hex4 :: "nat \<Rightarrow> string" where
  "hex4 n = map (\<lambda>d. if d < 10 then char_of (48 + d) else char_of (87 + d)) [n div 4096 mod 16, n div 256 mod 16, n div 16 mod 16, n mod 16]"

definition escape_char :: "char \<Rightarrow> string" where
  "escape_char c =
     (let n = (of_char c :: nat)
      in if n = 34 then [CHR 0x5C, CHR 0x22]
         else if n = 92 then [CHR 0x5C, CHR 0x5C]
         else if n = 10 then [CHR 0x5C, CHR ''n'']
         else if n = 13 then [CHR 0x5C, CHR ''r'']
         else if n = 9 then [CHR 0x5C, CHR ''t'']
         else if n = 12 then [CHR 0x5C, CHR ''f'']
         else if n = 8 then [CHR 0x5C, CHR ''b'']
         else if 32 \<le> n \<and> n \<le> 126 then [c]
         else CHR 0x5C # CHR ''u'' # hex4 n)"

definition json_string :: "string \<Rightarrow> string" where
  "json_string s = CHR 0x22 # concat (map escape_char s) @ [CHR 0x22]"

definition int_str :: "int \<Rightarrow> string" where
  "int_str i = (if i < 0 then CHR ''-'' # nat_str (nat (- i)) else nat_str (nat i))"

text \<open>The text of a value whose keys are in order; \<open>None\<close> where \<open>json.dumps\<close> raises.\<close>

fun dump :: "json \<Rightarrow> string option"
  and dump_items :: "json list \<Rightarrow> string option"
  and dump_fields :: "(string \<times> json) list \<Rightarrow> string option" where
  "dump JNull = Some ''null''"
| "dump (JBool b) = Some (if b then ''true'' else ''false'')"
| "dump (JInt i) = Some (int_str i)"
| "dump (JReal r) = Some r"
| "dump JNon_Finite = None"
| "dump (JStr s) = Some (json_string s)"
| "dump (JArr xs) = map_option (\<lambda>t. ''['' @ t @ '']'') (dump_items xs)"
| "dump (JObj kvs) = map_option (\<lambda>t. ''{'' @ t @ ''}'') (dump_fields kvs)"
| "dump JOpaque = None"
| "dump_items [] = Some []"
| "dump_items (x # xs) =
     (case dump x of None \<Rightarrow> None
      | Some t \<Rightarrow> if xs = [] then Some t else map_option (\<lambda>r. t @ '','' @ r) (dump_items xs))"
| "dump_fields [] = Some []"
| "dump_fields ((k, v) # kvs) =
     (case dump v of None \<Rightarrow> None
      | Some t \<Rightarrow> if kvs = [] then Some (json_string k @ '':'' @ t)
                 else map_option (\<lambda>r. json_string k @ '':'' @ t @ '','' @ r) (dump_fields kvs))"

definition dumps :: "json \<Rightarrow> string option" where
  "dumps j = dump (canon j)"

type_synonym fields = "(string \<times> json) list"

text \<open>\<open>d.get(k, default)\<close> and the truth value of a value.\<close>

definition get_json :: "fields \<Rightarrow> string \<Rightarrow> json \<Rightarrow> json" where
  "get_json scope k dflt = (case map_of scope k of Some v \<Rightarrow> v | None \<Rightarrow> dflt)"

definition json_truthy :: "json \<Rightarrow> bool" where
  "json_truthy j = (case j of JNull \<Rightarrow> False | JBool b \<Rightarrow> b | JInt i \<Rightarrow> i \<noteq> 0
     | JReal r \<Rightarrow> r \<noteq> ''0.0'' \<and> r \<noteq> ''-0.0'' | JStr s \<Rightarrow> s \<noteq> [] | JArr xs \<Rightarrow> xs \<noteq> [] | JObj kvs \<Rightarrow> kvs \<noteq> [] | _ \<Rightarrow> True)"

text \<open>\<open>any(part in key.lower() for part in ...)\<close>: both approval files use the same fragments.\<close>

definition SENSITIVE_KEY_PARTS :: "string list" where
  "SENSITIVE_KEY_PARTS = [''api_key'', ''credential'', ''password'', ''secret'', ''token'']"

definition sensitive_key :: "string \<Rightarrow> bool" where
  "sensitive_key key = list_ex (\<lambda>part. contains part (lower key)) SENSITIVE_KEY_PARTS"

text \<open>Every key of every object inside a value.\<close>

fun keys_of :: "json \<Rightarrow> string set"
  and keys_of_items :: "json list \<Rightarrow> string set"
  and keys_of_fields :: "fields \<Rightarrow> string set" where
  "keys_of (JArr xs) = keys_of_items xs"
| "keys_of (JObj kvs) = keys_of_fields kvs"
| "keys_of _ = {}"
| "keys_of_items [] = {}"
| "keys_of_items (x # xs) = keys_of x \<union> keys_of_items xs"
| "keys_of_fields [] = {}"
| "keys_of_fields ((k, v) # kvs) = insert k (keys_of v \<union> keys_of_fields kvs)"

lemma sort_fields_mset:
  assumes "mset xs = mset ys" and "distinct (map fst xs)"
  shows "sort_key fst xs = sort_key fst (ys :: fields)"
  using assms by (intro sort_key_inj_key_eq) (simp_all add: distinct_map)

lemma canon_fields_map: "canon_fields kvs = map (\<lambda>(k, v). (k, canon v)) kvs"
  by (induction kvs) auto

end
