(* ===== verification/Approval_Control.thy ===== *)
theory Approval_Control
  imports Json
begin

text \<open>
  \<open>agent/tools/approval_control_store.py\<close>: the PostgreSQL store of approval requests, with the
  public view of a stored row (\<open>ApprovalRequest\<close>, \<open>approval_from_control_record\<close> of
  \<open>agent/tools/approval_queue.py\<close>) that the store puts into its outbox.

  State (\<open>control\<close>): the tables \<open>approval_requests\<close>, \<open>approval_projection_outbox\<close>,
  \<open>approval_legacy_imports\<close> and \<open>incident_controls\<close> (of which the store reads the status), and a
  schedule: the start time of each coming transaction and what becomes of its commit. A
  transaction that raises is rolled back; a commit can also fail, or succeed with its
  acknowledgement lost, and the caller sees the same exception in both cases.

  The table's CHECK constraints and the trigger of the two migrations
  \<open>infra/init/postgres/01_approval_control_store.sql\<close> and \<open>11_legacy_approval_control.sql\<close> are part
  of the model, because they decide what an INSERT or UPDATE does.

  Pydantic is not code of the repository: its conversions of a JSON value to a date, a boolean,
  a UUID and an integer are the parameter \<open>py\<close>; SHA-256 is the parameter \<open>sha\<close>.
\<close>

section \<open>Data\<close>

datatype approval_status = Pending | Approved | Rejected | Cancelled

datatype execution_status =
  Not_Started | Dispatching | Dispatched | Succeeded | Failed | Execution_Unknown

record control_row =
  cr_request_id :: string
  cr_idempotency_hash :: string
  cr_generation :: int
  cr_action_type :: string
  cr_scope :: fields
  cr_requested_by :: string
  cr_reason :: string
  cr_status :: approval_status
  cr_version :: int
  cr_created_at :: int
  cr_updated_at :: int
  cr_decided_by :: "string option"
  cr_decided_at :: "int option"
  cr_comment :: string
  cr_cancelled_by :: "string option"
  cr_cancelled_at :: "int option"
  cr_run_id :: "string option"
  cr_execution :: execution_status
  cr_error :: string

datatype approval_conflict =
    Transition_Rejected approval_status execution_status int | Incident_Resolved
  | Idempotency_Unverified | Id_Hash_Collision | Different_Scope | Legacy_In_Flight
  | Legacy_Not_Reviewed | History_Changed | Import_Missing | Import_Scope_Conflict
  | Import_In_Flight | Existing_Not_Imported | Self_Approval | Legacy_Cannot_Execute
  | Stale_Version | Only_Backfill | Claimed_By_Other

datatype approval_error =
    Bad_Actor | Bad_Identifier | Bad_Generation | Bad_Version | Not_Json | Credential_Key
  | Unsupported_Action | Empty_Scope | Scope_Too_Large | Not_Recovery_Requester
  | Recovery_Scope_Not_Exact | Bad_Reason | Bad_Decision | Comment_Too_Long | Bad_Outcome
  | Bad_Error_Text | Bad_Status_Filter | Source_Hash_Mismatch
  | Validation_Failed
  | Not_Found
  | Conflict approval_conflict
  | Db_Error
  | Blank_Actor | Blank_Run_Id | Delivery_Failed

subsection \<open>The public view\<close>

record pydantic =
  as_date :: "json \<Rightarrow> date option"
  as_bool :: "json \<Rightarrow> bool option"
  as_uuid :: "json \<Rightarrow> string option"
  as_int :: "json \<Rightarrow> int option"

record approval =
  ap_request_id :: string
  ap_created_at :: int
  ap_updated_at :: int
  ap_alert_id :: "string option"
  ap_alert_key :: string
  ap_agent_run_id :: "string option"
  ap_action_type :: string
  ap_risk_level :: string
  ap_status :: approval_status
  ap_requested_by :: string
  ap_reason :: string
  ap_dispatcher_dag_id :: string
  ap_target_dag_id :: string
  ap_start_date :: "date option"
  ap_end_date :: "date option"
  ap_parameters :: fields
  ap_dry_run :: bool
  ap_idempotency_key :: string
  ap_decided_by :: string
  ap_decided_at :: "int option"
  ap_decision_comment :: string
  ap_run_id :: string
  ap_execution :: execution_status
  ap_error :: string
  ap_version :: "int option"
  ap_eligibility :: string

definition RECOVERY_DISPATCHER_DAG_ID :: string where
  "RECOVERY_DISPATCHER_DAG_ID = ''90_05_dag_dq_incident_recovery''"

definition as_str :: "json \<Rightarrow> string option" where
  "as_str j = (case j of JStr s \<Rightarrow> Some s | _ \<Rightarrow> None)"

definition as_dict :: "json \<Rightarrow> fields option" where
  "as_dict j = (case j of JObj kvs \<Rightarrow> Some kvs | _ \<Rightarrow> None)"

text \<open>A field of a pydantic model: its default when the key is absent, else the conversion.\<close>

definition field :: "fields \<Rightarrow> string \<Rightarrow> 'a option \<Rightarrow> (json \<Rightarrow> 'a option) \<Rightarrow> 'a option" where
  "field env k dflt conv = (case map_of env k of None \<Rightarrow> dflt | Some v \<Rightarrow> conv v)"

text \<open>A field of type \<open>T | None\<close>.\<close>

definition nullable :: "(json \<Rightarrow> 'a option) \<Rightarrow> json \<Rightarrow> 'a option option" where
  "nullable conv j = (case j of JNull \<Rightarrow> Some None | _ \<Rightarrow> map_option Some (conv j))"

text \<open>
  \<open>dict(scope.get("_approval_request", {}))\<close>, \<open>None\<close> where it raises; a list of pairs, which Python
  would turn into a dictionary, is not distinguished from other values that are not objects.
\<close>

definition stored_envelope :: "fields \<Rightarrow> fields option" where
  "stored_envelope scope =
     (case map_of scope ''_approval_request'' of
        None \<Rightarrow> Some []
      | Some (JObj kvs) \<Rightarrow> Some kvs
      | Some (JArr []) \<Rightarrow> Some []
      | Some (JStr []) \<Rightarrow> Some []
      | Some _ \<Rightarrow> None)"

definition control_envelope :: "string \<Rightarrow> fields \<Rightarrow> fields option" where
  "control_envelope action_type scope =
     (let recovery = (action_type = ''recover_partition'');
          dt = get_json scope ''dt'' (get_json scope ''date'' JNull)
      in case stored_envelope scope of
           None \<Rightarrow> None
         | Some (f # fs) \<Rightarrow> Some (f # fs)
         | Some [] \<Rightarrow> Some
             [(''alert_key'', get_json scope ''alert_key'' (JStr [])),
              (''risk_level'', JStr ''high''),
              (''dispatcher_dag_id'', JStr (if recovery then RECOVERY_DISPATCHER_DAG_ID
                                            else ''90_02_dag_dq_platform_approved_actions'')),
              (''target_dag_id'', if recovery then JStr RECOVERY_DISPATCHER_DAG_ID
                                  else get_json scope ''target_dag_id'' (JStr [])),
              (''start_date'', dt), (''end_date'', dt), (''parameters'', JObj scope), (''dry_run'', JBool False)])"

definition eligibility :: "fields \<Rightarrow> json" where
  "eligibility scope = get_json scope ''execution_eligibility'' (JStr ''eligible'')"

definition approval_from_control_record :: "pydantic \<Rightarrow> control_row \<Rightarrow> approval_error + approval" where
  "approval_from_control_record py r =
     (case control_envelope (cr_action_type r) (cr_scope r) of
        None \<Rightarrow> Inl Validation_Failed
      | Some env \<Rightarrow>
          (case (field env ''alert_id'' (Some None) (nullable (as_uuid py)),
               field env ''alert_key'' (Some []) as_str,
               field env ''agent_run_id'' (Some None) (nullable (as_uuid py)),
               field env ''risk_level'' None as_str,
               field env ''dispatcher_dag_id'' None as_str,
               field env ''target_dag_id'' None as_str)
         of (Some aid, Some key, Some run, Some risk, Some disp, Some target) \<Rightarrow>
             (case (field env ''start_date'' (Some None) (nullable (as_date py)),
                    field env ''end_date'' (Some None) (nullable (as_date py)),
                    field env ''parameters'' (Some []) as_dict,
                    field env ''dry_run'' (Some False) (as_bool py),
                    as_str (eligibility (cr_scope r)))
              of (Some sd, Some ed, Some params, Some dry, Some el) \<Rightarrow>
                Inr \<lparr>ap_request_id = cr_request_id r, ap_created_at = cr_created_at r,
                     ap_updated_at = cr_updated_at r, ap_alert_id = aid, ap_alert_key = key,
                     ap_agent_run_id = run, ap_action_type = cr_action_type r, ap_risk_level = risk,
                     ap_status = cr_status r, ap_requested_by = cr_requested_by r, ap_reason = cr_reason r,
                     ap_dispatcher_dag_id = disp, ap_target_dag_id = target, ap_start_date = sd,
                     ap_end_date = ed, ap_parameters = params, ap_dry_run = dry,
                     ap_idempotency_key = cr_idempotency_hash r,
                     ap_decided_by = (case if cr_status r = Cancelled then cr_cancelled_by r else cr_decided_by r
                                      of None \<Rightarrow> [] | Some a \<Rightarrow> a),
                     ap_decided_at = (if cr_status r = Cancelled then cr_cancelled_at r else cr_decided_at r),
                     ap_decision_comment = cr_comment r,
                     ap_run_id = (case cr_run_id r of None \<Rightarrow> [] | Some x \<Rightarrow> x),
                     ap_execution = cr_execution r, ap_error = cr_error r,
                     ap_version = Some (cr_version r), ap_eligibility = el\<rparr>
              | _ \<Rightarrow> Inl Validation_Failed)
         | _ \<Rightarrow> Inl Validation_Failed))"


subsection \<open>Tables\<close>

record payload =
  pl_record :: control_row
  pl_event :: string
  pl_actor :: string

record outbox_row =
  ob_request_id :: string
  ob_version :: int
  ob_payload :: payload
  ob_audit_done :: bool
  ob_projection_done :: bool

record import_row =
  im_request_id :: string
  im_source_hash :: string
  im_history :: "json list"

datatype commit = Commit_Ok | Commit_Fails | Commit_Ack_Lost

text \<open>\<open>sent\<close> is outside the database: the acknowledged appends to ClickHouse, which no rollback undoes.\<close>

datatype phase = Audit | Projection

record control =
  requests :: "control_row list"
  outbox :: "outbox_row list"
  legacy_imports :: "import_row list"
  incidents :: "(string \<times> string) list"
  now :: int
  schedule :: "(int \<times> commit) list"
  sent :: "(phase \<times> string \<times> int) list"

definition SUPPORTED_ACTION_TYPES :: "string list" where
  "SUPPORTED_ACTION_TYPES =
     [''backfill'', ''rerun_dbt'', ''create_ticket'', ''post_notification'', ''recover_partition'']"

definition RECOVERY_REQUESTER :: string where
  "RECOVERY_REQUESTER = ''datasentry_recovery''"

definition is_hash :: "string \<Rightarrow> bool" where
  "is_hash h \<longleftrightarrow> length h = 64 \<and>
     list_all (\<lambda>c. let n = (of_char c :: nat) in (48 \<le> n \<and> n \<le> 57) \<or> (97 \<le> n \<and> n \<le> 102)) h"

text \<open>The CHECK constraints of \<open>approval_requests\<close>.\<close>

definition row_checks :: "control_row \<Rightarrow> bool" where
  "row_checks r \<longleftrightarrow>
     is_hash (cr_idempotency_hash r) \<and> 1 \<le> cr_generation r \<and> cr_generation r \<le> 1000000 \<and>
     cr_action_type r \<in> set SUPPORTED_ACTION_TYPES \<and>
     1 \<le> length (cr_requested_by r) \<and> length (cr_requested_by r) \<le> 200 \<and>
     5 \<le> length (cr_reason r) \<and> length (cr_reason r) \<le> 2000 \<and> 0 < cr_version r \<and>
     (case cr_status r of
        Pending \<Rightarrow> cr_decided_at r = None
      | Cancelled \<Rightarrow> cr_decided_at r = None \<or> cr_decided_by r \<noteq> None
      | _ \<Rightarrow> cr_decided_by r \<noteq> None \<and> cr_decided_at r \<noteq> None) \<and>
     ((cr_execution r = Not_Started \<and> cr_run_id r = None) \<or> (cr_status r = Approved \<and> cr_run_id r \<noteq> None))"

text \<open>The trigger's check on the requester of a recovery, on INSERT and UPDATE.\<close>

definition trigger_new :: "control_row \<Rightarrow> bool" where
  "trigger_new r \<longleftrightarrow> \<not> (cr_action_type r = ''recover_partition'' \<and> cr_requested_by r \<noteq> RECOVERY_REQUESTER)"

definition identity_of :: "control_row \<Rightarrow> string \<times> string \<times> int \<times> string \<times> fields \<times> string \<times> string \<times> int" where
  "identity_of r = (cr_request_id r, cr_idempotency_hash r, cr_generation r, cr_action_type r, cr_scope r,
     cr_requested_by r, cr_reason r, cr_created_at r)"

definition trigger_update :: "control_row \<Rightarrow> control_row \<Rightarrow> bool" where
  "trigger_update old new \<longleftrightarrow>
     identity_of new = identity_of old \<and> cr_version new = cr_version old + 1 \<and> trigger_new new"

definition enqueue_row :: "control_row \<Rightarrow> string \<Rightarrow> string \<Rightarrow> outbox_row list \<Rightarrow> outbox_row list" where
  "enqueue_row r event actor rows =
     (if sql_any (\<lambda>q. ob_request_id q = cr_request_id r \<and> ob_version q = cr_version r) rows then rows
      else rows @ [\<lparr>ob_request_id = cr_request_id r, ob_version = cr_version r,
                    ob_payload = \<lparr>pl_record = r, pl_event = event, pl_actor = actor\<rparr>,
                    ob_audit_done = False, ob_projection_done = False\<rparr>])"

definition trigger_event :: "control_row option \<Rightarrow> control_row \<Rightarrow> string \<times> string" where
  "trigger_event old new =
     (case old of
        None \<Rightarrow> (''approval_requested'', cr_requested_by new)
      | Some r \<Rightarrow>
          if cr_status new = Cancelled \<and> cr_status r \<noteq> Cancelled
          then (''approval_cancelled'', case cr_cancelled_by new of Some a \<Rightarrow> a | None \<Rightarrow> ''system'')
          else if cr_status new \<noteq> cr_status r
          then (''approval_decision'', case cr_decided_by new of Some a \<Rightarrow> a | None \<Rightarrow> ''system'')
          else (''approval_execution_transition'', ''airflow''))"

definition fire_trigger :: "control_row option \<Rightarrow> control_row \<Rightarrow> control \<Rightarrow> control" where
  "fire_trigger old new s =
     (case trigger_event old new of (event, actor) \<Rightarrow> s\<lparr>outbox := enqueue_row new event actor (outbox s)\<rparr>)"

section \<open>Transactions and statements\<close>

type_synonym 'a control_prog = "(control, approval_error, 'a) prog"

definition start :: "control \<Rightarrow> control \<times> commit" where
  "start s = (case schedule s of
      [] \<Rightarrow> (s, Commit_Ok)
    | (t, c) # rest \<Rightarrow> (s\<lparr>now := t, schedule := rest\<rparr>, c))"

definition in_transaction :: "'a control_prog \<Rightarrow> 'a control_prog" where
  "in_transaction body = (\<lambda>s.
     let (s0, c) = start s
     in case body s0 of
          (Inl e, t) \<Rightarrow> (Inl e, s0\<lparr>sent := sent t\<rparr>)
        | (Inr x, t) \<Rightarrow> (case c of
              Commit_Ok \<Rightarrow> (Inr x, t)
            | Commit_Fails \<Rightarrow> (Inl Db_Error, s0\<lparr>sent := sent t\<rparr>)
            | Commit_Ack_Lost \<Rightarrow> (Inl Db_Error, t)))"

definition select_one :: "(control_row \<Rightarrow> bool) \<Rightarrow> control_row option control_prog" where
  "select_one P = gets (\<lambda>s. find P (requests s))"

definition latest :: "string \<Rightarrow> control_row option control_prog" where
  "latest request_id = select_one (\<lambda>r. cr_request_id r = request_id)"

text \<open>\<open>UPDATE .. WHERE request_id = .. AND P .. RETURNING\<close>: at most one row, by the primary key.\<close>

definition update_request ::
    "string \<Rightarrow> (control_row \<Rightarrow> bool) \<Rightarrow> (int \<Rightarrow> control_row \<Rightarrow> control_row) \<Rightarrow> control_row option control_prog" where
  "update_request request_id P f = (\<lambda>s.
     case find (\<lambda>r. cr_request_id r = request_id \<and> P r) (requests s) of
       None \<Rightarrow> (Inr None, s)
     | Some old \<Rightarrow>
         let new = f (now s) old
         in if row_checks new \<and> trigger_update old new
            then (Inr (Some new),
                  fire_trigger (Some old) new
                    (s\<lparr>requests := sql_update (\<lambda>r. cr_request_id r = request_id \<and> P r) (f (now s)) (requests s)\<rparr>))
            else (Inl Db_Error, s))"

text \<open>\<open>INSERT\<close>; \<open>guard\<close> is the \<open>ON CONFLICT (idempotency_hash) DO NOTHING\<close> clause.\<close>

definition insert_request :: "bool \<Rightarrow> control_row \<Rightarrow> control_row option control_prog" where
  "insert_request guard new = (\<lambda>s.
     if guard \<and> sql_any (\<lambda>r. cr_idempotency_hash r = cr_idempotency_hash new) (requests s) then (Inr None, s)
     else if sql_any (\<lambda>r. cr_idempotency_hash r = cr_idempotency_hash new \<or> cr_request_id r = cr_request_id new) (requests s)
             \<or> \<not> row_checks new \<or> \<not> trigger_new new then (Inl Db_Error, s)
     else (Inr (Some new), fire_trigger None new (s\<lparr>requests := requests s @ [new]\<rparr>)))"

definition new_request ::
    "string \<Rightarrow> string \<Rightarrow> int \<Rightarrow> string \<Rightarrow> fields \<Rightarrow> string \<Rightarrow> string \<Rightarrow> int \<Rightarrow> control_row" where
  "new_request request_id hash generation action_type scope requested_by reason at =
     \<lparr>cr_request_id = request_id, cr_idempotency_hash = hash, cr_generation = generation,
      cr_action_type = action_type, cr_scope = scope, cr_requested_by = requested_by, cr_reason = reason,
      cr_status = Pending, cr_version = 1, cr_created_at = at, cr_updated_at = at, cr_decided_by = None,
      cr_decided_at = None, cr_comment = [], cr_cancelled_by = None, cr_cancelled_at = None,
      cr_run_id = None, cr_execution = Not_Started, cr_error = []\<rparr>"

section \<open>Validation\<close>

definition actor_of :: "string \<Rightarrow> approval_error + string" where
  "actor_of value =
     (let normalized = strip value
      in if normalized = [] \<or> 200 < length normalized then Inl Bad_Actor else Inr normalized)"

definition identifier_char :: "char \<Rightarrow> bool" where
  "identifier_char c \<longleftrightarrow> (let n = (of_char c :: nat) in
     (65 \<le> n \<and> n \<le> 90) \<or> (97 \<le> n \<and> n \<le> 122) \<or> (48 \<le> n \<and> n \<le> 57) \<or> c \<in> set ''_.:+-'')"

definition identifier_of :: "string \<Rightarrow> approval_error + string" where
  "identifier_of value =
     (let normalized = strip value
      in if 1 \<le> length normalized \<and> length normalized \<le> 200 \<and> list_all identifier_char normalized
         then Inr normalized else Inl Bad_Identifier)"

definition generation_of :: "int \<Rightarrow> approval_error + int" where
  "generation_of value = (if 1 \<le> value \<and> value \<le> 1000000 then Inr value else Inl Bad_Generation)"

definition version_of :: "int \<Rightarrow> approval_error + int" where
  "version_of value = (if value \<le> 0 then Inl Bad_Version else Inr value)"

fun check_scope :: "json \<Rightarrow> approval_error option"
  and check_scope_items :: "json list \<Rightarrow> approval_error option"
  and check_scope_fields :: "fields \<Rightarrow> approval_error option" where
  "check_scope (JObj kvs) = check_scope_fields kvs"
| "check_scope (JArr xs) = check_scope_items xs"
| "check_scope JOpaque = Some Not_Json"
| "check_scope _ = None"
| "check_scope_items [] = None"
| "check_scope_items (x # xs) = (case check_scope x of Some e \<Rightarrow> Some e | None \<Rightarrow> check_scope_items xs)"
| "check_scope_fields [] = None"
| "check_scope_fields ((k, v) # kvs) =
     (if sensitive_key k then Some Credential_Key
      else case check_scope v of Some e \<Rightarrow> Some e | None \<Rightarrow> check_scope_fields kvs)"

definition MAX_SCOPE_BYTES :: nat where
  "MAX_SCOPE_BYTES = 10000"

definition sha_hex :: "(string \<Rightarrow> nat list) \<Rightarrow> string \<Rightarrow> string" where
  "sha_hex sha text = hexdigest (sha text)"

text \<open>The stored scope is the parsed text, that is the canonical form.\<close>

definition canonical_scope ::
    "(string \<Rightarrow> nat list) \<Rightarrow> string \<Rightarrow> fields \<Rightarrow> approval_error + fields \<times> string" where
  "canonical_scope sha action_type scope =
     (if action_type \<notin> set SUPPORTED_ACTION_TYPES then Inl Unsupported_Action
      else if scope = [] then Inl Empty_Scope
      else case check_scope (JObj scope) of
          Some e \<Rightarrow> Inl e
        | None \<Rightarrow> (case (canon (JObj scope), dumps (JObj scope),
                         dumps (JObj [(''action_type'', JStr action_type), (''scope'', JObj scope)])) of
             (JObj kvs, Some scope_json, Some payload) \<Rightarrow>
               if MAX_SCOPE_BYTES < length scope_json then Inl Scope_Too_Large
               else Inr (kvs, sha_hex sha payload)
           | _ \<Rightarrow> Inl Not_Json))"

definition generation_hash :: "(string \<Rightarrow> nat list) \<Rightarrow> string \<Rightarrow> int \<Rightarrow> string" where
  "generation_hash sha base_hash request_generation =
     (if request_generation = 1 then base_hash
      else sha_hex sha (base_hash @ '':generation:'' @ int_str request_generation))"


subsection \<open>Typed action scopes (\<open>approved_actions.py\<close>)\<close>

definition DBT_DAG_ID :: string where
  "DBT_DAG_ID = ''20_dag_dq_orders_dbt_transform''"

definition extra_forbidden :: "string list \<Rightarrow> fields \<Rightarrow> bool" where
  "extra_forbidden names scope \<longleftrightarrow> list_ex (\<lambda>(k, _). k \<notin> set names) scope"

definition bounded :: "nat \<Rightarrow> nat \<Rightarrow> string \<Rightarrow> string option" where
  "bounded lo hi s = (if lo \<le> length s \<and> length s \<le> hi then Some s else None)"

definition bounded_str :: "nat \<Rightarrow> nat \<Rightarrow> json \<Rightarrow> string option" where
  "bounded_str lo hi j = Option.bind (as_str j) (bounded lo hi)"

definition stripped_str :: "nat \<Rightarrow> nat \<Rightarrow> json \<Rightarrow> string option" where
  "stripped_str lo hi j = Option.bind (as_str j) (\<lambda>s. bounded lo hi (strip s))"

definition one_of :: "string list \<Rightarrow> json \<Rightarrow> string option" where
  "one_of names j = Option.bind (as_str j) (\<lambda>s. if s \<in> set names then Some s else None)"

fun all_some :: "'a option list \<Rightarrow> 'a list option" where
  "all_some [] = Some []"
| "all_some (x # xs) = (case (x, all_some xs) of (Some y, Some ys) \<Rightarrow> Some (y # ys) | _ \<Rightarrow> None)"

definition str_list :: "nat \<Rightarrow> json \<Rightarrow> string list option" where
  "str_list hi j = (case j of
      JArr xs \<Rightarrow> if length xs \<le> hi then all_some (map (\<lambda>x. map_option strip (as_str x)) xs) else None
    | _ \<Rightarrow> None)"

definition RUNBOOKS :: "string list" where
  "RUNBOOKS = [''replay_raw_partition'', ''rebuild_derived_partition'', ''replay_and_rebuild_partition'']"

definition recover_partition_scope :: "pydantic \<Rightarrow> fields \<Rightarrow> fields option" where
  "recover_partition_scope py scope =
     (if extra_forbidden [''plan_id'', ''plan_hash'', ''alert_ref'', ''alert_key'', ''dt'', ''runbook''] scope then None
      else case (field scope ''plan_id'' None (\<lambda>j. Option.bind (bounded_str 1 200 j) (\<lambda>s. if list_all identifier_char s then Some s else None)),
                 field scope ''plan_hash'' None (\<lambda>j. Option.bind (as_str j) (\<lambda>s. if is_hash s then Some s else None)),
                 field scope ''alert_ref'' None (bounded_str 1 80),
                 field scope ''alert_key'' None (bounded_str 1 1000),
                 field scope ''dt'' None (as_date py),
                 field scope ''runbook'' None (one_of RUNBOOKS))
      of (Some plan, Some h, Some ref, Some key, Some dt, Some book) \<Rightarrow>
           Some [(''plan_id'', JStr plan), (''plan_hash'', JStr h), (''alert_ref'', JStr ref), (''alert_key'', JStr key),
                 (''dt'', JStr (isoformat dt)), (''runbook'', JStr book)]
       | _ \<Rightarrow> None)"

text \<open>\<open>reject_full_refresh\<close> runs after the fields are validated.\<close>

definition rerun_dbt_scope :: "pydantic \<Rightarrow> fields \<Rightarrow> fields option" where
  "rerun_dbt_scope py scope =
     (if extra_forbidden [''target_dag_id'', ''dt'', ''run_tests'', ''full_refresh''] scope then None
      else case (field scope ''target_dag_id'' (Some DBT_DAG_ID)
                   (\<lambda>j. Option.bind (as_str j) (\<lambda>s. if strip s = DBT_DAG_ID then Some DBT_DAG_ID else None)),
                 field scope ''dt'' None (as_date py),
                 field scope ''run_tests'' (Some True) (as_bool py),
                 field scope ''full_refresh'' (Some False) (as_bool py))
      of (Some target, Some dt, Some tests, Some full) \<Rightarrow>
           if full then None
           else Some [(''target_dag_id'', JStr target), (''dt'', JStr (isoformat dt)), (''run_tests'', JBool tests),
                      (''full_refresh'', JBool full)]
       | _ \<Rightarrow> None)"

definition create_ticket_scope :: "pydantic \<Rightarrow> fields \<Rightarrow> fields option" where
  "create_ticket_scope py scope =
     (if extra_forbidden [''dt'', ''alert_ref'', ''title'', ''summary'', ''labels''] scope then None
      else case (field scope ''dt'' None (as_date py), field scope ''alert_ref'' None (stripped_str 1 80),
                 field scope ''title'' None (stripped_str 5 160), field scope ''summary'' None (stripped_str 5 2000),
                 field scope ''labels'' (Some [''data-quality'']) (str_list 5))
      of (Some dt, Some ref, Some title, Some summary, Some labels) \<Rightarrow>
           Some [(''dt'', JStr (isoformat dt)), (''alert_ref'', JStr ref), (''title'', JStr title),
                 (''summary'', JStr summary), (''labels'', JArr (map JStr labels))]
       | _ \<Rightarrow> None)"

definition post_notification_scope :: "pydantic \<Rightarrow> fields \<Rightarrow> fields option" where
  "post_notification_scope py scope =
     (if extra_forbidden [''dt'', ''alert_ref'', ''title'', ''summary''] scope then None
      else case (field scope ''dt'' None (as_date py), field scope ''alert_ref'' None (stripped_str 1 80),
                 field scope ''title'' None (stripped_str 5 160), field scope ''summary'' None (stripped_str 5 1500))
      of (Some dt, Some ref, Some title, Some summary) \<Rightarrow>
           Some [(''dt'', JStr (isoformat dt)), (''alert_ref'', JStr ref), (''title'', JStr title),
                 (''summary'', JStr summary)]
       | _ \<Rightarrow> None)"

definition normalize_action_scope :: "pydantic \<Rightarrow> string \<Rightarrow> fields \<Rightarrow> approval_error + fields" where
  "normalize_action_scope py action_type scope =
     (let parsed = (if action_type = ''rerun_dbt'' then rerun_dbt_scope py scope
                    else if action_type = ''create_ticket'' then create_ticket_scope py scope
                    else if action_type = ''post_notification'' then post_notification_scope py scope
                    else if action_type = ''recover_partition'' then recover_partition_scope py scope
                    else None)
      in case parsed of None \<Rightarrow> Inl Validation_Failed | Some fs \<Rightarrow> Inr fs)"

section \<open>Operations of the store\<close>

definition from_sum :: "approval_error + 'a \<Rightarrow> 'a control_prog" where
  "from_sum x = lift (\<lambda>_. x)"

definition require_transition :: "string \<Rightarrow> 'a control_prog" where
  "require_transition request_id =
     bnd (latest request_id) (\<lambda>current. case current of
         None \<Rightarrow> throw Not_Found
       | Some r \<Rightarrow> throw (Conflict (Transition_Rejected (cr_status r) (cr_execution r) (cr_version r))))"

definition enqueue :: "pydantic \<Rightarrow> control_row \<Rightarrow> string \<Rightarrow> string \<Rightarrow> unit control_prog" where
  "enqueue py r event actor =
     bnd (from_sum (approval_from_control_record py r)) (\<lambda>_.
     modify (\<lambda>s. s\<lparr>outbox := enqueue_row r event actor (outbox s)\<rparr>))"

definition changed ::
    "pydantic \<Rightarrow> control_row option \<Rightarrow> string \<Rightarrow> string \<Rightarrow> string \<Rightarrow> control_row control_prog" where
  "changed py row request_id event actor =
     bnd (case row of Some r \<Rightarrow> ret r | None \<Rightarrow> require_transition request_id) (\<lambda>r.
     bnd (enqueue py r event actor) (\<lambda>_. ret r))"

definition falsy :: "json \<Rightarrow> bool" where
  "falsy j = (case j of
      JNull \<Rightarrow> True | JBool b \<Rightarrow> \<not> b | JInt i \<Rightarrow> i = 0 | JReal r \<Rightarrow> r \<in> {''0.0'', ''-0.0''}
    | JStr s \<Rightarrow> s = [] | JArr xs \<Rightarrow> xs = [] | JObj kvs \<Rightarrow> kvs = [] | _ \<Rightarrow> False)"

text \<open>A key that is not text cannot be compared with the TEXT column.\<close>

definition incident_open :: "fields \<Rightarrow> unit control_prog" where
  "incident_open scope =
     bnd (let own = get_json scope ''alert_key'' JNull
          in if \<not> falsy own then ret own
             else case get_json scope ''_approval_request'' (JObj []) of
                 JObj kvs \<Rightarrow> ret (get_json kvs ''alert_key'' JNull)
               | _ \<Rightarrow> throw Validation_Failed) (\<lambda>key.
     if falsy key then ret ()
     else case key of
         JStr k \<Rightarrow> bnd (gets (\<lambda>s. map_of (incidents s) k)) (\<lambda>status.
                     require (status \<noteq> Some ''resolved'') (Conflict Incident_Resolved))
       | _ \<Rightarrow> throw Db_Error)"

definition request_id_of :: "string \<Rightarrow> string" where
  "request_id_of full_hash = ''APR-'' @ map (\<lambda>c. let n = (of_char c :: nat) in if 97 \<le> n \<and> n \<le> 122 then char_of (n - 32) else c) (take 20 full_hash)"

definition create_request ::
    "pydantic \<Rightarrow> (string \<Rightarrow> nat list) \<Rightarrow> string \<Rightarrow> fields \<Rightarrow> string \<Rightarrow> string \<Rightarrow> int \<Rightarrow> (control_row \<times> bool) control_prog" where
  "create_request py sha action_type scope requested_by reason request_generation =
     bnd (from_sum (canonical_scope sha action_type scope)) (\<lambda>(normalized_scope, base_hash).
     bnd (from_sum (generation_of request_generation)) (\<lambda>generation.
     let full_hash = generation_hash sha base_hash generation in
     bnd (from_sum (actor_of requested_by)) (\<lambda>actor.
     bnd (if action_type = ''recover_partition''
          then bnd (require (actor = RECOVERY_REQUESTER) Not_Recovery_Requester) (\<lambda>_.
               bnd (from_sum (normalize_action_scope py action_type normalized_scope)) (\<lambda>typed.
               require (json_eq (JObj typed) (JObj normalized_scope)) Recovery_Scope_Not_Exact))
          else ret ()) (\<lambda>_.
     let normalized_reason = strip reason in
     bnd (require (5 \<le> length normalized_reason \<and> length normalized_reason \<le> 2000) Bad_Reason) (\<lambda>_.
     in_transaction (
       bnd (incident_open normalized_scope) (\<lambda>_.
       bnd (gets now) (\<lambda>at.
       bnd (insert_request True (new_request (request_id_of full_hash) full_hash generation action_type
              normalized_scope actor normalized_reason at)) (\<lambda>created.
       case created of
         Some r \<Rightarrow> bnd (enqueue py r ''approval_requested'' actor) (\<lambda>_. ret (r, True))
       | None \<Rightarrow>
           bnd (select_one (\<lambda>r. cr_idempotency_hash r = full_hash)) (\<lambda>existing.
           case existing of
             None \<Rightarrow> throw (Conflict Idempotency_Unverified)
           | Some r \<Rightarrow>
               bnd (require (cr_action_type r = action_type \<and> json_eq (JObj (cr_scope r)) (JObj normalized_scope) \<and>
                      cr_generation r = generation) (Conflict Idempotency_Unverified)) (\<lambda>_.
               ret (r, False))))))))))))"

definition read_latest :: "string \<Rightarrow> control_row option control_prog" where
  "read_latest request_id =
     bnd (from_sum (identifier_of request_id)) (\<lambda>normalized_id. in_transaction (latest normalized_id))"

definition read_by_idempotency_hash :: "string \<Rightarrow> control_row option control_prog" where
  "read_by_idempotency_hash h = in_transaction (select_one (\<lambda>r. cr_idempotency_hash r = h))"

definition decide ::
    "pydantic \<Rightarrow> string \<Rightarrow> string \<Rightarrow> string \<Rightarrow> int \<Rightarrow> string \<Rightarrow> control_row control_prog" where
  "decide py request_id decision decided_by expected_version comment =
     bnd (from_sum (identifier_of request_id)) (\<lambda>normalized_id.
     bnd (from_sum (actor_of decided_by)) (\<lambda>actor.
     bnd (require (decision \<in> {''approve'', ''reject''}) Bad_Decision) (\<lambda>_.
     bnd (from_sum (version_of expected_version)) (\<lambda>_.
     bnd (require (length comment \<le> 2000) Comment_Too_Long) (\<lambda>_.
     let status = (if decision = ''approve'' then Approved else Rejected) in
     in_transaction (
       bnd (latest normalized_id) (\<lambda>row. case row of
         None \<Rightarrow> throw Not_Found
       | Some current \<Rightarrow>
           bnd (require (\<not> (decision = ''approve'' \<and> lower (cr_requested_by current) = lower actor))
                  (Conflict Self_Approval)) (\<lambda>_.
           bnd (update_request normalized_id (\<lambda>r. cr_status r = Pending \<and> cr_version r = expected_version)
                  (\<lambda>at r. r\<lparr>cr_status := status, cr_decided_by := Some actor, cr_decided_at := Some at,
                            cr_comment := strip comment, cr_updated_at := at, cr_version := cr_version r + 1\<rparr>)) (\<lambda>updated.
           changed py updated normalized_id ''approval_decision'' actor)))))))))"

definition cancel ::
    "pydantic \<Rightarrow> string \<Rightarrow> string \<Rightarrow> int \<Rightarrow> string \<Rightarrow> control_row control_prog" where
  "cancel py request_id cancelled_by expected_version comment =
     bnd (from_sum (identifier_of request_id)) (\<lambda>normalized_id.
     bnd (from_sum (actor_of cancelled_by)) (\<lambda>actor.
     bnd (from_sum (version_of expected_version)) (\<lambda>_.
     bnd (require (length comment \<le> 2000) Comment_Too_Long) (\<lambda>_.
     in_transaction (
       bnd (update_request normalized_id
              (\<lambda>r. cr_status r \<in> {Pending, Approved} \<and> cr_execution r = Not_Started \<and> cr_run_id r = None \<and>
                   cr_version r = expected_version)
              (\<lambda>at r. r\<lparr>cr_status := Cancelled, cr_cancelled_by := Some actor, cr_cancelled_at := Some at,
                        cr_comment := strip comment, cr_updated_at := at, cr_version := cr_version r + 1\<rparr>)) (\<lambda>updated.
       changed py updated normalized_id ''approval_cancelled'' actor))))))"

definition claim :: "pydantic \<Rightarrow> string \<Rightarrow> string \<Rightarrow> int \<Rightarrow> control_row control_prog" where
  "claim py request_id execution_run_id expected_version =
     bnd (from_sum (identifier_of request_id)) (\<lambda>normalized_id.
     bnd (from_sum (identifier_of execution_run_id)) (\<lambda>run_id.
     bnd (from_sum (version_of expected_version)) (\<lambda>_.
     in_transaction (
       bnd (latest normalized_id) (\<lambda>row.
       bnd (case row of
              None \<Rightarrow> ret ()
            | Some current \<Rightarrow> require (get_json (cr_scope current) ''execution_eligibility'' JNull \<noteq> JStr ''legacy_review_required'')
                                (Conflict Legacy_Cannot_Execute)) (\<lambda>_.
       bnd (update_request normalized_id
              (\<lambda>r. cr_status r = Approved \<and> cr_execution r = Not_Started \<and> cr_run_id r = None \<and>
                   cr_version r = expected_version)
              (\<lambda>at r. r\<lparr>cr_run_id := Some run_id, cr_execution := Dispatching, cr_updated_at := at,
                        cr_version := cr_version r + 1\<rparr>)) (\<lambda>updated.
       changed py updated normalized_id ''approval_execution_transition'' ''airflow'')))))))"

text \<open>\<open>None\<close> for a text that names no outcome.\<close>

definition outcome_of :: "string \<Rightarrow> execution_status option" where
  "outcome_of outcome =
     (if outcome = ''dispatched'' then Some Dispatched
      else if outcome = ''succeeded'' then Some Succeeded
      else if outcome = ''failed'' then Some Failed
      else if outcome = ''unknown'' then Some Execution_Unknown
      else None)"

definition record_execution_outcome ::
    "pydantic \<Rightarrow> string \<Rightarrow> string \<Rightarrow> string \<Rightarrow> int \<Rightarrow> string \<Rightarrow> control_row control_prog" where
  "record_execution_outcome py request_id execution_run_id outcome expected_version err =
     bnd (from_sum (identifier_of request_id)) (\<lambda>normalized_id.
     bnd (from_sum (identifier_of execution_run_id)) (\<lambda>run_id.
     case outcome_of outcome of
       None \<Rightarrow> throw Bad_Outcome
     | Some target \<Rightarrow>
     bnd (from_sum (version_of expected_version)) (\<lambda>_.
     bnd (require (\<not> (2000 < length err \<or> (target \<notin> {Failed, Execution_Unknown} \<and> err \<noteq> []))) Bad_Error_Text) (\<lambda>_.
     let allowed_previous = (if target = Dispatched then [Dispatching] else [Dispatching, Dispatched]) in
     in_transaction (
       bnd (update_request normalized_id
              (\<lambda>r. cr_status r = Approved \<and> cr_run_id r = Some run_id \<and> cr_execution r \<in> set allowed_previous \<and>
                   cr_version r = expected_version)
              (\<lambda>at r. r\<lparr>cr_execution := target, cr_error := strip err, cr_updated_at := at,
                        cr_version := cr_version r + 1\<rparr>)) (\<lambda>updated.
       changed py updated normalized_id ''approval_execution_transition'' ''airflow''))))))"

definition list_requests :: "string option \<Rightarrow> int \<Rightarrow> control_row list control_prog" where
  "list_requests status limit =
     bnd (case status of
        None \<Rightarrow> ret None
      | Some text \<Rightarrow>
          if text = ''pending'' then ret (Some Pending) else if text = ''approved'' then ret (Some Approved)
          else if text = ''rejected'' then ret (Some Rejected) else if text = ''cancelled'' then ret (Some Cancelled)
          else throw Bad_Status_Filter) (\<lambda>wanted.
     in_transaction (gets (\<lambda>s.
       take (nat (max 1 (min limit 100)))
         (sort_key (\<lambda>r. - cr_updated_at r) (sort_key cr_request_id
           (filter (\<lambda>r. wanted = None \<or> wanted = Some (cr_status r)) (requests s)))))))"

subsection \<open>Requests of the public queue\<close>

definition opt_str :: "string option \<Rightarrow> json" where
  "opt_str x = (case x of None \<Rightarrow> JNull | Some s \<Rightarrow> JStr s)"

definition opt_date :: "date option \<Rightarrow> json" where
  "opt_date x = (case x of None \<Rightarrow> JNull | Some d \<Rightarrow> JStr (isoformat d))"

definition queue_envelope :: "approval \<Rightarrow> fields" where
  "queue_envelope a =
     [(''alert_id'', opt_str (ap_alert_id a)), (''alert_key'', JStr (ap_alert_key a)),
      (''agent_run_id'', opt_str (ap_agent_run_id a)), (''risk_level'', JStr (ap_risk_level a)),
      (''dispatcher_dag_id'', JStr (ap_dispatcher_dag_id a)), (''target_dag_id'', JStr (ap_target_dag_id a)),
      (''start_date'', opt_date (ap_start_date a)), (''end_date'', opt_date (ap_end_date a)),
      (''parameters'', JObj (ap_parameters a)), (''dry_run'', JBool (ap_dry_run a))]"

definition queue_control_scope :: "approval \<Rightarrow> bool \<Rightarrow> fields" where
  "queue_control_scope a legacy =
     [(''_approval_request'', JObj (queue_envelope a)),
      (''execution_eligibility'', JStr (if legacy then ''legacy_review_required'' else ''simulation_only''))]"

definition create_queue_request ::
    "pydantic \<Rightarrow> (string \<Rightarrow> nat list) \<Rightarrow> approval \<Rightarrow> (control_row \<times> bool) control_prog" where
  "create_queue_request py sha a =
     (let scope = queue_control_scope a False in
     bnd (from_sum (canonical_scope sha (ap_action_type a) scope)) (\<lambda>(stored_scope, _).
     in_transaction (
       bnd (incident_open scope) (\<lambda>_.
       bnd (gets (\<lambda>s. filter (\<lambda>r. cr_request_id r = ap_request_id a \<or> cr_idempotency_hash r = ap_idempotency_key a)
                       (requests s))) (\<lambda>rows.
       case rows of
         existing # others \<Rightarrow>
           bnd (require (others = []) (Conflict Id_Hash_Collision)) (\<lambda>_.
           bnd (require (cr_request_id existing = ap_request_id a \<and> cr_idempotency_hash existing = ap_idempotency_key a \<and>
                  cr_action_type existing = ap_action_type a \<and>
                  (case map_of (cr_scope existing) ''_approval_request'' of
                     None \<Rightarrow> False | Some j \<Rightarrow> json_eq j (JObj (queue_envelope a))))
                  (Conflict Different_Scope)) (\<lambda>_.
           ret (existing, False)))
       | [] \<Rightarrow>
           bnd (gets now) (\<lambda>at.
           bnd (insert_request False (new_request (ap_request_id a) (ap_idempotency_key a) 1 (ap_action_type a)
                  stored_scope (ap_requested_by a) (ap_reason a) at)) (\<lambda>created.
           case created of
             None \<Rightarrow> throw (Conflict Id_Hash_Collision)
           | Some r \<Rightarrow> bnd (enqueue py r ''approval_requested'' (ap_requested_by a)) (\<lambda>_. ret (r, True)))))))))"

subsection \<open>Importing legacy state\<close>

definition import_legacy_request ::
    "pydantic \<Rightarrow> (string \<Rightarrow> nat list) \<Rightarrow> control_row \<Rightarrow> json list \<Rightarrow> string \<Rightarrow> bool \<Rightarrow> bool control_prog" where
  "import_legacy_request py sha record history source_hash dry_run =
     (let in_flight = (\<lambda>r. cr_execution r \<in> {Dispatching, Dispatched, Execution_Unknown}) in
     bnd (require (\<not> (cr_action_type record = ''recover_partition'' \<or> in_flight record)) (Conflict Legacy_In_Flight)) (\<lambda>_.
     bnd (require (get_json (cr_scope record) ''execution_eligibility'' JNull = JStr ''legacy_review_required'')
            (Conflict Legacy_Not_Reviewed)) (\<lambda>_.
     bnd (require (case dumps (JArr history) of None \<Rightarrow> False | Some text \<Rightarrow> sha_hex sha text = source_hash)
            Source_Hash_Mismatch) (\<lambda>_.
     bnd (from_sum (canonical_scope sha (cr_action_type record) (cr_scope record))) (\<lambda>(stored_scope, _).
     in_transaction (
       bnd (gets (\<lambda>s. filter (\<lambda>r. cr_request_id r = cr_request_id record \<or>
              cr_idempotency_hash r = cr_idempotency_hash record) (requests s))) (\<lambda>existing.
       bnd (gets (\<lambda>s. find (\<lambda>i. im_request_id i = cr_request_id record) (legacy_imports s))) (\<lambda>imported.
       case imported of
         Some receipt \<Rightarrow>
           bnd (require (im_source_hash receipt = source_hash \<and> json_eq (JArr (im_history receipt)) (JArr history))
                  (Conflict History_Changed)) (\<lambda>_.
           case existing of
             [current] \<Rightarrow>
               bnd (require (cr_request_id current = cr_request_id record \<and>
                      cr_idempotency_hash current = cr_idempotency_hash record \<and>
                      cr_action_type current = cr_action_type record \<and>
                      json_eq (JObj (cr_scope current)) (JObj (cr_scope record)) \<and>
                      cr_requested_by current = cr_requested_by record \<and> cr_reason current = cr_reason record \<and>
                      cr_created_at current = cr_created_at record) (Conflict Import_Scope_Conflict)) (\<lambda>_.
               bnd (require (\<not> in_flight current) (Conflict Import_In_Flight)) (\<lambda>_. ret False))
           | _ \<Rightarrow> throw (Conflict Import_Missing))
       | None \<Rightarrow>
           bnd (require (existing = []) (Conflict Existing_Not_Imported)) (\<lambda>_.
           if dry_run then ret True
           else
             bnd (insert_request False (record\<lparr>cr_scope := stored_scope\<rparr>)) (\<lambda>_.
             bnd (modify (\<lambda>s. s\<lparr>legacy_imports := legacy_imports s @
                    [\<lparr>im_request_id = cr_request_id record, im_source_hash = source_hash, im_history = history\<rparr>]\<rparr>)) (\<lambda>_.
             bnd (enqueue py record ''approval_legacy_imported'' ''legacy_approval_migration'') (\<lambda>_.
             ret True))))))))))))"

subsection \<open>Delivering the outbox\<close>

datatype delivery = Delivered | Delivery_Exception | Delivery_Interrupt

type_synonym deliver = "(phase \<times> string \<times> int) list \<Rightarrow> phase \<Rightarrow> outbox_row \<Rightarrow> delivery"

definition phase_done :: "phase \<Rightarrow> outbox_row \<Rightarrow> bool" where
  "phase_done ph q = (case ph of Audit \<Rightarrow> ob_audit_done q | Projection \<Rightarrow> ob_projection_done q)"

definition set_phase :: "phase \<Rightarrow> outbox_row \<Rightarrow> outbox_row" where
  "set_phase ph q = (case ph of Audit \<Rightarrow> q\<lparr>ob_audit_done := True\<rparr> | Projection \<Rightarrow> q\<lparr>ob_projection_done := True\<rparr>)"

definition mark_done :: "phase \<Rightarrow> outbox_row \<Rightarrow> control \<Rightarrow> control" where
  "mark_done ph q s = s\<lparr>outbox := sql_update
     (\<lambda>r. ob_request_id r = ob_request_id q \<and> ob_version r = ob_version q) (set_phase ph) (outbox s)\<rparr>"

text \<open>The phases of one entry; \<open>False\<close> when a delivery failed.\<close>

fun deliver_phases :: "deliver \<Rightarrow> outbox_row \<Rightarrow> phase list \<Rightarrow> bool control_prog" where
  "deliver_phases deliver q [] = ret True"
| "deliver_phases deliver q (ph # phs) =
     (if phase_done ph q then deliver_phases deliver q phs
      else bnd (gets sent) (\<lambda>log. case deliver log ph q of
          Delivered \<Rightarrow>
            bnd (modify (\<lambda>s. mark_done ph q (s\<lparr>sent := sent s @ [(ph, ob_request_id q, ob_version q)]\<rparr>))) (\<lambda>_.
            deliver_phases deliver q phs)
        | Delivery_Exception \<Rightarrow> ret False
        | Delivery_Interrupt \<Rightarrow> throw Delivery_Failed))"

definition pending_entries :: "int \<Rightarrow> control \<Rightarrow> outbox_row list" where
  "pending_entries limit s =
     take (nat (max 1 (min limit 1000))) (sort_key ob_request_id (sort_key ob_version
       (filter (\<lambda>q. \<not> (ob_audit_done q \<and> ob_projection_done q)) (outbox s))))"

text \<open>The result is (completed, failed, selected).\<close>

definition flush_projection_outbox :: "deliver \<Rightarrow> int \<Rightarrow> (nat \<times> nat \<times> nat) control_prog" where
  "flush_projection_outbox deliver limit =
     in_transaction (
       bnd (gets (pending_entries limit)) (\<lambda>entries.
       bnd (for_each (\<lambda>q. deliver_phases deliver q [Audit, Projection]) entries) (\<lambda>results.
       ret (length (filter (\<lambda>ok. ok) results), length (filter (\<lambda>ok. \<not> ok) results), length entries))))"

section \<open>The life of a request\<close>

definition legacy :: "control_row \<Rightarrow> bool" where
  "legacy r \<longleftrightarrow> get_json (cr_scope r) ''execution_eligibility'' JNull = JStr ''legacy_review_required''"

inductive row_step :: "control_row \<Rightarrow> control_row \<Rightarrow> bool" where
  decided: "cr_status r = Pending \<Longrightarrow> st \<in> {Approved, Rejected} \<Longrightarrow>
    (st = Approved \<longrightarrow> lower (cr_requested_by r) \<noteq> lower actor) \<Longrightarrow>
    row_step r (r\<lparr>cr_status := st, cr_decided_by := Some actor, cr_decided_at := Some at, cr_comment := c,
                  cr_updated_at := at, cr_version := cr_version r + 1\<rparr>)"
| withdrawn: "cr_status r \<in> {Pending, Approved} \<Longrightarrow> cr_execution r = Not_Started \<Longrightarrow> cr_run_id r = None \<Longrightarrow>
    row_step r (r\<lparr>cr_status := Cancelled, cr_cancelled_by := Some actor, cr_cancelled_at := Some at,
                  cr_comment := c, cr_updated_at := at, cr_version := cr_version r + 1\<rparr>)"
| claimed: "cr_status r = Approved \<Longrightarrow> cr_execution r = Not_Started \<Longrightarrow> cr_run_id r = None \<Longrightarrow> \<not> legacy r \<Longrightarrow>
    row_step r (r\<lparr>cr_run_id := Some run, cr_execution := Dispatching, cr_updated_at := at,
                  cr_version := cr_version r + 1\<rparr>)"
| reported: "cr_status r = Approved \<Longrightarrow> cr_run_id r = Some run \<Longrightarrow>
    (out = Dispatched \<and> cr_execution r = Dispatching) \<or>
    (out \<in> {Succeeded, Failed, Execution_Unknown} \<and> cr_execution r \<in> {Dispatching, Dispatched}) \<Longrightarrow>
    row_step r (r\<lparr>cr_execution := out, cr_error := err, cr_updated_at := at, cr_version := cr_version r + 1\<rparr>)"

inductive_cases row_stepE: "row_step r r'"

lemma row_step_identity: "row_step r r' \<Longrightarrow> identity_of r' = identity_of r \<and> cr_version r' = cr_version r + 1"
  by (erule row_stepE) (simp_all add: identity_of_def)

lemma row_step_id: "row_step r r' \<Longrightarrow> cr_request_id r' = cr_request_id r"
  by (drule row_step_identity) (simp add: identity_of_def)

lemma row_star_identity: "row_step\<^sup>*\<^sup>* r r' \<Longrightarrow> identity_of r' = identity_of r \<and> cr_version r \<le> cr_version r'"
  by (induction rule: rtranclp_induct) (auto dest: row_step_identity)

text \<open>A row as it is inserted: a new request, or a legacy one, which is never executed.\<close>

definition fresh_row :: "control_row \<Rightarrow> bool" where
  "fresh_row r \<longleftrightarrow> row_checks r \<and> trigger_new r \<and>
     (\<forall>k \<in> keys_of (JObj (cr_scope r)). \<not> sensitive_key k) \<and>
     ((cr_status r = Pending \<and> cr_version r = 1 \<and> cr_execution r = Not_Started \<and> cr_run_id r = None)
      \<or> (legacy r \<and> cr_execution r \<notin> {Dispatching, Dispatched, Execution_Unknown}))"

definition ids_distinct :: "control \<Rightarrow> bool" where
  "ids_distinct s \<longleftrightarrow> distinct (map cr_request_id (requests s)) \<and> distinct (map cr_idempotency_hash (requests s))"

text \<open>\<open>F\<close> says which rows may be inserted.\<close>

definition control_evolves_in :: "(control_row \<Rightarrow> bool) \<Rightarrow> control \<Rightarrow> control \<Rightarrow> bool" where
  "control_evolves_in F s t \<longleftrightarrow>
     (ids_distinct s \<longrightarrow> ids_distinct t \<and> rows_evolve row_step F (requests s) (requests t))"

abbreviation control_evolves :: "control \<Rightarrow> control \<Rightarrow> bool" where
  "control_evolves \<equiv> control_evolves_in fresh_row"

lemmas control_evolves_def = control_evolves_in_def[of fresh_row]

lemma start_requests [simp]: "requests (fst (start s)) = requests s" "outbox (fst (start s)) = outbox s"
  "incidents (fst (start s)) = incidents s" "legacy_imports (fst (start s)) = legacy_imports s" "sent (fst (start s)) = sent s"
  by (auto simp: start_def split: list.splits prod.splits)

text \<open>Relations that only look at the request and outbox tables survive transactions.\<close>

locale control_relation = evolution R for R :: "control \<Rightarrow> control \<Rightarrow> bool" +
  assumes same_tables: "requests t = requests s \<Longrightarrow> outbox t = outbox s \<Longrightarrow> R s t"
begin

lemma in_transaction: "evolves R body \<Longrightarrow> evolves R (in_transaction body)"
proof (rule evolvesI)
  fix s assume body: "evolves R body"
  obtain s0 c where st: "start s = (s0, c)" by (cases "start s")
  have a: "R s s0" using start_requests(1,2)[of s] st by (simp add: same_tables)
  obtain r t where b: "body s0 = (r, t)" by (cases "body s0")
  have "R s t" using trans[OF a evolvesD[OF body b]] .
  moreover have "R s (s0\<lparr>sent := x\<rparr>)" for x
    using start_requests(1,2)[of s] st by (simp add: same_tables)
  ultimately show "R s (snd (in_transaction body s))"
    using a st b by (auto simp: in_transaction_def split: sum.splits commit.splits)
qed

lemma from_sum: "evolves R (from_sum x)"
  unfolding from_sum_def by (rule lift)

lemma from_sum_bnd: "(\<And>y. x = Inr y \<Longrightarrow> evolves R (f y)) \<Longrightarrow> evolves R (bnd (from_sum x) f)"
  by (cases x) (auto simp: evolves_def from_sum_def bnd_def refl)

lemma from_sum_bnd2:
  "(\<And>y z. x = Inr (y, z) \<Longrightarrow> evolves R (f y z)) \<Longrightarrow> evolves R (bnd (from_sum x) (\<lambda>(y, z). f y z))"
  by (rule from_sum_bnd) auto

lemma latest: "evolves R (latest rid)" "evolves R (select_one P)"
  unfolding latest_def select_one_def by (rule gets)+

lemma require_transition: "evolves R (require_transition rid)"
  unfolding require_transition_def by (intro rules latest)

lemma modify_same: "(\<And>s. requests (f s) = requests s) \<Longrightarrow> (\<And>s. outbox (f s) = outbox s) \<Longrightarrow> evolves R (modify f)"
  by (simp add: evolves_def same_tables)

end

interpretation cev: control_relation "control_evolves_in F" for F
  by unfold_locales (auto simp: control_evolves_in_def ids_distinct_def intro: rows_evolve_trans)

lemma cev_requests: "requests t = requests s \<Longrightarrow> control_evolves_in F s t"
  by (simp add: control_evolves_in_def ids_distinct_def)

lemma cev_enqueue: "evolves (control_evolves_in F) (enqueue py r e a)"
  unfolding enqueue_def
  by (intro cev.bnd cev.from_sum) (simp add: evolves_def cev_requests)

lemma cev_changed: "evolves (control_evolves_in F) (changed py row rid e a)"
  unfolding changed_def by (cases row) (auto intro!: cev.rules cev_enqueue cev.require_transition)

lemma fire_trigger_requests [simp]: "requests (fire_trigger old new s) = requests s"
  by (simp add: fire_trigger_def split: prod.splits)

lemma update_request_requests:
  assumes "update_request rid P f s = (r, t)"
  shows "(requests t = requests s \<and> r \<in> {Inl Db_Error, Inr None}) \<or>
     (\<exists>old. r = Inr (Some (f (now s) old)) \<and>
        find (\<lambda>r. cr_request_id r = rid \<and> P r) (requests s) = Some old \<and> row_checks (f (now s) old) \<and>
        trigger_update old (f (now s) old) \<and>
        requests t = sql_update (\<lambda>r. cr_request_id r = rid \<and> P r) (f (now s)) (requests s))"
  using assms by (auto simp: update_request_def Let_def split: option.splits if_splits)

lemma map_sql_update_same:
  assumes "\<And>r. r \<in> set rows \<Longrightarrow> P r \<Longrightarrow> g (f r) = g r"
  shows "map g (sql_update P f rows) = map g rows"
  using assms by (auto simp: sql_update_def)

lemma only_row:
  assumes "distinct (map key rows)" and "find (\<lambda>r. key r = k \<and> P r) rows = Some old"
    and "r \<in> set rows" and "key r = k"
  shows "r = old"
  using assms find_SomeD[OF assms(2)] by (auto simp: distinct_map inj_on_def)

lemma cev_update_at:
  assumes "\<And>r. r \<in> set (requests s) \<Longrightarrow> cr_request_id r = rid \<Longrightarrow> P r \<Longrightarrow> row_step r (f (now s) r)"
  shows "control_evolves_in F s (snd (update_request rid P f s))"
proof (cases "update_request rid P f s")
  case (Pair r t)
  let ?P = "\<lambda>r. cr_request_id r = rid \<and> P r"
  let ?rows = "sql_update ?P (f (now s)) (requests s)"
  have step: "row_step r (f (now s) r)" if "r \<in> set (requests s)" "?P r" for r
    using assms that by blast
  have "map cr_request_id ?rows = map cr_request_id (requests s)"
    and "map cr_idempotency_hash ?rows = map cr_idempotency_hash (requests s)"
    using row_step_identity[OF step] by (auto intro!: map_sql_update_same simp: identity_of_def)
  moreover have "rows_evolve row_step F (requests s) ?rows"
    by (rule rows_evolve_update) (rule step)
  ultimately have "control_evolves_in F s t" if "requests t = ?rows"
    using that by (simp add: control_evolves_in_def ids_distinct_def)
  then show ?thesis
    using update_request_requests[OF Pair] Pair by (auto intro: cev_requests)
qed

lemma cev_update:
  assumes "\<And>r at. P r \<Longrightarrow> row_step r (f at r)"
  shows "evolves (control_evolves_in F) (update_request rid P f)"
  by (rule evolvesI, rule cev_update_at) (rule assms)

lemma cev_insert:
  assumes "row_checks r \<Longrightarrow> trigger_new r \<Longrightarrow> F r"
  shows "evolves (control_evolves_in F) (insert_request guard r)"
  using assms
  by (auto simp: evolves_def insert_request_def control_evolves_in_def ids_distinct_def sql_any_iff image_iff
      intro: rows_evolve_insert)

subsection \<open>Stored scopes\<close>

lemma keys_of_fields_mset: "keys_of_fields kvs = (\<Union>(k, v) \<in> set kvs. insert k (keys_of v))"
  by (induction kvs) auto

lemma keys_of_sorted: "keys_of_fields (sort_key fst kvs) = keys_of_fields kvs"
  by (simp add: keys_of_fields_mset)

lemma keys_of_canon:
  "keys_of (canon j) = keys_of j"
  "keys_of_items (canon_items js) = keys_of_items js"
  "keys_of_fields (canon_fields kvs) = keys_of_fields kvs"
  by (induction j and js and kvs rule: canon_canon_items_canon_fields.induct) (simp_all add: keys_of_sorted)

lemma check_scope_fields_Cons_None:
  "check_scope_fields ((k, v) # kvs) = None \<longleftrightarrow> \<not> sensitive_key k \<and> check_scope v = None \<and> check_scope_fields kvs = None"
  "check_scope_items (x # xs) = None \<longleftrightarrow> check_scope x = None \<and> check_scope_items xs = None"
  by (simp_all split: option.splits)

lemma check_scope_keys:
  "check_scope j = None \<Longrightarrow> k \<in> keys_of j \<Longrightarrow> \<not> sensitive_key k"
  "check_scope_items js = None \<Longrightarrow> k \<in> keys_of_items js \<Longrightarrow> \<not> sensitive_key k"
  "check_scope_fields kvs = None \<Longrightarrow> k \<in> keys_of_fields kvs \<Longrightarrow> \<not> sensitive_key k"
proof (induction j and js and kvs rule: check_scope_check_scope_items_check_scope_fields.induct, goal_cases)
  case (11 x xs)
  then show ?case unfolding check_scope_fields_Cons_None by auto
next
  case (13 k v kvs)
  then show ?case unfolding check_scope_fields_Cons_None by auto
qed simp_all

lemma canonical_scope_Inr:
  assumes "canonical_scope sha a scope = Inr (kvs, h)"
  shows "canon (JObj scope) = JObj kvs" and "a \<in> set SUPPORTED_ACTION_TYPES"
    and "\<forall>k \<in> keys_of (JObj kvs). \<not> sensitive_key k" and "scope \<noteq> []"
proof -
  have c: "canon (JObj scope) = JObj kvs" and s: "check_scope (JObj scope) = None"
    and "a \<in> set SUPPORTED_ACTION_TYPES" and "scope \<noteq> []"
    using assms unfolding canonical_scope_def
    by (auto split: if_splits option.splits prod.splits json.splits)
  then show "canon (JObj scope) = JObj kvs" and "a \<in> set SUPPORTED_ACTION_TYPES" and "scope \<noteq> []"
    by simp_all
  show "\<forall>k \<in> keys_of (JObj kvs). \<not> sensitive_key k"
    using check_scope_keys(1)[OF s] keys_of_canon(1)[of "JObj scope"] c by auto
qed

lemma fresh_new_request:
  assumes "canonical_scope sha a scope = Inr (kvs, h)"
    and "row_checks (new_request rid full g a kvs by why at)" and "trigger_new (new_request rid full g a kvs by why at)"
  shows "fresh_row (new_request rid full g a kvs by why at)"
  using assms(2,3) canonical_scope_Inr(3)[OF assms(1)] by (simp add: fresh_row_def new_request_def)

section \<open>Every operation moves requests along their life cycle\<close>

lemma not_run_new_request: "cr_run_id (new_request rid full g a kvs by why at) = None"
  by (simp add: new_request_def)

lemma cevF_create_request:
  assumes "\<And>r. fresh_row r \<Longrightarrow> cr_run_id r = None \<Longrightarrow> F r"
  shows "evolves (control_evolves_in F) (create_request py sha a scope by why g)"
  unfolding create_request_def incident_open_def
  by (intro cev.from_sum_bnd)
    (auto simp: Let_def split: json.splits option.splits
      intro!: cev.rules cev.from_sum cev.in_transaction cev_insert assms fresh_new_request not_run_new_request cev_enqueue cev.latest)

lemma cevF_create_queue_request:
  assumes "\<And>r. fresh_row r \<Longrightarrow> cr_run_id r = None \<Longrightarrow> F r"
  shows "evolves (control_evolves_in F) (create_queue_request py sha a)"
  unfolding create_queue_request_def incident_open_def Let_def
  by (intro cev.from_sum_bnd)
    (auto split: json.splits list.splits option.splits
      intro!: cev.rules cev.in_transaction cev_insert assms fresh_new_request not_run_new_request cev_enqueue)

lemma cevF_decide: "evolves (control_evolves_in F) (decide py rid d by v c)"
proof -
  let ?upd = "\<lambda>nid actor status. update_request nid (\<lambda>r. cr_status r = Pending \<and> cr_version r = v)
      (\<lambda>at r. r\<lparr>cr_status := status, cr_decided_by := Some actor, cr_decided_at := Some at,
                cr_comment := strip c, cr_updated_at := at, cr_version := cr_version r + 1\<rparr>)"
  have main: "control_evolves_in F s (snd (bnd (?upd nid actor status) (\<lambda>u. changed py u nid ''approval_decision'' actor) s))"
    if "find (\<lambda>r. cr_request_id r = nid) (requests s) = Some cur" and "status \<in> {Approved, Rejected}"
      and "status = Approved \<longrightarrow> lower (cr_requested_by cur) \<noteq> lower actor" for s nid actor status cur
  proof (cases "ids_distinct s")
    case True
    have same: "r = cur" if "r \<in> set (requests s)" "cr_request_id r = nid" for r
      using True that \<open>find _ _ = Some cur\<close> find_distinct_key[of cr_request_id "requests s" r nid]
      by (simp add: ids_distinct_def)
    show ?thesis
      by (rule cev.bnd_at[OF cev_update_at cev_changed]) (use same that(2,3) in \<open>auto intro!: row_step.decided\<close>)
  qed (simp add: control_evolves_in_def)
  have body: "evolves (control_evolves_in F) (bnd (latest nid) (\<lambda>row. case row of None \<Rightarrow> throw Not_Found
       | Some cur \<Rightarrow> bnd (require (\<not> (d = ''approve'' \<and> lower (cr_requested_by cur) = lower actor)) (Conflict Self_Approval))
          (\<lambda>_. bnd (?upd nid actor status) (\<lambda>u. changed py u nid ''approval_decision'' actor))))"
    if "status = (if d = ''approve'' then Approved else Rejected)" for nid actor status
  proof (rule evolvesI)
    fix s
    show "control_evolves_in F s (snd (bnd (latest nid) (\<lambda>row. case row of None \<Rightarrow> throw Not_Found
       | Some cur \<Rightarrow> bnd (require (\<not> (d = ''approve'' \<and> lower (cr_requested_by cur) = lower actor)) (Conflict Self_Approval))
          (\<lambda>_. bnd (?upd nid actor status) (\<lambda>u. changed py u nid ''approval_decision'' actor))) s))"
      using main[of nid s _ status actor] that
      by (cases "find (\<lambda>r. cr_request_id r = nid) (requests s)")
        (auto simp: bnd_def[of "latest _"] bnd_def[of "require _ _"] latest_def select_one_def cev.refl)
  qed
  show ?thesis
    unfolding decide_def Let_def by (intro cev.from_sum_bnd cev.bnd cev.require cev.in_transaction body HOL.refl)
qed

lemma cevF_cancel: "evolves (control_evolves_in F) (cancel py rid by v c)"
  unfolding cancel_def
  by (intro cev.from_sum_bnd cev.rules cev.in_transaction cev_changed cev_update row_step.withdrawn) simp_all


lemma map_of_filter: "map_of (filter (\<lambda>y. fst y = k) kvs) k = map_of kvs k"
  by (induction kvs) auto

lemma map_of_sort_key: "map_of (sort_key fst (kvs :: fields)) k = map_of kvs k"
  using map_of_filter[of k kvs] map_of_filter[of k "sort_key fst kvs"] sort_key_stable[of fst k kvs] by simp

lemma map_of_canon_fields: "map_of (canon_fields kvs) k = map_option canon (map_of kvs k)"
  by (induction kvs) auto

lemma canon_JStr: "canon j = JStr s \<longleftrightarrow> j = JStr s"
  by (cases j) auto

lemma canonical_scope_key:
  assumes "canonical_scope sha a scope = Inr (kvs, h)"
  shows "get_json kvs k JNull = JStr v \<longleftrightarrow> get_json scope k JNull = JStr v"
proof -
  have "kvs = sort_key fst (canon_fields scope)"
    using canonical_scope_Inr(1)[OF assms] by simp
  then show ?thesis
    by (auto simp: get_json_def map_of_sort_key map_of_canon_fields canon_JStr split: option.splits)
qed

lemma cevF_claim: "evolves (control_evolves_in F) (claim py rid run v)"
proof -
  let ?f = "\<lambda>run_id at r. r\<lparr>cr_run_id := Some run_id, cr_execution := Dispatching, cr_updated_at := at, cr_version := cr_version r + 1\<rparr>"
  let ?P = "\<lambda>r. cr_status r = Approved \<and> cr_execution r = Not_Started \<and> cr_run_id r = None \<and> cr_version r = v"
  let ?ok = "\<lambda>row. case row of None \<Rightarrow> ret () | Some current \<Rightarrow>
      require (get_json (cr_scope current) ''execution_eligibility'' JNull \<noteq> JStr ''legacy_review_required'') (Conflict Legacy_Cannot_Execute)"
  let ?k = "\<lambda>nid u. changed py u nid ''approval_execution_transition'' ''airflow''"
  have body: "evolves (control_evolves_in F) (bnd (latest nid) (\<lambda>row. bnd (?ok row) (\<lambda>_. bnd (update_request nid ?P (?f run_id)) (?k nid))))"
    for nid run_id
  proof (rule evolvesI)
    fix s
    have main: "control_evolves_in F s (snd (bnd (update_request nid ?P (?f run_id)) (?k nid) s))"
      if "\<And>cur. find (\<lambda>r. cr_request_id r = nid) (requests s) = Some cur \<Longrightarrow> \<not> legacy cur"
    proof (cases "ids_distinct s")
      case True
      have "\<not> legacy r" if "r \<in> set (requests s)" "cr_request_id r = nid" for r
        using True that \<open>\<And>cur. find _ _ = Some cur \<Longrightarrow> _\<close> find_distinct_key[of cr_request_id "requests s" r nid]
        by (simp add: ids_distinct_def)
      then show ?thesis
        by (intro cev.bnd_at[OF cev_update_at cev_changed]) (auto intro!: row_step.claimed)
    qed (simp add: control_evolves_in_def)
    show "control_evolves_in F s (snd (bnd (latest nid) (\<lambda>row. bnd (?ok row) (\<lambda>_. bnd (update_request nid ?P (?f run_id)) (?k nid))) s))"
      using main by (cases "find (\<lambda>r. cr_request_id r = nid) (requests s)")
        (auto simp: bnd_def[of "latest _"] bnd_def[of "require _ _"] bnd_def[of "ret _"] latest_def select_one_def legacy_def cev.refl)
  qed
  show ?thesis
    unfolding claim_def by (intro cev.from_sum_bnd cev.in_transaction body)
qed

lemma cev_outcome_update:
  assumes "outcome_of out = Some target" and "allowed = (if target = Dispatched then [Dispatching] else [Dispatching, Dispatched])"
  shows "evolves (control_evolves_in F) (update_request nid
      (\<lambda>r. cr_status r = Approved \<and> cr_run_id r = Some run_id \<and> cr_execution r \<in> set allowed \<and> cr_version r = v)
      (\<lambda>at r. r\<lparr>cr_execution := target, cr_error := err, cr_updated_at := at, cr_version := cr_version r + 1\<rparr>))"
  by (rule cev_update, rule row_step.reported[of _ run_id])
    (use assms in \<open>auto simp: outcome_of_def split: if_splits\<close>)

lemma cevF_record_execution_outcome: "evolves (control_evolves_in F) (record_execution_outcome py rid run out v err)"
proof (cases "outcome_of out")
  case None
  then show ?thesis
    unfolding record_execution_outcome_def by (auto intro!: cev.from_sum_bnd cev.throw)
next
  case (Some target)
  then show ?thesis
    unfolding record_execution_outcome_def Let_def Some option.case
    by (intro cev.from_sum_bnd cev.bnd cev.require cev.in_transaction cev_changed cev_outcome_update[OF Some] HOL.refl)
qed

lemma fresh_legacy:
  assumes "canonical_scope sha (cr_action_type rec) (cr_scope rec) = Inr (kvs, g)" and "legacy rec"
    and "cr_execution rec \<notin> {Dispatching, Dispatched, Execution_Unknown}"
    and "row_checks (rec\<lparr>cr_scope := kvs\<rparr>)" and "trigger_new (rec\<lparr>cr_scope := kvs\<rparr>)"
  shows "fresh_row (rec\<lparr>cr_scope := kvs\<rparr>)"
  using assms canonical_scope_key[OF assms(1)] canonical_scope_Inr(3)[OF assms(1)]
  by (auto simp: fresh_row_def legacy_def)

lemma cev_modify: "(\<And>s. requests (f s) = requests s) \<Longrightarrow> evolves (control_evolves_in F) (modify f)"
  by (simp add: evolves_def cev_requests)

lemma cevF_import_legacy_request:
  assumes "\<And>kvs. fresh_row (rec\<lparr>cr_scope := kvs\<rparr>) \<Longrightarrow> F (rec\<lparr>cr_scope := kvs\<rparr>)"
  shows "evolves (control_evolves_in F) (import_legacy_request py sha rec history h dry)"
  unfolding import_legacy_request_def Let_def
  by (intro cev.require_bnd cev.from_sum_bnd)
    (auto simp: legacy_def split: list.splits option.splits
      intro!: cev.rules cev.in_transaction cev_insert assms fresh_legacy cev_enqueue cev_modify)

lemma cev_deliver_phases: "evolves (control_evolves_in F) (deliver_phases dl q phs)"
proof (induction phs)
  case Nil
  then show ?case unfolding deliver_phases.simps by (rule cev.ret)
next
  case (Cons ph phs)
  then have "evolves (control_evolves_in F) (case d of
      Delivered \<Rightarrow> bnd (modify (\<lambda>s. mark_done ph q (s\<lparr>sent := sent s @ [(ph, ob_request_id q, ob_version q)]\<rparr>)))
          (\<lambda>_. deliver_phases dl q phs)
    | Delivery_Exception \<Rightarrow> ret False | Delivery_Interrupt \<Rightarrow> throw Delivery_Failed)" for d
    by (cases d) (auto intro!: cev.rules cev_modify simp: mark_done_def)
  with Cons show ?case unfolding deliver_phases.simps by (intro cev.if_prog cev.bnd cev.gets)
qed

lemma cevF_flush: "evolves (control_evolves_in F) (flush_projection_outbox dl limit)"
  unfolding flush_projection_outbox_def
  by (intro cev.in_transaction cev.rules cev_deliver_phases)


section \<open>Any sequence of operations\<close>

datatype control_op =
    Op_Create string fields string string int
  | Op_Create_Queue approval
  | Op_Import control_row "json list" string bool
  | Op_Decide string string string int string
  | Op_Cancel string string int string
  | Op_Claim string string int
  | Op_Outcome string string string int string
  | Op_Flush deliver int

definition run_op :: "pydantic \<Rightarrow> (string \<Rightarrow> nat list) \<Rightarrow> control_op \<Rightarrow> control \<Rightarrow> control" where
  "run_op py sha op s = (case op of
      Op_Create a scope by why g \<Rightarrow> snd (create_request py sha a scope by why g s)
    | Op_Create_Queue a \<Rightarrow> snd (create_queue_request py sha a s)
    | Op_Import r history h dry \<Rightarrow> snd (import_legacy_request py sha r history h dry s)
    | Op_Decide rid d by v c \<Rightarrow> snd (decide py rid d by v c s)
    | Op_Cancel rid by v c \<Rightarrow> snd (cancel py rid by v c s)
    | Op_Claim rid run v \<Rightarrow> snd (claim py rid run v s)
    | Op_Outcome rid run out v err \<Rightarrow> snd (record_execution_outcome py rid run out v err s)
    | Op_Flush dl limit \<Rightarrow> snd (flush_projection_outbox dl limit s))"

definition run_ops :: "pydantic \<Rightarrow> (string \<Rightarrow> nat list) \<Rightarrow> control_op list \<Rightarrow> control \<Rightarrow> control" where
  "run_ops py sha ops s = fold (run_op py sha) ops s"

lemmas cev_create_request = cevF_create_request[where F = fresh_row, simplified]
lemmas cev_create_queue_request = cevF_create_queue_request[where F = fresh_row, simplified]
lemmas cev_import_legacy_request = cevF_import_legacy_request[where F = fresh_row, simplified]
lemmas cev_decide = cevF_decide[where F = fresh_row]
lemmas cev_cancel = cevF_cancel[where F = fresh_row]
lemmas cev_claim = cevF_claim[where F = fresh_row]
lemmas cev_record_execution_outcome = cevF_record_execution_outcome[where F = fresh_row]
lemmas cev_flush = cevF_flush[where F = fresh_row]

lemmas cev_operations = cev_create_request cev_create_queue_request cev_import_legacy_request cev_decide
  cev_cancel cev_claim cev_record_execution_outcome cev_flush

text \<open>A row that the operations \<open>ops\<close> may insert: only an import brings a row with an execution.\<close>

definition entry_of :: "control_op list \<Rightarrow> control_row \<Rightarrow> bool" where
  "entry_of ops r \<longleftrightarrow> fresh_row r \<and>
     (cr_run_id r \<noteq> None \<longrightarrow> (\<exists>rec history h dry. Op_Import rec history h dry \<in> set ops \<and> r = rec\<lparr>cr_scope := cr_scope r\<rparr>))"

lemma run_op_entries:
  assumes "op \<in> set ops"
  shows "control_evolves_in (entry_of ops) s (run_op py sha op s)"
proof (cases op)
  case (Op_Import rec history h dry)
  have "evolves (control_evolves_in (entry_of ops)) (import_legacy_request py sha rec history h dry)"
    using assms Op_Import by (intro cevF_import_legacy_request) (force simp: entry_of_def)
  then show ?thesis by (simp add: run_op_def Op_Import evolves_def)
next
  case (Op_Create a scope who why g)
  have "evolves (control_evolves_in (entry_of ops)) (create_request py sha a scope who why g)"
    by (intro cevF_create_request) (simp add: entry_of_def)
  then show ?thesis by (simp add: run_op_def Op_Create evolves_def)
next
  case (Op_Create_Queue a)
  have "evolves (control_evolves_in (entry_of ops)) (create_queue_request py sha a)"
    by (intro cevF_create_queue_request) (simp add: entry_of_def)
  then show ?thesis by (simp add: run_op_def Op_Create_Queue evolves_def)
qed (use cevF_decide[of "entry_of ops"] cevF_cancel[of "entry_of ops"] cevF_claim[of "entry_of ops"]
      cevF_record_execution_outcome[of "entry_of ops"] cevF_flush[of "entry_of ops"]
     in \<open>simp_all add: run_op_def evolves_def\<close>)

lemma run_ops_entries: "control_evolves_in (entry_of ops) s (run_ops py sha ops s)"
proof -
  have "control_evolves_in (entry_of ops) s (fold (run_op py sha) os s)" if "set os \<subseteq> set ops" for os
    using that
  proof (induction os arbitrary: s)
    case (Cons op os)
    then show ?case using cev.trans[OF run_op_entries[of op ops s py sha]] by simp
  qed (simp add: cev.refl)
  then show ?thesis by (simp add: run_ops_def)
qed

lemma run_op_evolves: "control_evolves s (run_op py sha op s)"
  using cev_operations by (cases op) (auto simp: run_op_def evolves_def)

lemma run_ops_evolves: "control_evolves s (run_ops py sha ops s)"
  unfolding run_ops_def by (induction ops arbitrary: s) (auto intro: cev.refl cev.trans run_op_evolves)

definition empty_control :: "(string \<times> string) list \<Rightarrow> (int \<times> commit) list \<Rightarrow> control" where
  "empty_control incs sched =
     \<lparr>requests = [], outbox = [], legacy_imports = [], incidents = incs, now = 0, schedule = sched, sent = []\<rparr>"

definition sound_row :: "control_row \<Rightarrow> bool" where
  "sound_row r \<longleftrightarrow> row_checks r \<and> trigger_new r \<and> (\<forall>k \<in> keys_of (JObj (cr_scope r)). \<not> sensitive_key k) \<and>
     (legacy r \<or> (cr_execution r = Not_Started \<longleftrightarrow> cr_run_id r = None)) \<and>
     (cr_status r = Approved \<longrightarrow> legacy r \<or> (\<exists>a. cr_decided_by r = Some a \<and> lower a \<noteq> lower (cr_requested_by r)))"

lemma fresh_row_sound: "fresh_row r \<Longrightarrow> sound_row r"
  by (auto simp: fresh_row_def sound_row_def)

lemma row_step_sound:
  assumes "row_step r r'" and "sound_row r"
  shows "sound_row r'"
  using assms
  by (cases rule: row_step.cases)
    (auto simp: sound_row_def row_checks_def trigger_new_def legacy_def split: approval_status.splits)

lemma run_ops_sound:
  assumes "ids_distinct s" and "\<forall>r \<in> set (requests s). sound_row r"
  shows "ids_distinct (run_ops py sha ops s) \<and> (\<forall>r \<in> set (requests (run_ops py sha ops s)). sound_row r)"
  using run_ops_evolves[of s py sha ops] assms
    rows_evolve_invariant[of row_step fresh_row _ _ sound_row, OF _ _ fresh_row_sound row_step_sound]
  by (auto simp: control_evolves_def)

lemma empty_control_sound:
  "ids_distinct (empty_control incs sched)" "\<forall>r \<in> set (requests (empty_control incs sched)). sound_row r"
  by (simp_all add: empty_control_def ids_distinct_def)

text \<open>The request was imported, with an execution that was not under way.\<close>

definition imported_by :: "control_op list \<Rightarrow> control_row \<Rightarrow> bool" where
  "imported_by ops r \<longleftrightarrow> legacy r \<and>
     (\<exists>rec history h dry. Op_Import rec history h dry \<in> set ops \<and> cr_request_id rec = cr_request_id r \<and>
        cr_run_id rec = cr_run_id r \<and> cr_execution rec = cr_execution r \<and>
        cr_execution rec \<notin> {Dispatching, Dispatched, Execution_Unknown})"

lemma entry_imported:
  assumes "entry_of ops r" and "legacy r" and "cr_run_id r \<noteq> None"
  shows "imported_by ops r"
proof -
  obtain rec history h dry where rec: "Op_Import rec history h dry \<in> set ops" and r: "r = rec\<lparr>cr_scope := cr_scope r\<rparr>"
    using assms by (auto simp: entry_of_def)
  have same: "cr_request_id rec = cr_request_id r" "cr_run_id rec = cr_run_id r" "cr_execution rec = cr_execution r"
    by (subst r, simp)+
  moreover have "cr_execution r \<notin> {Dispatching, Dispatched, Execution_Unknown}"
    using assms(1,3) unfolding entry_of_def fresh_row_def by blast
  ultimately show ?thesis using rec assms(2) unfolding imported_by_def by metis
qed

lemma imported_stays:
  assumes "row_step r r'" and "legacy r \<Longrightarrow> cr_run_id r \<noteq> None \<Longrightarrow> imported_by ops r"
    and "legacy r'" and "cr_run_id r' \<noteq> None"
  shows "imported_by ops r'"
  using assms by (cases rule: row_step.cases) (auto simp: imported_by_def legacy_def)

text \<open>
  C9. Whatever sequence of store operations runs against an empty store, with commits failing or
  losing their acknowledgement at any point: a request that has an execution is approved, and either
  it was approved by somebody other than its requester (letter case aside), or it is a legacy request
  that one of these operations imported with this very execution, which was not under way then and has
  not moved since. No scope in the store has a credential-like key at any depth.
\<close>

theorem executed_requests_were_approved_by_another:
  "\<forall>r \<in> set (requests (run_ops py sha ops (empty_control incs sched))).
     (cr_run_id r \<noteq> None \<longrightarrow> cr_status r = Approved \<and>
        (imported_by ops r \<or> (\<exists>a. cr_decided_by r = Some a \<and> lower a \<noteq> lower (cr_requested_by r)))) \<and>
     (\<forall>k \<in> keys_of (JObj (cr_scope r)). \<not> sensitive_key k)"
proof -
  let ?rows = "requests (run_ops py sha ops (empty_control incs sched))"
  have "rows_evolve row_step (entry_of ops) (requests (empty_control incs sched)) ?rows"
    using run_ops_entries[of ops "empty_control incs sched" py sha] empty_control_sound(1)[of incs sched]
    by (simp add: control_evolves_in_def)
  then have "\<forall>r \<in> set ?rows. legacy r \<and> cr_run_id r \<noteq> None \<longrightarrow> imported_by ops r"
    by (rule rows_evolve_invariant) (simp add: empty_control_def, use entry_imported imported_stays in blast)+
  then show ?thesis
    using run_ops_sound[OF empty_control_sound, of py sha ops incs sched]
    by (auto simp: sound_row_def row_checks_def)
qed


section \<open>What a successful transition has done\<close>

definition row_of :: "control \<Rightarrow> string \<Rightarrow> control_row option" where
  "row_of s nid = find (\<lambda>r. cr_request_id r = nid) (requests s)"

lemma in_transaction_Inr:
  "in_transaction body s = (Inr x, t) \<Longrightarrow> body (fst (start s)) = (Inr x, t)"
  by (cases "start s") (auto simp: in_transaction_def split: prod.splits sum.splits commit.splits)

lemma row_of_start [simp]: "row_of (fst (start s)) nid = row_of s nid" "ids_distinct (fst (start s)) = ids_distinct s"
  by (simp_all add: row_of_def ids_distinct_def)

lemma find_weaker:
  assumes "distinct (map key rows)" and "find (\<lambda>r. key r = k \<and> P r) rows = Some old"
  shows "find (\<lambda>r. key r = k) rows = Some old \<and> P old"
  using find_SomeD[OF assms(2)] find_distinct_key[OF assms(1)] by blast

lemma find_updated:
  assumes "find (\<lambda>r. key r = k) rows = Some old" and "P old" and "key (f old) = k"
    and "\<And>r. r \<in> set rows \<Longrightarrow> key r = k \<Longrightarrow> P r \<Longrightarrow> key (f r) = k"
  shows "find (\<lambda>r. key r = k) (sql_update (\<lambda>r. key r = k \<and> P r) f rows) = Some (f old)"
  using assms by (induction rows) (auto simp: sql_update_def split: if_splits)

lemma update_changed_Inr:
  assumes run: "bnd (update_request nid P f) (\<lambda>u. changed py u nid ev actor) s = (Inr r, t)" and ids: "ids_distinct s"
  shows "\<exists>old. row_of s nid = Some old \<and> P old \<and> r = f (now s) old \<and> row_of t nid = Some r \<and> trigger_update old r"
proof -
  obtain u s1 where upd: "update_request nid P f s = (Inr u, s1)" and ch: "changed py u nid ev actor s1 = (Inr r, t)"
    using run by (auto simp: bnd_Inr)
  have "u \<noteq> None"
    using ch by (cases u) (auto simp: changed_def require_transition_def latest_def select_one_def bnd_Inr split: option.splits)
  then obtain old where u: "u = Some (f (now s) old)" and fd: "find (\<lambda>r. cr_request_id r = nid \<and> P r) (requests s) = Some old"
    and tr: "trigger_update old (f (now s) old)"
    and rows: "requests s1 = sql_update (\<lambda>r. cr_request_id r = nid \<and> P r) (f (now s)) (requests s)"
    using update_request_requests[OF upd] by auto
  have r: "r = f (now s) old" and "requests t = requests s1"
    using ch u by (auto simp: changed_def bnd_Inr enqueue_def from_sum_def lift_Inr_iff)
  have ro: "row_of s nid = Some old" and P: "P old"
    using find_weaker[OF _ fd] ids by (simp_all add: row_of_def ids_distinct_def)
  have same: "x = old" if "x \<in> set (requests s)" "cr_request_id x = nid" for x
    using find_distinct_key[of cr_request_id "requests s" x nid] that ids ro by (simp add: row_of_def ids_distinct_def)
  have "cr_request_id (f (now s) old) = nid"
    using tr find_SomeD[OF fd] by (simp add: trigger_update_def identity_of_def)
  then have "row_of s1 nid = Some (f (now s) old)"
    unfolding row_of_def rows using ro P same
    by (intro find_updated) (auto simp: row_of_def)
  then show ?thesis
    using ro P r tr \<open>requests t = requests s1\<close> by (auto simp: row_of_def)
qed

lemma from_sum_Inr: "bnd (from_sum x) f s = (Inr y, t) \<longleftrightarrow> (\<exists>z. x = Inr z \<and> f z s = (Inr y, t))"
  by (auto simp: from_sum_def bnd_Inr lift_Inr_iff)

lemma identifier_of_Inr: "identifier_of x = Inr y \<longleftrightarrow> y = strip x \<and> 1 \<le> length y \<and> length y \<le> 200 \<and> list_all identifier_char y"
  by (auto simp: identifier_of_def Let_def)

lemma actor_of_Inr: "actor_of x = Inr y \<longleftrightarrow> y = strip x \<and> y \<noteq> [] \<and> length y \<le> 200"
  by (auto simp: actor_of_def Let_def)

lemma claim_Inr:
  assumes "claim py rid run v s = (Inr r, t)" and "ids_distinct s"
  shows "\<exists>old. row_of s (strip rid) = Some old \<and> row_of t (strip rid) = Some r \<and> cr_status old = Approved \<and>
     cr_execution old = Not_Started \<and> cr_run_id old = None \<and> cr_version old = v \<and> \<not> legacy old \<and>
     cr_version r = v + 1 \<and> cr_run_id r = Some (strip run) \<and> cr_execution r = Dispatching"
  using assms
  by (auto simp: claim_def from_sum_Inr identifier_of_Inr bnd_Inr[of "latest _"] bnd_Inr[of "case _ of None \<Rightarrow> ret () | Some c \<Rightarrow> _ c"]
      latest_def select_one_def row_of_def[symmetric] legacy_def split: option.splits if_splits
      dest!: in_transaction_Inr update_changed_Inr)

lemma decide_Inr:
  assumes "decide py rid d by v c s = (Inr r, t)" and "ids_distinct s"
  shows "\<exists>old. row_of s (strip rid) = Some old \<and> row_of t (strip rid) = Some r \<and> cr_status old = Pending \<and>
     cr_version old = v \<and> cr_version r = v + 1 \<and> cr_decided_by r = Some (strip by) \<and>
     cr_status r = (if d = ''approve'' then Approved else Rejected) \<and>
     (d = ''approve'' \<longrightarrow> lower (cr_requested_by old) \<noteq> lower (strip by))"
  using assms
  by (auto simp: decide_def Let_def from_sum_Inr identifier_of_Inr actor_of_Inr bnd_Inr[of "latest _"] bnd_Inr[of "require _ _"]
      latest_def select_one_def row_of_def[symmetric] split: option.splits if_splits
      dest!: in_transaction_Inr update_changed_Inr)

lemma cancel_Inr:
  assumes "cancel py rid by v c s = (Inr r, t)" and "ids_distinct s"
  shows "\<exists>old. row_of s (strip rid) = Some old \<and> row_of t (strip rid) = Some r \<and> cr_status old \<in> {Pending, Approved} \<and>
     cr_execution old = Not_Started \<and> cr_run_id old = None \<and> cr_version old = v \<and> cr_version r = v + 1 \<and>
     cr_status r = Cancelled \<and> cr_cancelled_by r = Some (strip by)"
  using assms
  by (auto simp: cancel_def from_sum_Inr identifier_of_Inr actor_of_Inr bnd_Inr[of "require _ _"]
      split: if_splits dest!: in_transaction_Inr update_changed_Inr)

lemma outcome_Inr:
  assumes "record_execution_outcome py rid run out v err s = (Inr r, t)" and "ids_distinct s"
  shows "\<exists>old target. outcome_of out = Some target \<and> row_of s (strip rid) = Some old \<and> row_of t (strip rid) = Some r \<and>
     cr_status old = Approved \<and> cr_run_id old = Some (strip run) \<and> cr_execution old \<in> {Dispatching, Dispatched} \<and>
     cr_version old = v \<and> cr_version r = v + 1 \<and> cr_execution r = target \<and> cr_run_id r = Some (strip run)"
  using assms
  by (auto simp: record_execution_outcome_def Let_def from_sum_Inr identifier_of_Inr bnd_Inr[of "require _ _"]
      split: option.splits if_splits dest!: in_transaction_Inr update_changed_Inr)


section \<open>Compare and swap\<close>

datatype transition =
  T_Decide string string string | T_Cancel string string | T_Claim string | T_Outcome string string string

text \<open>The four mutations, as attempts on a request at a version.\<close>

definition attempt_transition ::
    "pydantic \<Rightarrow> transition \<Rightarrow> string \<Rightarrow> int \<Rightarrow> control_row control_prog" where
  "attempt_transition py tr rid v = (case tr of
      T_Decide d by c \<Rightarrow> decide py rid d by v c
    | T_Cancel by c \<Rightarrow> cancel py rid by v c
    | T_Claim run \<Rightarrow> claim py rid run v
    | T_Outcome run out err \<Rightarrow> record_execution_outcome py rid run out v err)"

definition request_version :: "control \<Rightarrow> string \<Rightarrow> int option" where
  "request_version s rid = map_option cr_version (row_of s (strip rid))"

lemma attempt_evolves: "evolves control_evolves (attempt_transition py tr rid v)"
  by (cases tr) (simp_all add: attempt_transition_def cev_operations)

lemma row_of_evolves:
  assumes "control_evolves s t" and "ids_distinct s" and "row_of s nid = Some r"
  shows "\<exists>r'. row_of t nid = Some r' \<and> row_step\<^sup>*\<^sup>* r r'"
  using assms rows_evolve_find[of row_step fresh_row "requests s" "requests t" cr_request_id nid r]
  by (auto simp: control_evolves_def ids_distinct_def row_of_def dest: row_step_id)

interpretation cas: versioned request_version "attempt_transition py" ids_distinct for py
proof
  fix s :: control and op k k' v n
  assume ids: "ids_distinct s"
  show "ids_distinct (snd (attempt_transition py op k v s))"
    using attempt_evolves[of py op k v] ids by (auto simp: evolves_def control_evolves_def)
  show "request_version s k = Some v \<and> request_version t k = Some (v + 1)"
    if "attempt_transition py op k v s = (Inr x, t)" for x t
    using that ids
    by (cases op) (auto simp: attempt_transition_def request_version_def
        dest!: decide_Inr cancel_Inr claim_Inr outcome_Inr)
  show "\<exists>m. request_version (snd (attempt_transition py op k v s)) k' = Some m \<and> n \<le> m"
    if vn: "request_version s k' = Some n"
  proof -
    have "control_evolves s (snd (attempt_transition py op k v s))"
      using attempt_evolves by (simp add: evolves_def)
    moreover obtain r where "row_of s (strip k') = Some r" and "cr_version r = n"
      using vn by (auto simp: request_version_def)
    ultimately show ?thesis
      using row_of_evolves[OF _ ids] row_star_identity by (fastforce simp: request_version_def)
  qed
qed

text \<open>
  C10. No lost update: of all decisions, cancellations, claims and outcomes submitted for one
  request at one version, at most one succeeds, whatever other transitions run in between and
  whichever commits lose their acknowledgement.
\<close>

theorem one_transition_per_version:
  assumes "ids_distinct s" and "attempt_transition py tr rid v s = (Inr r, t)"
  shows "\<exists>e. fst (attempt_transition py tr' rid v
            (fold (\<lambda>(tr, rid, v) s. snd (attempt_transition py tr rid v s)) between t)) = Inl e"
  using cas.one_winner[OF assms, of tr' between] by (simp add: cas.attempts_def)

subsection \<open>Single use\<close>

lemma row_star_claimed:
  "row_step\<^sup>*\<^sup>* r r' \<Longrightarrow> cr_run_id r = Some run \<Longrightarrow> cr_run_id r' = Some run"
  by (induction rule: rtranclp_induct) (auto elim!: row_stepE)

text \<open>
  C11. A request authorises one execution: once a run has claimed it, every later claim fails,
  by the same run or another and at any version, whatever operations come in between, and the
  outcome can be recorded by no other run.
\<close>

theorem claimed_once:
  assumes "ids_distinct s" and "claim py rid run v s = (Inr r, t)"
  shows "(\<exists>e. fst (claim py rid run' v' (run_ops py sha ops t)) = Inl e) \<and>
     (strip run' \<noteq> strip run \<longrightarrow>
        (\<exists>e. fst (record_execution_outcome py rid run' out v' err (run_ops py sha ops t)) = Inl e))"
proof -
  let ?u = "run_ops py sha ops t"
  have ids: "ids_distinct t"
    using evolvesD[OF cev_claim assms(2)] assms(1) by (simp add: control_evolves_def)
  then have ids': "ids_distinct ?u"
    using run_ops_evolves[of t py sha ops] by (simp add: control_evolves_def)
  obtain r' where u: "row_of ?u (strip rid) = Some r'" and run: "cr_run_id r' = Some (strip run)"
    using claim_Inr[OF assms(2,1)] row_of_evolves[OF run_ops_evolves ids] row_star_claimed by metis
  show ?thesis
  proof (intro conjI impI)
    show "\<exists>e. fst (claim py rid run' v' ?u) = Inl e"
      using claim_Inr[OF _ ids'] u run by (cases "claim py rid run' v' ?u"; cases "fst (claim py rid run' v' ?u)") fastforce+
    show "\<exists>e. fst (record_execution_outcome py rid run' out v' err ?u) = Inl e" if "strip run' \<noteq> strip run"
      using outcome_Inr[OF _ ids'] u run that
      by (cases "record_execution_outcome py rid run' out v' err ?u"; cases "fst (record_execution_outcome py rid run' out v' err ?u)")
        fastforce+
  qed
qed

lemma row_star_cancelled:
  "row_step\<^sup>*\<^sup>* r r' \<Longrightarrow> cr_status r = Cancelled \<Longrightarrow> cr_status r' = Cancelled"
  by (induction rule: rtranclp_induct) (auto elim!: row_stepE)

lemma Inl_if_not_Inr: "(\<And>y u. m s \<noteq> (Inr y, u)) \<Longrightarrow> \<exists>e. fst (m s) = Inl e"
  by (cases "m s"; cases "fst (m s)") auto

lemma later_ids: "evolves control_evolves m \<Longrightarrow> m s = (x, t) \<Longrightarrow> ids_distinct s \<Longrightarrow> ids_distinct (run_ops py sha ops t)"
  using run_ops_evolves[of t py sha ops] by (auto simp: control_evolves_def dest: evolvesD)

text \<open>
  Cancellation and execution exclude each other: after a successful cancellation no claim of
  the request succeeds any more, and after a successful claim no cancellation does, whatever
  operations come in between.
\<close>

theorem cancel_excludes_claim:
  assumes "ids_distinct s"
  shows "(case cancel py rid by v c s of
       (Inl e, t) \<Rightarrow> True
     | (Inr r, t) \<Rightarrow> (\<exists>e. fst (claim py rid run v' (run_ops py sha ops t)) = Inl e)) \<and>
   (case claim py rid run v s of
       (Inl e, t) \<Rightarrow> True
     | (Inr r, t) \<Rightarrow> (\<exists>e. fst (cancel py rid by v' c (run_ops py sha ops t)) = Inl e))"
proof (intro conjI)
  show "case cancel py rid by v c s of (Inl e, t) \<Rightarrow> True
     | (Inr r, t) \<Rightarrow> (\<exists>e. fst (claim py rid run v' (run_ops py sha ops t)) = Inl e)"
  proof (cases "cancel py rid by v c s"; cases "fst (cancel py rid by v c s)")
    fix x t r assume run: "cancel py rid by v c s = (x, t)" "fst (cancel py rid by v c s) = Inr r"
    then have c: "cancel py rid by v c s = (Inr r, t)" by simp
    have ids: "ids_distinct t" using later_ids[OF cev_cancel c assms, of py sha "[]"] by (simp add: run_ops_def)
    note ids' = later_ids[OF cev_cancel c assms, of py sha ops]
    obtain r' where "row_of (run_ops py sha ops t) (strip rid) = Some r'" and "cr_status r' = Cancelled"
      using cancel_Inr[OF c assms] row_of_evolves[OF run_ops_evolves ids] row_star_cancelled by metis
    then have "\<exists>e. fst (claim py rid run v' (run_ops py sha ops t)) = Inl e"
      by (intro Inl_if_not_Inr) (auto dest!: claim_Inr[OF _ ids'])
    with c show ?thesis by simp
  qed simp
next
  show "case claim py rid run v s of (Inl e, t) \<Rightarrow> True
     | (Inr r, t) \<Rightarrow> (\<exists>e. fst (cancel py rid by v' c (run_ops py sha ops t)) = Inl e)"
  proof (cases "claim py rid run v s"; cases "fst (claim py rid run v s)")
    fix x t r assume run: "claim py rid run v s = (x, t)" "fst (claim py rid run v s) = Inr r"
    then have c: "claim py rid run v s = (Inr r, t)" by simp
    have ids: "ids_distinct t" using later_ids[OF cev_claim c assms, of py sha "[]"] by (simp add: run_ops_def)
    note ids' = later_ids[OF cev_claim c assms, of py sha ops]
    obtain r' where "row_of (run_ops py sha ops t) (strip rid) = Some r'" and "cr_run_id r' \<noteq> None"
      using claim_Inr[OF c assms] row_of_evolves[OF run_ops_evolves ids] row_star_claimed by (metis option.distinct(1))
    then have "\<exists>e. fst (cancel py rid by v' c (run_ops py sha ops t)) = Inl e"
      by (intro Inl_if_not_Inr) (auto dest!: cancel_Inr[OF _ ids'])
    with c show ?thesis by simp
  qed simp
qed


section \<open>The outbox\<close>

definition entry_for :: "control_row \<Rightarrow> outbox_row \<Rightarrow> bool" where
  "entry_for r q \<longleftrightarrow> ob_request_id q = cr_request_id r \<and> ob_version q = cr_version r"

text \<open>Every request's current row is in the outbox, and the outbox holds only versions that were.\<close>

definition logged :: "control \<Rightarrow> bool" where
  "logged s \<longleftrightarrow>
     (\<forall>r \<in> set (requests s). \<exists>q \<in> set (outbox s). entry_for r q \<and> pl_record (ob_payload q) = r) \<and>
     (\<forall>q \<in> set (outbox s). \<exists>r \<in> set (requests s). ob_request_id q = cr_request_id r \<and> ob_version q \<le> cr_version r)"

definition keeps_log :: "control \<Rightarrow> control \<Rightarrow> bool" where
  "keeps_log s t \<longleftrightarrow> (ids_distinct s \<and> logged s \<longrightarrow> ids_distinct t \<and> logged t)"

interpretation log: control_relation keeps_log
  by unfold_locales (auto simp: keeps_log_def logged_def ids_distinct_def)

lemma enqueue_row_present:
  "sql_any (entry_for r) rows \<Longrightarrow> enqueue_row r e a rows = rows"
  by (simp add: enqueue_row_def entry_for_def[abs_def])

lemma enqueue_present:
  assumes "sql_any (entry_for r) (outbox s)"
  shows "snd (enqueue py r e a s) = s"
  using enqueue_row_present[OF assms, of e a]
  by (auto simp: enqueue_def bnd_def from_sum_def lift_def split: sum.splits)

lemma fire_trigger_entry: "sql_any (entry_for new) (outbox (fire_trigger old new s))"
  by (auto simp: fire_trigger_def enqueue_row_def entry_for_def sql_any_iff split: prod.splits)

lemma fire_trigger_new:
  assumes "\<not> sql_any (entry_for new) (outbox s)"
  shows "\<exists>q. outbox (fire_trigger old new s) = outbox s @ [q] \<and> entry_for new q \<and> pl_record (ob_payload q) = new"
  using assms by (auto simp: fire_trigger_def enqueue_row_def entry_for_def[abs_def] split: prod.splits)

lemma logged_insert:
  assumes "logged s" and "cr_request_id new \<notin> cr_request_id ` set (requests s)"
  shows "logged (fire_trigger None new (s\<lparr>requests := requests s @ [new]\<rparr>))"
proof -
  let ?s = "s\<lparr>requests := requests s @ [new]\<rparr>"
  have "\<not> sql_any (entry_for new) (outbox ?s)"
    using assms by (fastforce simp: logged_def sql_any_iff entry_for_def image_iff)
  then obtain q where "outbox (fire_trigger None new ?s) = outbox s @ [q]" and "entry_for new q"
      and "pl_record (ob_payload q) = new"
    using fire_trigger_new by fastforce
  then show ?thesis
    using assms(1) by (auto simp: logged_def entry_for_def)
qed

lemma logged_update:
  assumes log: "logged s" and ids: "ids_distinct s" and old: "old \<in> set (requests s)"
    and tr: "trigger_update old new"
    and rows: "requests t = map (\<lambda>r. if r = old then new else r) (requests s)" and out: "outbox t = outbox s"
  shows "logged (fire_trigger (Some old) new t)"
proof -
  have id: "cr_request_id new = cr_request_id old" and ver: "cr_version new = cr_version old + 1"
    using tr by (auto simp: trigger_update_def identity_of_def)
  have uniq: "r = old" if "r \<in> set (requests s)" "cr_request_id r = cr_request_id old" for r
    using ids that old by (auto simp: ids_distinct_def distinct_map inj_on_def)
  have "\<not> sql_any (entry_for new) (outbox t)"
    using log uniq id ver out by (fastforce simp: logged_def sql_any_iff entry_for_def)
  then obtain q where q: "outbox (fire_trigger (Some old) new t) = outbox s @ [q]" "entry_for new q"
      "pl_record (ob_payload q) = new"
    using fire_trigger_new out by fastforce
  have "\<exists>q' \<in> set (outbox s @ [q]). entry_for r q' \<and> pl_record (ob_payload q') = r" if "r \<in> set (requests t)" for r
    using that log q by (auto simp: rows logged_def split: if_splits)
  moreover have "\<exists>r \<in> set (requests t). ob_request_id q' = cr_request_id r \<and> ob_version q' \<le> cr_version r"
    if q': "q' \<in> set (outbox s @ [q])" for q'
  proof (cases "q' = q")
    case True
    then show ?thesis using q(2) old by (auto simp: rows entry_for_def)
  next
    case False
    then obtain r where r: "r \<in> set (requests s)" "ob_request_id q' = cr_request_id r" "ob_version q' \<le> cr_version r"
      using q' log by (auto simp: logged_def)
    show ?thesis
      using r old id ver by (cases "r = old") (auto simp: rows intro!: bexI[of _ "if r = old then new else r"])
  qed
  ultimately show ?thesis using q(1) by (auto simp: logged_def)
qed

lemma sql_update_single:
  assumes "distinct (map key rows)" and "find (\<lambda>r. key r = k \<and> P r) rows = Some old"
  shows "sql_update (\<lambda>r. key r = k \<and> P r) f rows = map (\<lambda>r. if r = old then f old else r) rows"
  unfolding sql_update_def
proof (rule map_cong[OF HOL.refl])
  fix r assume r: "r \<in> set rows"
  show "(if key r = k \<and> P r then f r else r) = (if r = old then f old else r)"
    using only_row[OF assms r] find_SomeD[OF assms(2)] by (cases "key r = k") auto
qed

lemma require_transition_throws: "\<exists>e. require_transition rid s = (Inl e, s)"
  by (auto simp: require_transition_def latest_def select_one_def bnd_def split: option.splits)

lemma log_update_changed:
  "evolves keeps_log (bnd (update_request nid P f) (\<lambda>u. changed py u nid e a))"
proof (rule evolvesI)
  fix s
  let ?m = "\<lambda>u. changed py u nid e a"
  obtain r t where upd: "update_request nid P f s = (r, t)" by (cases "update_request nid P f s")
  show "keeps_log s (snd (bnd (update_request nid P f) ?m s))"
  proof (cases "\<exists>new. r = Inr (Some new)")
    case False
    then have "t = s" and "r \<in> {Inl Db_Error, Inr None}"
      using upd unfolding update_request_def Let_def by (force split: option.splits if_splits)+
    moreover have none: "snd (changed py None nid e a s) = s"
      using require_transition_throws[where 'a = control_row, of nid s] by (auto simp: changed_def bnd_def)
    ultimately have "snd (bnd (update_request nid P f) ?m s) = s"
      using upd by (elim insertE) (simp_all add: bnd_def none)
    then show ?thesis by (simp only: log.refl)
  next
    case True
    then obtain old where fd: "find (\<lambda>r. cr_request_id r = nid \<and> P r) (requests s) = Some old"
      and r: "r = Inr (Some (f (now s) old))" and tr: "trigger_update old (f (now s) old)"
      and t: "t = fire_trigger (Some old) (f (now s) old)
          (s\<lparr>requests := sql_update (\<lambda>r. cr_request_id r = nid \<and> P r) (f (now s)) (requests s)\<rparr>)"
      using upd by (auto simp: update_request_def Let_def split: option.splits if_splits)
    have "snd (enqueue py (f (now s) old) e a t) = t"
      unfolding t by (rule enqueue_present) (rule fire_trigger_entry)
    then have "snd (changed py (Some (f (now s) old)) nid e a t) = t"
      by (cases "enqueue py (f (now s) old) e a t") (auto simp: changed_def bnd_def split: sum.splits)
    moreover have "keeps_log s t"
    proof (cases "ids_distinct s \<and> logged s")
      case True
      have "requests (s\<lparr>requests := sql_update (\<lambda>r. cr_request_id r = nid \<and> P r) (f (now s)) (requests s)\<rparr>) =
          map (\<lambda>r. if r = old then f (now s) old else r) (requests s)"
        using sql_update_single[of cr_request_id, OF _ fd] True by (simp add: ids_distinct_def)
      then have "logged t"
        unfolding t using True find_SomeD[OF fd] tr by (intro logged_update) auto
      moreover have "ids_distinct t"
      proof -
        have "map cr_request_id (requests t) = map cr_request_id (requests s) \<and>
            map cr_idempotency_hash (requests t) = map cr_idempotency_hash (requests s)"
          using sql_update_single[of cr_request_id, OF _ fd] True tr
          by (auto simp: t ids_distinct_def trigger_update_def identity_of_def)
        then show ?thesis using True by (simp add: ids_distinct_def)
      qed
      ultimately show ?thesis by (simp add: keeps_log_def)
    qed (auto simp: keeps_log_def)
    ultimately show ?thesis using upd r by simp
  qed
qed

lemma log_insert_bnd:
  assumes "\<And>t. sql_any (entry_for new) (outbox t) \<Longrightarrow> keeps_log t (snd (k (Some new) t))"
    and "guard \<Longrightarrow> evolves keeps_log (k None)"
  shows "evolves keeps_log (bnd (insert_request guard new) k)"
proof (rule evolvesI)
  fix s
  let ?t = "fire_trigger None new (s\<lparr>requests := requests s @ [new]\<rparr>)"
  have ins: "keeps_log s ?t"
    if "\<not> sql_any (\<lambda>r. cr_idempotency_hash r = cr_idempotency_hash new \<or> cr_request_id r = cr_request_id new) (requests s)"
  proof -
    have "cr_request_id new \<notin> cr_request_id ` set (requests s)"
        and "cr_idempotency_hash new \<notin> cr_idempotency_hash ` set (requests s)"
      using that by (force simp: sql_any_iff)+
    then show ?thesis
      using logged_insert[of s new] by (simp add: keeps_log_def ids_distinct_def)
  qed
  have "keeps_log ?t (snd (k (Some new) ?t))" by (rule assms(1)) (rule fire_trigger_entry)
  with ins show "keeps_log s (snd (bnd (insert_request guard new) k s))"
    using assms(2) by (auto simp: insert_request_def bnd_def evolves_def log.refl intro: log.trans)
qed

lemma log_enqueue_ret:
  "sql_any (entry_for r) (outbox t) \<Longrightarrow> keeps_log t (snd (bnd (enqueue py r e a) (\<lambda>_. ret x) t))"
  using enqueue_present[of r t py e a] by (auto simp: bnd_def log.refl split: prod.splits sum.splits)

lemma log_cancel: "evolves keeps_log (cancel py rid by v c)"
  unfolding cancel_def by (intro log.from_sum_bnd log.bnd log.require log.in_transaction log_update_changed)

lemma log_decide: "evolves keeps_log (decide py rid d by v c)"
  unfolding decide_def Let_def
  by (intro log.from_sum_bnd log.bnd log.require log.in_transaction log.latest log.case_option log.throw log_update_changed)

lemma log_claim: "evolves keeps_log (claim py rid run v)"
  unfolding claim_def
  by (intro log.from_sum_bnd log.bnd log.require log.in_transaction log.latest log.case_option log.ret log_update_changed)

lemma log_record_execution_outcome: "evolves keeps_log (record_execution_outcome py rid run out v err)"
  unfolding record_execution_outcome_def Let_def
  by (intro log.from_sum_bnd log.bnd log.require log.in_transaction log.case_option log.throw log_update_changed)

lemma log_incident_open: "evolves keeps_log (incident_open scope)"
  unfolding incident_open_def Let_def
  by (auto split: json.splits intro!: log.rules)

lemma log_insert_created:
  assumes "evolves keeps_log K"
  shows "evolves keeps_log (bnd (insert_request guard new) (\<lambda>created. case created of
      None \<Rightarrow> K | Some r \<Rightarrow> bnd (enqueue py r e a) (\<lambda>_. ret (r, True))))"
  by (rule log_insert_bnd) (simp_all add: assms log_enqueue_ret)

lemmas log_rules = log.ret log.throw log.gets log.require log.from_sum log.latest log.in_transaction log.if_prog
  log_incident_open log.case_option

lemma log_create_request: "evolves keeps_log (create_request py sha a scope by why g)"
  unfolding create_request_def Let_def
  by (rule log.from_sum_bnd2 log_insert_created log_rules | rule log.bnd)+

lemma log_case_list:
  "evolves keeps_log m \<Longrightarrow> (\<And>x xs. evolves keeps_log (f x xs)) \<Longrightarrow> evolves keeps_log (case l of [] \<Rightarrow> m | x # xs \<Rightarrow> f x xs)"
  by (cases l) simp_all

lemma log_create_queue_request: "evolves keeps_log (create_queue_request py sha a)"
  unfolding create_queue_request_def Let_def
  by (rule log.from_sum_bnd2 log_insert_created log_rules log_case_list | rule log.bnd)+

lemma log_import_legacy_request: "evolves keeps_log (import_legacy_request py sha rec history h dry)"
proof -
  have tail: "evolves keeps_log (bnd (insert_request False (rec\<lparr>cr_scope := kvs\<rparr>)) (\<lambda>_. bnd (modify (\<lambda>s. s\<lparr>legacy_imports := g s\<rparr>))
      (\<lambda>_. bnd (enqueue py rec e a) (\<lambda>_. ret True))))" for kvs g e a
  proof (rule log_insert_bnd)
    fix t :: control assume "sql_any (entry_for (rec\<lparr>cr_scope := kvs\<rparr>)) (outbox t)"
    then have "sql_any (entry_for rec) (outbox (t\<lparr>legacy_imports := g t\<rparr>))"
      by (simp add: entry_for_def[abs_def])
    then have "keeps_log (t\<lparr>legacy_imports := g t\<rparr>) (snd (bnd (enqueue py rec e a) (\<lambda>_. ret True) (t\<lparr>legacy_imports := g t\<rparr>)))"
      by (rule log_enqueue_ret)
    moreover have "keeps_log t (t\<lparr>legacy_imports := g t\<rparr>)" by (rule log.same_tables) simp_all
    ultimately show "keeps_log t (snd (bnd (modify (\<lambda>s. s\<lparr>legacy_imports := g s\<rparr>))
        (\<lambda>_. bnd (enqueue py rec e a) (\<lambda>_. ret True)) t))"
      using log.trans by (simp add: bnd_def[of "modify _"])
  qed simp
  show ?thesis
    unfolding import_legacy_request_def Let_def
    by (rule log.from_sum_bnd2 tail log_rules log_case_list | rule log.bnd)+
qed

definition log_key :: "outbox_row \<Rightarrow> string \<times> int \<times> control_row" where
  "log_key q = (ob_request_id q, ob_version q, pl_record (ob_payload q))"

lemma logged_keys:
  "logged s \<longleftrightarrow>
     (\<forall>r \<in> set (requests s). (cr_request_id r, cr_version r, r) \<in> set (map log_key (outbox s))) \<and>
     (\<forall>(i, v, _) \<in> set (map log_key (outbox s)). \<exists>r \<in> set (requests s). i = cr_request_id r \<and> v \<le> cr_version r)"
  by (auto simp: logged_def log_key_def entry_for_def image_iff) metis+

lemma mark_done_log: "keeps_log s (mark_done ph q (s\<lparr>sent := x\<rparr>))"
proof -
  have "log_key (set_phase ph r) = log_key r" for r
    by (cases ph) (simp_all add: set_phase_def log_key_def)
  then have "map log_key (outbox (mark_done ph q (s\<lparr>sent := x\<rparr>))) = map log_key (outbox s)"
    by (simp add: mark_done_def map_sql_update_same)
  then show ?thesis
    by (simp add: keeps_log_def logged_keys ids_distinct_def mark_done_def)
qed

lemma log_deliver_phases: "evolves keeps_log (deliver_phases dl q phs)"
proof (induction phs)
  case Nil
  then show ?case unfolding deliver_phases.simps by (rule log.ret)
next
  case (Cons ph phs)
  then have "evolves keeps_log (case d of
      Delivered \<Rightarrow> bnd (modify (\<lambda>s. mark_done ph q (s\<lparr>sent := sent s @ [(ph, ob_request_id q, ob_version q)]\<rparr>)))
          (\<lambda>_. deliver_phases dl q phs)
    | Delivery_Exception \<Rightarrow> ret False | Delivery_Interrupt \<Rightarrow> throw Delivery_Failed)" for d
    by (cases d) (auto intro!: log.bnd log.ret log.throw simp: evolves_def[of keeps_log "modify _"] mark_done_log)
  with Cons show ?case unfolding deliver_phases.simps by (intro log.if_prog log.bnd log.gets)
qed

lemma log_flush: "evolves keeps_log (flush_projection_outbox dl limit)"
  unfolding flush_projection_outbox_def
  by (intro log.in_transaction log.bnd log.gets log.for_each log.ret log_deliver_phases)

lemmas log_operations = log_create_request log_create_queue_request log_import_legacy_request log_decide
  log_cancel log_claim log_record_execution_outcome log_flush

lemma run_ops_log: "keeps_log s (run_ops py sha ops s)"
proof -
  have "keeps_log s (run_op py sha op s)" for op s
    using log_operations by (cases op) (auto simp: run_op_def evolves_def)
  then show ?thesis
    unfolding run_ops_def by (induction ops arbitrary: s) (auto intro: log.refl log.trans)
qed

text \<open>
  C13. Transactional outbox: after any sequence of operations the current state of every request
  is in the outbox under its id and version, as it is stored, so no committed change is ever
  without its projection and audit intent, and the outbox holds no intent for a request that
  does not exist or for a version it has not reached.
\<close>

theorem outbox_has_every_state:
  "logged (run_ops py sha ops (empty_control incs sched))"
proof -
  have "logged (empty_control incs sched)" by (simp add: logged_def empty_control_def)
  then show ?thesis
    using run_ops_log[of "empty_control incs sched"] empty_control_sound(1) by (simp add: keeps_log_def)
qed


subsection \<open>Delivery\<close>

definition undelivered :: "outbox_row \<Rightarrow> bool" where
  "undelivered q \<longleftrightarrow> \<not> ob_audit_done q \<and> \<not> ob_projection_done q"

definition outbox_grows :: "control \<Rightarrow> control \<Rightarrow> bool" where
  "outbox_grows s t \<longleftrightarrow> (\<exists>new. outbox t = outbox s @ new \<and> list_all undelivered new)"

interpretation grows: control_relation outbox_grows
proof
  show "outbox_grows s u" if "outbox_grows s t" and "outbox_grows t u" for s t u
    using that by (auto simp: outbox_grows_def)
qed (auto simp: outbox_grows_def)

lemma sent_in_transaction: "evolves (frames sent) body \<Longrightarrow> evolves (frames sent) (in_transaction body)"
proof (rule evolvesI)
  fix s assume body: "evolves (frames sent) body"
  obtain s0 c where st: "start s = (s0, c)" by (cases "start s")
  obtain r t where b: "body s0 = (r, t)" by (cases "body s0")
  have "sent t = sent s"
    using evolvesD[OF body b] start_requests(5)[of s] st by (simp add: frames_def)
  then show "frames sent s (snd (in_transaction body s))"
    using st b start_requests(5)[of s]
    by (auto simp: in_transaction_def frames_def split: sum.splits commit.splits)
qed

lemma enqueue_row_grows: "\<exists>new. enqueue_row r e a rows = rows @ new \<and> list_all undelivered new"
  by (auto simp: enqueue_row_def undelivered_def)

lemma grows_enqueue: "evolves outbox_grows (enqueue py r e a)"
  unfolding enqueue_def using enqueue_row_grows
  by (intro grows.bnd grows.from_sum) (simp add: evolves_def outbox_grows_def)

lemma fire_trigger_frame [simp]: "sent (fire_trigger old new s) = sent s"
  by (simp add: fire_trigger_def split: prod.splits)

lemma fire_trigger_grows: "outbox t = outbox s \<Longrightarrow> outbox_grows s (fire_trigger old new t)"
  using enqueue_row_grows by (auto simp: fire_trigger_def outbox_grows_def split: prod.splits)

lemma grows_statements:
  "evolves outbox_grows (update_request nid P f)" "evolves outbox_grows (insert_request guard new)"
  "evolves outbox_grows (changed py row nid e a)" "evolves outbox_grows (incident_open scope)"
proof -
  show "evolves outbox_grows (update_request nid P f)" "evolves outbox_grows (insert_request guard new)"
    unfolding update_request_def insert_request_def evolves_def
    by (auto simp: Let_def grows.refl split: option.splits intro: fire_trigger_grows)
  show "evolves outbox_grows (changed py row nid e a)"
    unfolding changed_def by (intro grows.bnd grows.case_option grows.ret grows_enqueue grows.require_transition)
  show "evolves outbox_grows (incident_open scope)"
    unfolding incident_open_def Let_def by (auto split: json.splits intro!: grows.rules)
qed

lemma sent_statements:
  "evolves (frames sent) (update_request nid P f)" "evolves (frames sent) (insert_request guard new)"
  "evolves (frames sent) (enqueue py r e a)" "evolves (frames sent) (changed py row nid e a)"
  "evolves (frames sent) (incident_open scope)" "evolves (frames sent) (latest nid)" "evolves (frames sent) (select_one Q)"
  "evolves (frames sent) (from_sum x)"
proof -
  show "evolves (frames sent) (update_request nid P f)" "evolves (frames sent) (insert_request guard new)"
    unfolding update_request_def insert_request_def evolves_def
    by (auto simp: Let_def frames_def split: option.splits)
  show f: "evolves (frames sent) (from_sum x)" for x :: "approval_error + 'd"
    unfolding from_sum_def by (rule framing.lift)
  show l: "evolves (frames sent) (latest nid)" and "evolves (frames sent) (select_one Q)"
    unfolding latest_def select_one_def by (rule framing.gets)+
  show e: "evolves (frames sent) (enqueue py r e a)" for r
    unfolding enqueue_def by (intro framing.bnd f) (simp add: evolves_def frames_def)
  show "evolves (frames sent) (changed py row nid e a)"
    unfolding changed_def require_transition_def
    by (intro framing.bnd framing.case_option framing.ret framing.throw e l)
  show "evolves (frames sent) (incident_open scope)"
    unfolding incident_open_def Let_def by (auto split: json.splits intro!: framing.rules)
qed

definition quiet_op :: "control \<Rightarrow> control \<Rightarrow> bool" where
  "quiet_op s t \<longleftrightarrow> outbox_grows s t \<and> frames sent s t"

interpretation quiet_op: evolution quiet_op
  by unfold_locales (auto simp: quiet_op_def frames_def intro: grows.refl grows.trans)

lemma quiet_opI: "evolves outbox_grows m \<Longrightarrow> evolves (frames sent) m \<Longrightarrow> evolves quiet_op m"
  by (simp add: evolves_def quiet_op_def)

lemma quiet_op_in_transaction: "evolves quiet_op m \<Longrightarrow> evolves quiet_op (in_transaction m)"
  by (intro quiet_opI grows.in_transaction sent_in_transaction) (simp_all add: evolves_def quiet_op_def)

lemma quiet_op_modify_imports: "evolves quiet_op (modify (\<lambda>s. s\<lparr>legacy_imports := f s\<rparr>))"
  by (simp add: evolves_def quiet_op_def outbox_grows_def frames_def)

lemma quiet_op_case_list:
  "evolves quiet_op m \<Longrightarrow> (\<And>x xs. evolves quiet_op (f x xs)) \<Longrightarrow> evolves quiet_op (case l of [] \<Rightarrow> m | x # xs \<Rightarrow> f x xs)"
  by (cases l) simp_all

lemma quiet_op_case_prod: "(\<And>x y. evolves quiet_op (f x y)) \<Longrightarrow> evolves quiet_op (case p of (x, y) \<Rightarrow> f x y)"
  by (cases p) simp

lemmas quiet_op_statements = grows_statements[THEN quiet_opI] grows_enqueue[THEN quiet_opI] grows.latest[THEN quiet_opI]
  grows.from_sum[THEN quiet_opI]

lemma quiet_operations:
  "evolves quiet_op (create_request py sha a scope by why g)" "evolves quiet_op (create_queue_request py sha ap)"
  "evolves quiet_op (import_legacy_request py sha rec history h dry)" "evolves quiet_op (decide py rid d by v c)"
  "evolves quiet_op (cancel py rid by v c)" "evolves quiet_op (claim py rid run v)"
  "evolves quiet_op (record_execution_outcome py rid run out v err)"
  unfolding create_request_def create_queue_request_def import_legacy_request_def decide_def cancel_def claim_def
    record_execution_outcome_def Let_def
  by (rule quiet_op.rules quiet_op_in_transaction quiet_op_modify_imports quiet_op_case_list quiet_op_case_prod
      | rule quiet_op_statements, rule sent_statements)+


text \<open>Acknowledged deliveries are on record, and no projection was delivered without its audit event.\<close>

definition delivery_sound :: "control \<Rightarrow> bool" where
  "delivery_sound s \<longleftrightarrow>
     (\<forall>q \<in> set (outbox s). \<forall>ph. phase_done ph q \<longrightarrow> (ph, ob_request_id q, ob_version q) \<in> set (sent s)) \<and>
     (\<forall>(ph, i, v) \<in> set (sent s). (Audit, i, v) \<in> set (sent s))"

lemma quiet_op_delivery: "quiet_op s t \<Longrightarrow> delivery_sound s \<Longrightarrow> delivery_sound t"
  by (fastforce simp: quiet_op_def outbox_grows_def frames_def delivery_sound_def undelivered_def phase_done_def
      list_all_iff split: phase.splits)

lemma mark_done_sound:
  assumes "delivery_sound s" and "ph = Projection \<Longrightarrow> (Audit, ob_request_id q, ob_version q) \<in> set (sent s)"
  shows "delivery_sound (mark_done ph q (s\<lparr>sent := sent s @ [(ph, ob_request_id q, ob_version q)]\<rparr>))"
  using assms
  by (cases ph) (auto simp: delivery_sound_def mark_done_def set_sql_update set_phase_def phase_done_def split: phase.splits if_splits)

definition sent_more :: "control \<Rightarrow> control \<Rightarrow> bool" where
  "sent_more s t \<longleftrightarrow> delivery_sound t \<and> set (sent s) \<subseteq> set (sent t)"

lemma deliver_entry_sound:
  assumes "delivery_sound s" and "ob_audit_done q \<Longrightarrow> (Audit, ob_request_id q, ob_version q) \<in> set (sent s)"
  shows "sent_more s (snd (deliver_phases dl q [Audit, Projection] s))"
proof -
  have proj: "sent_more t (snd (deliver_phases dl q [Projection] t))"
    if "delivery_sound t" and "(Audit, ob_request_id q, ob_version q) \<in> set (sent t)" for t
    using that mark_done_sound[OF that(1), of Projection q]
    by (auto simp: bnd_def sent_more_def mark_done_def split: delivery.splits)
  let ?t = "mark_done Audit q (s\<lparr>sent := sent s @ [(Audit, ob_request_id q, ob_version q)]\<rparr>)"
  have "delivery_sound ?t" by (rule mark_done_sound[OF assms(1)]) simp
  moreover have sub: "(Audit, ob_request_id q, ob_version q) \<in> set (sent ?t)" "set (sent s) \<subseteq> set (sent ?t)"
    by (auto simp: mark_done_def)
  ultimately have "sent_more ?t (snd (deliver_phases dl q [Projection] ?t))" by (intro proj)
  then have "sent_more s (snd (deliver_phases dl q [Projection] ?t))" using sub(2) by (auto simp: sent_more_def)
  then show ?thesis
    using assms proj[OF assms(1)]
    by (auto simp: bnd_def phase_done_def sent_more_def simp del: deliver_phases.simps(2) split: delivery.splits
        simp: deliver_phases.simps(2)[of dl q Audit "[Projection]"])
qed

lemma deliver_entries_sound:
  assumes "delivery_sound s" and "\<forall>q \<in> set qs. ob_audit_done q \<longrightarrow> (Audit, ob_request_id q, ob_version q) \<in> set (sent s)"
  shows "sent_more s (snd (for_each (\<lambda>q. deliver_phases dl q [Audit, Projection]) qs s))"
  using assms
proof (induction qs arbitrary: s)
  case (Cons q qs)
  let ?m = "deliver_phases dl q [Audit, Projection]"
  obtain r t where one: "?m s = (r, t)" by (cases "?m s")
  have st: "sent_more s t" using deliver_entry_sound[of s q dl] Cons.prems one by auto
  have rest: "sent_more t (snd (for_each (\<lambda>q. deliver_phases dl q [Audit, Projection]) qs t))"
    using st Cons.prems(2) by (intro Cons.IH) (auto simp: sent_more_def)
  show ?case
    using st rest one unfolding for_each.simps
    by (cases "for_each (\<lambda>q. deliver_phases dl q [Audit, Projection]) qs t")
      (auto simp: bnd_def sent_more_def simp del: deliver_phases.simps split: sum.splits)
qed (simp add: sent_more_def)

lemma flush_delivery_sound:
  assumes "delivery_sound s"
  shows "delivery_sound (snd (flush_projection_outbox dl limit s))"
proof -
  obtain s0 c where st: "start s = (s0, c)" by (cases "start s")
  have same: "outbox s0 = outbox s" "sent s0 = sent s" using start_requests(2,5)[of s] st by simp_all
  then have s0: "delivery_sound s0" using assms by (simp add: delivery_sound_def)
  let ?qs = "pending_entries limit s0"
  have sub: "set ?qs \<subseteq> set (outbox s0)"
    by (auto simp: pending_entries_def dest: in_set_takeD)
  have "\<forall>q \<in> set ?qs. ob_audit_done q \<longrightarrow> (Audit, ob_request_id q, ob_version q) \<in> set (sent s0)"
    using s0 sub by (fastforce simp: delivery_sound_def phase_done_def split: phase.splits)
  note entries = deliver_entries_sound[OF s0 this, of dl]
  obtain r t where run: "for_each (\<lambda>q. deliver_phases dl q [Audit, Projection]) ?qs s0 = (r, t)"
    by (cases "for_each (\<lambda>q. deliver_phases dl q [Audit, Projection]) ?qs s0")
  have t: "delivery_sound t" and grow: "set (sent s0) \<subseteq> set (sent t)"
    using entries run by (simp_all add: sent_more_def)
  have "delivery_sound (s0\<lparr>sent := sent t\<rparr>)"
    using s0 t grow by (fastforce simp: delivery_sound_def)
  then show ?thesis
    using t st run
    by (cases r) (auto simp: flush_projection_outbox_def in_transaction_def bnd_def split: commit.splits)
qed

text \<open>
  C14. At-least-once delivery: after any sequence of operations, a phase marked as done
  in the outbox has been acknowledged by the consumer, and no projection is acknowledged without
  its audit event, whatever deliveries fail or are interrupted and whichever commits of
  the flush are lost.
\<close>

theorem outbox_marks_only_delivered:
  "delivery_sound (run_ops py sha ops (empty_control incs sched))"
proof -
  have "delivery_sound s \<Longrightarrow> delivery_sound (run_op py sha op s)" for op s
    using quiet_operations[unfolded evolves_def, rule_format, THEN quiet_op_delivery] flush_delivery_sound
    by (cases op) (simp_all add: run_op_def)
  then have "delivery_sound s \<Longrightarrow> delivery_sound (run_ops py sha ops s)" for s
    unfolding run_ops_def by (induction ops arbitrary: s) auto
  then show ?thesis by (simp add: delivery_sound_def empty_control_def)
qed


section \<open>Creation\<close>

definition row_with_hash :: "control \<Rightarrow> string \<Rightarrow> control_row option" where
  "row_with_hash s h = find (\<lambda>r. cr_idempotency_hash r = h) (requests s)"

lemma find_append: "find P (xs @ ys) = (case find P xs of None \<Rightarrow> find P ys | Some x \<Rightarrow> Some x)"
  by (induction xs) auto

lemma row_step_hash: "row_step r r' \<Longrightarrow> cr_idempotency_hash r' = cr_idempotency_hash r"
  by (drule row_step_identity) (simp add: identity_of_def)

lemma row_with_hash_evolves:
  assumes "control_evolves s t" and "ids_distinct s" and "row_with_hash s h = Some r"
  shows "\<exists>r'. row_with_hash t h = Some r' \<and> row_step\<^sup>*\<^sup>* r r'"
  using assms rows_evolve_find[of row_step fresh_row "requests s" "requests t" cr_idempotency_hash h r]
  by (auto simp: control_evolves_def ids_distinct_def row_with_hash_def dest: row_step_hash)

lemma start_row_with_hash [simp]: "row_with_hash (fst (start s)) h = row_with_hash s h"
  by (simp add: row_with_hash_def)

lemma incident_open_requests: "incident_open scope s = (r, t) \<Longrightarrow> t = s"
  by (auto simp: incident_open_def bnd_def Let_def split: if_splits json.splits sum.splits prod.splits)

lemma enqueue_requests: "enqueue py r e a s = (x, t) \<Longrightarrow> requests t = requests s"
  by (auto simp: enqueue_def bnd_def from_sum_def lift_def split: sum.splits prod.splits)

text \<open>The identity of a creation: the hash of the canonical action, scope and generation.\<close>

definition creation_hash :: "(string \<Rightarrow> nat list) \<Rightarrow> string \<Rightarrow> fields \<Rightarrow> int \<Rightarrow> string option" where
  "creation_hash sha a scope g =
     (case canonical_scope sha a scope of Inl _ \<Rightarrow> None | Inr (_, h) \<Rightarrow> Some (generation_hash sha h g))"

lemma create_request_Inr:
  assumes "create_request py sha a scope by why g s = (Inr (r, b), t)"
  shows "\<exists>h. creation_hash sha a scope g = Some h \<and> row_with_hash t h = Some r \<and> cr_generation r = g \<and> cr_action_type r = a \<and>
     (if b then row_with_hash s h = None else row_with_hash s h = Some r \<and> requests t = requests s) \<and>
     (\<exists>kvs h0. canonical_scope sha a scope = Inr (kvs, h0) \<and> json_eq (JObj (cr_scope r)) (JObj kvs))"
proof -
  obtain kvs h0 where cs: "canonical_scope sha a scope = Inr (kvs, h0)" and g: "generation_of g = Inr g"
    using assms by (auto simp: create_request_def from_sum_Inr generation_of_def split: if_splits)
  let ?h = "generation_hash sha h0 g"
  let ?rid = "request_id_of ?h"
  obtain actor where body: "bnd (incident_open kvs) (\<lambda>_. bnd (gets now) (\<lambda>at.
       bnd (insert_request True (new_request ?rid ?h g a kvs actor (strip why) at)) (\<lambda>created.
       case created of
         Some r \<Rightarrow> bnd (enqueue py r ''approval_requested'' actor) (\<lambda>_. ret (r, True))
       | None \<Rightarrow> bnd (select_one (\<lambda>r. cr_idempotency_hash r = ?h)) (\<lambda>existing.
           case existing of None \<Rightarrow> throw (Conflict Idempotency_Unverified)
           | Some r \<Rightarrow> bnd (require (cr_action_type r = a \<and> json_eq (JObj (cr_scope r)) (JObj kvs) \<and>
                      cr_generation r = g) (Conflict Idempotency_Unverified)) (\<lambda>_. ret (r, False)))))) (fst (start s))
     = (Inr (r, b), t)"
    using assms by (auto simp: create_request_def Let_def from_sum_Inr cs g bnd_Inr[of "require _ _"] bnd_Inr[of "if _ then _ else _"]
        split: if_splits dest!: in_transaction_Inr)
  then obtain created u where ins: "insert_request True (new_request ?rid ?h g a kvs actor (strip why) (now (fst (start s)))) (fst (start s)) = (Inr created, u)"
    and rest: "(case created of
         Some r \<Rightarrow> bnd (enqueue py r ''approval_requested'' actor) (\<lambda>_. ret (r, True))
       | None \<Rightarrow> bnd (select_one (\<lambda>r. cr_idempotency_hash r = ?h)) (\<lambda>existing.
           case existing of None \<Rightarrow> throw (Conflict Idempotency_Unverified)
           | Some r \<Rightarrow> bnd (require (cr_action_type r = a \<and> json_eq (JObj (cr_scope r)) (JObj kvs) \<and>
                      cr_generation r = g) (Conflict Idempotency_Unverified)) (\<lambda>_. ret (r, False)))) u = (Inr (r, b), t)"
    by (auto simp: bnd_Inr[of "incident_open _"] bnd_Inr[of "gets _"] bnd_Inr[of "insert_request _ _"] dest: incident_open_requests)
  have hash: "creation_hash sha a scope g = Some ?h" by (simp add: creation_hash_def cs)
  show ?thesis
  proof (cases created)
    case None
    then have "u = fst (start s)" using ins by (auto simp: insert_request_def split: if_splits)
    then show ?thesis
      using rest None hash cs
      by (auto simp: bnd_Inr select_one_def row_with_hash_def split: option.splits if_splits intro!: exI[of _ ?h])
  next
    case (Some r0)
    let ?new = "new_request ?rid ?h g a kvs actor (strip why) (now (fst (start s)))"
    have r0: "r0 = ?new" and none: "row_with_hash s ?h = None" and u: "requests u = requests s @ [?new]"
      using ins Some by (auto simp: insert_request_def row_with_hash_def find_None_iff sql_any_iff new_request_def split: if_splits)
    have "b" and "r = r0" and "requests t = requests u"
      using rest Some by (auto simp: bnd_Inr dest: enqueue_requests)
    moreover have "find (\<lambda>r. cr_idempotency_hash r = ?h) (requests s @ [?new]) = Some ?new"
      using none by (auto simp: row_with_hash_def find_append new_request_def)
    ultimately show ?thesis
      using r0 u none hash cs by (auto simp: row_with_hash_def new_request_def json_eq_def intro!: exI[of _ ?h])
  qed
qed

definition exact_recovery :: "pydantic \<Rightarrow> string \<Rightarrow> fields \<Rightarrow> bool" where
  "exact_recovery py a kvs \<longleftrightarrow> (a = ''recover_partition'' \<longrightarrow>
     (\<exists>typed. normalize_action_scope py a kvs = Inr typed \<and> json_eq (JObj typed) (JObj kvs)))"

lemma create_request_first:
  assumes "create_request py sha a scope who why g s = (Inr (r, b), t)"
  shows "\<exists>kvs h. canonical_scope sha a scope = Inr (kvs, h) \<and> generation_of g = Inr g \<and>
     json_eq (JObj (cr_scope r)) (JObj kvs) \<and> exact_recovery py a kvs"
proof -
  obtain kvs h0 where cs: "canonical_scope sha a scope = Inr (kvs, h0)" and g: "generation_of g = Inr g"
    using assms by (auto simp: create_request_def from_sum_Inr generation_of_def split: if_splits)
  have "exact_recovery py a kvs"
    using assms by (auto simp: exact_recovery_def create_request_def Let_def from_sum_Inr cs g bnd_Inr[of "require _ _"]
        bnd_Inr[of "if _ then _ else _"] split: if_splits)
  moreover have "json_eq (JObj (cr_scope r)) (JObj kvs)"
    using create_request_Inr[OF assms] cs by auto
  ultimately show ?thesis using cs g by blast
qed

definition known :: "string \<Rightarrow> control \<Rightarrow> control \<Rightarrow> bool" where
  "known h s t \<longleftrightarrow> (row_with_hash s h \<noteq> None \<longrightarrow> requests t = requests s)"

interpretation knowing: control_relation "known h" for h
  by unfold_locales (auto simp: known_def row_with_hash_def)

lemma known_insert: "evolves (known (cr_idempotency_hash new)) (insert_request True new)"
  by (auto simp: evolves_def insert_request_def known_def row_with_hash_def sql_any_iff find_None_iff)

lemma known_enqueue: "evolves (known h) (enqueue py r e a)"
  by (rule evolvesI) (metis known_def enqueue_requests prod.collapse)

lemma known_incident_open: "evolves (known h) (incident_open scope)"
  by (rule evolvesI) (metis known_def incident_open_requests prod.collapse)

lemma known_create:
  assumes "creation_hash sha a scope g = Some h"
  shows "evolves (known h) (create_request py sha a scope who why g)"
  unfolding create_request_def Let_def
proof (intro knowing.from_sum_bnd2 knowing.from_sum_bnd)
  fix kvs h0 g' actor
  assume cs: "canonical_scope sha a scope = Inr (kvs, h0)" and g: "generation_of g = Inr g'"
  have "g' = g" using g by (auto simp: generation_of_def split: if_splits)
  then have h: "h = generation_hash sha h0 g'" using assms cs by (simp add: creation_hash_def)
  have ins: "evolves (known h) (insert_request True (new_request rid h g' a kvs actor why' at))" for rid why' at
    using known_insert[of "new_request rid h g' a kvs actor why' at"] by (simp add: new_request_def)
  show "evolves (known h) (bnd (if a = ''recover_partition''
          then bnd (require (actor = RECOVERY_REQUESTER) Not_Recovery_Requester) (\<lambda>_.
               bnd (from_sum (normalize_action_scope py a kvs)) (\<lambda>typed.
               require (json_eq (JObj typed) (JObj kvs)) Recovery_Scope_Not_Exact))
          else ret ()) (\<lambda>_.
     bnd (require (5 \<le> length (strip why) \<and> length (strip why) \<le> 2000) Bad_Reason) (\<lambda>_.
     in_transaction (
       bnd (incident_open kvs) (\<lambda>_.
       bnd (gets now) (\<lambda>at.
       bnd (insert_request True (new_request (request_id_of (generation_hash sha h0 g')) (generation_hash sha h0 g') g' a
              kvs actor (strip why) at)) (\<lambda>created.
       case created of
         Some r \<Rightarrow> bnd (enqueue py r ''approval_requested'' actor) (\<lambda>_. ret (r, True))
       | None \<Rightarrow>
           bnd (select_one (\<lambda>r. cr_idempotency_hash r = generation_hash sha h0 g')) (\<lambda>existing.
           case existing of
             None \<Rightarrow> throw (Conflict Idempotency_Unverified)
           | Some r \<Rightarrow>
               bnd (require (cr_action_type r = a \<and> json_eq (JObj (cr_scope r)) (JObj kvs) \<and>
                      cr_generation r = g') (Conflict Idempotency_Unverified)) (\<lambda>_.
               ret (r, False))))))))))"
    unfolding h[symmetric]
    by (intro knowing.rules knowing.from_sum knowing.in_transaction known_incident_open ins known_enqueue knowing.latest)
qed

lemma incident_open_start: "incident_open kvs (fst (start s)) = (fst (incident_open kvs s), fst (start s))"
  by (auto simp: incident_open_def bnd_def Let_def split: json.splits)

text \<open>A call that the checks before the transaction accept, apart from those on the scope.\<close>

definition sound_call :: "string \<Rightarrow> string \<Rightarrow> string \<Rightarrow> bool" where
  "sound_call a who why \<longleftrightarrow> strip who \<noteq> [] \<and> length (strip who) \<le> 200 \<and>
     (a = ''recover_partition'' \<longrightarrow> strip who = RECOVERY_REQUESTER) \<and>
     5 \<le> length (strip why) \<and> length (strip why) \<le> 2000"

lemma create_request_again:
  assumes cs: "canonical_scope sha a scope = Inr (kvs, h)" and g: "generation_of g = Inr g"
    and call: "sound_call a who why" and rec: "exact_recovery py a kvs" and inc: "fst (incident_open kvs s) = Inr ()"
    and row: "row_with_hash s (generation_hash sha h g) = Some r" "cr_action_type r = a"
      "json_eq (JObj (cr_scope r)) (JObj kvs)" "cr_generation r = g"
  shows "fst (create_request py sha a scope who why g s) = (if snd (start s) = Commit_Ok then Inr (r, False) else Inl Db_Error)"
proof -
  have actor: "actor_of who = Inr (strip who)" using call by (simp add: actor_of_Inr sound_call_def)
  have recover: "(if a = ''recover_partition''
          then bnd (require (strip who = RECOVERY_REQUESTER) Not_Recovery_Requester) (\<lambda>_.
               bnd (from_sum (normalize_action_scope py a kvs)) (\<lambda>typed.
               require (json_eq (JObj typed) (JObj kvs)) Recovery_Scope_Not_Exact))
          else ret ()) u = (Inr (), u)" for u :: control
    using call rec by (auto simp: sound_call_def exact_recovery_def bnd_def from_sum_def lift_def)
  obtain s0 c where st: "start s = (s0, c)" by fastforce
  have open_inc: "incident_open kvs s0 = (Inr (), s0)" using incident_open_start[of kvs s] inc st by simp
  have hit: "sql_any (\<lambda>q. cr_idempotency_hash q = generation_hash sha h g) (requests s0)"
    and found: "find (\<lambda>q. cr_idempotency_hash q = generation_hash sha h g) (requests s0) = Some r"
    using row(1) start_requests(1)[of s] st by (auto simp: row_with_hash_def sql_any_iff dest: find_SomeD)
  have reason: "5 \<le> length (strip why)" "length (strip why) \<le> 2000" using call by (simp_all add: sound_call_def)
  show ?thesis
    using hit row(2-4) reason
    by (simp add: create_request_def cs g actor from_sum_def lift_def bnd_def recover in_transaction_def st open_inc
        insert_request_def new_request_def select_one_def found Let_def split: commit.split)
qed

text \<open>The incident that the scope names, if any, is not resolved.\<close>

definition scope_open :: "(string \<Rightarrow> nat list) \<Rightarrow> string \<Rightarrow> fields \<Rightarrow> control \<Rightarrow> bool" where
  "scope_open sha a scope s \<longleftrightarrow> (\<exists>kvs h. canonical_scope sha a scope = Inr (kvs, h) \<and> fst (incident_open kvs s) = Inr ())"



lemma check_scope_fields_None:
  "check_scope_fields kvs = None \<longleftrightarrow> (\<forall>(k, v) \<in> set kvs. \<not> sensitive_key k \<and> check_scope v = None)"
proof (induction kvs)
  case (Cons p kvs)
  then show ?case
    by (cases p) (simp add: check_scope_fields_Cons_None(1) del: check_scope_fields.simps(2))
qed simp

lemma canon_permuted:
  assumes "mset scope = mset scope'" and "distinct (map fst scope)"
  shows "canon (JObj scope) = canon (JObj scope')"
proof -
  have "mset (canon_fields scope) = mset (canon_fields scope')"
    using assms(1) by (simp add: canon_fields_map)
  moreover have "distinct (map fst (canon_fields scope))"
    using assms(2) by (simp add: canon_fields_map case_prod_unfold comp_def)
  ultimately show ?thesis using sort_fields_mset by simp
qed

text \<open>
  The order in which a caller writes the keys of a scope does not matter: permuting the
  fields gives the same creation hash, so C15 applies to it, and is accepted or refused alike.
\<close>

theorem creation_hash_ignores_key_order:
  assumes "mset scope = mset scope'" and "distinct (map fst scope)"
  shows "creation_hash sha a scope g = creation_hash sha a scope' g"
proof -
  have same: "canon (JObj scope) = canon (JObj scope')" by (rule canon_permuted[OF assms])
  have "set scope = set scope'" using assms(1) by (rule mset_eq_setD)
  then have ok: "check_scope (JObj scope) = None \<longleftrightarrow> check_scope (JObj scope') = None"
    by (simp add: check_scope_fields_None)
  have empty: "scope = [] \<longleftrightarrow> scope' = []" using assms(1) by auto
  have "dumps (JObj scope) = dumps (JObj scope')"
    and "dumps (JObj [(''action_type'', JStr a), (''scope'', JObj scope)]) =
         dumps (JObj [(''action_type'', JStr a), (''scope'', JObj scope')])"
    using same by (simp_all add: dumps_def)
  then show ?thesis
    using same ok empty unfolding creation_hash_def canonical_scope_def
    by (auto split: option.splits)
qed

lemma incident_open_resolved:
  assumes "map_of (incidents s) k = Some ''resolved''" and "k \<noteq> []"
    and "get_json scope ''alert_key'' JNull = JStr k \<or>
      (falsy (get_json scope ''alert_key'' JNull) \<and>
       (\<exists>kvs. get_json scope ''_approval_request'' (JObj []) = JObj kvs \<and> get_json kvs ''alert_key'' JNull = JStr k))"
  shows "incident_open scope s = (Inl (Conflict Incident_Resolved), s)"
  using assms by (auto simp: incident_open_def bnd_def falsy_def)

lemma bnd_Inl_first: "m s = (Inl e, s) \<Longrightarrow> bnd m f s = (Inl e, s)"
  by (simp add: bnd_def)

lemma in_transaction_Inl:
  "body (fst (start s)) = (Inl e, fst (start s)) \<Longrightarrow> in_transaction body s = (Inl e, fst (start s))"
  by (cases "start s") (simp add: in_transaction_def)

lemma create_request_resolved:
  assumes "map_of (incidents s) k = Some ''resolved''" and "k \<noteq> []" and "get_json scope ''alert_key'' JNull = JStr k"
  shows "\<exists>e t. create_request py sha a scope by why g s = (Inl e, t) \<and> requests t = requests s \<and> outbox t = outbox s"
proof -
  have tx: "in_transaction (bnd (incident_open kvs) f) s = (Inl (Conflict Incident_Resolved), fst (start s))"
    if "canonical_scope sha a scope = Inr (kvs, h)" for kvs h f
    using canonical_scope_key[OF that, of "''alert_key''" k] assms
    by (intro in_transaction_Inl bnd_Inl_first incident_open_resolved) auto
  show ?thesis
    by (auto simp: create_request_def Let_def from_sum_def bnd_def lift_def tx[unfolded bnd_def] split: sum.splits prod.splits if_splits)
qed

lemma create_queue_request_resolved:
  assumes "map_of (incidents s) k = Some ''resolved''" and "k \<noteq> []" and "ap_alert_key ap = k"
  shows "\<exists>e t. create_queue_request py sha ap s = (Inl e, t) \<and> requests t = requests s \<and> outbox t = outbox s"
proof -
  have tx: "in_transaction (bnd (incident_open (queue_control_scope ap False)) f) s = (Inl (Conflict Incident_Resolved), fst (start s))"
    for f
    using assms
    by (intro in_transaction_Inl bnd_Inl_first incident_open_resolved)
      (auto simp: queue_control_scope_def queue_envelope_def get_json_def falsy_def)
  show ?thesis
    by (auto simp: create_queue_request_def Let_def from_sum_def bnd_def lift_def tx[unfolded bnd_def] split: sum.splits prod.splits)
qed

text \<open>
  C17. Once an incident is resolved no remediation request is created for it, through either
  entrance of the store, and nothing is written.
\<close>

theorem resolved_incident_blocks_creation:
  assumes "map_of (incidents s) k = Some ''resolved''" and "k \<noteq> []"
  shows "(get_json scope ''alert_key'' JNull = JStr k \<longrightarrow>
      (\<exists>e t. create_request py sha a scope by why g s = (Inl e, t) \<and> requests t = requests s \<and> outbox t = outbox s)) \<and>
    (ap_alert_key ap = k \<longrightarrow>
      (\<exists>e t. create_queue_request py sha ap s = (Inl e, t) \<and> requests t = requests s \<and> outbox t = outbox s))"
  using create_request_resolved[OF assms] create_queue_request_resolved[OF assms] by blast

section \<open>The table's constraints\<close>

text \<open>A commit schedule without faults.\<close>

definition commits_ok :: "control \<Rightarrow> bool" where
  "commits_ok s \<longleftrightarrow> (\<forall>(t, c) \<in> set (schedule s). c = Commit_Ok)"

lemma update_no_db_error:
  assumes "\<And>r. r \<in> set (requests s) \<Longrightarrow> cr_request_id r = nid \<Longrightarrow> P r \<Longrightarrow> row_step r (f (now s) r)"
    and "\<forall>r \<in> set (requests s). sound_row r"
  shows "fst (bnd (update_request nid P f) (\<lambda>u. changed py u nid e a) s) \<noteq> Inl Db_Error"
proof -
  have ok: "row_checks (f (now s) r) \<and> trigger_update r (f (now s) r)"
    if "r \<in> set (requests s)" "cr_request_id r = nid" "P r" for r
    using row_step_sound[OF assms(1)] row_step_identity[OF assms(1)] that assms(2)
    by (auto simp: sound_row_def trigger_update_def)
  have "fst (update_request nid P f s) \<noteq> Inl Db_Error"
    using ok by (auto simp: update_request_def Let_def split: option.splits dest!: find_SomeD)
  moreover have "approval_from_control_record py r \<noteq> Inl Db_Error" for r
    by (auto simp: approval_from_control_record_def split: option.splits)
  then have "fst (changed py u nid e a t) \<noteq> Inl Db_Error" for u t
    by (auto simp: changed_def require_transition_def enqueue_def from_sum_def latest_def select_one_def bnd_def lift_def
        split: option.splits sum.splits prod.splits)
  ultimately show ?thesis
    by (auto simp: bnd_def split: prod.splits sum.splits)
qed

lemma in_transaction_commits: "commits_ok s \<Longrightarrow> fst (in_transaction body s) = fst (body (fst (start s)))"
  by (auto simp: in_transaction_def start_def commits_ok_def split: list.splits prod.splits sum.splits)

lemma validators_no_db_error [simp]:
  "identifier_of x \<noteq> Inl Db_Error" "actor_of x \<noteq> Inl Db_Error" "version_of v \<noteq> Inl Db_Error"
  by (simp_all add: identifier_of_def actor_of_def version_of_def Let_def)

lemma from_sum_no_db_error:
  "x \<noteq> Inl Db_Error \<Longrightarrow> (\<And>y. x = Inr y \<Longrightarrow> fst (f y s) \<noteq> Inl Db_Error) \<Longrightarrow> fst (bnd (from_sum x) f s) \<noteq> Inl Db_Error"
  by (cases x) (simp_all add: from_sum_def bnd_def lift_def)

lemma require_no_db_error:
  "e \<noteq> Db_Error \<Longrightarrow> (b \<Longrightarrow> fst (m s) \<noteq> Inl Db_Error) \<Longrightarrow> fst (bnd (require b e) (\<lambda>_. m) s) \<noteq> Inl Db_Error"
  by (simp add: bnd_def)

lemma tx_no_db_error:
  "commits_ok s \<Longrightarrow> fst (body (fst (start s))) \<noteq> Inl Db_Error \<Longrightarrow> fst (in_transaction body s) \<noteq> Inl Db_Error"
  by (simp add: in_transaction_commits)

lemmas no_db_error = from_sum_no_db_error require_no_db_error validators_no_db_error tx_no_db_error

definition all_sound :: "control \<Rightarrow> bool" where
  "all_sound s \<longleftrightarrow> ids_distinct s \<and> (\<forall>r \<in> set (requests s). sound_row r)"

lemma all_sound_start: "all_sound s \<Longrightarrow> all_sound (fst (start s))"
  by (simp add: all_sound_def)

lemma the_row: "ids_distinct s \<Longrightarrow> row_of s nid = Some cur \<Longrightarrow> r \<in> set (requests s) \<Longrightarrow> cr_request_id r = nid \<Longrightarrow> r = cur"
  using find_distinct_key[of cr_request_id "requests s" r nid] by (simp add: row_of_def ids_distinct_def)

lemma latest_run: "bnd (latest nid) f s = f (row_of s nid) s"
  by (simp add: bnd_def latest_def select_one_def row_of_def)

lemma cancel_no_db_error: "commits_ok s \<Longrightarrow> all_sound s \<Longrightarrow> fst (cancel py rid by v c s) \<noteq> Inl Db_Error"
  unfolding cancel_def
  by (intro no_db_error update_no_db_error row_step.withdrawn)
    (simp_all add: all_sound_def)

lemma outcome_no_db_error: "commits_ok s \<Longrightarrow> all_sound s \<Longrightarrow> fst (record_execution_outcome py rid run out v err s) \<noteq> Inl Db_Error"
proof (cases "outcome_of out")
  case (Some target)
  assume "commits_ok s" and "all_sound s"
  then show ?thesis
    unfolding record_execution_outcome_def Let_def Some option.case
    by (intro no_db_error update_no_db_error row_step.reported[of _ "strip run"])
      (use Some in \<open>auto simp: all_sound_def outcome_of_def identifier_of_Inr split: if_splits\<close>)
next
  case None
  then show ?thesis
    unfolding record_execution_outcome_def by (intro no_db_error) simp_all
qed

lemma decide_no_db_error: "commits_ok s \<Longrightarrow> all_sound s \<Longrightarrow> fst (decide py rid d by v c s) \<noteq> Inl Db_Error"
proof -
  assume commits: "commits_ok s" and sound: "all_sound s"
  have upd: "fst (bnd (update_request nid (\<lambda>r. cr_status r = Pending \<and> cr_version r = v)
      (\<lambda>at r. r\<lparr>cr_status := status, cr_decided_by := Some actor, cr_decided_at := Some at, cr_comment := strip c,
                cr_updated_at := at, cr_version := cr_version r + 1\<rparr>))
      (\<lambda>u. changed py u nid ''approval_decision'' actor) (fst (start s))) \<noteq> Inl Db_Error"
    if "row_of s nid = Some cur" and "status \<in> {Approved, Rejected}"
      and "status = Approved \<longrightarrow> lower (cr_requested_by cur) \<noteq> lower actor" for nid actor status cur
    using the_row[of s nid cur] sound that
    by (intro update_no_db_error row_step.decided) (auto simp: all_sound_def)
  have body: "fst (case row_of s nid of None \<Rightarrow> throw Not_Found (fst (start s)) | Some cur \<Rightarrow>
       bnd (require (\<not> (d = ''approve'' \<and> lower (cr_requested_by cur) = lower actor)) (Conflict Self_Approval))
         (\<lambda>_. bnd (update_request nid (\<lambda>r. cr_status r = Pending \<and> cr_version r = v)
      (\<lambda>at r. r\<lparr>cr_status := if d = ''approve'' then Approved else Rejected, cr_decided_by := Some actor, cr_decided_at := Some at,
                cr_comment := strip c, cr_updated_at := at, cr_version := cr_version r + 1\<rparr>))
      (\<lambda>u. changed py u nid ''approval_decision'' actor)) (fst (start s))) \<noteq> Inl Db_Error" for nid actor
  proof (cases "row_of s nid")
    case (Some cur)
    show ?thesis
      unfolding Some option.case by (rule require_no_db_error, simp, rule upd[OF Some]) auto
  qed simp
  show ?thesis
    unfolding decide_def Let_def
  proof (intro no_db_error commits)
    fix nid actor
    show "fst (bnd (latest nid) (\<lambda>row. case row of None \<Rightarrow> throw Not_Found | Some current \<Rightarrow>
       bnd (require (\<not> (d = ''approve'' \<and> lower (cr_requested_by current) = lower actor)) (Conflict Self_Approval))
         (\<lambda>_. bnd (update_request nid (\<lambda>r. cr_status r = Pending \<and> cr_version r = v)
      (\<lambda>at r. r\<lparr>cr_status := if d = ''approve'' then Approved else Rejected, cr_decided_by := Some actor, cr_decided_at := Some at,
                cr_comment := strip c, cr_updated_at := at, cr_version := cr_version r + 1\<rparr>))
      (\<lambda>u. changed py u nid ''approval_decision'' actor))) (fst (start s))) \<noteq> Inl Db_Error"
      unfolding latest_run row_of_start using body[where nid = nid and actor = actor]
      by (cases "row_of s nid") (simp, simp only: option.case not_False_eq_True)
  qed simp_all
qed

lemma claim_no_db_error: "commits_ok s \<Longrightarrow> all_sound s \<Longrightarrow> fst (claim py rid run v s) \<noteq> Inl Db_Error"
proof -
  assume commits: "commits_ok s" and sound: "all_sound s"
  have upd: "fst (bnd (update_request nid (\<lambda>r. cr_status r = Approved \<and> cr_execution r = Not_Started \<and> cr_run_id r = None \<and> cr_version r = v)
      (\<lambda>at r. r\<lparr>cr_run_id := Some run_id, cr_execution := Dispatching, cr_updated_at := at, cr_version := cr_version r + 1\<rparr>))
      (\<lambda>u. changed py u nid e a) (fst (start s))) \<noteq> Inl Db_Error"
    if "\<And>cur. row_of s nid = Some cur \<Longrightarrow> \<not> legacy cur" for nid run_id e a
    using the_row[of s nid] sound that find_distinct_key[of cr_request_id "requests s" _ nid]
    by (intro update_no_db_error row_step.claimed) (auto simp: all_sound_def row_of_def ids_distinct_def)
  show ?thesis
    unfolding claim_def
    by (intro no_db_error commits)
      (auto simp: latest_run bnd_def[of "ret _"] bnd_def[of "require _ _"] legacy_def split: option.splits intro!: upd)
qed

text \<open>
  C18. The database's constraints are never what stops a transition: on a store whose rows are
  sound, as those of every store built by the operations are, and with a database that commits, a
  decision, cancellation, claim or outcome never runs into a CHECK constraint or the trigger's
  exception; it succeeds or fails with one of the store's own errors.
\<close>

theorem transitions_respect_constraints:
  assumes "ids_distinct s" and "\<forall>r \<in> set (requests s). sound_row r" and "commits_ok s"
  shows "fst (attempt_transition py tr rid v s) \<noteq> Inl Db_Error"
  using assms cancel_no_db_error decide_no_db_error claim_no_db_error outcome_no_db_error
  by (cases tr) (auto simp: attempt_transition_def all_sound_def)


end
