(* ===== verification/Approval_Instance.thy ===== *)
theory Approval_Instance
  imports Approval_Control
begin

text \<open>
  A concrete run of the approval store: a request is created, approved and claimed. The
  theorems' hypotheses hold of its states.
\<close>

definition trial_py :: pydantic where
  "trial_py = \<lparr>as_date = (\<lambda>_. Some (Date 2024 1 2)), as_bool = (\<lambda>j. case j of JBool b \<Rightarrow> Some b | _ \<Rightarrow> None),
     as_uuid = as_str, as_int = (\<lambda>j. case j of JInt i \<Rightarrow> Some i | _ \<Rightarrow> None)\<rparr>"

definition trial_sha :: "string \<Rightarrow> nat list" where
  "trial_sha text = replicate 32 0"

definition trial_id :: string where
  "trial_id = ''APR-00000000000000000000''"

definition trial_scope :: fields where
  "trial_scope = [(''a'', JInt 1), (''alert_key'', JStr ''k'')]"

definition trial_row :: "approval_status \<Rightarrow> int \<Rightarrow> string option \<Rightarrow> control_row" where
  "trial_row st v decider =
     \<lparr>cr_request_id = trial_id, cr_idempotency_hash = replicate 64 (CHR ''0''), cr_generation = 1,
      cr_action_type = ''create_ticket'', cr_scope = trial_scope, cr_requested_by = ''ana'',
      cr_reason = ''please'', cr_status = st, cr_version = v, cr_created_at = 7, cr_updated_at = 7,
      cr_decided_by = decider, cr_decided_at = map_option (\<lambda>_. 8) decider, cr_comment = [],
      cr_cancelled_by = None, cr_cancelled_at = None, cr_run_id = None, cr_execution = Not_Started,
      cr_error = []\<rparr>"

definition trial_control :: "control_row list \<Rightarrow> (string \<times> string) list \<Rightarrow> control" where
  "trial_control rows incs =
     \<lparr>requests = rows, outbox = [], legacy_imports = [], incidents = incs, now = 8, schedule = [], sent = []\<rparr>"

definition trial_approved :: control where
  "trial_approved = trial_control [trial_row Approved 2 (Some ''Bob'')] []"

definition succeeds_with :: "('e + 'a) \<times> 's \<Rightarrow> ('a \<Rightarrow> bool) \<Rightarrow> bool" where
  "succeeds_with r P = (case fst r of Inl _ \<Rightarrow> False | Inr x \<Rightarrow> P x)"

lemma succeeds_withE: "succeeds_with r P \<Longrightarrow> (\<And>x t. r = (Inr x, t) \<Longrightarrow> P x \<Longrightarrow> Q) \<Longrightarrow> Q"
  by (cases r) (auto simp: succeeds_with_def split: sum.splits)

lemma trial_ids: "ids_distinct trial_approved"
  by code_simp

lemma trial_sound: "\<forall>r \<in> set (requests trial_approved). sound_row r"
proof -
  have "row_checks (trial_row Approved 2 (Some ''Bob''))" and "trigger_new (trial_row Approved 2 (Some ''Bob''))"
    and "\<not> sensitive_key ''a''" and "\<not> sensitive_key ''alert_key''" and "lower ''Bob'' \<noteq> lower ''ana''"
    by code_simp+
  then show ?thesis
    by (simp add: trial_approved_def trial_control_def sound_row_def trial_row_def trial_scope_def)
qed

lemma trial_claims: "succeeds_with (claim trial_py trial_id ''run-1'' 2 trial_approved) (\<lambda>r. cr_version r = 3)"
  by code_simp

text \<open>Three operations on an empty store.\<close>

definition trial_ops :: "control_op list" where
  "trial_ops = [Op_Create ''create_ticket'' trial_scope ''ana'' ''please'' 1, Op_Decide trial_id ''approve'' ''Bob'' 1 [],
     Op_Claim trial_id ''run-1'' 2]"

lemma executed_requests_were_approved_by_another_witness:
  "\<exists>r \<in> set (requests (run_ops trial_py trial_sha trial_ops (empty_control [] []))).
     cr_run_id r = Some ''run-1'' \<and> (imported_by trial_ops r \<or> (\<exists>a. cr_decided_by r = Some a \<and> lower a \<noteq> lower (cr_requested_by r)))"
proof -
  have "map cr_run_id (requests (run_ops trial_py trial_sha trial_ops (empty_control [] []))) = [Some ''run-1'']"
    by code_simp
  then obtain r where r: "r \<in> set (requests (run_ops trial_py trial_sha trial_ops (empty_control [] [])))"
      and "cr_run_id r = Some ''run-1''"
    by (auto simp: map_eq_Cons_conv)
  then show ?thesis
    using executed_requests_were_approved_by_another[THEN bspec, OF r] by auto
qed

lemma one_transition_per_version_witness:
  "\<exists>r t e. claim trial_py trial_id ''run-1'' 2 trial_approved = (Inr r, t) \<and>
     fst (cancel trial_py trial_id ''carl'' 2 [] t) = Inl e"
proof -
  obtain r t where "claim trial_py trial_id ''run-1'' 2 trial_approved = (Inr r, t)"
    using trial_claims by (rule succeeds_withE)
  then show ?thesis
    using one_transition_per_version[OF trial_ids, where py = trial_py and tr = "T_Claim ''run-1''" and rid = trial_id
        and v = 2 and r = r and t = t and tr' = "T_Cancel ''carl'' []" and between = "[]"]
    by (auto simp: attempt_transition_def)
qed

lemma claimed_once_witness:
  "\<exists>r t e. claim trial_py trial_id ''run-1'' 2 trial_approved = (Inr r, t) \<and>
     fst (claim trial_py trial_id ''run-2'' 3 t) = Inl e"
proof -
  obtain r t where "claim trial_py trial_id ''run-1'' 2 trial_approved = (Inr r, t)"
    using trial_claims by (rule succeeds_withE)
  then show ?thesis
    using claimed_once[OF trial_ids, where py = trial_py and rid = trial_id and run = "''run-1''" and v = 2 and r = r and t = t
        and run' = "''run-2''" and v' = 3 and sha = trial_sha and ops = "[]"]
    by (auto simp: run_ops_def)
qed

lemma cancel_excludes_claim_witness:
  "\<exists>r t e. cancel trial_py trial_id ''carl'' 2 [] trial_approved = (Inr r, t) \<and>
     fst (claim trial_py trial_id ''run-1'' 3 t) = Inl e"
proof -
  have "succeeds_with (cancel trial_py trial_id ''carl'' 2 [] trial_approved) (\<lambda>r. cr_status r = Cancelled)"
    by code_simp
  then obtain r t where "cancel trial_py trial_id ''carl'' 2 [] trial_approved = (Inr r, t)"
    by (rule succeeds_withE)
  moreover have "case cancel trial_py trial_id ''carl'' 2 [] trial_approved of (Inl e, t) \<Rightarrow> True
     | (Inr r, t) \<Rightarrow> (\<exists>e. fst (claim trial_py trial_id ''run-1'' 3 (run_ops trial_py trial_sha [] t)) = Inl e)"
    by (rule cancel_excludes_claim[OF trial_ids, THEN conjunct1])
  ultimately show ?thesis by (auto simp: run_ops_def)
qed

definition trial_create :: "control \<Rightarrow> (approval_error + control_row \<times> bool) \<times> control" where
  "trial_create = create_request trial_py trial_sha ''create_ticket'' trial_scope ''ana'' ''please'' 1"


lemma creation_hash_ignores_key_order_witness:
  "creation_hash trial_sha ''create_ticket'' (rev trial_scope) 1 = creation_hash trial_sha ''create_ticket'' trial_scope 1"
  by (rule creation_hash_ignores_key_order) (simp_all add: trial_scope_def)

lemma resolved_incident_blocks_creation_witness:
  "\<exists>e t. create_request trial_py trial_sha ''create_ticket'' trial_scope ''ana'' ''please'' 1
      (trial_control [] [(''k'', ''resolved'')]) = (Inl e, t) \<and> requests t = []"
proof -
  have "map_of (incidents (trial_control [] [(''k'', ''resolved'')])) ''k'' = Some ''resolved''"
    by (simp add: trial_control_def)
  then show ?thesis
    using resolved_incident_blocks_creation[where s = "trial_control [] [(''k'', ''resolved'')]" and k = "''k''"
        and scope = trial_scope and py = trial_py and sha = trial_sha]
    by (fastforce simp: trial_control_def trial_scope_def get_json_def)
qed

lemma transitions_respect_constraints_witness:
  "fst (attempt_transition trial_py (T_Claim ''run-1'') trial_id 2 trial_approved) \<noteq> Inl Db_Error"
  by (rule transitions_respect_constraints[OF trial_ids trial_sound])
    (simp add: commits_ok_def trial_approved_def trial_control_def)

end
