(* ===== verification/Approval_Queue.thy ===== *)
theory Approval_Queue
  imports Approval_Control
begin

text \<open>
  \<open>agent/tools/approval_queue.py\<close>: the public approval queue over the control store. The bounded
  backfill proposal and its parameters, the identity derived from them, creation, the runtime
  transitions of the live path, and the check a dispatcher makes before it executes.

  Not here: the historical ClickHouse implementation behind \<open>_injected_legacy_client\<close>, which the
  code keeps for test doubles only.

  A proposal's fields are Python values (\<open>proposal\<close>); pydantic's conversion of request bodies to
  them is not modelled, the constraints and validators of \<open>ApprovalRequestCreate\<close> are.
\<close>

section \<open>Proposals\<close>

definition BACKFILL_DISPATCHER_DAG_ID :: string where
  "BACKFILL_DISPATCHER_DAG_ID = ''90_dag_dq_platform_backfill_dispatcher''"

definition MAX_BACKFILL_DAYS :: int where
  "MAX_BACKFILL_DAYS = 31"

definition ALLOWED_BACKFILL_TARGET_DAG_IDS :: "string list" where
  "ALLOWED_BACKFILL_TARGET_DAG_IDS =
     [''00_dag_dq_platform_daily_orchestrator'', ''10_dag_dq_orders_landing_orchestrator'',
      ''11_dag_dq_orders_seed_to_s3'', ''12_dag_dq_orders_load_raw_clickhouse'',
      ''20_dag_dq_orders_dbt_transform'', ''30_dag_dq_orders_quality_alerts'', ''40_dag_dq_orders_triage_agent'']"

definition between :: "int \<Rightarrow> int \<Rightarrow> int option \<Rightarrow> int option" where
  "between lo hi x = (case x of Some i \<Rightarrow> if lo \<le> i \<and> i \<le> hi then Some i else None | None \<Rightarrow> None)"

definition parameter_names :: "string list" where
  "parameter_names = [''incident_scenario'', ''run_mode'', ''run_seed'', ''run_load'', ''run_dbt'', ''run_dq'',
     ''run_triage'', ''max_alerts'', ''reset_dag_run'', ''wait_for_completion'', ''fail_fast'', ''max_dates'',
     ''poll_interval_sec'', ''timeout_sec'']"

definition parameter_values :: "pydantic \<Rightarrow> fields \<Rightarrow> json option list" where
  "parameter_values py fs =
     (let flag = (\<lambda>k d. map_option JBool (field fs k (Some d) (as_bool py)));
          num = (\<lambda>k d lo hi. map_option JInt (field fs k (Some d) (\<lambda>j. between lo hi (as_int py j))))
      in [map_option JStr (field fs ''incident_scenario'' (Some ''baseline'') (stripped_str 1 100)),
          map_option JStr (field fs ''run_mode'' (Some ''backfill'')
            (\<lambda>j. Option.bind (as_str j) (\<lambda>s. if strip s = ''backfill'' then Some ''backfill'' else None))),
          flag ''run_seed'' True, flag ''run_load'' True, flag ''run_dbt'' True, flag ''run_dq'' True,
          flag ''run_triage'' False, num ''max_alerts'' 5 1 20, flag ''reset_dag_run'' False,
          flag ''wait_for_completion'' False, flag ''fail_fast'' True, num ''max_dates'' 14 1 90,
          num ''poll_interval_sec'' 15 5 300, num ''timeout_sec'' 3600 60 86400])"

text \<open>\<open>normalize_backfill_parameters\<close>: every parameter present, unknown ones refused.\<close>

definition normalize_backfill_parameters :: "pydantic \<Rightarrow> fields \<Rightarrow> approval_error + fields" where
  "normalize_backfill_parameters py fs =
     (if extra_forbidden parameter_names fs then Inl Validation_Failed
      else case all_some (parameter_values py fs) of
          None \<Rightarrow> Inl Validation_Failed
        | Some vs \<Rightarrow> Inr (zip parameter_names vs))"

definition backfill_parameters_from_conf :: "pydantic \<Rightarrow> fields \<Rightarrow> approval_error + fields" where
  "backfill_parameters_from_conf py conf =
     normalize_backfill_parameters py (filter (\<lambda>(k, _). k \<in> set parameter_names) conf)"

fun sensitive_paths :: "string \<Rightarrow> json \<Rightarrow> string list"
  and sensitive_paths_items :: "string \<Rightarrow> nat \<Rightarrow> json list \<Rightarrow> string list"
  and sensitive_paths_fields :: "string \<Rightarrow> fields \<Rightarrow> string list" where
  "sensitive_paths prefix (JObj kvs) = sensitive_paths_fields prefix kvs"
| "sensitive_paths prefix (JArr xs) = sensitive_paths_items prefix 0 xs"
| "sensitive_paths prefix _ = []"
| "sensitive_paths_items prefix i [] = []"
| "sensitive_paths_items prefix i (x # xs) =
     sensitive_paths (prefix @ ''['' @ nat_str i @ '']'') x @ sensitive_paths_items prefix (Suc i) xs"
| "sensitive_paths_fields prefix [] = []"
| "sensitive_paths_fields prefix ((k, v) # kvs) =
     (let path = (if prefix = [] then k else prefix @ ''.'' @ k)
      in (if sensitive_key k then [path] else []) @ sensitive_paths path v @ sensitive_paths_fields prefix kvs)"

definition find_sensitive_parameter_paths :: "json \<Rightarrow> string list" where
  "find_sensitive_parameter_paths payload = sort (remdups (sensitive_paths [] payload))"

record proposal =
  pr_action_type :: string
  pr_alert_id :: "string option"
  pr_alert_key :: string
  pr_agent_run_id :: "string option"
  pr_requested_by :: string
  pr_reason :: string
  pr_dispatcher_dag_id :: string
  pr_target_dag_id :: string
  pr_start_date :: date
  pr_end_date :: date
  pr_parameters :: fields

definition MAX_PARAMETERS_JSON_BYTES :: nat where
  "MAX_PARAMETERS_JSON_BYTES = 10000"

text \<open>
  The model's fields, then \<open>reject_sensitive_parameters\<close>, then \<open>validate_backfill_scope\<close>. A
  parameter that is not JSON is refused here; the code gets to it when it normalises.
\<close>

definition validate_proposal :: "pydantic \<Rightarrow> proposal \<Rightarrow> approval_error + proposal" where
  "validate_proposal py p =
     (case (bounded 1 200 (strip (pr_requested_by p)), bounded 5 2000 (strip (pr_reason p)),
            dumps (JObj (pr_parameters p))) of
        (Some by, Some why, Some serialized) \<Rightarrow>
          (if find_sensitive_parameter_paths (JObj (pr_parameters p)) \<noteq> [] \<or>
              MAX_PARAMETERS_JSON_BYTES < length serialized
           then Inl Validation_Failed
           else if strip (pr_action_type p) \<noteq> ''backfill'' \<or>
              strip (pr_dispatcher_dag_id p) \<noteq> BACKFILL_DISPATCHER_DAG_ID \<or>
              strip (pr_target_dag_id p) \<notin> set ALLOWED_BACKFILL_TARGET_DAG_IDS \<or>
              date_before (pr_end_date p) (pr_start_date p) \<or>
              MAX_BACKFILL_DAYS < toordinal (pr_end_date p) - toordinal (pr_start_date p) + 1
           then Inl Validation_Failed
           else case normalize_backfill_parameters py (pr_parameters p) of
               Inl e \<Rightarrow> Inl e
             | Inr params \<Rightarrow>
                 Inr (p\<lparr>pr_action_type := strip (pr_action_type p), pr_alert_key := strip (pr_alert_key p),
                        pr_requested_by := by, pr_reason := why,
                        pr_dispatcher_dag_id := strip (pr_dispatcher_dag_id p),
                        pr_target_dag_id := strip (pr_target_dag_id p), pr_parameters := params\<rparr>))
      | _ \<Rightarrow> Inl Validation_Failed)"

definition build_idempotency_key :: "(string \<Rightarrow> nat list) \<Rightarrow> proposal \<Rightarrow> string" where
  "build_idempotency_key sha p =
     (case dumps (JObj [(''action_type'', JStr (pr_action_type p)), (''alert_key'', JStr (pr_alert_key p)),
          (''dispatcher_dag_id'', JStr (pr_dispatcher_dag_id p)), (''target_dag_id'', JStr (pr_target_dag_id p)),
          (''start_date'', JStr (isoformat (pr_start_date p))), (''end_date'', JStr (isoformat (pr_end_date p))),
          (''parameters'', JObj (pr_parameters p))]) of
        None \<Rightarrow> [] | Some text \<Rightarrow> sha_hex sha text)"

definition upper :: "string \<Rightarrow> string" where
  "upper s = map (\<lambda>c. let n = (of_char c :: nat) in if 97 \<le> n \<and> n \<le> 122 then char_of (n - 32) else c) s"

definition build_request_id :: "proposal \<Rightarrow> string \<Rightarrow> string" where
  "build_request_id p key =
     ''APR-'' @ nat_str (year (pr_start_date p)) @ pad_zero 2 (nat_str (month (pr_start_date p))) @
     pad_zero 2 (nat_str (day (pr_start_date p))) @ ''-'' @ upper (take 8 key)"

section \<open>Creation, lookup and transitions\<close>

definition approval_of_proposal :: "(string \<Rightarrow> nat list) \<Rightarrow> int \<Rightarrow> proposal \<Rightarrow> approval" where
  "approval_of_proposal sha at p =
     (let key = build_idempotency_key sha p
      in \<lparr>ap_request_id = build_request_id p key, ap_created_at = at, ap_updated_at = at,
          ap_alert_id = pr_alert_id p, ap_alert_key = pr_alert_key p, ap_agent_run_id = pr_agent_run_id p,
          ap_action_type = pr_action_type p, ap_risk_level = ''high'', ap_status = Pending,
          ap_requested_by = pr_requested_by p, ap_reason = pr_reason p,
          ap_dispatcher_dag_id = pr_dispatcher_dag_id p, ap_target_dag_id = pr_target_dag_id p,
          ap_start_date = Some (pr_start_date p), ap_end_date = Some (pr_end_date p),
          ap_parameters = pr_parameters p, ap_dry_run = False, ap_idempotency_key = key, ap_decided_by = [],
          ap_decided_at = None, ap_decision_comment = [], ap_run_id = [], ap_execution = Not_Started,
          ap_error = [], ap_version = None, ap_eligibility = ''eligible''\<rparr>)"

definition create_approval_request ::
    "pydantic \<Rightarrow> (string \<Rightarrow> nat list) \<Rightarrow> int \<Rightarrow> proposal \<Rightarrow> (approval \<times> bool) control_prog" where
  "create_approval_request py sha at p =
     bnd (create_queue_request py sha (approval_of_proposal sha at p)) (\<lambda>(r, created).
     bnd (from_sum (approval_from_control_record py r)) (\<lambda>a. ret (a, created)))"

definition get_approval_request :: "pydantic \<Rightarrow> string \<Rightarrow> approval option control_prog" where
  "get_approval_request py request_id =
     bnd (read_latest request_id) (\<lambda>row. case row of
         None \<Rightarrow> ret None
       | Some r \<Rightarrow> bnd (from_sum (approval_from_control_record py r)) (\<lambda>a. ret (Some a)))"

definition execution_name :: "execution_status \<Rightarrow> string" where
  "execution_name e = (case e of Not_Started \<Rightarrow> ''not_started'' | Dispatching \<Rightarrow> ''dispatching''
     | Dispatched \<Rightarrow> ''dispatched'' | Succeeded \<Rightarrow> ''succeeded'' | Failed \<Rightarrow> ''failed'' | Execution_Unknown \<Rightarrow> ''unknown'')"

definition unchanged :: "pydantic \<Rightarrow> control_row \<Rightarrow> (approval \<times> bool) control_prog" where
  "unchanged py r = bnd (from_sum (approval_from_control_record py r)) (\<lambda>a. ret (a, False))"

definition updated_to :: "pydantic \<Rightarrow> control_row control_prog \<Rightarrow> (approval \<times> bool) control_prog" where
  "updated_to py m = bnd m (\<lambda>r. bnd (from_sum (approval_from_control_record py r)) (\<lambda>a. ret (a, True)))"

definition runtime_transition ::
    "pydantic \<Rightarrow> string \<Rightarrow> string \<Rightarrow> string \<Rightarrow> int option \<Rightarrow> string \<Rightarrow> string \<Rightarrow> string \<Rightarrow> string \<Rightarrow>
     (approval \<times> bool) control_prog" where
  "runtime_transition py request_id operation actor expected_version decision comment run_id err =
     bnd (case expected_version of None \<Rightarrow> ret () | Some v \<Rightarrow> bnd (from_sum (version_of v)) (\<lambda>_. ret ())) (\<lambda>_.
     bnd (require (strip actor \<noteq> []) Blank_Actor) (\<lambda>_.
     bnd (require (length comment \<le> 2000) Comment_Too_Long) (\<lambda>_.
     bnd (read_latest request_id) (\<lambda>row. case row of
       None \<Rightarrow> throw Not_Found
     | Some current \<Rightarrow>
         bnd (require (case expected_version of None \<Rightarrow> True | Some v \<Rightarrow> cr_version current = v) (Conflict Stale_Version)) (\<lambda>_.
         let version = cr_version current in
         if operation = ''decision'' then
           (if cr_status current = (if decision = ''approve'' then Approved else Rejected) then unchanged py current
            else updated_to py (decide py request_id decision actor version comment))
         else if operation = ''cancel'' then
           (if cr_status current = Cancelled then unchanged py current
            else updated_to py (cancel py request_id actor version comment))
         else
           bnd (require (cr_action_type current = ''backfill'') (Conflict Only_Backfill)) (\<lambda>_.
           bnd (require (strip run_id \<noteq> []) Blank_Run_Id) (\<lambda>_.
           bnd (require (\<not> (cr_run_id current \<notin> {None, Some []} \<and> cr_run_id current \<noteq> Some run_id))
                  (Conflict Claimed_By_Other)) (\<lambda>_.
           if execution_name (cr_execution current) = operation \<and> cr_run_id current = Some run_id then unchanged py current
           else if operation = ''dispatching'' then updated_to py (claim py request_id run_id version)
           else updated_to py (record_execution_outcome py request_id run_id operation version err)))))))))"

definition decide_approval_request ::
    "pydantic \<Rightarrow> string \<Rightarrow> string \<Rightarrow> string \<Rightarrow> string \<Rightarrow> int option \<Rightarrow> (approval \<times> bool) control_prog" where
  "decide_approval_request py request_id decision decided_by comment expected_version =
     bnd (require (decision \<in> {''approve'', ''reject''}) Bad_Decision) (\<lambda>_.
     runtime_transition py (strip request_id) ''decision'' decided_by expected_version decision comment [] [])"

definition cancel_approval_request ::
    "pydantic \<Rightarrow> string \<Rightarrow> string \<Rightarrow> string \<Rightarrow> int option \<Rightarrow> (approval \<times> bool) control_prog" where
  "cancel_approval_request py request_id cancelled_by comment expected_version =
     runtime_transition py (strip request_id) ''cancel'' cancelled_by expected_version [] comment [] []"

definition transition_approval_execution ::
    "pydantic \<Rightarrow> string \<Rightarrow> string \<Rightarrow> string \<Rightarrow> string \<Rightarrow> string \<Rightarrow> int option \<Rightarrow> (approval \<times> bool) control_prog" where
  "transition_approval_execution py request_id execution_status execution_dag_run_id error_message actor expected_version =
     bnd (require (execution_status \<in> set (map execution_name
            [Not_Started, Dispatching, Dispatched, Succeeded, Failed, Execution_Unknown])) Bad_Outcome) (\<lambda>_.
     runtime_transition py (strip request_id) execution_status actor expected_version [] []
       (strip execution_dag_run_id) error_message)"

section \<open>Authorising an execution\<close>

definition require_approved_backfill_request ::
    "pydantic \<Rightarrow> string \<Rightarrow> string \<Rightarrow> date \<Rightarrow> date \<Rightarrow> fields \<Rightarrow> approval control_prog" where
  "require_approved_backfill_request py request_id target_dag_id start_date end_date parameters =
     bnd (require (strip request_id \<noteq> []) Bad_Identifier) (\<lambda>_.
     bnd (get_approval_request py (strip request_id)) (\<lambda>found.
     bnd (from_sum (normalize_backfill_parameters py parameters)) (\<lambda>execution_parameters.
     case found of
       None \<Rightarrow> throw Not_Found
     | Some a \<Rightarrow>
         bnd (require (ap_eligibility a = ''eligible'') (Conflict Legacy_Cannot_Execute)) (\<lambda>_.
         bnd (require (ap_status a = Approved \<and> ap_action_type a = ''backfill'' \<and>
                ap_dispatcher_dag_id a = BACKFILL_DISPATCHER_DAG_ID \<and> ap_target_dag_id a = target_dag_id \<and>
                ap_start_date a = Some start_date \<and> ap_end_date a = Some end_date \<and>
                json_eq (JObj (ap_parameters a)) (JObj execution_parameters) \<and> \<not> ap_dry_run a \<and>
                ap_execution a = Not_Started) (Conflict Different_Scope)) (\<lambda>_.
         ret a)))))"

section \<open>Stored scopes and their view\<close>

lemma as_str_Some: "as_str j = Some s \<longleftrightarrow> j = JStr s"
  by (cases j) (auto simp: as_str_def)

lemma view_fields:
  assumes "approval_from_control_record py r = Inr a"
  shows "ap_status a = cr_status r" and "ap_action_type a = cr_action_type r" and "ap_execution a = cr_execution r"
    and "ap_request_id a = cr_request_id r" and "JStr (ap_eligibility a) = eligibility (cr_scope r)"
    and "ap_requested_by a = cr_requested_by r" and "ap_version a = Some (cr_version r)"
proof -
  have "ap_status a = cr_status r \<and> ap_action_type a = cr_action_type r \<and> ap_execution a = cr_execution r \<and>
      ap_request_id a = cr_request_id r \<and> JStr (ap_eligibility a) = eligibility (cr_scope r) \<and>
      ap_requested_by a = cr_requested_by r \<and> ap_version a = Some (cr_version r)"
    using assms by (auto simp: approval_from_control_record_def as_str_Some split: option.splits)
  then show "ap_status a = cr_status r" and "ap_action_type a = cr_action_type r" and "ap_execution a = cr_execution r"
    and "ap_request_id a = cr_request_id r" and "JStr (ap_eligibility a) = eligibility (cr_scope r)"
    and "ap_requested_by a = cr_requested_by r" and "ap_version a = Some (cr_version r)"
    by blast+
qed

lemma read_latest_Inr: "read_latest rid s = (Inr row, t) \<Longrightarrow> row = row_of s (strip rid) \<and> t = fst (start s)"
  by (auto simp: read_latest_def from_sum_Inr identifier_of_Inr latest_def select_one_def row_of_def dest!: in_transaction_Inr)

lemma get_approval_request_Inr:
  assumes "get_approval_request py rid s = (Inr (Some a), t)"
  shows "\<exists>r. row_of s (strip rid) = Some r \<and> approval_from_control_record py r = Inr a"
proof -
  obtain row u where "read_latest rid s = (Inr row, u)"
    and "(case row of None \<Rightarrow> ret None | Some r \<Rightarrow> bnd (from_sum (approval_from_control_record py r)) (\<lambda>a. ret (Some a))) u
       = (Inr (Some a), t)"
    using assms by (auto simp: get_approval_request_def bnd_Inr[of "read_latest _"])
  then show ?thesis
    using read_latest_Inr by (cases row) (auto simp: from_sum_Inr)
qed

lemma require_approved_Inr:
  assumes "require_approved_backfill_request py rid target sd ed params s = (Inr a, t)"
  shows "\<exists>r fs. row_of s (strip rid) = Some r \<and> approval_from_control_record py r = Inr a \<and>
     normalize_backfill_parameters py params = Inr fs \<and> ap_eligibility a = ''eligible'' \<and> ap_status a = Approved \<and>
     ap_action_type a = ''backfill'' \<and> ap_target_dag_id a = target \<and> ap_start_date a = Some sd \<and> ap_end_date a = Some ed \<and>
     json_eq (JObj (ap_parameters a)) (JObj fs) \<and> ap_execution a = Not_Started"
  using assms
  by (auto simp: require_approved_backfill_request_def bnd_Inr[of "require _ _"] bnd_Inr[of "get_approval_request _ _"] from_sum_Inr
      split: if_splits option.splits dest!: get_approval_request_Inr)

text \<open>
  C19. What an authorisation means: when \<open>require_approved_backfill_request\<close> accepts a dispatcher
  run, the request it names is stored as approved, by somebody other than its requester, is not a
  legacy import, has never been claimed, and carries exactly the target, the dates and the complete
  parameters the run is about to use.
\<close>

theorem authorised_run_matches_request:
  assumes "ids_distinct s" and "\<forall>r \<in> set (requests s). sound_row r"
    and "require_approved_backfill_request py rid target sd ed params s = (Inr a, t)"
  shows "\<exists>r fs. row_of s (strip rid) = Some r \<and> cr_status r = Approved \<and> cr_action_type r = ''backfill'' \<and>
     cr_execution r = Not_Started \<and> cr_run_id r = None \<and> \<not> legacy r \<and>
     (\<exists>who. cr_decided_by r = Some who \<and> lower who \<noteq> lower (cr_requested_by r)) \<and>
     normalize_backfill_parameters py params = Inr fs \<and> json_eq (JObj (ap_parameters a)) (JObj fs) \<and>
     ap_target_dag_id a = target \<and> ap_start_date a = Some sd \<and> ap_end_date a = Some ed"
proof -
  obtain r fs where r: "row_of s (strip rid) = Some r" and view: "approval_from_control_record py r = Inr a"
    and ok: "normalize_backfill_parameters py params = Inr fs" "ap_eligibility a = ''eligible''" "ap_status a = Approved"
      "ap_action_type a = ''backfill''" "ap_target_dag_id a = target" "ap_start_date a = Some sd" "ap_end_date a = Some ed"
      "json_eq (JObj (ap_parameters a)) (JObj fs)" "ap_execution a = Not_Started"
    using require_approved_Inr[OF assms(3)] by blast
  note v = view_fields[OF view]
  have "eligibility (cr_scope r) = JStr ''eligible''" using v(5) ok(2) by simp
  then have "\<not> legacy r" by (auto simp: legacy_def eligibility_def get_json_def split: option.splits)
  moreover have "sound_row r" using r assms(2) by (auto simp: row_of_def dest: find_SomeD)
  ultimately show ?thesis
    using r v ok by (auto simp: sound_row_def row_checks_def)
qed

lemma queue_scope_stored:
  assumes "canonical_scope sha a (queue_control_scope ap old) = Inr (kvs, h)"
  shows "get_json kvs ''execution_eligibility'' JNull = JStr (if old then ''legacy_review_required'' else ''simulation_only'')"
  using canonical_scope_key[OF assms] by (simp add: queue_control_scope_def get_json_def)

lemma create_queue_request_created:
  assumes "create_queue_request py sha ap s = (Inr (r, True), t)"
  shows "row_of t (ap_request_id ap) = Some r \<and> eligibility (cr_scope r) = JStr ''simulation_only'' \<and>
     cr_request_id r = ap_request_id ap \<and> cr_status r = Pending"
proof -
  obtain kvs h where cs: "canonical_scope sha (ap_action_type ap) (queue_control_scope ap False) = Inr (kvs, h)"
    using assms by (auto simp: create_queue_request_def Let_def from_sum_Inr)
  let ?new = "new_request (ap_request_id ap) (ap_idempotency_key ap) 1 (ap_action_type ap) kvs (ap_requested_by ap) (ap_reason ap)"
  obtain at u where ins: "insert_request False (?new at) (fst (start s)) = (Inr (Some r), u)"
    and "requests t = requests u"
    using assms
    by (auto simp: create_queue_request_def Let_def from_sum_Inr cs bnd_Inr[of "incident_open _"] bnd_Inr[of "gets _"]
        bnd_Inr[of "insert_request _ _"] bnd_Inr[of "require _ _"] bnd_Inr[of "enqueue _ _ _ _"] neq_Nil_conv
        split: list.splits option.splits if_splits dest!: in_transaction_Inr incident_open_requests enqueue_requests)
  then have "r = ?new at" and "requests t = requests s @ [?new at]"
    and "find (\<lambda>r. cr_request_id r = ap_request_id ap) (requests s) = None"
    by (auto simp: insert_request_def new_request_def sql_any_iff find_None_iff split: if_splits)
  then show ?thesis
    using queue_scope_stored[OF cs]
    by (auto simp: row_of_def find_append new_request_def eligibility_def get_json_def split: option.splits)
qed

text \<open>
  C20. A request created through the public queue can be reviewed but never executed: whatever
  happens to it afterwards, \<open>require_approved_backfill_request\<close> refuses every run that cites it.
\<close>

theorem queue_requests_never_authorise:
  assumes "ids_distinct s" and "create_queue_request py sha ap s = (Inr (r, True), t)"
    and "strip rid = ap_request_id ap"
  shows "\<exists>e. fst (require_approved_backfill_request py rid target sd ed params (run_ops py sha' ops t)) = Inl e"
proof (rule Inl_if_not_Inr)
  fix a u
  let ?t = "run_ops py sha' ops t"
  note c = create_queue_request_created[OF assms(2)]
  have "ids_distinct t" using evolvesD[OF cev_create_queue_request assms(2)] assms(1) by (simp add: control_evolves_def)
  then obtain r' where r': "row_of ?t (ap_request_id ap) = Some r'" and "identity_of r' = identity_of r"
    using row_of_evolves[OF run_ops_evolves _ ] row_star_identity c by blast
  then have "eligibility (cr_scope r') = JStr ''simulation_only''" using c by (simp add: identity_of_def)
  then show "require_approved_backfill_request py rid target sd ed params ?t \<noteq> (Inr a, u)"
    using r' assms(3) by (auto dest!: require_approved_Inr dest: view_fields(5))
qed

section \<open>Bounded proposals\<close>

lemma all_some_Some [simp]: "all_some (map Some ys) = Some ys"
  by (induction ys) simp_all

lemma all_some_map: "all_some xs = Some ys \<longleftrightarrow> xs = map Some ys"
proof
  show "all_some xs = Some ys \<Longrightarrow> xs = map Some ys"
    by (induction xs arbitrary: ys) (auto split: option.splits)
qed simp

lemma between_Some: "between lo hi x = Some i \<longleftrightarrow> x = Some i \<and> lo \<le> i \<and> i \<le> hi"
  by (auto simp: between_def split: option.splits if_splits)

lemma bounded_Some: "bounded lo hi s = Some u \<longleftrightarrow> u = s \<and> lo \<le> length s \<and> length s \<le> hi"
  by (auto simp: bounded_def)

lemma length_parameter_values: "length (parameter_values py fs) = length parameter_names"
  by (simp add: parameter_values_def parameter_names_def)

lemma normalized_names:
  "normalize_backfill_parameters py fs = Inr ps \<Longrightarrow> map fst ps = parameter_names"
  using length_parameter_values[of py fs]
  by (auto simp: normalize_backfill_parameters_def all_some_map split: if_splits option.splits)

text \<open>
  An accepted proposal is bounded: the action is a backfill through the one dispatcher to an
  allowed target, over at most 31 dates in order, asked for by a named requester with a reason,
  with every execution parameter fixed.
\<close>

theorem accepted_proposal_is_bounded:
  assumes "validate_proposal py p = Inr q"
  shows "pr_action_type q = ''backfill'' \<and> pr_dispatcher_dag_id q = BACKFILL_DISPATCHER_DAG_ID \<and>
     pr_target_dag_id q \<in> set ALLOWED_BACKFILL_TARGET_DAG_IDS \<and>
     \<not> date_before (pr_end_date q) (pr_start_date q) \<and>
     toordinal (pr_end_date q) - toordinal (pr_start_date q) < MAX_BACKFILL_DAYS \<and>
     1 \<le> length (pr_requested_by q) \<and> length (pr_requested_by q) \<le> 200 \<and>
     5 \<le> length (pr_reason q) \<and> length (pr_reason q) \<le> 2000 \<and>
     map fst (pr_parameters q) = parameter_names"
  using assms
  by (auto simp: validate_proposal_def bounded_Some split: option.splits if_splits sum.splits dest!: normalized_names)

lemma field_Cons: "field ((k', v) # env) k d c = (if k = k' then c v else field env k d c)"
  by (simp add: field_def)

text \<open>Reading a normalised value again.\<close>

lemma flag_again:
  "(\<And>b. as_bool py (JBool b) = Some b) \<Longrightarrow>
     map_option JBool (field fs k (Some d) (as_bool py)) = Some v \<Longrightarrow> map_option JBool (as_bool py v) = Some v"
  by auto

lemma number_again:
  assumes "\<And>i. as_int py (JInt i) = Some i"
    and "map_option JInt (field fs k (Some d) (\<lambda>j. between lo hi (as_int py j))) = Some v" and "lo \<le> d \<and> d \<le> hi"
  shows "map_option JInt (between lo hi (as_int py v)) = Some v"
  using assms by (auto simp: field_def between_Some split: option.splits)

lemma text_again:
  assumes "map_option JStr (field fs k (Some d) (stripped_str lo hi)) = Some v" and "stripped_str lo hi (JStr d) = Some d"
  shows "map_option JStr (stripped_str lo hi v) = Some v"
  using assms by (auto simp: field_def stripped_str_def as_str_def bounded_Some bind_eq_Some_conv split: option.splits)

lemma constant_again:
  assumes "map_option JStr (field fs k (Some d) (\<lambda>j. Option.bind (as_str j) (\<lambda>s. if strip s = d then Some d else None))) = Some v"
    and "strip d = d"
  shows "map_option JStr (Option.bind (as_str v) (\<lambda>s. if strip s = d then Some d else None)) = Some v"
proof -
  have "v = JStr d"
    using assms(1) by (auto simp: field_def bind_eq_Some_conv split: option.splits if_splits)
  then show ?thesis by (simp add: as_str_def assms(2))
qed

text \<open>
  The parameter contract is a normal form: normalising it again, as the dispatcher does
  before it compares it with the approved one, changes nothing. About pydantic this uses only
  that a boolean and an integer are themselves.
\<close>

theorem normalized_parameters_are_stable:
  assumes "\<And>b. as_bool py (JBool b) = Some b" and "\<And>i. as_int py (JInt i) = Some i"
    and "normalize_backfill_parameters py fs = Inr ps"
  shows "normalize_backfill_parameters py ps = Inr ps"
proof -
  obtain vs where vs: "parameter_values py fs = map Some vs" and ps: "ps = zip parameter_names vs"
    using assms(3) by (auto simp: normalize_backfill_parameters_def all_some_map split: if_splits option.splits)
  have "length vs = 14"
    using length_parameter_values[of py fs] vs by (simp add: parameter_names_def)
  then obtain v1 v2 v3 v4 v5 v6 v7 v8 v9 v10 v11 v12 v13 v14
    where list: "vs = [v1, v2, v3, v4, v5, v6, v7, v8, v9, v10, v11, v12, v13, v14]"
    by (auto simp: length_Suc_conv eval_nat_numeral)
  have base: "stripped_str 1 100 (JStr ''baseline'') = Some ''baseline''" and mode: "strip ''backfill'' = ''backfill''"
    by code_simp+
  note e = vs[unfolded parameter_values_def Let_def list list.map list.inject]
  note flag = flag_again[of py, OF assms(1)] and num = number_again[of py, OF assms(2)]
  have "map_option JStr (stripped_str 1 100 v1) = Some v1 \<and>
    map_option JStr (Option.bind (as_str v2) (\<lambda>s. if strip s = ''backfill'' then Some ''backfill'' else None)) = Some v2 \<and>
    map_option JBool (as_bool py v3) = Some v3 \<and>
    map_option JBool (as_bool py v4) = Some v4 \<and>
    map_option JBool (as_bool py v5) = Some v5 \<and>
    map_option JBool (as_bool py v6) = Some v6 \<and>
    map_option JBool (as_bool py v7) = Some v7 \<and>
    map_option JInt (between 1 20 (as_int py v8)) = Some v8 \<and>
    map_option JBool (as_bool py v9) = Some v9 \<and>
    map_option JBool (as_bool py v10) = Some v10 \<and>
    map_option JBool (as_bool py v11) = Some v11 \<and>
    map_option JInt (between 1 90 (as_int py v12)) = Some v12 \<and>
    map_option JInt (between 5 300 (as_int py v13)) = Some v13 \<and>
    map_option JInt (between 60 86400 (as_int py v14)) = Some v14"
    using e
    apply (elim conjE)
    apply (intro conjI)
    apply (rule text_again[OF _ base], assumption)
    apply (rule constant_again[OF _ mode], assumption)
    apply (rule flag, assumption)+
    apply (rule num, assumption, simp)
    apply (rule flag, assumption)+
    apply (rule num, assumption, simp)+
    done
  then have "parameter_values py ps = map Some vs"
    unfolding ps list parameter_values_def parameter_names_def Let_def by (simp add: field_Cons)
  moreover have "\<not> extra_forbidden parameter_names ps"
    unfolding ps by (auto simp: extra_forbidden_def list_ex_iff dest: set_zip_leftD)
  ultimately show ?thesis
    using ps by (simp add: normalize_backfill_parameters_def all_some_map[of _ vs])
qed


end
