(* ===== verification/Approval_Queue_Instance.thy ===== *)
theory Approval_Queue_Instance
  imports Approval_Queue Approval_Instance
begin

text \<open>
  A bounded proposal, the request the queue makes of it, and an eligible request that a
  dispatcher run may use.
\<close>

definition trial_proposal :: proposal where
  "trial_proposal = \<lparr>pr_action_type = ''backfill '', pr_alert_id = None, pr_alert_key = ''k'', pr_agent_run_id = None,
     pr_requested_by = ''ana'', pr_reason = ''please'', pr_dispatcher_dag_id = BACKFILL_DISPATCHER_DAG_ID,
     pr_target_dag_id = ''20_dag_dq_orders_dbt_transform'', pr_start_date = Date 2024 1 1, pr_end_date = Date 2024 1 31,
     pr_parameters = [(''max_alerts'', JInt 7)]\<rparr>"

lemma trial_proposal_accepted:
  "(case validate_proposal trial_py trial_proposal of Inl _ \<Rightarrow> False | Inr q \<Rightarrow> pr_action_type q = ''backfill'')"
  by code_simp

lemma accepted_proposal_is_bounded_witness:
  "\<exists>q. validate_proposal trial_py trial_proposal = Inr q \<and> map fst (pr_parameters q) = parameter_names"
proof -
  obtain q where "validate_proposal trial_py trial_proposal = Inr q"
    using trial_proposal_accepted by (auto split: sum.splits)
  then show ?thesis using accepted_proposal_is_bounded by blast
qed

lemma trial_normalized:
  "(case normalize_backfill_parameters trial_py [(''max_alerts'', JInt 7)] of Inl _ \<Rightarrow> False | Inr ps \<Rightarrow> True)"
  by code_simp

lemma normalized_parameters_are_stable_witness:
  "\<exists>ps. normalize_backfill_parameters trial_py [(''max_alerts'', JInt 7)] = Inr ps \<and>
     normalize_backfill_parameters trial_py ps = Inr ps"
proof -
  obtain ps where ps: "normalize_backfill_parameters trial_py [(''max_alerts'', JInt 7)] = Inr ps"
    using trial_normalized by (auto split: sum.splits)
  have "as_bool trial_py (JBool b) = Some b" and "as_int trial_py (JInt i) = Some i" for b i
    by (simp_all add: trial_py_def)
  then have "normalize_backfill_parameters trial_py ps = Inr ps"
    using normalized_parameters_are_stable[OF _ _ ps] by simp
  then show ?thesis using ps by simp
qed

definition trial_approval :: approval where
  "trial_approval = (approval_of_proposal trial_sha 7 (trial_proposal\<lparr>pr_action_type := ''backfill''\<rparr>))
     \<lparr>ap_request_id := trial_id, ap_idempotency_key := replicate 64 (CHR ''0''), ap_parameters := [(''max_alerts'', JInt 7)]\<rparr>"

lemma trial_queued:
  "succeeds_with (create_queue_request trial_py trial_sha trial_approval (empty_control [] [])) snd"
  by code_simp

lemma queue_requests_never_authorise_witness:
  "\<exists>r t e. create_queue_request trial_py trial_sha trial_approval (empty_control [] []) = (Inr (r, True), t) \<and>
     fst (require_approved_backfill_request trial_py trial_id ''20_dag_dq_orders_dbt_transform'' (Date 2024 1 1)
       (Date 2024 1 31) [] (run_ops trial_py trial_sha [Op_Decide trial_id ''approve'' ''Bob'' 1 []] t)) = Inl e"
proof -
  obtain r t where created: "create_queue_request trial_py trial_sha trial_approval (empty_control [] []) = (Inr (r, True), t)"
    using trial_queued by (auto elim!: succeeds_withE)
  moreover have "strip trial_id = ap_request_id trial_approval"
    by code_simp
  ultimately show ?thesis
    using queue_requests_never_authorise[OF empty_control_sound(1) created] by blast
qed

definition standard_parameters :: fields where
  "standard_parameters = (case normalize_backfill_parameters trial_py [] of Inr ps \<Rightarrow> ps | Inl _ \<Rightarrow> [])"

definition eligible_scope :: fields where
  "eligible_scope = [(''_approval_request'', JObj [(''risk_level'', JStr ''high''),
       (''dispatcher_dag_id'', JStr ''90_dag_dq_platform_backfill_dispatcher''),
       (''target_dag_id'', JStr ''20_dag_dq_orders_dbt_transform''), (''start_date'', JStr ''2024-01-02''),
       (''end_date'', JStr ''2024-01-02''), (''parameters'', JObj standard_parameters), (''dry_run'', JBool False)]),
     (''execution_eligibility'', JStr ''eligible'')]"

definition eligible_row :: control_row where
  "eligible_row = (trial_row Approved 2 (Some ''Bob''))\<lparr>cr_action_type := ''backfill'', cr_scope := eligible_scope\<rparr>"

definition eligible_control :: control where
  "eligible_control = trial_control [eligible_row] []"

text \<open>The check of the scope's keys, one key at a time.\<close>

fun plain_keys :: "json \<Rightarrow> bool"
  and plain_items :: "json list \<Rightarrow> bool"
  and plain_fields :: "fields \<Rightarrow> bool" where
  "plain_keys (JArr xs) = plain_items xs"
| "plain_keys (JObj kvs) = plain_fields kvs"
| "plain_keys _ = True"
| "plain_items [] = True"
| "plain_items (x # xs) = (plain_keys x \<and> plain_items xs)"
| "plain_fields [] = True"
| "plain_fields ((k, v) # kvs) = (\<not> sensitive_key k \<and> plain_keys v \<and> plain_fields kvs)"

lemma plain_keys_iff:
  "plain_keys j \<longleftrightarrow> (\<forall>k \<in> keys_of j. \<not> sensitive_key k)"
  "plain_items xs \<longleftrightarrow> (\<forall>k \<in> keys_of_items xs. \<not> sensitive_key k)"
  "plain_fields kvs \<longleftrightarrow> (\<forall>k \<in> keys_of_fields kvs. \<not> sensitive_key k)"
  by (induction j and xs and kvs rule: plain_keys_plain_items_plain_fields.induct) auto

lemma eligible_sound: "\<forall>r \<in> set (requests eligible_control). sound_row r"
proof -
  have "row_checks eligible_row" and "trigger_new eligible_row" and "cr_execution eligible_row = Not_Started"
    and "cr_run_id eligible_row = None" and "cr_decided_by eligible_row = Some ''Bob''"
    and "lower ''Bob'' \<noteq> lower (cr_requested_by eligible_row)" and "plain_keys (JObj (cr_scope eligible_row))"
    by code_simp+
  then show ?thesis
    by (simp add: eligible_control_def trial_control_def sound_row_def plain_keys_iff)
qed

lemma eligible_authorised:
  "succeeds_with (require_approved_backfill_request trial_py trial_id ''20_dag_dq_orders_dbt_transform'' (Date 2024 1 2)
       (Date 2024 1 2) [] eligible_control) (\<lambda>a. ap_target_dag_id a = ''20_dag_dq_orders_dbt_transform'')"
  by code_simp

lemma authorised_run_matches_request_witness:
  "\<exists>a t r. require_approved_backfill_request trial_py trial_id ''20_dag_dq_orders_dbt_transform'' (Date 2024 1 2)
       (Date 2024 1 2) [] eligible_control = (Inr a, t) \<and>
     row_of eligible_control (strip trial_id) = Some r \<and> cr_status r = Approved \<and> cr_run_id r = None"
proof -
  obtain a t where run: "require_approved_backfill_request trial_py trial_id ''20_dag_dq_orders_dbt_transform'' (Date 2024 1 2)
       (Date 2024 1 2) [] eligible_control = (Inr a, t)"
    using eligible_authorised by (auto elim!: succeeds_withE)
  have "ids_distinct eligible_control" by code_simp
  then show ?thesis
    using authorised_run_matches_request[OF _ eligible_sound run] run by blast
qed

end
