(* ===== verification/Approved_Actions.thy ===== *)
theory Approved_Actions
  imports Approval_Control Complex_Main
begin

text \<open>
  \<open>agent/tools/approved_actions.py\<close>: executing an approved action through its provider. The
  provider is reached only after the control store has let this run claim the request, and the
  outcome is recorded before the caller sees it.

  State: the control store and the outside world, which keeps the list of calls made to it. The
  outside world's answers are the parameter \<open>net\<close>; a call can answer, time out, lose its
  connection, raise, or be interrupted (a \<open>BaseException\<close>, which the code does not catch).
  \<open>env\<close> is the process environment, \<open>read_float\<close> is Python's \<open>float()\<close> on text, and
  \<open>repr_text\<close> its \<open>str()\<close> on lists and dictionaries.
\<close>

section \<open>Providers\<close>

datatype external_call =
    Trigger_Dag string string fields
  | Github_Issue string string string string "string list"
  | Discord_Message string string string

primrec call_request :: "external_call \<Rightarrow> string" where
  "call_request (Trigger_Dag request_id run conf) = request_id"
| "call_request (Github_Issue request_id repository title body labels) = request_id"
| "call_request (Discord_Message request_id channel content) = request_id"

datatype answer =
  Exit_Code int | Response int "json option" | Timed_Out | Connection_Lost | Raised string | Interrupted

record 'w outside =
  calls :: "external_call list"
  world :: 'w

record 'w network =
  respond :: "external_call \<Rightarrow> 'w \<Rightarrow> answer \<times> 'w"
  read_float :: "string \<Rightarrow> rat option"
  repr_text :: "json \<Rightarrow> string"

datatype action_error =
    Store_Error approval_error
  | Request_Missing | Not_Approved | Recovery_Needs_Executor | Unsupported_Type | Scope_Invalid
  | Provider_Not_Ready
  | Delivery_Unknown
  | Provider_Error string
  | Run_Interrupted

type_synonym 'w machine = "control \<times> 'w outside"
type_synonym ('w, 'a) run = "('w machine, action_error, 'a) prog"
type_synonym environment = "string \<Rightarrow> string option"

definition on_store :: "'a control_prog \<Rightarrow> ('w, 'a) run" where
  "on_store m = (\<lambda>(c, w). case m c of (Inl e, c') \<Rightarrow> (Inl (Store_Error e), (c', w)) | (Inr x, c') \<Rightarrow> (Inr x, (c', w)))"

definition call :: "'w network \<Rightarrow> external_call \<Rightarrow> ('w, answer) run" where
  "call net c = (\<lambda>(s, w). case respond net c (world w) of
     (a, w') \<Rightarrow> (Inr a, (s, w\<lparr>calls := calls w @ [c], world := w'\<rparr>)))"

record action_result =
  ar_request_id :: string
  ar_action_type :: string
  ar_status :: string
  ar_run_id :: string
  ar_reference :: string
  ar_provider :: string
  ar_side_effects :: bool

definition newline :: string where
  "newline = [CHR 0x0A]"

definition env_get :: "environment \<Rightarrow> string \<Rightarrow> string \<Rightarrow> string" where
  "env_get env name dflt = (case env name of Some v \<Rightarrow> v | None \<Rightarrow> dflt)"

definition enabled :: "environment \<Rightarrow> string \<Rightarrow> bool" where
  "enabled env name \<longleftrightarrow> lower (strip (env_get env name ''false'')) \<in> {''1'', ''true'', ''yes'', ''on''}"

definition timeout_seconds :: "'w network \<Rightarrow> environment \<Rightarrow> ('w, rat) run" where
  "timeout_seconds net env =
     (case read_float net (env_get env ''APPROVED_ACTION_HTTP_TIMEOUT_SECONDS'' ''10'') of
        None \<Rightarrow> throw (Provider_Error ''APPROVED_ACTION_HTTP_TIMEOUT_SECONDS must be numeric.'')
      | Some v \<Rightarrow> if 1 \<le> v \<and> v \<le> 30 then ret v
                  else throw (Provider_Error ''APPROVED_ACTION_HTTP_TIMEOUT_SECONDS must be between 1 and 30.''))"

definition repository_char :: "char \<Rightarrow> bool" where
  "repository_char c \<longleftrightarrow> (let n = (of_char c :: nat) in
     (65 \<le> n \<and> n \<le> 90) \<or> (97 \<le> n \<and> n \<le> 122) \<or> (48 \<le> n \<and> n \<le> 57) \<or> c \<in> set ''_.-'')"

definition is_repository :: "string \<Rightarrow> bool" where
  "is_repository s \<longleftrightarrow> (case split_on (CHR ''/'') s of
      [owner, name] \<Rightarrow> 1 \<le> length owner \<and> length owner \<le> 100 \<and> list_all repository_char owner \<and>
                       1 \<le> length name \<and> length name \<le> 100 \<and> list_all repository_char name
    | _ \<Rightarrow> False)"

definition is_digits :: "string \<Rightarrow> bool" where
  "is_digits s \<longleftrightarrow> s \<noteq> [] \<and> list_all (\<lambda>c. let n = (of_char c :: nat) in 48 \<le> n \<and> n \<le> 57 \<or> n = 178 \<or> n = 179 \<or> n = 185) s"

text \<open>\<open>action_readiness\<close>: the provider and whether it is ready; raises on an unknown type or scope.\<close>

definition action_readiness :: "pydantic \<Rightarrow> control_row \<Rightarrow> environment \<Rightarrow> action_error + string \<times> bool" where
  "action_readiness py r env =
     (if cr_action_type r \<notin> {''rerun_dbt'', ''create_ticket'', ''post_notification'', ''recover_partition''}
      then Inl Unsupported_Type
      else case normalize_action_scope py (cr_action_type r) (cr_scope r) of
        Inl _ \<Rightarrow> Inl Scope_Invalid
      | Inr _ \<Rightarrow>
          if cr_action_type r = ''recover_partition'' then Inr (''airflow'', False)
          else if cr_action_type r = ''rerun_dbt'' then Inr (''airflow'', True)
          else if cr_action_type r = ''create_ticket'' then
            Inr (''github_issues'',
              enabled env ''APPROVED_ACTION_GITHUB_ENABLED'' \<and>
              strip (env_get env ''APPROVED_ACTION_GITHUB_TOKEN'' []) \<noteq> [] \<and>
              is_repository (strip (env_get env ''APPROVED_ACTION_GITHUB_REPOSITORY'' [])))
          else
            Inr (''discord_bot_api'',
              enabled env ''APPROVED_ACTION_NOTIFICATION_ENABLED'' \<and>
              strip (env_get env ''DISCORD_BOT_TOKEN'' []) \<noteq> [] \<and>
              is_digits (strip (env_get env ''DISCORD_OPS_CHANNEL_ID'' []))))"

section \<open>The provider calls\<close>

definition scope_text :: "fields \<Rightarrow> string \<Rightarrow> string" where
  "scope_text fs k = (case get_json fs k JNull of JStr s \<Rightarrow> s | _ \<Rightarrow> [])"

text \<open>The text of pydantic's own message is not modelled.\<close>

definition typed_scope :: "pydantic \<Rightarrow> control_row \<Rightarrow> ('w, fields) run" where
  "typed_scope py r = lift (\<lambda>_. case normalize_action_scope py (cr_action_type r) (cr_scope r) of
      Inl _ \<Rightarrow> Inl (Provider_Error ''validation error'') | Inr fs \<Rightarrow> Inr fs)"

definition run_dbt_rerun :: "pydantic \<Rightarrow> 'w network \<Rightarrow> control_row \<Rightarrow> string \<Rightarrow> ('w, action_result) run" where
  "run_dbt_rerun py net r execution_run_id =
     bnd (typed_scope py r) (\<lambda>scope.
     let child_run_id = ''approved_rerun_dbt__'' @ lower (cr_request_id r) in
     bnd (call net (Trigger_Dag (cr_request_id r) child_run_id
            [(''dt'', get_json scope ''dt'' JNull), (''run_mode'', JStr ''approved_rerun''),
             (''run_tests'', get_json scope ''run_tests'' JNull), (''full_refresh'', JBool False),
             (''approval_request_id'', JStr (cr_request_id r))])) (\<lambda>answer.
     case answer of
       Exit_Code code \<Rightarrow>
         if code \<noteq> 0 then throw (Provider_Error ''Airflow rejected the approved dbt rerun trigger.'')
         else ret \<lparr>ar_request_id = cr_request_id r, ar_action_type = cr_action_type r, ar_status = ''dispatched'',
                   ar_run_id = execution_run_id, ar_reference = child_run_id, ar_provider = ''airflow'', ar_side_effects = True\<rparr>
     | Interrupted \<Rightarrow> throw Run_Interrupted
     | Timed_Out \<Rightarrow> throw (Provider_Error ''timed out'')
     | Raised text \<Rightarrow> throw (Provider_Error text)
     | _ \<Rightarrow> throw (Provider_Error [])))"

text \<open>\<open>str(x)\<close> of a JSON value, and \<open>str(payload.get(k) or "")\<close>.\<close>

definition py_str :: "'w network \<Rightarrow> json \<Rightarrow> string" where
  "py_str net j = (case j of JStr s \<Rightarrow> s | JInt i \<Rightarrow> int_str i | JBool b \<Rightarrow> (if b then ''True'' else ''False'')
     | JNull \<Rightarrow> ''None'' | JReal r \<Rightarrow> r | _ \<Rightarrow> repr_text net j)"

definition text_or_empty :: "'w network \<Rightarrow> fields \<Rightarrow> string \<Rightarrow> string" where
  "text_or_empty net kvs k = (let v = get_json kvs k JNull in if falsy v then [] else py_str net v)"

text \<open>Timeouts and lost connections of an HTTP call leave its effect unknown.\<close>

definition http_post :: "'w network \<Rightarrow> external_call \<Rightarrow> ('w, int \<times> json option) run" where
  "http_post net c = bnd (call net c) (\<lambda>answer. case answer of
       Response code body \<Rightarrow> ret (code, body)
     | Timed_Out \<Rightarrow> throw Delivery_Unknown
     | Connection_Lost \<Rightarrow> throw Delivery_Unknown
     | Raised text \<Rightarrow> throw (Provider_Error text)
     | Interrupted \<Rightarrow> throw Run_Interrupted
     | Exit_Code _ \<Rightarrow> throw (Provider_Error []))"

definition create_github_ticket ::
    "pydantic \<Rightarrow> 'w network \<Rightarrow> environment \<Rightarrow> control_row \<Rightarrow> string \<Rightarrow> ('w, action_result) run" where
  "create_github_ticket py net env r execution_run_id =
     bnd (typed_scope py r) (\<lambda>scope.
     let repository = strip (env_get env ''APPROVED_ACTION_GITHUB_REPOSITORY'' []);
         body = scope_text scope ''summary'' @ newline @ newline @
           ''Alert Ref: `'' @ scope_text scope ''alert_ref'' @ ''`'' @ newline @
           ''Business date: `'' @ scope_text scope ''dt'' @ ''`'' @ newline @
           ''Approval request: `'' @ cr_request_id r @ ''`'' @ newline @ newline @
           ''<!-- approval-request:'' @ cr_request_id r @ '' -->'';
         labels = (case get_json scope ''labels'' JNull of
                     JArr xs \<Rightarrow> map (\<lambda>x. case x of JStr s \<Rightarrow> s | _ \<Rightarrow> []) xs | _ \<Rightarrow> [])
     in
     bnd (timeout_seconds net env) (\<lambda>_.
     bnd (http_post net (Github_Issue (cr_request_id r) repository (scope_text scope ''title'') body labels)) (\<lambda>(code, payload).
     bnd (require (\<not> 500 \<le> code) Delivery_Unknown) (\<lambda>_.
     bnd (require (code = 201) (Provider_Error (''GitHub issue creation returned HTTP '' @ int_str code @ ''.''))) (\<lambda>_.
     case payload of
       None \<Rightarrow> throw Delivery_Unknown
     | Some j \<Rightarrow>
         let issue_number = (case j of JObj kvs \<Rightarrow> py_str net (get_json kvs ''number'' (JStr [])) | _ \<Rightarrow> []) in
         bnd (require (is_digits issue_number) Delivery_Unknown) (\<lambda>_.
         ret \<lparr>ar_request_id = cr_request_id r, ar_action_type = cr_action_type r, ar_status = ''succeeded'',
              ar_run_id = execution_run_id, ar_reference = ''github_issue:'' @ issue_number,
              ar_provider = ''github_issues'', ar_side_effects = True\<rparr>))))))"

definition validate_bot_message_response :: "'w network \<Rightarrow> json \<Rightarrow> string \<Rightarrow> string option" where
  "validate_bot_message_response net payload expected_channel_id =
     (case payload of
        JObj kvs \<Rightarrow>
          let message_id = strip (text_or_empty net kvs ''id'');
              channel_id = strip (text_or_empty net kvs ''channel_id'');
              author = get_json kvs ''author'' JNull;
              (author_id, author_bot) = (case author of
                  JObj as \<Rightarrow> (strip (text_or_empty net as ''id''), \<not> falsy (get_json as ''bot'' JNull))
                | _ \<Rightarrow> ([], False))
          in if message_id = [] \<or> channel_id \<noteq> expected_channel_id \<or> \<not> falsy (get_json kvs ''webhook_id'' JNull) \<or>
                author_id = [] \<or> \<not> author_bot then None
             else Some message_id
      | _ \<Rightarrow> None)"

definition post_discord_notification ::
    "pydantic \<Rightarrow> 'w network \<Rightarrow> environment \<Rightarrow> control_row \<Rightarrow> string \<Rightarrow> ('w, action_result) run" where
  "post_discord_notification py net env r execution_run_id =
     bnd (typed_scope py r) (\<lambda>scope.
     let channel_id = strip (env_get env ''DISCORD_OPS_CHANNEL_ID'' []);
         content = ''## Approved data quality notification'' @ newline @
           ''**'' @ scope_text scope ''title'' @ ''**'' @ newline @ newline @ scope_text scope ''summary'' @ newline @ newline @
           ''Alert Ref: `'' @ scope_text scope ''alert_ref'' @ ''`'' @ newline @
           ''Date: `'' @ scope_text scope ''dt'' @ ''`'' @ newline @
           ''Approval: `'' @ cr_request_id r @ ''`''
     in
     bnd (require (is_digits channel_id) (Provider_Error ''Discord channel id must contain digits only.'')) (\<lambda>_.
     bnd (timeout_seconds net env) (\<lambda>_.
     bnd (http_post net (Discord_Message (cr_request_id r) channel_id (take 1900 content))) (\<lambda>(code, payload).
     bnd (require (\<not> 500 \<le> code) Delivery_Unknown) (\<lambda>_.
     bnd (require (code = 200) (Provider_Error (''Discord notification returned HTTP '' @ int_str code @ ''.''))) (\<lambda>_.
     case payload of
       None \<Rightarrow> throw Delivery_Unknown
     | Some j \<Rightarrow> (case validate_bot_message_response net j channel_id of
           None \<Rightarrow> throw Delivery_Unknown
         | Some message_id \<Rightarrow>
             ret \<lparr>ar_request_id = cr_request_id r, ar_action_type = cr_action_type r, ar_status = ''succeeded'',
                  ar_run_id = execution_run_id,
                  ar_reference = ''discord_bot_message:'' @ channel_id @ '':'' @ message_id,
                  ar_provider = ''discord_bot_api'', ar_side_effects = True\<rparr>)))))))"

section \<open>Execution\<close>

definition deliver_action ::
    "pydantic \<Rightarrow> 'w network \<Rightarrow> environment \<Rightarrow> control_row \<Rightarrow> string \<Rightarrow> ('w, action_result) run" where
  "deliver_action py net env r execution_run_id =
     (if cr_action_type r = ''rerun_dbt'' then run_dbt_rerun py net r execution_run_id
      else if cr_action_type r = ''create_ticket'' then create_github_ticket py net env r execution_run_id
      else post_discord_notification py net env r execution_run_id)"

text \<open>The \<open>except\<close> clauses: the outcome is recorded, then the exception goes on.\<close>

definition delivery_failed :: "pydantic \<Rightarrow> string \<Rightarrow> string \<Rightarrow> control_row \<Rightarrow> action_error \<Rightarrow> ('w, action_result) run" where
  "delivery_failed py request_id execution_run_id claimed e =
     (case e of
        Run_Interrupted \<Rightarrow> throw Run_Interrupted
      | Delivery_Unknown \<Rightarrow>
          bnd (on_store (record_execution_outcome py request_id execution_run_id ''unknown'' (cr_version claimed)
                 ''Outbound delivery outcome could not be confirmed; manual reconciliation is required.'')) (\<lambda>_.
          throw Delivery_Unknown)
      | _ \<Rightarrow>
          bnd (on_store (record_execution_outcome py request_id execution_run_id ''failed'' (cr_version claimed)
                 (take 2000 (case e of Provider_Error text \<Rightarrow> text | _ \<Rightarrow> [])))) (\<lambda>_. throw e))"

definition execute_approved_action ::
    "pydantic \<Rightarrow> 'w network \<Rightarrow> environment \<Rightarrow> string \<Rightarrow> string \<Rightarrow> ('w, action_result) run" where
  "execute_approved_action py net env request_id execution_run_id =
     bnd (on_store (read_latest request_id)) (\<lambda>row. case row of
       None \<Rightarrow> throw Request_Missing
     | Some current \<Rightarrow>
         bnd (require (cr_status current = Approved) Not_Approved) (\<lambda>_.
         bnd (require (cr_action_type current \<noteq> ''recover_partition'') Recovery_Needs_Executor) (\<lambda>_.
         bnd (lift (\<lambda>_. action_readiness py current env)) (\<lambda>(provider, ready).
         bnd (require ready Provider_Not_Ready) (\<lambda>_.
         bnd (on_store (claim py request_id execution_run_id (cr_version current))) (\<lambda>claimed.
         bnd (handle (deliver_action py net env claimed execution_run_id)
                (delivery_failed py request_id execution_run_id claimed)) (\<lambda>result.
         bnd (on_store (record_execution_outcome py request_id execution_run_id (ar_status result) (cr_version claimed) [])) (\<lambda>_.
         ret result))))))))"

section \<open>One external call per request\<close>

abbreviation calls_of :: "'w machine \<Rightarrow> external_call list" where
  "calls_of m \<equiv> calls (snd m)"

definition calls_for :: "string \<Rightarrow> 'w machine \<Rightarrow> nat" where
  "calls_for nid m = length (filter (\<lambda>c. call_request c = nid) (calls_of m))"

text \<open>Programs that make no call, and programs that make at most one, for one request.\<close>

definition makes :: "nat \<Rightarrow> string \<Rightarrow> ('w, 'a) run \<Rightarrow> bool" where
  "makes n nid m \<longleftrightarrow> (\<forall>s. \<exists>cs. calls_of (snd (m s)) = calls_of s @ cs \<and> length cs \<le> n \<and> (\<forall>c \<in> set cs. call_request c = nid))"

lemma makes_mono: "makes m nid p \<Longrightarrow> m \<le> n \<Longrightarrow> makes n nid p"
  by (force simp: makes_def)

lemma makes_basic:
  "makes n nid (ret x)" "makes n nid (throw e)" "makes n nid (require b e)" "makes n nid (lift f)" "makes n nid (on_store m)"
  by (auto simp: makes_def on_store_def split: sum.splits prod.splits)

lemma makes_bnd:
  assumes "makes m nid p" and "\<And>x. makes n nid (f x)" and "m + n \<le> k"
  shows "makes k nid (bnd p f)"
  unfolding makes_def
proof
  fix s
  obtain r t where p: "p s = (r, t)" by (cases "p s")
  obtain cs where cs: "calls_of t = calls_of s @ cs" "length cs \<le> m" "\<forall>c \<in> set cs. call_request c = nid"
    using assms(1) p unfolding makes_def by (metis snd_conv)
  show "\<exists>cs. calls_of (snd (bnd p f s)) = calls_of s @ cs \<and> length cs \<le> k \<and> (\<forall>c \<in> set cs. call_request c = nid)"
  proof (cases r)
    case (Inl e)
    then show ?thesis using p cs assms(3) by (auto simp: bnd_def)
  next
    case (Inr x)
    obtain ds where "calls_of (snd (f x t)) = calls_of t @ ds" "length ds \<le> n" "\<forall>c \<in> set ds. call_request c = nid"
      using assms(2)[of x] unfolding makes_def by blast
    then show ?thesis using p cs Inr assms(3) by (intro exI[of _ "cs @ ds"]) (auto simp: bnd_def)
  qed
qed

lemmas makes_then = makes_bnd[where n = 0 and k = m and m = m for m, simplified]
lemmas makes_quiet = makes_bnd[where m = 0 and n = n and k = n for n, simplified]

lemma makes_call: "call_request c = nid \<Longrightarrow> makes 1 nid (call net c)"
  by (auto simp: makes_def call_def split: prod.splits)

lemma makes_option: "makes n nid m \<Longrightarrow> (\<And>x. makes n nid (f x)) \<Longrightarrow> makes n nid (case z of None \<Rightarrow> m | Some x \<Rightarrow> f x)"
  by (cases z) simp_all

lemma makes_http_post: "call_request c = nid \<Longrightarrow> makes 1 nid (http_post net c)"
  unfolding http_post_def by (rule makes_then[OF makes_call]) (auto intro: makes_basic split: answer.splits)

lemma makes_deliver: "makes 1 (cr_request_id r) (deliver_action py net env r run)"
proof -
  have dbt: "makes 1 (cr_request_id r) (run_dbt_rerun py net r run)"
    unfolding run_dbt_rerun_def typed_scope_def Let_def
    by (rule makes_quiet[OF makes_basic(4)], rule makes_then[OF makes_call]) (auto intro: makes_basic split: answer.splits)
  have timeout: "makes 0 nid (timeout_seconds net env)" for nid
    by (auto simp: timeout_seconds_def intro: makes_basic split: option.splits)
  have gh: "makes 1 (cr_request_id r) (create_github_ticket py net env r run)"
    unfolding create_github_ticket_def typed_scope_def Let_def
    by (rule makes_quiet[OF makes_basic(4)], rule makes_quiet[OF timeout], rule makes_then[OF makes_http_post])
      (auto intro!: makes_quiet[OF makes_basic(3)] makes_basic makes_option)
  have dc: "makes 1 (cr_request_id r) (post_discord_notification py net env r run)"
    unfolding post_discord_notification_def typed_scope_def Let_def
    by (rule makes_quiet[OF makes_basic(4)], rule makes_quiet[OF makes_basic(3)], rule makes_quiet[OF timeout], rule makes_then[OF makes_http_post])
      (auto intro!: makes_quiet[OF makes_basic(3)] makes_basic makes_option)
  show ?thesis using dbt gh dc by (simp add: deliver_action_def)
qed

text \<open>The control store along an execution.\<close>

definition store_evolves :: "'w machine \<Rightarrow> 'w machine \<Rightarrow> bool" where
  "store_evolves s t \<longleftrightarrow> control_evolves (fst s) (fst t)"

interpretation sev: evolution store_evolves
  by unfold_locales (auto simp: store_evolves_def intro: cev.refl cev.trans)

lemma sev_on_store: "evolves control_evolves m \<Longrightarrow> evolves store_evolves (on_store m)"
  by (auto simp: evolves_def store_evolves_def on_store_def split: sum.splits prod.splits) (metis snd_conv)+

lemma sev_call: "evolves store_evolves (call net c)"
  by (auto simp: evolves_def store_evolves_def call_def cev.refl split: prod.splits)

lemma sev_deliver: "evolves store_evolves (deliver_action py net env r run)"
proof -
  have http: "evolves store_evolves (http_post net c)" for c
    unfolding http_post_def by (rule sev.bnd[OF sev_call]) (auto intro: sev.rules split: answer.splits)
  have timeout: "evolves store_evolves (timeout_seconds net env)"
    by (auto simp: timeout_seconds_def intro: sev.rules split: option.splits)
  show ?thesis
    unfolding deliver_action_def run_dbt_rerun_def create_github_ticket_def post_discord_notification_def typed_scope_def Let_def
    by (intro sev.if_prog sev.bnd sev.lift sev_call http timeout)
      (auto intro!: sev.rules timeout http split: answer.splits)
qed

lemma sev_delivery_failed: "evolves store_evolves (delivery_failed py rid run r e)"
  unfolding delivery_failed_def
  by (cases e) (auto intro!: sev.rules sev_on_store cev_record_execution_outcome)

lemma on_store_Inr: "on_store m (c, w) = (Inr x, t) \<longleftrightarrow> (\<exists>c'. m c = (Inr x, c') \<and> t = (c', w))"
  by (auto simp: on_store_def split: prod.splits sum.splits)

lemma on_store_calls: "calls_of (snd (on_store m s)) = calls_of s"
  by (cases s) (auto simp: on_store_def split: prod.splits sum.splits)

definition claimed_row :: "control_row \<Rightarrow> bool" where
  "claimed_row r \<longleftrightarrow> cr_run_id r \<noteq> None \<and> \<not> legacy r \<and> cr_action_type r \<noteq> ''recover_partition''"

definition call_sound :: "string \<Rightarrow> 'w machine \<Rightarrow> bool" where
  "call_sound nid m \<longleftrightarrow> ids_distinct (fst m) \<and> calls_for nid m \<le> 1 \<and>
     (0 < calls_for nid m \<longrightarrow> (\<exists>r. row_of (fst m) nid = Some r \<and> claimed_row r))"

lemma claimed_row_star:
  assumes "row_step\<^sup>*\<^sup>* r r'" and "claimed_row r"
  shows "claimed_row r'"
  using row_star_identity[OF assms(1)] row_star_claimed[OF assms(1)] assms(2)
  by (fastforce simp: claimed_row_def identity_of_def legacy_def)

lemma call_sound_evolves:
  assumes "call_sound nid s" and "store_evolves s t" and "calls_of t = calls_of s"
  shows "call_sound nid t"
  using assms row_of_evolves[of "fst s" "fst t" nid] claimed_row_star
  by (fastforce simp: call_sound_def store_evolves_def control_evolves_def calls_for_def)

text \<open>The part of an execution after its claim: at most one call, all for the claimed request.\<close>

abbreviation after_claim ::
    "pydantic \<Rightarrow> 'w network \<Rightarrow> environment \<Rightarrow> string \<Rightarrow> string \<Rightarrow> control_row \<Rightarrow> ('w, action_result) run" where
  "after_claim py net env rid run claimed \<equiv>
     bnd (handle (deliver_action py net env claimed run) (delivery_failed py rid run claimed)) (\<lambda>result.
     bnd (on_store (record_execution_outcome py rid run (ar_status result) (cr_version claimed) [])) (\<lambda>_. ret result))"

lemma makes_handle:
  assumes "makes m nid p" and "\<And>e. makes 0 nid (h e)"
  shows "makes m nid (handle p h)"
  unfolding makes_def
proof
  fix s
  obtain r t where p: "p s = (r, t)" by (cases "p s")
  obtain cs where cs: "calls_of t = calls_of s @ cs" "length cs \<le> m" "\<forall>c \<in> set cs. call_request c = nid"
    using assms(1) p unfolding makes_def by (metis snd_conv)
  have "calls_of (snd (h e t)) = calls_of t" for e
    using assms(2)[of e, unfolded makes_def, rule_format, of t] by auto
  then show "\<exists>cs. calls_of (snd (handle p h s)) = calls_of s @ cs \<and> length cs \<le> m \<and> (\<forall>c \<in> set cs. call_request c = nid)"
    using p cs by (cases r) (auto simp: handle_def)
qed

lemma makes_after_claim: "makes 1 (cr_request_id r) (after_claim py net env rid run r)"
proof -
  have "makes 0 nid (delivery_failed py rid run r e)" for nid e
    unfolding delivery_failed_def by (cases e) (auto intro!: makes_quiet[OF makes_basic(5)] makes_basic)
  then show ?thesis
    by (intro makes_then[OF makes_handle[OF makes_deliver]] makes_quiet[OF makes_basic(5)] makes_basic)
qed

lemma sev_after_claim: "evolves store_evolves (after_claim py net env rid run r)"
  by (intro sev.bnd sev.handle sev_deliver sev_delivery_failed sev_on_store cev_record_execution_outcome sev.ret)

lemma call_sound_after_claim:
  assumes ids: "ids_distinct (fst s)" and row: "row_of (fst s) (cr_request_id r) = Some r" "claimed_row r"
    and sound: "call_sound nid s" and zero: "nid = cr_request_id r \<Longrightarrow> calls_for nid s = 0"
    and run: "after_claim py net env rid run r s = (x, t)"
  shows "call_sound nid t"
proof -
  have ev: "store_evolves s t" using evolvesD[OF sev_after_claim run] .
  obtain cs where cs: "calls_of t = calls_of s @ cs" "length cs \<le> 1" "\<forall>c \<in> set cs. call_request c = cr_request_id r"
    using makes_after_claim[where r = r and py = py and net = net and env = env and rid = rid and run = run,
      unfolded makes_def, rule_format, of s] unfolding run by auto
  show ?thesis
  proof (cases "nid = cr_request_id r")
    case True
    have "ids_distinct (fst t)" using ev ids by (simp add: store_evolves_def control_evolves_def)
    moreover obtain r' where "row_of (fst t) nid = Some r'" and "claimed_row r'"
      using row_of_evolves[OF _ ids row(1)] ev claimed_row_star row(2) True unfolding store_evolves_def by metis
    moreover have "length (filter (\<lambda>c. call_request c = nid) cs) \<le> 1"
      using cs(2) length_filter_le order_trans by metis
    ultimately show ?thesis
      using zero[OF True] cs(1) by (auto simp: call_sound_def calls_for_def)
  next
    case False
    then have "filter (\<lambda>c. call_request c = nid) cs = []"
      using cs(3) by (auto simp: filter_empty_conv)
    then have "calls_for nid t = calls_for nid s" by (simp add: calls_for_def cs(1))
    then show ?thesis
      using sound ev row_of_evolves[of "fst s" "fst t" nid] claimed_row_star
      by (fastforce simp: call_sound_def store_evolves_def control_evolves_def)
  qed
qed

lemma call_sound_on_store:
  assumes "call_sound nid s" and "evolves control_evolves m" and "on_store m s = (x, t)"
  shows "call_sound nid t"
  using call_sound_evolves[OF assms(1) evolvesD[OF sev_on_store[OF assms(2)] assms(3)]] on_store_calls[of m s] assms(3)
  by simp

lemma cev_read_latest: "evolves control_evolves (read_latest rid)"
  unfolding read_latest_def by (intro cev.from_sum_bnd cev.in_transaction cev.latest)

lemma call_sound_execute:
  assumes sound: "call_sound nid s" and run: "execute_approved_action py net env rid run s = (x, t)"
  shows "call_sound nid t"
proof -
  let ?k = "\<lambda>row. case row of
       None \<Rightarrow> throw Request_Missing
     | Some current \<Rightarrow>
         bnd (require (cr_status current = Approved) Not_Approved) (\<lambda>_.
         bnd (require (cr_action_type current \<noteq> ''recover_partition'') Recovery_Needs_Executor) (\<lambda>_.
         bnd (lift (\<lambda>_. action_readiness py current env)) (\<lambda>(provider, ready).
         bnd (require ready Provider_Not_Ready) (\<lambda>_.
         bnd (on_store (claim py rid run (cr_version current))) (after_claim py net env rid run)))))"
  obtain rr u where rd: "on_store (read_latest rid) s = (rr, u)" by (cases "on_store (read_latest rid) s")
  have u: "call_sound nid u" by (rule call_sound_on_store[OF sound cev_read_latest rd])
  show ?thesis
  proof (cases rr)
    case (Inl e)
    then have "t = u" using run rd by (simp add: execute_approved_action_def bnd_def)
    then show ?thesis using u by simp
  next
    case (Inr row)
    have k: "?k row u = (x, t)" using run rd Inr by (simp add: execute_approved_action_def bnd_def)
    have rowc: "row = row_of (fst u) (strip rid)"
    proof -
      obtain c w where s: "s = (c, w)" by (cases s)
      then have "read_latest rid c = (Inr row, fst u)" using rd Inr by (auto simp: on_store_Inr)
      then have "row = row_of c (strip rid) \<and> fst u = fst (start c)"
        by (auto simp: read_latest_def from_sum_Inr identifier_of_Inr latest_def select_one_def row_of_def dest!: in_transaction_Inr)
      then show ?thesis by simp
    qed
    show ?thesis
    proof (cases "\<exists>cur. row = Some cur \<and> cr_action_type cur \<noteq> ''recover_partition'' \<and>
        (\<exists>c1. on_store (claim py rid run (cr_version cur)) u = c1 \<and>
           bnd (\<lambda>_. c1) (after_claim py net env rid run) u = (x, t))")
      case False
      then have "t = u"
        using k by (auto simp: bnd_def[of "require _ _"] bnd_def[of "lift _"] bnd_def[of "on_store _"] bnd_def[of "\<lambda>_. _ _"]
            split: option.splits if_splits sum.splits prod.splits)
      then show ?thesis using u by simp
    next
      case True
      then obtain cur where cur: "row_of (fst u) (strip rid) = Some cur" "cr_action_type cur \<noteq> ''recover_partition''"
        and go: "bnd (on_store (claim py rid run (cr_version cur))) (after_claim py net env rid run) u = (x, t)"
        using rowc by (auto simp: bnd_def)
      obtain cl v where cl: "on_store (claim py rid run (cr_version cur)) u = (cl, v)"
        by (cases "on_store (claim py rid run (cr_version cur)) u")
      have v: "call_sound nid v" by (rule call_sound_on_store[OF u cev_claim cl])
      show ?thesis
      proof (cases cl)
        case (Inl e)
        then have "t = v" using go cl by (simp add: bnd_def)
        then show ?thesis using v by simp
      next
        case (Inr r)
        have after: "after_claim py net env rid run r v = (x, t)" using go cl Inr by (simp add: bnd_def)
        have ids: "ids_distinct (fst u)" using u by (simp add: call_sound_def)
        obtain c w where uw: "u = (c, w)" by (cases u)
        have claim: "claim py rid run (cr_version cur) (fst u) = (Inr r, fst v)" and same: "calls_of v = calls_of u"
          using cl Inr uw by (auto simp: on_store_Inr)
        obtain old where old: "row_of (fst u) (strip rid) = Some old" and new: "row_of (fst v) (strip rid) = Some r"
          and none: "cr_run_id old = None" and leg: "\<not> legacy old" and runr: "cr_run_id r = Some (strip run)"
          using claim_Inr[OF claim ids] by blast
        have "row_step\<^sup>*\<^sup>* old r"
          using row_of_evolves[OF evolvesD[OF cev_claim claim] ids old] new by auto
        then have "identity_of r = identity_of old" by (simp add: row_star_identity)
        then have rid: "cr_request_id r = strip rid" and "claimed_row r"
          using old cur leg runr by (auto simp: claimed_row_def identity_of_def legacy_def row_of_def dest: find_SomeD)
        moreover have "calls_for nid v = 0" if "nid = cr_request_id r"
          using u that rid old none same by (auto simp: call_sound_def calls_for_def claimed_row_def)
        ultimately show ?thesis
          using call_sound_after_claim[OF _ _ _ v _ after] new v by (simp add: call_sound_def)
      qed
    qed
  qed
qed

section \<open>Any interleaving\<close>

text \<open>Steps of the whole system: a store operation, or an execution attempt under some environment.\<close>

datatype machine_step = Store_Step control_op | Execute environment string string

definition run_step ::
    "pydantic \<Rightarrow> (string \<Rightarrow> nat list) \<Rightarrow> 'w network \<Rightarrow> machine_step \<Rightarrow> 'w machine \<Rightarrow> 'w machine" where
  "run_step py sha net st m = (case st of
      Store_Step op \<Rightarrow> (run_op py sha op (fst m), snd m)
    | Execute env rid run \<Rightarrow> snd (execute_approved_action py net env rid run m))"

definition run_steps ::
    "pydantic \<Rightarrow> (string \<Rightarrow> nat list) \<Rightarrow> 'w network \<Rightarrow> machine_step list \<Rightarrow> 'w machine \<Rightarrow> 'w machine" where
  "run_steps py sha net steps m = fold (run_step py sha net) steps m"

lemma run_steps_call_sound:
  "call_sound nid m \<Longrightarrow> call_sound nid (run_steps py sha net steps m)"
proof -
  have "call_sound nid (run_step py sha net st m)" if "call_sound nid m" for st m
  proof (cases st)
    case (Store_Step op)
    show ?thesis
      using call_sound_evolves[OF that, of "(run_op py sha op (fst m), snd m)"] run_op_evolves[of "fst m" py sha op] Store_Step
      by (simp add: run_step_def store_evolves_def)
  next
    case (Execute env rid run)
    show ?thesis
      using call_sound_execute[OF that, of py net env rid run] Execute
      by (cases "execute_approved_action py net env rid run m") (simp add: run_step_def)
  qed
  then show "call_sound nid m \<Longrightarrow> call_sound nid (run_steps py sha net steps m)"
    unfolding run_steps_def by (induction steps arbitrary: m) auto
qed

lemma run_steps_sound:
  assumes "ids_distinct (fst m)" and "\<forall>r \<in> set (requests (fst m)). sound_row r"
  shows "ids_distinct (fst (run_steps py sha net steps m)) \<and> (\<forall>r \<in> set (requests (fst (run_steps py sha net steps m))). sound_row r)"
proof -
  have exec: "evolves store_evolves (execute_approved_action py net env rid run)" for env rid run
    unfolding execute_approved_action_def
    by (intro sev.bnd sev.case_option sev.throw sev.require sev_on_store cev_read_latest)
      (auto intro!: sev.bnd sev.lift sev.require sev_on_store cev_claim sev.handle sev_deliver sev_delivery_failed
        cev_record_execution_outcome sev.ret)
  have step: "store_evolves m (run_step py sha net st m)" for st and m :: "'a machine"
    using evolvesD[OF exec prod.collapse[symmetric]] run_op_evolves[of "fst m" py sha]
    by (cases st) (simp_all add: run_step_def store_evolves_def)
  have "store_evolves m (fold (run_step py sha net) steps m)" for m :: "'a machine"
  proof (induction steps arbitrary: m)
    case (Cons st steps)
    then show ?case using sev.trans[OF step Cons.IH] by simp
  qed (simp add: sev.refl)
  then have "store_evolves m (run_steps py sha net steps m)"
    by (simp add: run_steps_def)
  then show ?thesis
    using assms rows_evolve_invariant[of row_step fresh_row _ _ sound_row, OF _ _ fresh_row_sound row_step_sound]
    by (auto simp: store_evolves_def control_evolves_def)
qed

definition quiet_world :: "'w \<Rightarrow> 'w outside" where
  "quiet_world w = \<lparr>calls = [], world = w\<rparr>"

text \<open>
  C23. No action is delivered twice, and none without a second person. Start from an empty store
  and let store operations and execution attempts come in any order, under any environments, with
  providers that answer, fail or hang and commits that get lost: for every request at most one
  external call is ever made, and only for a request that is approved by somebody other than its
  requester, that is no legacy import and no recovery.
\<close>

theorem external_effects_at_most_once:
  "let m = run_steps py sha net steps (empty_control incs sched, quiet_world w)
   in calls_for nid m \<le> 1 \<and>
    (0 < calls_for nid m \<longrightarrow>
      (\<exists>r. row_of (fst m) nid = Some r \<and> cr_status r = Approved \<and> \<not> legacy r \<and>
         cr_action_type r \<noteq> ''recover_partition'' \<and>
         (\<exists>who. cr_decided_by r = Some who \<and> lower who \<noteq> lower (cr_requested_by r))))"
proof -
  let ?m = "run_steps py sha net steps (empty_control incs sched, quiet_world w)"
  have "call_sound nid (empty_control incs sched, quiet_world w)"
    using empty_control_sound(1) by (simp add: call_sound_def calls_for_def quiet_world_def)
  then have cs: "call_sound nid ?m" by (rule run_steps_call_sound)
  have sound: "\<forall>r \<in> set (requests (fst ?m)). sound_row r"
    using run_steps_sound[of "(empty_control incs sched, quiet_world w)"] empty_control_sound by auto
  show ?thesis
    unfolding Let_def
  proof (intro conjI impI)
    show "calls_for nid ?m \<le> 1" using cs by (simp add: call_sound_def)
    assume "0 < calls_for nid ?m"
    then obtain r where r: "row_of (fst ?m) nid = Some r" "claimed_row r" using cs by (auto simp: call_sound_def)
    then have "sound_row r" using sound by (auto simp: row_of_def dest: find_SomeD)
    then show "\<exists>r. row_of (fst ?m) nid = Some r \<and> cr_status r = Approved \<and> \<not> legacy r \<and>
         cr_action_type r \<noteq> ''recover_partition'' \<and>
         (\<exists>who. cr_decided_by r = Some who \<and> lower who \<noteq> lower (cr_requested_by r))"
      using r by (auto simp: claimed_row_def sound_row_def row_checks_def)
  qed
qed

section \<open>The recorded outcome\<close>

lemma on_store_Inl: "on_store m (c, w) = (Inl e, t) \<longleftrightarrow> (\<exists>a c'. e = Store_Error a \<and> m c = (Inl a, c') \<and> t = (c', w))"
  by (auto simp: on_store_def split: prod.splits sum.splits)

lemma outcome_recorded:
  assumes "on_store (record_execution_outcome py rid run out v err) s = (Inr r, t)" and "ids_distinct (fst s)"
  shows "row_of (fst t) (strip rid) = Some r \<and> outcome_of out = Some (cr_execution r)"
proof -
  obtain c w where "s = (c, w)" by (cases s)
  then show ?thesis
    using assms outcome_Inr[of py rid run out v err c r "fst t"] by (auto simp: on_store_Inr)
qed

definition distinct_ids :: "'w machine \<Rightarrow> bool" where
  "distinct_ids s \<longleftrightarrow> ids_distinct (fst s)"

definition outcome_known :: "string \<Rightarrow> action_error \<Rightarrow> 'w machine \<Rightarrow> bool" where
  "outcome_known rid e t \<longleftrightarrow> (case e of
      Delivery_Unknown \<Rightarrow> (\<exists>r. row_of (fst t) (strip rid) = Some r \<and> cr_execution r = Execution_Unknown)
    | Provider_Error _ \<Rightarrow> (\<exists>r. row_of (fst t) (strip rid) = Some r \<and> cr_execution r = Failed)
    | _ \<Rightarrow> True)"

lemma triple_store:
  assumes "evolves control_evolves m"
  shows "triple distinct_ids (on_store m) (\<lambda>_. distinct_ids) (\<lambda>e t. outcome_known rid e t)"
proof (rule tripleI)
  fix s x t assume "distinct_ids s" and "on_store m s = (Inr x, t)"
  then show "distinct_ids t"
    using evolvesD[OF sev_on_store[OF assms]] by (fastforce simp: store_evolves_def control_evolves_def distinct_ids_def)
next
  fix s e t assume "on_store m s = (Inl e, t)"
  then show "outcome_known rid e t"
    by (cases s) (auto simp: on_store_Inl outcome_known_def)
qed

lemma triple_deliver:
  "triple distinct_ids (deliver_action py net env r run) (\<lambda>_. distinct_ids) (\<lambda>_. distinct_ids)"
  using evolvesD[OF sev_deliver]
  by (intro tripleI) (fastforce simp: store_evolves_def control_evolves_def distinct_ids_def)+

lemma triple_record:
  "triple distinct_ids (on_store (record_execution_outcome py rid run out v err))
     (\<lambda>_ t. \<exists>r. row_of (fst t) (strip rid) = Some r \<and> outcome_of out = Some (cr_execution r)) (outcome_known rid)"
proof (rule tripleI)
  fix s x t assume "distinct_ids s" and "on_store (record_execution_outcome py rid run out v err) s = (Inr x, t)"
  then show "\<exists>r. row_of (fst t) (strip rid) = Some r \<and> outcome_of out = Some (cr_execution r)"
    using outcome_recorded by (fastforce simp: distinct_ids_def)
next
  fix s e t assume "on_store (record_execution_outcome py rid run out v err) s = (Inl e, t)"
  then show "outcome_known rid e t"
    by (cases s) (auto simp: on_store_Inl outcome_known_def)
qed

lemma triple_delivery_failed:
  "triple distinct_ids (delivery_failed py rid run r e) (\<lambda>_. distinct_ids) (outcome_known rid)"
proof (cases e)
  case Delivery_Unknown
  show ?thesis
    unfolding delivery_failed_def Delivery_Unknown action_error.case
    by (rule triple_bnd[OF triple_record], rule triple_throw) (auto simp: outcome_known_def outcome_of_def)
next
  case (Provider_Error msg)
  show ?thesis
    unfolding delivery_failed_def Provider_Error action_error.case
    by (rule triple_bnd[OF triple_record], rule triple_throw) (auto simp: outcome_known_def outcome_of_def)
qed (auto simp: delivery_failed_def outcome_known_def intro!: triple_bnd[OF triple_record] triple_throw)

lemma triple_execute:
  "triple distinct_ids (execute_approved_action py net env rid run)
     (\<lambda>res t. \<exists>r. row_of (fst t) (strip rid) = Some r \<and> outcome_of (ar_status res) = Some (cr_execution r)) (outcome_known rid)"
proof -
  have after: "triple distinct_ids (after_claim py net env rid run r)
     (\<lambda>res t. \<exists>r. row_of (fst t) (strip rid) = Some r \<and> outcome_of (ar_status res) = Some (cr_execution r)) (outcome_known rid)" for r
    by (rule triple_bnd[OF triple_handle[OF triple_deliver triple_delivery_failed]], rule triple_bnd[OF triple_record], rule triple_ret) simp
  have pre: "triple distinct_ids (require b e) (\<lambda>_. distinct_ids) (outcome_known rid)"
    "triple distinct_ids (throw e) Q (outcome_known rid)"
    if "e \<notin> {Delivery_Unknown} \<union> range Provider_Error" for b e and Q :: "action_result \<Rightarrow> 'a machine \<Rightarrow> bool"
    using that by (auto simp: triple_def outcome_known_def split: action_error.splits)
  have ready: "triple distinct_ids (lift (\<lambda>_. action_readiness py cur env)) (\<lambda>_. distinct_ids) (outcome_known rid)" for cur
    by (auto simp: triple_def outcome_known_def action_readiness_def split: sum.splits if_splits)
  show ?thesis
    unfolding execute_approved_action_def
  proof (rule triple_bnd[OF triple_store[OF cev_read_latest]])
    fix row
    show "triple distinct_ids (case row of None \<Rightarrow> throw Request_Missing | Some current \<Rightarrow>
         bnd (require (cr_status current = Approved) Not_Approved) (\<lambda>_.
         bnd (require (cr_action_type current \<noteq> ''recover_partition'') Recovery_Needs_Executor) (\<lambda>_.
         bnd (lift (\<lambda>_. action_readiness py current env)) (\<lambda>(provider, ready).
         bnd (require ready Provider_Not_Ready) (\<lambda>_.
         bnd (on_store (claim py rid run (cr_version current))) (after_claim py net env rid run))))))
       (\<lambda>res t. \<exists>r. row_of (fst t) (strip rid) = Some r \<and> outcome_of (ar_status res) = Some (cr_execution r)) (outcome_known rid)"
      by (cases row) (auto intro!: pre triple_bnd[OF pre(1)] triple_bnd[OF ready] triple_bnd[OF triple_store[OF cev_claim] after])
  qed
qed

text \<open>
  C24. The caller's view agrees with the store: a returned result is recorded under its own status,
  an unconfirmed delivery leaves the request as unknown, so that nobody retries it, and any other
  provider error leaves it as failed.
\<close>

theorem execution_outcome_is_recorded:
  assumes "ids_distinct (fst s)" and "execute_approved_action py net env rid run s = (x, t)"
  shows "case x of
      Inr res \<Rightarrow> (\<exists>r. row_of (fst t) (strip rid) = Some r \<and> outcome_of (ar_status res) = Some (cr_execution r))
    | Inl Delivery_Unknown \<Rightarrow> (\<exists>r. row_of (fst t) (strip rid) = Some r \<and> cr_execution r = Execution_Unknown)
    | Inl (Provider_Error _) \<Rightarrow> (\<exists>r. row_of (fst t) (strip rid) = Some r \<and> cr_execution r = Failed)
    | _ \<Rightarrow> True"
proof (cases x)
  case (Inr res)
  then show ?thesis
    using triple_Inr[OF triple_execute, of s] assms by (simp add: distinct_ids_def)
next
  case (Inl e)
  then have "outcome_known rid e t"
    using triple_Inl[OF triple_execute, of s] assms by (simp add: distinct_ids_def)
  then show ?thesis
    unfolding Inl sum.case by (cases e) (simp_all add: outcome_known_def)
qed


end
