(* ===== verification/Approved_Actions_Instance.thy ===== *)
theory Approved_Actions_Instance
  imports Approved_Actions Approval_Instance
begin

text \<open>
  One approved dbt rerun, end to end: a request is created, approved by a second person and
  executed against a provider that accepts every trigger.
\<close>

definition trial_network :: "unit network" where
  "trial_network = \<lparr>respond = (\<lambda>c w. (Exit_Code 0, w)), read_float = (\<lambda>_. None), repr_text = (\<lambda>_. [])\<rparr>"

definition rerun_scope :: fields where
  "rerun_scope = [(''dt'', JStr ''2024-01-02''), (''run_tests'', JBool True)]"

definition rerun_steps :: "machine_step list" where
  "rerun_steps = [Store_Step (Op_Create ''rerun_dbt'' rerun_scope ''ana'' ''please'' 1),
     Store_Step (Op_Decide trial_id ''approve'' ''Bob'' 1 []), Execute Map.empty trial_id ''run-1'']"

lemma rerun_calls:
  "calls_for trial_id (run_steps trial_py trial_sha trial_network rerun_steps (empty_control [] [], quiet_world ())) = 1"
  by code_simp

lemma external_effects_at_most_once_witness:
  "let m = run_steps trial_py trial_sha trial_network rerun_steps (empty_control [] [], quiet_world ())
   in calls_for trial_id m = 1 \<and>
      (\<exists>r. row_of (fst m) trial_id = Some r \<and> cr_status r = Approved \<and>
         (\<exists>who. cr_decided_by r = Some who \<and> lower who \<noteq> lower (cr_requested_by r)))"
  using external_effects_at_most_once[of trial_py trial_sha trial_network rerun_steps "[]" "[]" "()" trial_id] rerun_calls
  unfolding Let_def by auto

definition rerun_row :: control_row where
  "rerun_row = (trial_row Approved 2 (Some ''Bob''))\<lparr>cr_action_type := ''rerun_dbt'', cr_scope := rerun_scope\<rparr>"

definition rerun_machine :: "unit machine" where
  "rerun_machine = (trial_control [rerun_row] [], quiet_world ())"

lemma rerun_dispatched:
  "succeeds_with (execute_approved_action trial_py trial_network Map.empty trial_id ''run-1'' rerun_machine)
     (\<lambda>res. ar_status res = ''dispatched'')"
  by code_simp

lemma execution_outcome_is_recorded_witness:
  "\<exists>res t r. execute_approved_action trial_py trial_network Map.empty trial_id ''run-1'' rerun_machine = (Inr res, t) \<and>
     row_of (fst t) (strip trial_id) = Some r \<and> cr_execution r = Dispatched"
proof -
  obtain res t where run: "execute_approved_action trial_py trial_network Map.empty trial_id ''run-1'' rerun_machine = (Inr res, t)"
    and res: "ar_status res = ''dispatched''"
    using rerun_dispatched by (rule succeeds_withE)
  have "ids_distinct (fst rerun_machine)" by code_simp
  then have "\<exists>r. row_of (fst t) (strip trial_id) = Some r \<and> outcome_of (ar_status res) = Some (cr_execution r)"
    using execution_outcome_is_recorded[OF _ run] by simp
  then show ?thesis using run res by (auto simp: outcome_of_def)
qed

end
