(* ===== verification/Contracts.thy ===== *)
theory Contracts
  imports Json
begin

text \<open>
  The contracts of the specialist agents, \<open>agent/specialists/contracts.py\<close>: tasks, results,
  handoff records and the supervisor's state, with the validators of their pydantic models. A
  validator takes a value of the field types and gives the normalised value or the refusal;
  the conversion of other types to them is pydantic's and is not modelled. UUIDs are texts and
  times are integers.

  Binary floats are the type parameter \<open>'f\<close>, with the operations of the language in the record
  \<open>pylib\<close>; nothing is assumed of their arithmetic. \<open>lib_json\<close> is the text that
  \<open>json.dumps(..., default=str)\<close> gives to a value that is not JSON (NaN, an infinity, an object).
\<close>

section \<open>Fallible computations without a state\<close>

definition check :: "bool \<Rightarrow> 'e \<Rightarrow> 'e + unit" where
  "check b e = (if b then Inr () else Inl e)"

definition and_then :: "'e + 'a \<Rightarrow> ('a \<Rightarrow> 'e + 'b) \<Rightarrow> 'e + 'b" where
  "and_then m f = (case m of Inl e \<Rightarrow> Inl e | Inr x \<Rightarrow> f x)"

fun try_map :: "('a \<Rightarrow> 'e + 'b) \<Rightarrow> 'a list \<Rightarrow> 'e + 'b list" where
  "try_map f [] = Inr []"
| "try_map f (x # xs) = and_then (f x) (\<lambda>y. and_then (try_map f xs) (\<lambda>ys. Inr (y # ys)))"

lemma check_Inr [simp]: "check b e = Inr u \<longleftrightarrow> b"
  by (simp add: check_def)

lemma check_Inl [simp]: "check b e = Inl e' \<longleftrightarrow> \<not> b \<and> e' = e"
  by (auto simp: check_def)

lemma check_True [simp]: "b \<Longrightarrow> check b e = Inr ()"
  by simp

lemma and_then_Inr [simp]: "and_then m f = Inr y \<longleftrightarrow> (\<exists>x. m = Inr x \<and> f x = Inr y)"
  by (cases m) (simp_all add: and_then_def)

lemma and_then_run [simp]: "and_then (Inr x) f = f x" "and_then (Inl e) f = Inl e"
  by (simp_all add: and_then_def)

lemma try_map_Inr: "try_map f xs = Inr ys \<longleftrightarrow> map f xs = map Inr ys"
  by (induction xs arbitrary: ys) (auto simp: Cons_eq_map_conv map_eq_Cons_conv)

section \<open>Data\<close>

record 'f pylib =
  lib_literal :: "string \<Rightarrow> 'f"
  lib_add :: "'f \<Rightarrow> 'f \<Rightarrow> 'f"
  lib_sub :: "'f \<Rightarrow> 'f \<Rightarrow> 'f"
  lib_mul :: "'f \<Rightarrow> 'f \<Rightarrow> 'f"
  lib_trunc :: "'f \<Rightarrow> int"
  lib_le :: "'f \<Rightarrow> 'f \<Rightarrow> bool"
  lib_less :: "'f \<Rightarrow> 'f \<Rightarrow> bool"
  lib_round8 :: "'f \<Rightarrow> 'f"
  lib_json :: "json \<Rightarrow> string"

definition lib_zero :: "'f pylib \<Rightarrow> 'f" where
  "lib_zero lib = lib_literal lib ''0.0''"

text \<open>\<open>sum\<close> of a sequence of floats, in Python 3.11: from the left, starting with 0.\<close>

definition float_sum :: "'f pylib \<Rightarrow> 'f list \<Rightarrow> 'f" where
  "float_sum lib xs = foldl (lib_add lib) (lib_zero lib) xs"

text \<open>The truth value of a float.\<close>

definition nonzero :: "'f pylib \<Rightarrow> 'f \<Rightarrow> bool" where
  "nonzero lib x \<longleftrightarrow> \<not> (lib_le lib x (lib_zero lib) \<and> lib_le lib (lib_zero lib) x)"

text \<open>\<open>ge=0.0, le=...\<close>\<close>

definition within :: "'f pylib \<Rightarrow> string \<Rightarrow> 'f \<Rightarrow> bool" where
  "within lib upper x \<longleftrightarrow> lib_le lib (lib_zero lib) x \<and> lib_le lib x (lib_literal lib upper)"

datatype refusal = Invalid string | Denied string | Unregistered string

datatype task_status =
  Task_Pending | Task_Running | Task_Success | Task_Partial | Task_Failed | Task_Blocked

definition terminal_status :: "task_status \<Rightarrow> bool" where
  "terminal_status st \<longleftrightarrow> st \<in> {Task_Success, Task_Partial, Task_Failed, Task_Blocked}"

datatype risk_tier = Low_Risk | Medium_Risk | High_Risk | Critical_Risk

datatype model_route = No_Llm_Fallback | Quickthink_Llm | Deepthink_Llm

primrec route_order :: "model_route \<Rightarrow> nat" where
  "route_order No_Llm_Fallback = 0"
| "route_order Quickthink_Llm = 1"
| "route_order Deepthink_Llm = 2"

datatype reference_kind =
  Ref_Alert | Ref_Metadata_Asset | Ref_Dbt_Manifest | Ref_S3_Artifact | Ref_Audit_Run
| Ref_Run_Context | Ref_Incident_Memory

record context_reference =
  cx_kind :: reference_kind
  cx_reference :: string
  cx_description :: string

record evidence_reference =
  ev_type :: string
  ev_tool :: string
  ev_reference :: string
  ev_summary :: string

record 'f task =
  tk_task_id :: string
  tk_parent :: string
  tk_specialist :: string
  tk_type :: string
  tk_risk :: risk_tier
  tk_tools :: "string list"
  tk_context :: "context_reference list"
  tk_route :: model_route
  tk_model_calls :: int
  tk_tokens :: int
  tk_cost :: 'f
  tk_timeout :: int
  tk_requester :: string
  tk_alert_key :: string
  tk_payload :: fields
  tk_created_at :: int

record 'f result =
  rs_task_id :: string
  rs_parent :: string
  rs_specialist :: string
  rs_type :: string
  rs_status :: task_status
  rs_evidence :: "evidence_reference list"
  rs_output :: fields
  rs_confidence :: 'f
  rs_route :: model_route
  rs_model_calls :: int
  rs_tokens :: int
  rs_cost :: 'f
  rs_duration :: int
  rs_errors :: "string list"
  rs_next_step :: string
  rs_needs_approval :: bool
  rs_completed_at :: int

record handoff =
  ho_task_id :: string
  ho_specialist :: string
  ho_type :: string
  ho_status :: task_status
  ho_started_at :: int
  ho_completed_at :: "int option"
  ho_duration :: "int option"
  ho_retries :: int
  ho_error :: string

datatype approval_need = Not_Required | Is_Required | Is_Pending | Is_Approved | Is_Rejected

record 'f supervisor =
  su_parent :: string
  su_active :: "'f task option"
  su_handoffs :: "handoff list"
  su_results :: "'f result list"
  su_context_events :: "string list"
  su_memories :: "string list"
  su_approval :: approval_need
  su_max_handoffs :: int
  su_max_retries :: int
  su_max_calls :: int
  su_tokens :: int
  su_cost :: 'f
  su_latency :: int
  su_errors :: "string list"
  su_final :: string

section \<open>Payloads\<close>

definition FORBIDDEN_CONTEXT_KEYS :: "string list" where
  "FORBIDDEN_CONTEXT_KEYS = [''api_key'', ''api_token'', ''authorization'', ''credential'', ''credentials'',
     ''password'', ''secret'', ''token'']"

definition MAX_CONTEXT_PAYLOAD_BYTES :: nat where
  "MAX_CONTEXT_PAYLOAD_BYTES = 32000"

definition forbidden_key :: "string \<Rightarrow> bool" where
  "forbidden_key key \<longleftrightarrow> lower (strip key) \<in> set FORBIDDEN_CONTEXT_KEYS"

fun find_forbidden_context_key :: "string \<Rightarrow> json \<Rightarrow> string option"
  and find_forbidden_items :: "string \<Rightarrow> nat \<Rightarrow> json list \<Rightarrow> string option"
  and find_forbidden_fields :: "string \<Rightarrow> fields \<Rightarrow> string option" where
  "find_forbidden_context_key path (JObj kvs) = find_forbidden_fields path kvs"
| "find_forbidden_context_key path (JArr xs) = find_forbidden_items path 0 xs"
| "find_forbidden_context_key path _ = None"
| "find_forbidden_items path i [] = None"
| "find_forbidden_items path i (x # xs) =
     (case find_forbidden_context_key (path @ ''['' @ nat_str i @ '']'') x of
        Some found \<Rightarrow> Some found
      | None \<Rightarrow> find_forbidden_items path (Suc i) xs)"
| "find_forbidden_fields path [] = None"
| "find_forbidden_fields path ((k, v) # kvs) =
     (let current_path = path @ ''.'' @ lower (strip k)
      in if lower (strip k) \<in> set FORBIDDEN_CONTEXT_KEYS then Some current_path
         else case find_forbidden_context_key current_path v of
             Some found \<Rightarrow> Some found
           | None \<Rightarrow> find_forbidden_fields path kvs)"

text \<open>\<open>json.dumps(payload, default=str, ensure_ascii=True)\<close>, with its default separators.\<close>

fun spaced :: "(json \<Rightarrow> string) \<Rightarrow> json \<Rightarrow> string"
  and spaced_items :: "(json \<Rightarrow> string) \<Rightarrow> json list \<Rightarrow> string"
  and spaced_fields :: "(json \<Rightarrow> string) \<Rightarrow> fields \<Rightarrow> string" where
  "spaced txt JNull = ''null''"
| "spaced txt (JBool b) = (if b then ''true'' else ''false'')"
| "spaced txt (JInt i) = int_str i"
| "spaced txt (JReal r) = r"
| "spaced txt (JStr s) = json_string s"
| "spaced txt (JArr xs) = ''['' @ spaced_items txt xs @ '']''"
| "spaced txt (JObj kvs) = ''{'' @ spaced_fields txt kvs @ ''}''"
| "spaced txt JNon_Finite = txt JNon_Finite"
| "spaced txt JOpaque = txt JOpaque"
| "spaced_items txt [] = []"
| "spaced_items txt (x # xs) = spaced txt x @ (if xs = [] then [] else '', '' @ spaced_items txt xs)"
| "spaced_fields txt [] = []"
| "spaced_fields txt ((k, v) # kvs) =
     json_string k @ '': '' @ spaced txt v @ (if kvs = [] then [] else '', '' @ spaced_fields txt kvs)"

definition validate_bounded_payload :: "'f pylib \<Rightarrow> fields \<Rightarrow> string \<Rightarrow> refusal + fields" where
  "validate_bounded_payload lib payload field_name =
     (case find_forbidden_context_key field_name (JObj payload) of
        Some path \<Rightarrow> Inl (Invalid path)
      | None \<Rightarrow>
          if MAX_CONTEXT_PAYLOAD_BYTES < length (spaced (lib_json lib) (JObj payload)) then Inl (Invalid field_name)
          else Inr payload)"

section \<open>Tasks\<close>

definition lower_letter :: "char \<Rightarrow> bool" where
  "lower_letter c \<longleftrightarrow> (let n = (of_char c :: nat) in 97 \<le> n \<and> n \<le> 122)"

definition contract_char :: "char \<Rightarrow> bool" where
  "contract_char c \<longleftrightarrow> lower_letter c \<or> (let n = (of_char c :: nat) in 48 \<le> n \<and> n \<le> 57) \<or> c = CHR ''_''"

text \<open>\<open>SAFE_CONTRACT_NAME_PATTERN\<close>\<close>

definition safe_contract_name :: "string \<Rightarrow> bool" where
  "safe_contract_name s \<longleftrightarrow> (case s of [] \<Rightarrow> False
      | c # cs \<Rightarrow> lower_letter c \<and> 2 \<le> length cs \<and> length cs \<le> 79 \<and> list_all contract_char cs)"

definition sized :: "nat \<Rightarrow> nat \<Rightarrow> 'a list \<Rightarrow> string \<Rightarrow> refusal + 'a list" where
  "sized lo hi xs field_name = (if lo \<le> length xs \<and> length xs \<le> hi then Inr xs else Inl (Invalid field_name))"

definition ranged :: "int \<Rightarrow> int \<Rightarrow> int \<Rightarrow> string \<Rightarrow> refusal + unit" where
  "ranged lo hi i field_name = check (lo \<le> i \<and> i \<le> hi) (Invalid field_name)"

lemma sized_Inr: "sized lo hi xs f = Inr ys \<longleftrightarrow> ys = xs \<and> lo \<le> length xs \<and> length xs \<le> hi"
  by (auto simp: sized_def)

lemma ranged_Inr: "ranged lo hi n f = Inr u \<longleftrightarrow> lo \<le> n \<and> n \<le> hi"
  by (auto simp: ranged_def)

definition validate_contract_name :: "string \<Rightarrow> string \<Rightarrow> refusal + string" where
  "validate_contract_name s field_name =
     and_then (sized 3 80 s field_name) (\<lambda>_.
     let normalized = lower (strip s)
     in and_then (check (safe_contract_name normalized) (Invalid field_name)) (\<lambda>_. Inr normalized))"

definition single_line :: "string \<Rightarrow> bool" where
  "single_line s \<longleftrightarrow> CHR 0x0A \<notin> set s \<and> CHR 0x0D \<notin> set s"

definition validate_context_reference :: "context_reference \<Rightarrow> refusal + context_reference" where
  "validate_context_reference c =
     and_then (sized 1 2048 (cx_reference c) ''reference'') (\<lambda>_.
     and_then (sized 0 500 (cx_description c) ''description'') (\<lambda>_.
     and_then (check (single_line (strip (cx_reference c))) (Invalid ''reference'')) (\<lambda>_.
     and_then (check (single_line (strip (cx_description c))) (Invalid ''description'')) (\<lambda>_.
     Inr (c\<lparr>cx_reference := strip (cx_reference c), cx_description := strip (cx_description c)\<rparr>)))))"

definition validate_evidence_reference :: "evidence_reference \<Rightarrow> refusal + evidence_reference" where
  "validate_evidence_reference e =
     and_then (sized 1 80 (ev_type e) ''evidence_type'') (\<lambda>_.
     and_then (sized 1 80 (ev_tool e) ''source_tool'') (\<lambda>_.
     and_then (sized 1 2048 (ev_reference e) ''reference'') (\<lambda>_.
     and_then (sized 1 1000 (ev_summary e) ''summary'') (\<lambda>_. Inr e))))"

definition validate_allowed_tools :: "string list \<Rightarrow> refusal + string list" where
  "validate_allowed_tools tools =
     and_then (sized 1 12 tools ''allowed_tools'') (\<lambda>_.
     let normalized = map (\<lambda>t. lower (strip t)) tools
     in and_then (check (list_all safe_contract_name normalized) (Invalid ''allowed_tools'')) (\<lambda>_.
        and_then (check (distinct normalized) (Invalid ''allowed_tools'')) (\<lambda>_. Inr normalized)))"

text \<open>\<open>validate_route_and_context_policy\<close>, the part about routes and budgets.\<close>

definition route_policy :: "'f pylib \<Rightarrow> 'f task \<Rightarrow> bool" where
  "route_policy lib t \<longleftrightarrow>
     (if tk_route t = No_Llm_Fallback
      then \<not> (tk_model_calls t \<noteq> 0 \<or> tk_tokens t \<noteq> 0 \<or> nonzero lib (tk_cost t))
      else tk_model_calls t \<noteq> 0 \<and> tk_tokens t \<noteq> 0)"

definition validate_task :: "'f pylib \<Rightarrow> 'f task \<Rightarrow> refusal + 'f task" where
  "validate_task lib t =
     and_then (validate_contract_name (tk_specialist t) ''specialist_name'') (\<lambda>specialist.
     and_then (validate_contract_name (tk_type t) ''task_type'') (\<lambda>task_type.
     and_then (validate_allowed_tools (tk_tools t)) (\<lambda>tools.
     and_then (sized 0 20 (tk_context t) ''context_references'') (\<lambda>_.
     and_then (try_map validate_context_reference (tk_context t)) (\<lambda>context.
     and_then (ranged 0 3 (tk_model_calls t) ''model_call_budget'') (\<lambda>_.
     and_then (ranged 0 16384 (tk_tokens t) ''token_budget'') (\<lambda>_.
     and_then (check (within lib ''0.05'' (tk_cost t)) (Invalid ''estimated_cost_budget_usd'')) (\<lambda>_.
     and_then (ranged 1 300 (tk_timeout t) ''timeout_seconds'') (\<lambda>_.
     and_then (sized 1 100 (tk_requester t) ''requester'') (\<lambda>_.
     and_then (sized 0 500 (tk_alert_key t) ''alert_key'') (\<lambda>_.
     let task = t\<lparr>tk_specialist := specialist, tk_type := task_type, tk_tools := tools, tk_context := context,
                  tk_requester := strip (tk_requester t), tk_alert_key := strip (tk_alert_key t)\<rparr>
     in and_then (check (route_policy lib task) (Invalid ''model_route'')) (\<lambda>_.
        and_then (validate_bounded_payload lib (tk_payload t) ''input_payload'') (\<lambda>_. Inr task)))))))))))))"

section \<open>Results\<close>

fun validate_result_errors :: "string list \<Rightarrow> string list \<Rightarrow> refusal + string list" where
  "validate_result_errors normalized_errors [] = Inr normalized_errors"
| "validate_result_errors normalized_errors (e # es) =
     (let normalized = strip e
      in if normalized = [] \<or> \<not> single_line normalized \<or> 2000 < length normalized \<or> normalized \<in> set normalized_errors
         then Inl (Invalid ''errors'')
         else validate_result_errors (normalized_errors @ [normalized]) es)"

text \<open>\<open>validate_terminal_result\<close>, the part before the payload.\<close>

definition terminal_result :: "'f pylib \<Rightarrow> 'f result \<Rightarrow> bool" where
  "terminal_result lib r \<longleftrightarrow>
     terminal_status (rs_status r) \<and>
     \<not> (rs_status r \<in> {Task_Failed, Task_Blocked} \<and> rs_errors r = []) \<and>
     \<not> (rs_status r = Task_Partial \<and> rs_errors r = []) \<and>
     \<not> (rs_status r = Task_Success \<and> rs_errors r \<noteq> []) \<and>
     \<not> (rs_status r \<in> {Task_Failed, Task_Blocked} \<and> nonzero lib (rs_confidence r)) \<and>
     \<not> (rs_route r = No_Llm_Fallback \<and> rs_model_calls r = 0 \<and> (rs_tokens r \<noteq> 0 \<or> nonzero lib (rs_cost r))) \<and>
     \<not> (rs_route r \<noteq> No_Llm_Fallback \<and> rs_model_calls r = 0)"

definition validate_result :: "'f pylib \<Rightarrow> 'f result \<Rightarrow> refusal + 'f result" where
  "validate_result lib r =
     and_then (validate_contract_name (rs_specialist r) ''specialist_name'') (\<lambda>specialist.
     and_then (validate_contract_name (rs_type r) ''task_type'') (\<lambda>task_type.
     and_then (sized 0 100 (rs_evidence r) ''evidence_references'') (\<lambda>_.
     and_then (try_map validate_evidence_reference (rs_evidence r)) (\<lambda>_.
     and_then (check (within lib ''1.0'' (rs_confidence r)) (Invalid ''confidence'')) (\<lambda>_.
     and_then (ranged 0 100 (rs_model_calls r) ''model_call_count'') (\<lambda>_.
     and_then (check (0 \<le> rs_tokens r) (Invalid ''token_usage'')) (\<lambda>_.
     and_then (check (lib_le lib (lib_zero lib) (rs_cost r)) (Invalid ''estimated_cost_usd'')) (\<lambda>_.
     and_then (check (0 \<le> rs_duration r) (Invalid ''duration_ms'')) (\<lambda>_.
     and_then (sized 0 20 (rs_errors r) ''errors'') (\<lambda>_.
     and_then (validate_result_errors [] (rs_errors r)) (\<lambda>errors.
     and_then (sized 0 2000 (rs_next_step r) ''recommended_next_step'') (\<lambda>_.
     let result = r\<lparr>rs_specialist := specialist, rs_type := task_type, rs_errors := errors\<rparr>
     in and_then (check (terminal_result lib result) (Invalid ''status'')) (\<lambda>_.
        and_then (validate_bounded_payload lib (rs_output r) ''structured_output'') (\<lambda>_. Inr result))))))))))))))"

section \<open>The supervisor's state\<close>

definition validate_handoff :: "handoff \<Rightarrow> refusal + handoff" where
  "validate_handoff h =
     and_then (check (case ho_duration h of None \<Rightarrow> True | Some d \<Rightarrow> 0 \<le> d) (Invalid ''duration_ms'')) (\<lambda>_.
     and_then (ranged 0 5 (ho_retries h) ''retry_count'') (\<lambda>_.
     and_then (sized 0 2000 (ho_error h) ''error_message'') (\<lambda>_. Inr h)))"

text \<open>The bounds of the fields, then \<open>validate_aggregate_budgets\<close>.\<close>

definition supervisor_fields :: "'f pylib \<Rightarrow> 'f supervisor \<Rightarrow> bool" where
  "supervisor_fields lib s \<longleftrightarrow>
     length (su_handoffs s) \<le> 20 \<and> length (su_results s) \<le> 20 \<and> length (su_context_events s) \<le> 10 \<and>
     length (su_memories s) \<le> 10 \<and> 1 \<le> su_max_handoffs s \<and> su_max_handoffs s \<le> 10 \<and>
     0 \<le> su_max_retries s \<and> su_max_retries s \<le> 5 \<and> 0 \<le> su_max_calls s \<and> su_max_calls s \<le> 10 \<and>
     0 \<le> su_tokens s \<and> su_tokens s \<le> 64000 \<and> within lib ''0.15'' (su_cost s) \<and>
     1000 \<le> su_latency s \<and> su_latency s \<le> 900000 \<and> length (su_errors s) \<le> 50 \<and> length (su_final s) \<le> 20000"

definition validate_aggregate_budgets :: "'f pylib \<Rightarrow> 'f supervisor \<Rightarrow> refusal + 'f supervisor" where
  "validate_aggregate_budgets lib s =
     and_then (check (supervisor_fields lib s) (Invalid ''fields'')) (\<lambda>_.
     and_then (check (int (length (su_handoffs s)) \<le> su_max_handoffs s) (Invalid ''handoffs'')) (\<lambda>_.
     and_then (check (distinct (su_context_events s)) (Invalid ''run_context_event_ids'')) (\<lambda>_.
     and_then (check (distinct (su_memories s)) (Invalid ''incident_memory_ids'')) (\<lambda>_.
     and_then (check (sum_list (map ho_retries (su_handoffs s)) \<le> su_max_retries s) (Invalid ''retries'')) (\<lambda>_.
     and_then (check (sum_list (map rs_model_calls (su_results s)) \<le> su_max_calls s) (Invalid ''model_calls'')) (\<lambda>_.
     and_then (check (sum_list (map rs_tokens (su_results s)) \<le> su_tokens s) (Invalid ''tokens'')) (\<lambda>_.
     and_then (check (\<not> lib_less lib (su_cost s) (float_sum lib (map rs_cost (su_results s)))) (Invalid ''cost'')) (\<lambda>_.
     and_then (check (sum_list (map rs_duration (su_results s)) \<le> su_latency s) (Invalid ''latency'')) (\<lambda>_.
     Inr s)))))))))"

section \<open>Forbidden keys\<close>

lemma find_forbidden_None:
  "find_forbidden_context_key path j = None \<longleftrightarrow> (\<forall>k \<in> keys_of j. \<not> forbidden_key k)"
  "find_forbidden_items path i xs = None \<longleftrightarrow> (\<forall>k \<in> keys_of_items xs. \<not> forbidden_key k)"
  "find_forbidden_fields path kvs = None \<longleftrightarrow> (\<forall>k \<in> keys_of_fields kvs. \<not> forbidden_key k)"
  by (induction path j and path i xs and path kvs
      rule: find_forbidden_context_key_find_forbidden_items_find_forbidden_fields.induct)
    (auto simp: forbidden_key_def Let_def split: option.splits)

text \<open>
  What a handoff may carry: a payload is accepted, unchanged, exactly when no key of any
  object at any depth is a credential name, whatever its case and surrounding blanks, and its
  JSON text has at most 32000 bytes.
\<close>

theorem payload_accepted_iff:
  "validate_bounded_payload lib payload field_name = Inr p \<longleftrightarrow>
     p = payload \<and> (\<forall>k \<in> keys_of (JObj payload). \<not> forbidden_key k) \<and>
     length (spaced (lib_json lib) (JObj payload)) \<le> MAX_CONTEXT_PAYLOAD_BYTES"
  using find_forbidden_None(1)[of field_name "JObj payload"]
  by (auto simp: validate_bounded_payload_def split: option.splits)

lemma validate_bounded_payload_same: "validate_bounded_payload lib payload name = Inr p \<Longrightarrow> p = payload"
  by (auto simp: validate_bounded_payload_def split: option.splits if_splits)

section \<open>Validating twice\<close>

lemma contract_char_plain: "contract_char c \<Longrightarrow> \<not> py_space c \<and> lower_char c = c"
  by (auto simp: contract_char_def lower_letter_def py_space_def lower_char_def Let_def)

lemma safe_contract_name_chars:
  "safe_contract_name s \<longleftrightarrow> s \<noteq> [] \<and> lower_letter (hd s) \<and> 3 \<le> length s \<and> length s \<le> 80 \<and> list_all contract_char s"
  by (cases s) (auto simp: safe_contract_name_def contract_char_def)

lemma safe_name_fixed: "safe_contract_name s \<Longrightarrow> lower (strip s) = s"
proof -
  assume "safe_contract_name s"
  then have chars: "\<forall>c \<in> set s. \<not> py_space c \<and> lower_char c = c" and "s \<noteq> []"
    using contract_char_plain by (auto simp: safe_contract_name_chars list_all_iff)
  then have "strip s = s" by (intro strip_fixed) simp
  then show "lower (strip s) = s" using chars by (simp add: lower_def map_idI)
qed

lemma validate_contract_name_Inr:
  "validate_contract_name s f = Inr n \<longleftrightarrow>
     3 \<le> length s \<and> length s \<le> 80 \<and> n = lower (strip s) \<and> safe_contract_name n"
  by (auto simp: validate_contract_name_def sized_def Let_def)

lemma contract_name_again: "validate_contract_name s f = Inr n \<Longrightarrow> validate_contract_name n f = Inr n"
  using safe_name_fixed by (auto simp: validate_contract_name_Inr safe_contract_name_chars)

lemma allowed_tools_again: "validate_allowed_tools ts = Inr ns \<Longrightarrow> validate_allowed_tools ns = Inr ns"
proof -
  assume "validate_allowed_tools ts = Inr ns"
  then have ns: "ns = map (\<lambda>t. lower (strip t)) ts" "list_all safe_contract_name ns" "distinct ns" "1 \<le> length ts" "length ts \<le> 12"
    by (auto simp: validate_allowed_tools_def sized_def Let_def split: if_splits)
  have same: "map (\<lambda>t. lower (strip t)) ns = ns"
    using ns(2) by (simp add: list_all_iff safe_name_fixed map_idI)
  have "length ns = length ts" using ns(1) by simp
  then show ?thesis using ns(2-5) unfolding validate_allowed_tools_def sized_def Let_def same by simp
qed

lemma result_errors_Inr:
  "validate_result_errors acc es = Inr out \<Longrightarrow>
     \<exists>ns. out = acc @ ns \<and> length ns = length es \<and> ns = map strip es \<and> (es = [] \<longleftrightarrow> ns = []) \<and> validate_result_errors acc ns = Inr out"
proof (induction acc es arbitrary: out rule: validate_result_errors.induct)
  case (2 acc e es)
  then have ok: "validate_result_errors (acc @ [strip e]) es = Inr out"
    and "\<not> (strip e = [] \<or> \<not> single_line (strip e) \<or> 2000 < length (strip e) \<or> strip e \<in> set acc)"
    by (auto simp: Let_def split: if_splits)
  then show ?case using "2.IH"[OF refl] by (auto simp: Let_def)
qed simp

lemma try_map_evidence: "try_map validate_evidence_reference es = Inr out \<Longrightarrow> out = es"
  by (induction es arbitrary: out) (auto simp: validate_evidence_reference_def)

lemma validate_result_Inr:
  assumes "validate_result lib r = Inr r'"
  shows "\<exists>specialist task_type errors. r' = r\<lparr>rs_specialist := specialist, rs_type := task_type, rs_errors := errors\<rparr> \<and>
     validate_contract_name (rs_specialist r) ''specialist_name'' = Inr specialist \<and>
     validate_contract_name (rs_type r) ''task_type'' = Inr task_type \<and>
     validate_result_errors [] (rs_errors r) = Inr errors \<and> terminal_result lib r'"
  using assms by (auto simp: validate_result_def Let_def)

text \<open>
  A validated result is a fixed point of its validation: \<open>enforce_result_contract\<close> validates the
  dumped result of a specialist again, and gets exactly the result it was given.
\<close>

theorem result_validation_is_stable:
  assumes "validate_result lib r = Inr r'"
  shows "validate_result lib r' = Inr r'"
proof -
  obtain specialist task_type errors
    where r': "r' = r\<lparr>rs_specialist := specialist, rs_type := task_type, rs_errors := errors\<rparr>"
      and names: "validate_contract_name (rs_specialist r) ''specialist_name'' = Inr specialist"
        "validate_contract_name (rs_type r) ''task_type'' = Inr task_type"
      and es: "validate_result_errors [] (rs_errors r) = Inr errors" and "terminal_result lib r'"
    using validate_result_Inr[OF assms] by blast
  moreover have "validate_result_errors [] errors = Inr errors" and "length errors = length (rs_errors r)"
    using result_errors_Inr[OF es] by auto
  ultimately show ?thesis
    using assms contract_name_again[OF names(1)] contract_name_again[OF names(2)]
    by (auto simp: validate_result_def Let_def sized_def split: if_splits)
qed

text \<open>
  A task is stable as well, unless stripping emptied a text that \<open>min_length=1\<close> was checked on
  before: the length bounds of pydantic come first, the validators that strip come after.
\<close>

lemma context_reference_again:
  "validate_context_reference c = Inr c' \<Longrightarrow> cx_reference c' \<noteq> [] \<Longrightarrow> validate_context_reference c' = Inr c'"
proof -
  have shorter: "length (strip s) \<le> length s" for s
    unfolding strip_def by (metis length_dropWhile_le length_rev order_trans)
  assume "validate_context_reference c = Inr c'" and "cx_reference c' \<noteq> []"
  then show ?thesis
    using shorter[of "cx_reference c"] shorter[of "cx_description c"]
    by (auto simp: validate_context_reference_def sized_def Suc_le_eq split: if_splits)
qed

lemma blank_reference_accepted_once:
  "let c = \<lparr>cx_kind = Ref_Alert, cx_reference = '' '', cx_description = []\<rparr>; c' = c\<lparr>cx_reference := []\<rparr>
   in validate_context_reference c = Inr c' \<and> validate_context_reference c' = Inl (Invalid ''reference'')"
  by code_simp


end
