(* ===== verification/Registry.thy ===== *)
theory Registry
  imports Contracts
begin

text \<open>
  The specialists' capabilities and the two gates around every invocation,
  \<open>agent/specialists/registry.py\<close>: \<open>enforce_task_capability\<close> before it and
  \<open>enforce_result_contract\<close> after it. Descriptions and output model names, which nothing reads, are
  left out of the table.
\<close>

section \<open>Tables\<close>

definition INCIDENT_TRIAGE_SPECIALIST_NAME :: string where
  "INCIDENT_TRIAGE_SPECIALIST_NAME = ''incident_triage_agent''"

definition INCIDENT_TRIAGE_TASK_TYPES :: "string list" where
  "INCIDENT_TRIAGE_TASK_TYPES = [''triage_alert'', ''interpret_dq_history'', ''interpret_pipeline_run'']"

definition INCIDENT_TRIAGE_ALLOWED_TOOLS :: "string list" where
  "INCIDENT_TRIAGE_ALLOWED_TOOLS = [''alerts'', ''clickhouse_sql'', ''dq_history'', ''incident_history'',
     ''pipeline_runs'', ''dbt_lineage'', ''schema_drift'', ''llm_router'', ''s3_artifacts'', ''alert_lifecycle'',
     ''agent_audit_log'']"

definition INCIDENT_TRIAGE_REQUIRED_TOOLS :: "(string \<times> string list) list" where
  "INCIDENT_TRIAGE_REQUIRED_TOOLS =
     [(''triage_alert'', INCIDENT_TRIAGE_ALLOWED_TOOLS),
      (''interpret_dq_history'', [''alerts'', ''dq_history'', ''llm_router'', ''agent_audit_log'']),
      (''interpret_pipeline_run'', [''alerts'', ''pipeline_runs'', ''llm_router'', ''agent_audit_log''])]"

definition METADATA_LINEAGE_SPECIALIST_NAME :: string where
  "METADATA_LINEAGE_SPECIALIST_NAME = ''metadata_lineage_agent''"

definition METADATA_LINEAGE_TASK_TYPES :: "string list" where
  "METADATA_LINEAGE_TASK_TYPES = [''asset_context'', ''blast_radius'', ''trusted_asset_search'', ''interpret_metadata_lineage'']"

definition METADATA_LINEAGE_ALLOWED_TOOLS :: "string list" where
  "METADATA_LINEAGE_ALLOWED_TOOLS = [''alerts'', ''llm_router'', ''metadata_catalog'', ''dbt_lineage'',
     ''dbt_blast_radius'', ''agent_audit_log'']"

definition METADATA_LINEAGE_REQUIRED_TOOLS :: "(string \<times> string list) list" where
  "METADATA_LINEAGE_REQUIRED_TOOLS =
     [(''interpret_metadata_lineage'', [''alerts'', ''metadata_catalog'', ''dbt_blast_radius'', ''llm_router'', ''agent_audit_log'']),
      (''asset_context'', [''metadata_catalog'', ''dbt_lineage'', ''dbt_blast_radius'', ''agent_audit_log'']),
      (''blast_radius'', [''metadata_catalog'', ''dbt_blast_radius'', ''agent_audit_log'']),
      (''trusted_asset_search'', [''metadata_catalog'', ''agent_audit_log''])]"

definition SQL_REVIEW_SPECIALIST_NAME :: string where
  "SQL_REVIEW_SPECIALIST_NAME = ''sql_safety_review_agent''"

definition SQL_REVIEW_ALLOWED_TOOLS :: "string list" where
  "SQL_REVIEW_ALLOWED_TOOLS = [''sql_policy_review'', ''metadata_catalog'', ''warehouse_statistics'', ''agent_audit_log'']"

definition SQL_REVIEW_REQUIRED_TOOLS :: "(string \<times> string list) list" where
  "SQL_REVIEW_REQUIRED_TOOLS = [(''review_sql'', SQL_REVIEW_ALLOWED_TOOLS)]"

definition SCHEMA_DRIFT_SPECIALIST_NAME :: string where
  "SCHEMA_DRIFT_SPECIALIST_NAME = ''schema_drift_agent''"

definition SCHEMA_DRIFT_ALLOWED_TOOLS :: "string list" where
  "SCHEMA_DRIFT_ALLOWED_TOOLS = [''schema_drift'', ''metadata_catalog'', ''dbt_blast_radius'', ''agent_audit_log'']"

definition SCHEMA_DRIFT_REQUIRED_TOOLS :: "(string \<times> string list) list" where
  "SCHEMA_DRIFT_REQUIRED_TOOLS = [(''assess_schema_drift'', SCHEMA_DRIFT_ALLOWED_TOOLS)]"

definition REQUIRED_TOOLS_BY_SPECIALIST :: "(string \<times> (string \<times> string list) list) list" where
  "REQUIRED_TOOLS_BY_SPECIALIST =
     [(INCIDENT_TRIAGE_SPECIALIST_NAME, INCIDENT_TRIAGE_REQUIRED_TOOLS),
      (METADATA_LINEAGE_SPECIALIST_NAME, METADATA_LINEAGE_REQUIRED_TOOLS),
      (SQL_REVIEW_SPECIALIST_NAME, SQL_REVIEW_REQUIRED_TOOLS),
      (SCHEMA_DRIFT_SPECIALIST_NAME, SCHEMA_DRIFT_REQUIRED_TOOLS)]"

definition EVIDENCE_INTERPRETATION_TASKS :: "(string \<times> string) list" where
  "EVIDENCE_INTERPRETATION_TASKS =
     [(''interpret_dq_history'', INCIDENT_TRIAGE_SPECIALIST_NAME),
      (''interpret_pipeline_run'', INCIDENT_TRIAGE_SPECIALIST_NAME),
      (''interpret_metadata_lineage'', METADATA_LINEAGE_SPECIALIST_NAME)]"

definition TASK_MODEL_ROUTE_POLICY :: "((string \<times> string) \<times> model_route) list" where
  "TASK_MODEL_ROUTE_POLICY =
     map (\<lambda>(task_type, specialist). ((specialist, task_type), Quickthink_Llm)) EVIDENCE_INTERPRETATION_TASKS"

primrec risk_order :: "risk_tier \<Rightarrow> nat" where
  "risk_order Low_Risk = 1"
| "risk_order Medium_Risk = 2"
| "risk_order High_Risk = 3"
| "risk_order Critical_Risk = 4"

record capability =
  cp_specialist :: string
  cp_task_types :: "string list"
  cp_tools :: "string list"
  cp_max_risk :: risk_tier
  cp_route :: model_route
  cp_mutation :: bool
  cp_approval :: bool
  cp_evidence_required :: bool
  cp_side_effects :: "string list"
  cp_retry_safe :: bool

definition validate_unique_capabilities :: "capability \<Rightarrow> bool" where
  "validate_unique_capabilities c \<longleftrightarrow>
     distinct (cp_task_types c) \<and> distinct (cp_tools c) \<and> \<not> (cp_retry_safe c \<and> cp_mutation c) \<and>
     \<not> (cp_retry_safe c \<and> list_ex (\<lambda>e. e \<noteq> ''append_audit_events'') (cp_side_effects c))"

definition read_only_capability :: "string \<Rightarrow> string list \<Rightarrow> string list \<Rightarrow> capability" where
  "read_only_capability name types tools =
     \<lparr>cp_specialist = name, cp_task_types = types, cp_tools = tools, cp_max_risk = Medium_Risk,
      cp_route = No_Llm_Fallback, cp_mutation = False, cp_approval = False, cp_evidence_required = True,
      cp_side_effects = [''append_audit_events''], cp_retry_safe = True\<rparr>"

definition AGENT_CAPABILITY_REGISTRY :: "(string \<times> capability) list" where
  "AGENT_CAPABILITY_REGISTRY =
     [(INCIDENT_TRIAGE_SPECIALIST_NAME,
       \<lparr>cp_specialist = INCIDENT_TRIAGE_SPECIALIST_NAME, cp_task_types = INCIDENT_TRIAGE_TASK_TYPES,
        cp_tools = INCIDENT_TRIAGE_ALLOWED_TOOLS, cp_max_risk = Medium_Risk, cp_route = Deepthink_Llm,
        cp_mutation = False, cp_approval = False, cp_evidence_required = True,
        cp_side_effects = [''append_audit_events'', ''write_report_artifacts'', ''update_alert_lifecycle''],
        cp_retry_safe = False\<rparr>),
      (METADATA_LINEAGE_SPECIALIST_NAME,
       read_only_capability METADATA_LINEAGE_SPECIALIST_NAME METADATA_LINEAGE_TASK_TYPES METADATA_LINEAGE_ALLOWED_TOOLS),
      (SQL_REVIEW_SPECIALIST_NAME,
       read_only_capability SQL_REVIEW_SPECIALIST_NAME [''review_sql''] SQL_REVIEW_ALLOWED_TOOLS),
      (SCHEMA_DRIFT_SPECIALIST_NAME,
       read_only_capability SCHEMA_DRIFT_SPECIALIST_NAME [''assess_schema_drift''] SCHEMA_DRIFT_ALLOWED_TOOLS)]"

section \<open>Gates\<close>

definition get_agent_capability :: "string \<Rightarrow> refusal + capability" where
  "get_agent_capability specialist_name =
     (case map_of AGENT_CAPABILITY_REGISTRY (lower (strip specialist_name)) of
        None \<Rightarrow> Inl (Unregistered specialist_name)
      | Some c \<Rightarrow> Inr c)"

definition required_tools_for_task :: "string \<Rightarrow> string \<Rightarrow> refusal + string list" where
  "required_tools_for_task specialist_name task_type =
     (case map_of REQUIRED_TOOLS_BY_SPECIALIST (lower (strip specialist_name)) of
        None \<Rightarrow> Inl (Invalid specialist_name)
      | Some policy \<Rightarrow>
          (case map_of policy (lower (strip task_type)) of
             None \<Rightarrow> Inl (Invalid task_type)
           | Some tools \<Rightarrow> Inr tools))"

definition expected_model_route :: "'f task \<Rightarrow> capability \<Rightarrow> model_route" where
  "expected_model_route t c =
     (case map_of TASK_MODEL_ROUTE_POLICY (tk_specialist t, tk_type t) of Some r \<Rightarrow> r | None \<Rightarrow> cp_route c)"

definition enforce_task_capability :: "'f task \<Rightarrow> refusal + capability" where
  "enforce_task_capability t =
     and_then (get_agent_capability (tk_specialist t)) (\<lambda>c.
     and_then (check (tk_type t \<in> set (cp_task_types c)) (Denied ''task_type'')) (\<lambda>_.
     and_then (check (risk_order (tk_risk t) \<le> risk_order (cp_max_risk c)) (Denied ''risk_tier'')) (\<lambda>_.
     and_then (check (tk_route t = expected_model_route t c) (Denied ''model_route'')) (\<lambda>_.
     and_then (required_tools_for_task (tk_specialist t) (tk_type t)) (\<lambda>required.
     and_then (check (set (tk_tools t) \<subseteq> set (cp_tools c)) (Denied ''unauthorized'')) (\<lambda>_.
     and_then (check (set required \<subseteq> set (tk_tools t)) (Denied ''missing'')) (\<lambda>_.
     and_then (check (\<not> (tk_type t \<in> set (map fst EVIDENCE_INTERPRETATION_TASKS) \<and> set (tk_tools t) \<noteq> set required))
                (Denied ''allowlist'')) (\<lambda>_. Inr c))))))))"

definition enforce_result_contract :: "'f pylib \<Rightarrow> 'f task \<Rightarrow> 'f result \<Rightarrow> refusal + 'f result" where
  "enforce_result_contract lib t r =
     and_then (enforce_task_capability t) (\<lambda>c.
     and_then (validate_result lib r) (\<lambda>v.
     and_then (check (tk_task_id t = rs_task_id v \<and> tk_parent t = rs_parent v \<and>
                      tk_specialist t = rs_specialist v \<and> tk_type t = rs_type v) (Denied ''identity'')) (\<lambda>_.
     and_then (check (\<not> (cp_evidence_required c \<and> rs_status v \<in> {Task_Success, Task_Partial} \<and> rs_evidence v = []))
                (Denied ''evidence'')) (\<lambda>_.
     and_then (check (list_all (\<lambda>e. ev_tool e \<in> set (tk_tools t)) (rs_evidence v)) (Denied ''evidence_tools'')) (\<lambda>_.
     and_then (check (route_order (rs_route v) \<le> route_order (tk_route t)) (Denied ''model_route'')) (\<lambda>_.
     and_then (check (rs_duration v \<le> tk_timeout t * 1000) (Denied ''duration'')) (\<lambda>_.
     Inr v)))))))"

section \<open>Least privilege\<close>

lemmas registry_tables = AGENT_CAPABILITY_REGISTRY_def read_only_capability_def REQUIRED_TOOLS_BY_SPECIALIST_def
  EVIDENCE_INTERPRETATION_TASKS_def TASK_MODEL_ROUTE_POLICY_def
  INCIDENT_TRIAGE_SPECIALIST_NAME_def METADATA_LINEAGE_SPECIALIST_NAME_def SQL_REVIEW_SPECIALIST_NAME_def
  SCHEMA_DRIFT_SPECIALIST_NAME_def INCIDENT_TRIAGE_TASK_TYPES_def METADATA_LINEAGE_TASK_TYPES_def
  INCIDENT_TRIAGE_ALLOWED_TOOLS_def METADATA_LINEAGE_ALLOWED_TOOLS_def SQL_REVIEW_ALLOWED_TOOLS_def SCHEMA_DRIFT_ALLOWED_TOOLS_def
  INCIDENT_TRIAGE_REQUIRED_TOOLS_def METADATA_LINEAGE_REQUIRED_TOOLS_def SQL_REVIEW_REQUIRED_TOOLS_def
  SCHEMA_DRIFT_REQUIRED_TOOLS_def

definition task_names :: "string list" where
  "task_names = concat (map (cp_task_types \<circ> snd) AGENT_CAPABILITY_REGISTRY)"

lemma names_fixed:
  "list_all (\<lambda>n. lower (strip n) = n) (task_names @ map fst AGENT_CAPABILITY_REGISTRY)"
  by code_simp

lemma registry_sound:
  "list_all (\<lambda>(n, c). cp_specialist c = n \<and> validate_unique_capabilities c \<and> \<not> cp_mutation c \<and> \<not> cp_approval c \<and>
     cp_max_risk c = Medium_Risk \<and> cp_evidence_required c) AGENT_CAPABILITY_REGISTRY"
  by code_simp

text \<open>Every accepted task type has a policy, within the specialist's tools.\<close>

lemma policies_within:
  "list_all (\<lambda>(n, c). list_all (\<lambda>ty. case required_tools_for_task n ty of Inl _ \<Rightarrow> False
      | Inr req \<Rightarrow> list_all (\<lambda>x. x \<in> set (cp_tools c)) req \<and>
          (ty \<noteq> ''triage_alert'' \<longrightarrow> ty \<in> set (map fst EVIDENCE_INTERPRETATION_TASKS) \<or> ''alert_lifecycle'' \<notin> set (cp_tools c) \<and> ''clickhouse_sql'' \<notin> set (cp_tools c)) \<and>
          (ty \<noteq> ''triage_alert'' \<longrightarrow> ''alert_lifecycle'' \<notin> set req \<and> ''clickhouse_sql'' \<notin> set req)) (cp_task_types c))
     AGENT_CAPABILITY_REGISTRY"
  by code_simp


lemma enforce_task_Inr:
  "enforce_task_capability t = Inr c \<longleftrightarrow>
     map_of AGENT_CAPABILITY_REGISTRY (lower (strip (tk_specialist t))) = Some c \<and> tk_type t \<in> set (cp_task_types c) \<and>
     risk_order (tk_risk t) \<le> risk_order (cp_max_risk c) \<and> tk_route t = expected_model_route t c \<and>
     (\<exists>req. required_tools_for_task (tk_specialist t) (tk_type t) = Inr req \<and> set (tk_tools t) \<subseteq> set (cp_tools c) \<and>
        set req \<subseteq> set (tk_tools t) \<and>
        (tk_type t \<in> set (map fst EVIDENCE_INTERPRETATION_TASKS) \<longrightarrow> set (tk_tools t) = set req))"
  by (auto simp: enforce_task_capability_def get_agent_capability_def split: option.splits)

lemma required_normal:
  assumes "lower (strip n) = lower (strip n')"
  shows "(case required_tools_for_task n ty of Inl _ \<Rightarrow> None | Inr req \<Rightarrow> Some req) =
     (case required_tools_for_task n' ty of Inl _ \<Rightarrow> None | Inr req \<Rightarrow> Some req)"
  using assms by (simp add: required_tools_for_task_def split: option.splits)

text \<open>
  C27. Least privilege before an invocation: an admitted task belongs to a registered specialist
  that holds no mutation permission, its risk is at most medium, it asks for every tool its task
  type needs and for none outside its specialist's allowlist, and the two tools with the widest
  reach, raw SQL and the alert life cycle, go to incident triage only.
\<close>

theorem admitted_task_least_privilege:
  assumes "enforce_task_capability t = Inr c"
  shows "\<not> cp_mutation c \<and> tk_risk t \<in> {Low_Risk, Medium_Risk} \<and> tk_type t \<in> set (cp_task_types c) \<and>
     (\<exists>req. required_tools_for_task (cp_specialist c) (tk_type t) = Inr req \<and>
        set req \<subseteq> set (tk_tools t) \<and> set (tk_tools t) \<subseteq> set (cp_tools c)) \<and>
     ({''clickhouse_sql'', ''alert_lifecycle''} \<inter> set (tk_tools t) \<noteq> {} \<longrightarrow> tk_type t = ''triage_alert'')"
proof -
  let ?n = "lower (strip (tk_specialist t))"
  obtain req where c: "map_of AGENT_CAPABILITY_REGISTRY ?n = Some c" and ty: "tk_type t \<in> set (cp_task_types c)"
    and risk: "risk_order (tk_risk t) \<le> risk_order (cp_max_risk c)"
    and req: "required_tools_for_task (tk_specialist t) (tk_type t) = Inr req"
    and tools: "set (tk_tools t) \<subseteq> set (cp_tools c)" "set req \<subseteq> set (tk_tools t)"
    and exact: "tk_type t \<in> set (map fst EVIDENCE_INTERPRETATION_TASKS) \<longrightarrow> set (tk_tools t) = set req"
    using assms unfolding enforce_task_Inr by blast
  have entry: "(?n, c) \<in> set AGENT_CAPABILITY_REGISTRY" using c by (rule map_of_SomeD)
  then have sound: "cp_specialist c = ?n" "\<not> cp_mutation c" "cp_max_risk c = Medium_Risk"
    using registry_sound by (auto simp: list_all_iff)
  have "lower (strip ?n) = ?n" using names_fixed entry by (force simp: list_all_iff)
  then have req': "required_tools_for_task ?n (tk_type t) = Inr req"
    using req required_normal[of ?n "tk_specialist t" "tk_type t"] by (auto split: sum.splits)
  have "tk_type t \<noteq> ''triage_alert'' \<Longrightarrow> tk_type t \<in> set (map fst EVIDENCE_INTERPRETATION_TASKS) \<or>
      ''alert_lifecycle'' \<notin> set (cp_tools c) \<and> ''clickhouse_sql'' \<notin> set (cp_tools c)"
    and "tk_type t \<noteq> ''triage_alert'' \<Longrightarrow> ''alert_lifecycle'' \<notin> set req \<and> ''clickhouse_sql'' \<notin> set req"
    using policies_within[unfolded list_all_iff, THEN bspec, OF entry] ty req'
    by (auto simp: list_all_iff split: sum.splits)
  then have "{''clickhouse_sql'', ''alert_lifecycle''} \<inter> set (tk_tools t) \<noteq> {} \<longrightarrow> tk_type t = ''triage_alert''"
    using exact tools by blast
  moreover have "tk_risk t \<in> {Low_Risk, Medium_Risk}"
    using risk sound(3) by (cases "tk_risk t") simp_all
  ultimately show ?thesis using sound req' tools ty by auto
qed

text \<open>
  What a specialist hands back: an accepted result answers exactly its task, took no longer
  than the task's timeout, rests on evidence from the task's own tools only, of which there is
  some whenever it claims success, and used no stronger model route than the task was given.
\<close>

theorem accepted_result_answers_task:
  assumes "enforce_result_contract lib t r = Inr v"
  shows "validate_result lib r = Inr v \<and> (\<exists>c. enforce_task_capability t = Inr c) \<and>
     rs_task_id v = tk_task_id t \<and> rs_parent v = tk_parent t \<and> rs_specialist v = tk_specialist t \<and> rs_type v = tk_type t \<and>
     0 \<le> rs_duration v \<and> rs_duration v \<le> tk_timeout t * 1000 \<and>
     (\<forall>e \<in> set (rs_evidence v). ev_tool e \<in> set (tk_tools t)) \<and>
     (rs_status v \<in> {Task_Success, Task_Partial} \<longrightarrow> rs_evidence v \<noteq> []) \<and>
     (rs_status v \<notin> {Task_Success, Task_Partial} \<longrightarrow> rs_errors v \<noteq> [] \<and> \<not> nonzero lib (rs_confidence v)) \<and>
     route_order (rs_route v) \<le> route_order (tk_route t)"
proof -
  obtain c where c: "enforce_task_capability t = Inr c" and v: "validate_result lib r = Inr v"
    and rest: "tk_task_id t = rs_task_id v \<and> tk_parent t = rs_parent v \<and> tk_specialist t = rs_specialist v \<and> tk_type t = rs_type v"
      "\<not> (cp_evidence_required c \<and> rs_status v \<in> {Task_Success, Task_Partial} \<and> rs_evidence v = [])"
      "list_all (\<lambda>e. ev_tool e \<in> set (tk_tools t)) (rs_evidence v)"
      "route_order (rs_route v) \<le> route_order (tk_route t)" "rs_duration v \<le> tk_timeout t * 1000"
    using assms unfolding enforce_result_contract_def by auto
  have "(lower (strip (tk_specialist t)), c) \<in> set AGENT_CAPABILITY_REGISTRY"
    using c unfolding enforce_task_Inr by (blast intro: map_of_SomeD)
  then have "cp_evidence_required c" using registry_sound by (auto simp: list_all_iff)
  moreover have "terminal_result lib v" and "0 \<le> rs_duration v"
    using validate_result_Inr[OF v] v by (auto simp: validate_result_def Let_def)
  ultimately show ?thesis
    using v c rest by (auto simp: terminal_result_def terminal_status_def list_all_iff)
qed

end
