(* ===== verification/Budgets.thy ===== *)
theory Budgets
  imports Registry "HOL-Library.AList"
begin

text \<open>
  The supervisor's budgets, \<open>agent/supervisor/budgets.py\<close>: the ledger that every external model
  call of a specialist reserves from, the allocator that divides a fan-out's budget among its
  workers, and the decisions before and after a handoff. Each method that the code runs under a
  lock is one step; the clock reading and the fresh UUID of a reservation are arguments.

  The locale \<open>account\<close> is what the two stateful parts promise their callers: whatever is asked of
  them, in any order, what is used stays within the limit. Both are instances of it, per dimension.
\<close>

section \<open>Accounts\<close>

locale account =
  fixes grant :: "'q \<Rightarrow> ('s, 'e, 'g) prog"
    and used :: "'s \<Rightarrow> int"
    and limit :: "'s \<Rightarrow> int"
  assumes granted: "grant q s = (Inr g, t) \<Longrightarrow> used s \<le> limit s \<Longrightarrow> used t \<le> limit t"
    and refused: "grant q s = (Inl e, t) \<Longrightarrow> t = s"
    and limit_fixed: "grant q s = (r, t) \<Longrightarrow> limit t = limit s"
begin

definition grants :: "'q list \<Rightarrow> 's \<Rightarrow> 's" where
  "grants qs s = fold (\<lambda>q s. snd (grant q s)) qs s"

lemma grant_within: "used s \<le> limit s \<Longrightarrow> used (snd (grant q s)) \<le> limit (snd (grant q s))"
proof (cases "grant q s")
  case (Pair r t)
  assume "used s \<le> limit s"
  then show ?thesis using Pair by (cases r) (auto dest: granted refused)
qed

lemma grants_within: "used s \<le> limit s \<Longrightarrow> used (grants qs s) \<le> limit s \<and> limit (grants qs s) = limit s"
proof (induction qs arbitrary: s)
  case (Cons q qs)
  have "limit (snd (grant q s)) = limit s"
    using limit_fixed[of q s "fst (grant q s)" "snd (grant q s)"] by simp
  then show ?case
    using Cons.IH[OF grant_within[where q = q, OF Cons.prems]] by (simp add: grants_def)
qed (simp add: grants_def)

end

text \<open>An account whose grants are estimates, settled later by the actual amount.\<close>

locale settled_account = account grant used limit
  for grant :: "'q \<Rightarrow> ('s, 'e, 'g) prog" and used :: "'s \<Rightarrow> int" and limit :: "'s \<Rightarrow> int" +
  fixes settle :: "'r \<Rightarrow> ('s, 'e, unit) prog"
    and honest :: "'r \<Rightarrow> 's \<Rightarrow> bool"
  assumes settled: "honest r s \<Longrightarrow> used s \<le> limit s \<Longrightarrow> used (snd (settle r s)) \<le> limit (snd (settle r s))"
    and settled_limit: "limit (snd (settle r s)) = limit s"
begin

fun operations :: "('q + 'r) list \<Rightarrow> 's \<Rightarrow> 's" where
  "operations [] s = s"
| "operations (Inl q # rest) s = operations rest (snd (grant q s))"
| "operations (Inr r # rest) s = operations rest (snd (settle r s))"

fun all_honest :: "('q + 'r) list \<Rightarrow> 's \<Rightarrow> bool" where
  "all_honest [] s = True"
| "all_honest (Inl q # rest) s = all_honest rest (snd (grant q s))"
| "all_honest (Inr r # rest) s = (honest r s \<and> all_honest rest (snd (settle r s)))"

lemma operations_within:
  "all_honest ops s \<Longrightarrow> used s \<le> limit s \<Longrightarrow> used (operations ops s) \<le> limit (operations ops s)"
  by (induction ops s rule: all_honest.induct) (simp_all add: grant_within settled)

lemma operations_limit: "limit (operations ops s) = limit s"
proof (induction ops s rule: operations.induct)
  case (2 q rest s)
  then show ?case using limit_fixed[of q s "fst (grant q s)" "snd (grant q s)"] by simp
qed (simp_all add: settled_limit)

end

section \<open>Data\<close>

record 'f budget_vector =
  bv_handoffs :: int
  bv_retries :: int
  bv_calls :: int
  bv_tokens :: int
  bv_cost :: 'f
  bv_latency :: int

definition no_budget :: "'f pylib \<Rightarrow> 'f budget_vector" where
  "no_budget lib = \<lparr>bv_handoffs = 0, bv_retries = 0, bv_calls = 0, bv_tokens = 0, bv_cost = lib_zero lib, bv_latency = 0\<rparr>"

text \<open>The \<open>ge=0\<close> bounds of \<open>SupervisorBudgetVector\<close>; building one outside them raises.\<close>

definition valid_vector :: "'f pylib \<Rightarrow> 'f budget_vector \<Rightarrow> bool" where
  "valid_vector lib v \<longleftrightarrow> 0 \<le> bv_handoffs v \<and> 0 \<le> bv_retries v \<and> 0 \<le> bv_calls v \<and> 0 \<le> bv_tokens v \<and>
     lib_le lib (lib_zero lib) (bv_cost v) \<and> 0 \<le> bv_latency v"

datatype budget_error =
    Latency_Exceeded | Calls_Exceeded | Tokens_Exceeded | Cost_Exceeded | Capacity_Exceeded
  | Unknown_Reservation | Bad_Vector | Budget_Exceeded "string list"

definition vector :: "'f pylib \<Rightarrow> 'f budget_vector \<Rightarrow> budget_error + 'f budget_vector" where
  "vector lib v = and_then (check (valid_vector lib v) Bad_Vector) (\<lambda>_. Inr v)"

datatype budget_stage = Pre_Handoff | Post_Handoff

record 'f budget_decision =
  bd_stage :: budget_stage
  bd_allowed :: bool
  bd_limits :: "'f budget_vector"
  bd_usage :: "'f budget_vector"
  bd_remaining :: "'f budget_vector"
  bd_violations :: "string list"

section \<open>The ledger of model calls\<close>

record 'f ledger =
  ld_max_calls :: int
  ld_token_budget :: int
  ld_cost_budget :: 'f
  ld_deadline :: 'f
  ld_calls :: int
  ld_tokens :: int
  ld_cost :: 'f
  ld_reservations :: "(string \<times> int \<times> 'f) list"

type_synonym ('f, 'a) ledger_prog = "('f ledger, budget_error, 'a) prog"

definition new_ledger :: "'f pylib \<Rightarrow> int \<Rightarrow> int \<Rightarrow> 'f \<Rightarrow> 'f \<Rightarrow> 'f ledger" where
  "new_ledger lib max_model_calls token_budget cost_budget deadline =
     \<lparr>ld_max_calls = max_model_calls, ld_token_budget = token_budget, ld_cost_budget = cost_budget,
      ld_deadline = deadline, ld_calls = 0, ld_tokens = 0, ld_cost = lib_zero lib, ld_reservations = []\<rparr>"

definition remaining_latency_ms :: "'f pylib \<Rightarrow> 'f \<Rightarrow> 'f ledger \<Rightarrow> int" where
  "remaining_latency_ms lib clock l =
     max 0 (lib_trunc lib (lib_mul lib (lib_sub lib (ld_deadline l) clock) (lib_literal lib ''1000'')))"

definition reserve_model_call :: "'f pylib \<Rightarrow> 'f \<Rightarrow> string \<Rightarrow> int \<Rightarrow> 'f \<Rightarrow> ('f, string) ledger_prog" where
  "reserve_model_call lib clock reservation_id projected_tokens projected_cost =
     bnd (gets (\<lambda>l. l)) (\<lambda>l.
     bnd (require (\<not> remaining_latency_ms lib clock l \<le> 0) Latency_Exceeded) (\<lambda>_.
     bnd (require (\<not> ld_max_calls l < ld_calls l + 1) Calls_Exceeded) (\<lambda>_.
     bnd (require (\<not> ld_token_budget l < ld_tokens l + projected_tokens) Tokens_Exceeded) (\<lambda>_.
     bnd (require (\<not> lib_less lib (ld_cost_budget l) (lib_add lib (ld_cost l) projected_cost)) Cost_Exceeded) (\<lambda>_.
     bnd (modify (\<lambda>l. l\<lparr>ld_calls := ld_calls l + 1, ld_tokens := ld_tokens l + projected_tokens,
            ld_cost := lib_add lib (ld_cost l) projected_cost,
            ld_reservations := AList.update reservation_id (projected_tokens, projected_cost) (ld_reservations l)\<rparr>)) (\<lambda>_.
     ret reservation_id))))))"

definition reconcile_model_call :: "'f pylib \<Rightarrow> string \<Rightarrow> int \<Rightarrow> 'f \<Rightarrow> ('f, unit) ledger_prog" where
  "reconcile_model_call lib reservation_id actual_tokens actual_cost =
     bnd (gets (\<lambda>l. map_of (ld_reservations l) reservation_id)) (\<lambda>projected. case projected of
       None \<Rightarrow> throw Unknown_Reservation
     | Some (projected_tokens, projected_cost) \<Rightarrow>
         bnd (modify (\<lambda>l. l\<lparr>ld_reservations := AList.delete reservation_id (ld_reservations l),
                ld_tokens := ld_tokens l - projected_tokens + actual_tokens,
                ld_cost := lib_add lib (lib_sub lib (ld_cost l) projected_cost) actual_cost\<rparr>)) (\<lambda>_.
         bnd (gets (\<lambda>l. l)) (\<lambda>l.
         bnd (require (\<not> ld_token_budget l < ld_tokens l) Tokens_Exceeded) (\<lambda>_.
         require (\<not> lib_less lib (ld_cost_budget l) (ld_cost l)) Cost_Exceeded))))"

definition ledger_snapshot :: "'f pylib \<Rightarrow> int \<Rightarrow> 'f ledger \<Rightarrow> budget_error + 'f budget_vector" where
  "ledger_snapshot lib latency_ms l =
     vector lib \<lparr>bv_handoffs = 0, bv_retries = 0, bv_calls = ld_calls l, bv_tokens = ld_tokens l, bv_cost = ld_cost l,
       bv_latency = max 0 latency_ms\<rparr>"

section \<open>The allocator of a fan-out\<close>

record 'f allocator =
  al_max_calls :: int
  al_token_budget :: int
  al_cost_budget :: 'f
  al_capacity :: int
  al_allocations :: "(string \<times> 'f budget_vector) list"

definition new_allocator :: "int \<Rightarrow> int \<Rightarrow> 'f \<Rightarrow> int \<Rightarrow> 'f allocator" where
  "new_allocator max_model_calls token_budget cost_budget worker_capacity =
     \<lparr>al_max_calls = max_model_calls, al_token_budget = token_budget, al_cost_budget = cost_budget,
      al_capacity = worker_capacity, al_allocations = []\<rparr>"

definition task_vector :: "'f pylib \<Rightarrow> 'f task \<Rightarrow> budget_error + 'f budget_vector" where
  "task_vector lib t =
     vector lib ((no_budget lib)\<lparr>bv_calls := tk_model_calls t, bv_tokens := tk_tokens t, bv_cost := tk_cost t\<rparr>)"

definition allocated :: "('f budget_vector \<Rightarrow> 'a) \<Rightarrow> 'f allocator \<Rightarrow> 'a list" where
  "allocated f al = map (f \<circ> snd) (al_allocations al)"

definition reserve_worker ::
    "'f pylib \<Rightarrow> 'f task \<Rightarrow> 'f budget_vector option \<Rightarrow> ('f allocator, budget_error, 'f budget_vector) prog" where
  "reserve_worker lib t effective_budget =
     bnd (lift (\<lambda>_. case effective_budget of Some v \<Rightarrow> Inr v | None \<Rightarrow> task_vector lib t)) (\<lambda>requested.
     bnd (gets (\<lambda>al. al)) (\<lambda>al.
     case map_of (al_allocations al) (tk_task_id t) of
       Some existing \<Rightarrow> ret existing
     | None \<Rightarrow>
         bnd (require (\<not> al_capacity al < int (length (al_allocations al)) + 1) Capacity_Exceeded) (\<lambda>_.
         bnd (require (\<not> al_max_calls al < sum_list (allocated bv_calls al) + bv_calls requested) Calls_Exceeded) (\<lambda>_.
         bnd (require (\<not> al_token_budget al < sum_list (allocated bv_tokens al) + bv_tokens requested) Tokens_Exceeded) (\<lambda>_.
         bnd (require (\<not> lib_less lib (al_cost_budget al)
                (lib_add lib (float_sum lib (allocated bv_cost al)) (bv_cost requested))) Cost_Exceeded) (\<lambda>_.
         bnd (modify (\<lambda>al. al\<lparr>al_allocations := AList.update (tk_task_id t) requested (al_allocations al)\<rparr>)) (\<lambda>_.
         ret requested)))))))"

definition allocator_snapshot :: "'f pylib \<Rightarrow> 'f allocator \<Rightarrow> budget_error + 'f budget_vector" where
  "allocator_snapshot lib al =
     vector lib \<lparr>bv_handoffs = int (length (al_allocations al)), bv_retries = 0, bv_calls = sum_list (allocated bv_calls al),
       bv_tokens = sum_list (allocated bv_tokens al), bv_cost = float_sum lib (allocated bv_cost al), bv_latency = 0\<rparr>"

section \<open>Decisions around a handoff\<close>

definition effective_fanout_worker_budget ::
    "'f pylib \<Rightarrow> 'f task \<Rightarrow> bool \<Rightarrow> int \<Rightarrow> budget_error + 'f budget_vector" where
  "effective_fanout_worker_budget lib t allow_external_llm max_model_calls =
     (if \<not> allow_external_llm \<or> max_model_calls = 0 then vector lib (no_budget lib) else task_vector lib t)"

definition effective_handoff_model_budget :: "'f pylib \<Rightarrow> 'f task \<Rightarrow> 'f supervisor \<Rightarrow> budget_error + 'f budget_vector" where
  "effective_handoff_model_budget lib t s =
     (if su_max_calls s = 0 then vector lib (no_budget lib) else task_vector lib t)"

definition supervisor_budget_limits :: "'f pylib \<Rightarrow> 'f supervisor \<Rightarrow> budget_error + 'f budget_vector" where
  "supervisor_budget_limits lib s =
     vector lib \<lparr>bv_handoffs = su_max_handoffs s, bv_retries = su_max_retries s, bv_calls = su_max_calls s,
       bv_tokens = su_tokens s, bv_cost = su_cost s, bv_latency = su_latency s\<rparr>"

definition consumed_budget_usage :: "'f pylib \<Rightarrow> 'f supervisor \<Rightarrow> int \<Rightarrow> budget_error + 'f budget_vector" where
  "consumed_budget_usage lib s elapsed_ms =
     vector lib \<lparr>bv_handoffs = int (length (su_handoffs s)), bv_retries = sum_list (map ho_retries (su_handoffs s)),
       bv_calls = sum_list (map rs_model_calls (su_results s)), bv_tokens = sum_list (map rs_tokens (su_results s)),
       bv_cost = float_sum lib (map rs_cost (su_results s)),
       bv_latency = max elapsed_ms (sum_list (map rs_duration (su_results s)))\<rparr>"

definition budget_violations :: "'f pylib \<Rightarrow> 'f budget_vector \<Rightarrow> 'f budget_vector \<Rightarrow> string list" where
  "budget_violations lib limits usage =
     (let over = (\<lambda>f name. if f limits < (f usage :: int) then [name] else [])
      in over bv_handoffs ''handoffs_budget_exceeded'' @ over bv_retries ''retries_budget_exceeded'' @
         over bv_calls ''model_calls_budget_exceeded'' @ over bv_tokens ''tokens_budget_exceeded'' @
         (if lib_less lib (bv_cost limits) (bv_cost usage) then [''estimated_cost_usd_budget_exceeded''] else []) @
         over bv_latency ''latency_ms_budget_exceeded'')"

text \<open>\<open>max(a, b)\<close> of floats: \<open>b\<close> only if it is greater.\<close>

definition float_max :: "'f pylib \<Rightarrow> 'f \<Rightarrow> 'f \<Rightarrow> 'f" where
  "float_max lib a b = (if lib_less lib a b then b else a)"

definition build_budget_decision ::
    "'f pylib \<Rightarrow> budget_stage \<Rightarrow> 'f budget_vector \<Rightarrow> 'f budget_vector \<Rightarrow> budget_error + 'f budget_decision" where
  "build_budget_decision lib stage limits usage =
     (let violations = budget_violations lib limits usage
      in and_then (vector lib
           \<lparr>bv_handoffs = max 0 (bv_handoffs limits - bv_handoffs usage),
            bv_retries = max 0 (bv_retries limits - bv_retries usage),
            bv_calls = max 0 (bv_calls limits - bv_calls usage),
            bv_tokens = max 0 (bv_tokens limits - bv_tokens usage),
            bv_cost = float_max lib (lib_zero lib) (lib_round8 lib (lib_sub lib (bv_cost limits) (bv_cost usage))),
            bv_latency = max 0 (bv_latency limits - bv_latency usage)\<rparr>) (\<lambda>remaining.
         Inr \<lparr>bd_stage = stage, bd_allowed = (violations = []), bd_limits = limits, bd_usage = usage,
              bd_remaining = remaining, bd_violations = violations\<rparr>))"

definition evaluate_pre_handoff_budgets ::
    "'f pylib \<Rightarrow> 'f task \<Rightarrow> 'f supervisor \<Rightarrow> int \<Rightarrow> budget_error + 'f budget_decision" where
  "evaluate_pre_handoff_budgets lib t s elapsed_ms =
     and_then (consumed_budget_usage lib s elapsed_ms) (\<lambda>current.
     and_then (effective_handoff_model_budget lib t s) (\<lambda>reserved_model.
     let remaining_latency = max 0 (su_latency s - bv_latency current);
         projected_latency = (if remaining_latency = 0 then bv_latency current + 1
                              else bv_latency current + min (tk_timeout t * 1000) remaining_latency)
     in and_then (vector lib \<lparr>bv_handoffs = bv_handoffs current + 1, bv_retries = bv_retries current,
                    bv_calls = bv_calls current + bv_calls reserved_model,
                    bv_tokens = bv_tokens current + bv_tokens reserved_model,
                    bv_cost = lib_add lib (bv_cost current) (bv_cost reserved_model),
                    bv_latency = projected_latency\<rparr>) (\<lambda>projected.
        and_then (supervisor_budget_limits lib s) (\<lambda>limits.
        build_budget_decision lib Pre_Handoff limits projected))))"

definition evaluate_post_handoff_budgets ::
    "'f pylib \<Rightarrow> 'f supervisor \<Rightarrow> handoff \<Rightarrow> 'f result \<Rightarrow> int \<Rightarrow> budget_error + 'f budget_decision" where
  "evaluate_post_handoff_budgets lib s record r elapsed_ms =
     and_then (consumed_budget_usage lib s 0) (\<lambda>current.
     and_then (vector lib \<lparr>bv_handoffs = bv_handoffs current + 1, bv_retries = bv_retries current + ho_retries record,
                 bv_calls = bv_calls current + rs_model_calls r, bv_tokens = bv_tokens current + rs_tokens r,
                 bv_cost = lib_add lib (bv_cost current) (rs_cost r),
                 bv_latency = max elapsed_ms (bv_latency current + rs_duration r)\<rparr>) (\<lambda>actual.
     and_then (supervisor_budget_limits lib s) (\<lambda>limits.
     build_budget_decision lib Post_Handoff limits actual)))"

definition require_budget_decision :: "'f budget_decision \<Rightarrow> budget_error + unit" where
  "require_budget_decision d = check (bd_allowed d) (Budget_Exceeded (bd_violations d))"

section \<open>The ledger as an account\<close>

text \<open>A step of the ledger, with the clock reading and the UUID it meets.\<close>

datatype 'f ledger_op = Reserve 'f string int 'f | Reconcile string int 'f

definition ledger_step :: "'f pylib \<Rightarrow> 'f ledger_op \<Rightarrow> 'f ledger \<Rightarrow> 'f ledger" where
  "ledger_step lib op l = (case op of
      Reserve clock rid tokens cost \<Rightarrow> snd (reserve_model_call lib clock rid tokens cost l)
    | Reconcile rid tokens cost \<Rightarrow> snd (reconcile_model_call lib rid tokens cost l))"

definition run_ledger :: "'f pylib \<Rightarrow> 'f ledger_op list \<Rightarrow> 'f ledger \<Rightarrow> 'f ledger" where
  "run_ledger lib ops l = fold (ledger_step lib) ops l"

fun reserve_call :: "'f pylib \<Rightarrow> 'f \<times> string \<times> int \<times> 'f \<Rightarrow> ('f, string) ledger_prog" where
  "reserve_call lib (clock, rid, tokens, cost) = reserve_model_call lib clock rid tokens cost"

fun settle_call :: "'f pylib \<Rightarrow> string \<times> int \<times> 'f \<Rightarrow> ('f, unit) ledger_prog" where
  "settle_call lib (rid, tokens, cost) = reconcile_model_call lib rid tokens cost"

text \<open>A settlement within the estimate it replaces.\<close>

definition within_estimate :: "string \<times> int \<times> 'f \<Rightarrow> 'f ledger \<Rightarrow> bool" where
  "within_estimate r l \<longleftrightarrow> (case map_of (ld_reservations l) (fst r) of None \<Rightarrow> True | Some (p, _) \<Rightarrow> fst (snd r) \<le> p)"

lemma reserve_cases:
  "reserve_model_call lib clock rid tokens cost l = (r, t) \<Longrightarrow>
     (\<exists>e. r = Inl e \<and> t = l) \<or>
     (r = Inr rid \<and> ld_calls l + 1 \<le> ld_max_calls l \<and> ld_tokens l + tokens \<le> ld_token_budget l \<and>
      t = l\<lparr>ld_calls := ld_calls l + 1, ld_tokens := ld_tokens l + tokens, ld_cost := lib_add lib (ld_cost l) cost,
            ld_reservations := AList.update rid (tokens, cost) (ld_reservations l)\<rparr>)"
  by (auto simp: reserve_model_call_def bnd_def gets_def modify_def require_def ret_def throw_def split: if_splits)

lemma reconcile_cases:
  "reconcile_model_call lib rid tokens cost l = (r, t) \<Longrightarrow>
     (map_of (ld_reservations l) rid = None \<and> r = Inl Unknown_Reservation \<and> t = l) \<or>
     (\<exists>p c. map_of (ld_reservations l) rid = Some (p, c) \<and>
      t = l\<lparr>ld_reservations := AList.delete rid (ld_reservations l), ld_tokens := ld_tokens l - p + tokens,
            ld_cost := lib_add lib (lib_sub lib (ld_cost l) c) cost\<rparr>)"
  by (auto simp: reconcile_model_call_def bnd_def gets_def modify_def require_def ret_def throw_def
      split: if_splits option.splits)

interpretation ledger_calls: account "reserve_call lib" ld_calls ld_max_calls for lib
  by unfold_locales (auto elim!: reserve_call.elims dest!: reserve_cases)

interpretation ledger_tokens: settled_account "reserve_call lib" ld_tokens ld_token_budget "settle_call lib" within_estimate for lib
proof unfold_locales
  fix r :: "string \<times> int \<times> 'a" and s :: "'a ledger"
  obtain rid tokens cost where r: "r = (rid, tokens, cost)" by (cases r)
  obtain u t where run: "reconcile_model_call lib rid tokens cost s = (u, t)" by fastforce
  show "ld_token_budget (snd (settle_call lib r s)) = ld_token_budget s"
    using reconcile_cases[OF run] by (auto simp: r run)
  assume "within_estimate r s" and "ld_tokens s \<le> ld_token_budget s"
  then show "ld_tokens (snd (settle_call lib r s)) \<le> ld_token_budget (snd (settle_call lib r s))"
    using reconcile_cases[OF run] by (auto simp: r run within_estimate_def)
qed (auto elim!: reserve_call.elims dest!: reserve_cases)

fun account_op :: "'f ledger_op \<Rightarrow> ('f \<times> string \<times> int \<times> 'f) + (string \<times> int \<times> 'f)" where
  "account_op (Reserve clock rid tokens cost) = Inl (clock, rid, tokens, cost)"
| "account_op (Reconcile rid tokens cost) = Inr (rid, tokens, cost)"

lemma run_ledger_operations: "run_ledger lib ops l = ledger_tokens.operations lib (map account_op ops) l"
proof (induction ops arbitrary: l)
  case (Cons op ops)
  then show ?case
    by (cases op) (simp_all add: run_ledger_def ledger_step_def)
qed (simp add: run_ledger_def)

lemma ledger_step_calls: "ld_calls l \<le> ld_max_calls l \<Longrightarrow>
    ld_calls (ledger_step lib op l) \<le> ld_max_calls (ledger_step lib op l) \<and> ld_max_calls (ledger_step lib op l) = ld_max_calls l"
proof (cases op)
  case (Reserve clock rid tokens cost)
  assume "ld_calls l \<le> ld_max_calls l"
  then show ?thesis
    using ledger_calls.grants_within[where lib = lib and s = l and qs = "[(clock, rid, tokens, cost)]"] Reserve
    by (simp add: ledger_step_def ledger_calls.grants_def)
next
  case (Reconcile rid tokens cost)
  assume "ld_calls l \<le> ld_max_calls l"
  then show ?thesis
    using reconcile_cases[OF prod.collapse[symmetric], where lib = lib and l = l and rid = rid and tokens = tokens and cost = cost] Reconcile
    by (auto simp: ledger_step_def)
qed

lemma run_ledger_calls:
  "ld_calls l \<le> ld_max_calls l \<Longrightarrow> ld_calls (run_ledger lib ops l) \<le> ld_max_calls l"
proof -
  have "ld_calls l \<le> ld_max_calls l \<Longrightarrow>
      ld_calls (run_ledger lib ops l) \<le> ld_max_calls (run_ledger lib ops l) \<and> ld_max_calls (run_ledger lib ops l) = ld_max_calls l" for l
  proof (induction ops arbitrary: l)
    case (Cons op ops)
    then show ?case using ledger_step_calls[of l lib op] Cons.IH[of "ledger_step lib op l"] by (simp add: run_ledger_def)
  qed (simp add: run_ledger_def)
  then show "ld_calls l \<le> ld_max_calls l \<Longrightarrow> ?thesis" by fastforce
qed

subsection \<open>What is reserved and what is settled\<close>

definition reserved_tokens :: "'f ledger \<Rightarrow> int" where
  "reserved_tokens l = sum_list (map (fst \<circ> snd) (ld_reservations l))"

fun settled_tokens :: "'f pylib \<Rightarrow> 'f ledger_op list \<Rightarrow> 'f ledger \<Rightarrow> int" where
  "settled_tokens lib [] l = 0"
| "settled_tokens lib (Reserve clock rid tokens cost # ops) l =
     settled_tokens lib ops (ledger_step lib (Reserve clock rid tokens cost) l)"
| "settled_tokens lib (Reconcile rid tokens cost # ops) l =
     (if map_of (ld_reservations l) rid = None then 0 else tokens) +
     settled_tokens lib ops (ledger_step lib (Reconcile rid tokens cost) l)"

fun reserved_ids :: "'f ledger_op list \<Rightarrow> string list" where
  "reserved_ids [] = []"
| "reserved_ids (Reserve clock rid tokens cost # ops) = rid # reserved_ids ops"
| "reserved_ids (Reconcile rid tokens cost # ops) = reserved_ids ops"

lemma update_fresh: "k \<notin> fst ` set xs \<Longrightarrow> AList.update k v xs = xs @ [(k, v)]"
  by (induction xs) auto

lemma sum_delete:
  "distinct (map fst xs) \<Longrightarrow> map_of xs k = Some v \<Longrightarrow>
     sum_list (map (f \<circ> snd) (AList.delete k xs)) + f v = (sum_list (map (f \<circ> snd) xs) :: int)"
  by (induction xs) (auto simp: image_iff)

lemma ledger_balance:
  assumes "distinct (map fst (ld_reservations l))" and "distinct (reserved_ids ops)"
    and "\<forall>k \<in> set (reserved_ids ops). map_of (ld_reservations l) k = None"
  shows "ld_tokens (run_ledger lib ops l) - reserved_tokens (run_ledger lib ops l) =
     ld_tokens l - reserved_tokens l + settled_tokens lib ops l"
  using assms
proof (induction lib ops l rule: settled_tokens.induct)
  case (2 lib clock rid tokens cost ops l)
  let ?t = "ledger_step lib (Reserve clock rid tokens cost) l"
  have run: "reserve_model_call lib clock rid tokens cost l = (fst (reserve_model_call lib clock rid tokens cost l), ?t)"
    by (simp add: ledger_step_def)
  have "rid \<notin> fst ` set (ld_reservations l)" using 2(4) by (simp add: map_of_eq_None_iff)
  then have "distinct (map fst (ld_reservations ?t)) \<and> (\<forall>k \<in> set (reserved_ids ops). map_of (ld_reservations ?t) k = None) \<and>
      ld_tokens ?t - reserved_tokens ?t = ld_tokens l - reserved_tokens l"
    using reserve_cases[OF run] 2(2-4) by (auto simp: update_fresh reserved_tokens_def map_add_def split: option.splits)
  then show ?case using "2.IH" 2(3) by (simp add: run_ledger_def)
next
  case (3 lib rid tokens cost ops l)
  let ?t = "ledger_step lib (Reconcile rid tokens cost) l"
  have run: "reconcile_model_call lib rid tokens cost l = (fst (reconcile_model_call lib rid tokens cost l), ?t)"
    by (simp add: ledger_step_def)
  have "distinct (map fst (ld_reservations ?t)) \<and> (\<forall>k \<in> set (reserved_ids ops). map_of (ld_reservations ?t) k = None) \<and>
      ld_tokens ?t - reserved_tokens ?t = ld_tokens l - reserved_tokens l +
        (if map_of (ld_reservations l) rid = None then 0 else tokens)"
  proof (cases "map_of (ld_reservations l) rid")
    case None
    then show ?thesis using reconcile_cases[OF run] 3(2-4) by auto
  next
    case (Some v)
    then show ?thesis
      using reconcile_cases[OF run] 3(2-4) sum_delete[OF 3(2) Some, of fst]
      by (auto simp: reserved_tokens_def distinct_delete delete_conv')
  qed
  then show ?case using "3.IH" 3(3) by (simp add: run_ledger_def)
qed (simp add: run_ledger_def)

subsection \<open>Honest providers\<close>

text \<open>Every settlement stays within every reservation made under its UUID.\<close>

definition settles_within :: "'f ledger_op list \<Rightarrow> bool" where
  "settles_within ops \<longleftrightarrow> (\<forall>rid a c clock p q.
     Reconcile rid a c \<in> set ops \<longrightarrow> Reserve clock rid p q \<in> set ops \<longrightarrow> a \<le> p)"

definition reserved_by :: "'f ledger_op list \<Rightarrow> 'f ledger \<Rightarrow> bool" where
  "reserved_by all l \<longleftrightarrow> (\<forall>rid p c. map_of (ld_reservations l) rid = Some (p, c) \<longrightarrow> (\<exists>clock. Reserve clock rid p c \<in> set all))"

lemma reserved_by_step:
  assumes "reserved_by all l" and "op \<in> set all"
  shows "reserved_by all (ledger_step lib op l)"
proof (cases op)
  case (Reserve clock rid tokens cost)
  then show ?thesis
    using assms reserve_cases[OF prod.collapse[symmetric], where lib = lib and l = l and rid = rid and tokens = tokens and cost = cost and clock = clock]
    by (auto simp: ledger_step_def reserved_by_def update_conv' split: if_splits)
next
  case (Reconcile rid tokens cost)
  then show ?thesis
    using assms reconcile_cases[OF prod.collapse[symmetric], where lib = lib and l = l and rid = rid and tokens = tokens and cost = cost]
    by (auto simp: ledger_step_def reserved_by_def delete_conv' split: if_splits)
qed

lemma honest_operations:
  assumes "settles_within all" and "reserved_by all l" and "set ops \<subseteq> set all"
  shows "ledger_tokens.all_honest lib (map account_op ops) l"
  using assms(2,3)
proof (induction ops arbitrary: l)
  case (Cons op ops)
  have step: "reserved_by all (ledger_step lib op l)"
    using reserved_by_step[OF Cons.prems(1)] Cons.prems(2) by simp
  have "within_estimate (rid, tokens, cost) l" if "op = Reconcile rid tokens cost" for rid tokens cost
    using assms(1) Cons.prems that unfolding within_estimate_def settles_within_def reserved_by_def
    by (fastforce split: option.splits)
  then show ?case
    using Cons.IH[OF step] Cons.prems(2) by (cases op) (simp_all add: ledger_step_def)
qed simp

text \<open>
  C29. The ledger of a supervised run, whatever the order of its calls: never more provider calls
  than allowed; the tokens on the books are exactly those still reserved plus those settled with
  the provider's numbers; and as long as no provider reports more than was reserved for its call,
  the token budget holds at every moment, at whatever time the calls settle.
\<close>

theorem ledger_keeps_its_books:
  assumes "0 \<le> max_calls" and "0 \<le> token_budget" and "distinct (reserved_ids ops)"
  shows "let l0 = new_ledger lib max_calls token_budget cost_budget deadline; l = run_ledger lib ops l0
    in ld_calls l \<le> max_calls \<and>
       ld_tokens l = reserved_tokens l + settled_tokens lib ops l0 \<and>
       (settles_within ops \<longrightarrow> ld_tokens l \<le> token_budget)"
proof -
  let ?l0 = "new_ledger lib max_calls token_budget cost_budget deadline"
  have "ld_calls (run_ledger lib ops ?l0) \<le> max_calls"
    using run_ledger_calls[of ?l0 lib ops] assms(1) by (simp add: new_ledger_def)
  moreover have "ld_tokens (run_ledger lib ops ?l0) = reserved_tokens (run_ledger lib ops ?l0) + settled_tokens lib ops ?l0"
    using ledger_balance[of ?l0 ops lib] assms(3) by (simp add: new_ledger_def reserved_tokens_def)
  moreover have "ld_tokens (run_ledger lib ops ?l0) \<le> token_budget" if "settles_within ops"
  proof -
    have "ledger_tokens.all_honest lib (map account_op ops) ?l0"
      using honest_operations[OF that, of ?l0 ops lib] by (simp add: reserved_by_def new_ledger_def)
    then show ?thesis
      using ledger_tokens.operations_within[of lib "map account_op ops" ?l0]
        ledger_tokens.operations_limit[of lib "map account_op ops" ?l0] assms(2)
      by (simp add: run_ledger_operations new_ledger_def)
  qed
  ultimately show ?thesis by (simp add: Let_def)
qed

section \<open>The allocator as an account\<close>

fun worker_request :: "'f pylib \<Rightarrow> 'f task \<times> 'f budget_vector option \<Rightarrow> ('f allocator, budget_error, 'f budget_vector) prog" where
  "worker_request lib (t, effective_budget) = reserve_worker lib t effective_budget"

definition run_allocator :: "'f pylib \<Rightarrow> ('f task \<times> 'f budget_vector option) list \<Rightarrow> 'f allocator \<Rightarrow> 'f allocator" where
  "run_allocator lib qs al = fold (\<lambda>q al. snd (worker_request lib q al)) qs al"

lemma worker_cases:
  "reserve_worker lib t eff al = (r, al') \<Longrightarrow>
     (\<exists>e. r = Inl e \<and> al' = al) \<or>
     (\<exists>v. r = Inr v \<and> map_of (al_allocations al) (tk_task_id t) = Some v \<and> al' = al) \<or>
     (\<exists>v. r = Inr v \<and> map_of (al_allocations al) (tk_task_id t) = None \<and>
        al' = al\<lparr>al_allocations := al_allocations al @ [(tk_task_id t, v)]\<rparr> \<and>
        int (length (al_allocations al)) + 1 \<le> al_capacity al \<and>
        sum_list (allocated bv_calls al) + bv_calls v \<le> al_max_calls al \<and>
        sum_list (allocated bv_tokens al) + bv_tokens v \<le> al_token_budget al \<and>
        \<not> lib_less lib (al_cost_budget al) (lib_add lib (float_sum lib (allocated bv_cost al)) (bv_cost v)))"
  by (cases "case eff of Some v \<Rightarrow> Inr v | None \<Rightarrow> task_vector lib t")
    (auto simp: reserve_worker_def bnd_def gets_def modify_def require_def ret_def throw_def lift_def map_of_eq_None_iff update_fresh
      split: if_splits option.splits)

lemma allocated_snoc: "allocated f (al\<lparr>al_allocations := al_allocations al @ [(k, v)]\<rparr>) = allocated f al @ [f v]"
  by (simp add: allocated_def)

lemma float_sum_snoc: "float_sum lib (xs @ [x]) = lib_add lib (float_sum lib xs) x"
  by (simp add: float_sum_def)

interpretation worker_calls: account "worker_request lib" "\<lambda>al. sum_list (allocated bv_calls al)" al_max_calls for lib
  by unfold_locales (auto elim!: worker_request.elims dest!: worker_cases simp: allocated_snoc)

interpretation worker_tokens: account "worker_request lib" "\<lambda>al. sum_list (allocated bv_tokens al)" al_token_budget for lib
  by unfold_locales (auto elim!: worker_request.elims dest!: worker_cases simp: allocated_snoc)

interpretation worker_count: account "worker_request lib" "\<lambda>al. int (length (al_allocations al))" al_capacity for lib
  by unfold_locales (auto elim!: worker_request.elims dest!: worker_cases)

definition cost_within :: "'f pylib \<Rightarrow> 'f allocator \<Rightarrow> bool" where
  "cost_within lib al \<longleftrightarrow> \<not> lib_less lib (al_cost_budget al) (float_sum lib (allocated bv_cost al))"

lemma worker_step:
  assumes "worker_request lib q al = (r, al')"
  shows "(cost_within lib al \<longrightarrow> cost_within lib al') \<and> al_cost_budget al' = al_cost_budget al \<and>
     (\<forall>k v. map_of (al_allocations al) k = Some v \<longrightarrow> map_of (al_allocations al') k = Some v)"
  using assms
  by (cases q) (auto dest!: worker_cases simp: cost_within_def allocated_snoc float_sum_snoc map_add_def split: option.splits)

lemma run_allocator_keeps:
  "(cost_within lib al \<longrightarrow> cost_within lib (run_allocator lib qs al)) \<and>
   al_cost_budget (run_allocator lib qs al) = al_cost_budget al \<and>
   (\<forall>k v. map_of (al_allocations al) k = Some v \<longrightarrow> map_of (al_allocations (run_allocator lib qs al)) k = Some v)"
proof (induction qs arbitrary: al)
  case (Cons q qs)
  then show ?case
    using worker_step[of lib q al, OF prod.collapse[symmetric]] by (simp add: run_allocator_def)
qed (simp add: run_allocator_def)

lemma reserve_existing:
  "map_of (al_allocations al) (tk_task_id t) = Some v \<Longrightarrow> reserve_worker lib t (Some eff) al = (Inr v, al)"
  by (simp add: reserve_worker_def bnd_def gets_def lift_def ret_def)

text \<open>
  C30. Concurrent workers cannot oversubscribe a fan-out: after any sequence of reservations the
  budgets handed out add up to no more than the run's call, token and cost budgets and its worker
  capacity, and a worker that asks again, at any later time, is given the same budget once more
  without being charged for it.
\<close>

theorem allocations_fit_and_stay:
  assumes "0 \<le> max_calls" and "0 \<le> token_budget" and "0 \<le> capacity" and "\<not> lib_less lib cost_budget (lib_zero lib)"
  shows "let al = run_allocator lib qs (new_allocator max_calls token_budget cost_budget capacity)
    in sum_list (allocated bv_calls al) \<le> max_calls \<and> sum_list (allocated bv_tokens al) \<le> token_budget \<and>
       \<not> lib_less lib cost_budget (float_sum lib (allocated bv_cost al)) \<and> int (length (al_allocations al)) \<le> capacity \<and>
       (case reserve_worker lib t eff al of
          (Inl _, al') \<Rightarrow> al' = al
        | (Inr v, al') \<Rightarrow> reserve_worker lib t (Some eff') (run_allocator lib later al') = (Inr v, run_allocator lib later al'))"
proof -
  let ?start = "new_allocator max_calls token_budget cost_budget capacity"
  let ?al = "run_allocator lib qs ?start"
  have runs: "worker_calls.grants lib qs ?start = ?al" "worker_tokens.grants lib qs ?start = ?al" "worker_count.grants lib qs ?start = ?al"
    by (simp_all add: run_allocator_def worker_calls.grants_def worker_tokens.grants_def worker_count.grants_def)
  have "sum_list (allocated bv_calls ?al) \<le> max_calls"
    using worker_calls.grants_within[of ?start lib qs] assms(1) runs by (simp add: new_allocator_def allocated_def)
  moreover have "sum_list (allocated bv_tokens ?al) \<le> token_budget"
    using worker_tokens.grants_within[of ?start lib qs] assms(2) runs by (simp add: new_allocator_def allocated_def)
  moreover have "int (length (al_allocations ?al)) \<le> capacity"
    using worker_count.grants_within[of ?start lib qs] assms(3) runs by (simp add: new_allocator_def)
  moreover have "\<not> lib_less lib cost_budget (float_sum lib (allocated bv_cost ?al))"
  proof -
    have "cost_within lib ?start" and "al_cost_budget ?start = cost_budget"
      using assms(4) by (simp_all add: cost_within_def new_allocator_def allocated_def float_sum_def)
    then show ?thesis using run_allocator_keeps[of lib ?start qs] unfolding cost_within_def by metis
  qed
  moreover have "case reserve_worker lib t eff ?al of (Inl _, al') \<Rightarrow> al' = ?al
        | (Inr v, al') \<Rightarrow> reserve_worker lib t (Some eff') (run_allocator lib later al') = (Inr v, run_allocator lib later al')"
  proof (cases "reserve_worker lib t eff ?al")
    case (Pair r al')
    have "map_of (al_allocations al') (tk_task_id t) = Some v" if "r = Inr v" for v
      using worker_cases[OF Pair] that by (auto simp: map_add_def)
    then have "reserve_worker lib t (Some eff') (run_allocator lib later al') = (Inr v, run_allocator lib later al')" if "r = Inr v" for v
      using that run_allocator_keeps[of lib al' later] by (intro reserve_existing) blast
    then show ?thesis
      using worker_cases[OF Pair] by (cases r) (auto simp: Pair)
  qed
  ultimately show ?thesis by (simp add: Let_def)
qed

end
