(* ===== verification/Resilience.thy ===== *)
theory Resilience
  imports Budgets Sql_Text
begin

text \<open>
  Retries and circuit breaking of the supervisor: \<open>agent/supervisor/resilience.py\<close>, and the retry
  loop \<open>invoke_specialist_with_resilience\<close> of \<open>agent/supervisor/runtime.py\<close>.

  The clock, the timer, the audit log and the specialist itself are the environment, which may
  answer anything: it maps the current world to an answer and the next world. Instants are
  integers in microseconds; a naive time is read as UTC.
\<close>

section \<open>The circuit breaker\<close>

definition RETRYABLE_ERROR_MARKERS :: "string list" where
  "RETRYABLE_ERROR_MARKERS = [''connection aborted'', ''connection refused'', ''connection reset'', ''connecttimeout'',
     ''readtimeout'', ''remote disconnected'', ''temporarily unavailable'', ''timeouterror'', ''timed out'']"

definition CIRCUIT_FAILURE_STATUSES :: "string list" where
  "CIRCUIT_FAILURE_STATUSES = [''failed'', ''timed_out'']"

definition CIRCUIT_RESET_STATUSES :: "string list" where
  "CIRCUIT_RESET_STATUSES = [''partial'', ''success'']"

datatype circuit_state = Circuit_Closed | Circuit_Open | Circuit_Half_Open

datatype failure_category =
  Cat_Circuit_Open | Cat_Hard_Timeout | Cat_Policy_Blocked | Cat_Specialist_Failed | Cat_Transient_Failure
| Cat_Timer_Unavailable

record circuit_policy =
  cb_threshold :: int
  cb_window :: int
  cb_recovery :: int
  cb_limit :: int

definition valid_policy :: "circuit_policy \<Rightarrow> bool" where
  "valid_policy p \<longleftrightarrow> 1 \<le> cb_threshold p \<and> cb_threshold p \<le> 20 \<and> 60 \<le> cb_window p \<and> cb_window p \<le> 86400 \<and>
     1 \<le> cb_recovery p \<and> cb_recovery p \<le> 86400 \<and> 1 \<le> cb_limit p \<and> cb_limit p \<le> 100"

record circuit_snapshot =
  sn_specialist :: string
  sn_state :: circuit_state
  sn_allowed :: bool
  sn_failures :: int
  sn_threshold :: int
  sn_retry_after :: int
  sn_last_failure :: "int option"

datatype circuit_error = Not_Registered refusal | Bad_Timestamp | Missing_Timestamp | Circuit_Is_Open circuit_snapshot

datatype timestamp = Ts_Instant int | Ts_Text string | Ts_Other

definition new_line :: string where
  "new_line = [CHR 0x0A]"

definition build_circuit_history_sql :: "string \<Rightarrow> circuit_policy \<Rightarrow> refusal + string" where
  "build_circuit_history_sql specialist_name p =
     and_then (get_agent_capability specialist_name) (\<lambda>_. Inr (concat (map (\<lambda>line. new_line @ line)
       [''        SELECT'', ''            ts,'', ''            status'', ''        FROM dq.agent_audit_log'',
        ''        WHERE action = '' @ quote_sql_literal ''supervisor_specialist_outcome'',
        ''          AND tool_name = '' @ quote_sql_literal ''control_plane_supervisor'',
        ''          AND JSONExtractString(output_json, '' @ quote_sql_literal ''selected_specialist'' @ '') = '' @
          quote_sql_literal specialist_name,
        ''          AND ts >= now64(3) - INTERVAL '' @ int_str (cb_window p) @ '' SECOND'',
        ''        ORDER BY ts DESC'', ''        LIMIT '' @ int_str (cb_limit p), ''    ''])))"

definition closed_circuit_snapshot :: "string \<Rightarrow> circuit_policy \<Rightarrow> refusal + circuit_snapshot" where
  "closed_circuit_snapshot specialist_name p =
     and_then (get_agent_capability specialist_name) (\<lambda>_.
     Inr \<lparr>sn_specialist = specialist_name, sn_state = Circuit_Closed, sn_allowed = True, sn_failures = 0,
          sn_threshold = cb_threshold p, sn_retry_after = 0, sn_last_failure = None\<rparr>)"

text \<open>\<open>datetime.fromisoformat\<close> is the argument \<open>read_iso\<close>.\<close>

definition parse_circuit_timestamp :: "(string \<Rightarrow> int option) \<Rightarrow> timestamp \<Rightarrow> circuit_error + int" where
  "parse_circuit_timestamp read_iso v = (case v of
      Ts_Instant i \<Rightarrow> Inr i
    | Ts_Text s \<Rightarrow>
        if strip s = [] then Inl Missing_Timestamp
        else (case read_iso (concat (map (\<lambda>c. if c = CHR ''Z'' then ''+00:00'' else [c]) (strip s))) of
                None \<Rightarrow> Inl Bad_Timestamp | Some i \<Rightarrow> Inr i)
    | Ts_Other \<Rightarrow> Inl Missing_Timestamp)"

text \<open>The loop over the audit rows, newest first.\<close>

fun scan_history ::
    "(string \<Rightarrow> int option) \<Rightarrow> (string \<times> timestamp) list \<Rightarrow> int \<Rightarrow> int option \<Rightarrow> circuit_error + int \<times> int option" where
  "scan_history read_iso [] failures last_failure_at = Inr (failures, last_failure_at)"
| "scan_history read_iso ((raw_status, ts) # rows) failures last_failure_at =
     (let status = lower (strip raw_status) in
      if status \<in> set CIRCUIT_RESET_STATUSES then Inr (failures, last_failure_at)
      else if status \<notin> set CIRCUIT_FAILURE_STATUSES then scan_history read_iso rows failures last_failure_at
      else case last_failure_at of
          None \<Rightarrow> and_then (parse_circuit_timestamp read_iso ts) (\<lambda>i. scan_history read_iso rows (failures + 1) (Some i))
        | Some i \<Rightarrow> scan_history read_iso rows (failures + 1) (Some i))"

definition from_refusal :: "refusal + 'a \<Rightarrow> circuit_error + 'a" where
  "from_refusal m = (case m of Inl e \<Rightarrow> Inl (Not_Registered e) | Inr x \<Rightarrow> Inr x)"

text \<open>
  \<open>load_circuit_breaker_snapshot\<close> for a client with a \<open>query\<close> method: \<open>query\<close> gives the rows of
  the statement.
\<close>

definition load_circuit_breaker_snapshot ::
    "(string \<Rightarrow> int option) \<Rightarrow> (string \<Rightarrow> (string \<times> timestamp) list) \<Rightarrow> string \<Rightarrow> circuit_policy \<Rightarrow> int \<Rightarrow>
     circuit_error + circuit_snapshot" where
  "load_circuit_breaker_snapshot read_iso query specialist_name p instant =
     and_then (from_refusal (build_circuit_history_sql specialist_name p)) (\<lambda>statement.
     let rows = query statement in
     if rows = [] then from_refusal (closed_circuit_snapshot specialist_name p)
     else and_then (scan_history read_iso rows 0 None) (\<lambda>(failures, last_failure_at).
       let snapshot = (\<lambda>st retry_after. \<lparr>sn_specialist = specialist_name, sn_state = st,
             sn_allowed = (st \<noteq> Circuit_Open), sn_failures = failures, sn_threshold = cb_threshold p,
             sn_retry_after = retry_after, sn_last_failure = last_failure_at\<rparr>) in
       case last_failure_at of
         None \<Rightarrow> Inr (snapshot Circuit_Closed 0)
       | Some at \<Rightarrow>
           if failures < cb_threshold p then Inr (snapshot Circuit_Closed 0)
           else let elapsed_seconds = max 0 ((instant - at) div 1000000);
                    retry_after = max 0 (cb_recovery p - elapsed_seconds)
                in if 0 < retry_after then Inr (snapshot Circuit_Open retry_after)
                   else Inr (snapshot Circuit_Half_Open 0)))"

definition require_circuit_allows :: "circuit_snapshot \<Rightarrow> circuit_error + unit" where
  "require_circuit_allows s = check (sn_allowed s) (Circuit_Is_Open s)"

section \<open>Retries\<close>

text \<open>
  The exceptions that an attempt can raise. \<open>Base_Exn\<close> is one that \<open>except Exception\<close> does not
  catch; \<open>SupervisorHardTimeout\<close> is one as well, and is caught by name. A contract refusal is a
  \<open>PermissionError\<close> or \<open>ValueError\<close>; the other exceptions carry their type's name.
\<close>

datatype attempt_exn =
  Hard_Timeout | Timer_Unavailable | Retryable_Error string | Os_Timeout string | Os_Connection string
| Other_Exn string string | Base_Exn string

definition marked :: "string \<Rightarrow> bool" where
  "marked error_text \<longleftrightarrow> list_ex (\<lambda>marker. contains marker (lower error_text)) RETRYABLE_ERROR_MARKERS"

definition is_retryable_exception :: "attempt_exn \<Rightarrow> bool" where
  "is_retryable_exception e = (case e of
      Timer_Unavailable \<Rightarrow> False
    | Hard_Timeout \<Rightarrow> True
    | Retryable_Error _ \<Rightarrow> True
    | Os_Timeout _ \<Rightarrow> True
    | Os_Connection _ \<Rightarrow> True
    | Other_Exn name text \<Rightarrow> marked (name @ '': '' @ text)
    | Base_Exn name \<Rightarrow> marked name)"

fun join :: "string \<Rightarrow> string list \<Rightarrow> string" where
  "join sep [] = []"
| "join sep [s] = s"
| "join sep (s # t # ss) = s @ sep @ join sep (t # ss)"

definition is_retryable_result :: "'f result \<Rightarrow> bool" where
  "is_retryable_result r \<longleftrightarrow> rs_status r = Task_Failed \<and> marked (join '' '' (rs_errors r))"

definition retry_is_allowed :: "capability \<Rightarrow> int \<Rightarrow> int \<Rightarrow> bool" where
  "retry_is_allowed c retries_consumed max_retries \<longleftrightarrow> cp_retry_safe c \<and> retries_consumed < max_retries"

text \<open>\<open>min(2.0, 0.25 * (2 ** retries_consumed))\<close>\<close>

definition retry_backoff_seconds :: "'f pylib \<Rightarrow> int \<Rightarrow> 'f" where
  "retry_backoff_seconds lib retries_consumed =
     (let backoff = lib_mul lib (lib_literal lib ''0.25'') (lib_literal lib (int_str (2 ^ nat retries_consumed)))
      in if lib_less lib backoff (lib_literal lib ''2.0'') then backoff else lib_literal lib ''2.0'')"

record ('w, 'f) surroundings =
  read_clock :: "'w \<Rightarrow> 'f \<times> 'w"
  timer_available :: "'w \<Rightarrow> bool"
  run_specialist :: "'f task \<Rightarrow> 'w \<Rightarrow> (attempt_exn + 'f result) \<times> 'w"
  refusal_text :: "refusal \<Rightarrow> string"
  write_audit :: "string \<Rightarrow> 'w \<Rightarrow> attempt_exn option \<times> 'w"
  sleep :: "'f \<Rightarrow> 'w \<Rightarrow> 'w"

text \<open>The log keeps the order of what the loop did: audit actions, and the specialist's runs.\<close>

datatype happening = Audited string | Invoked

record 'w loop_state =
  lp_world :: 'w
  lp_log :: "happening list"

datatype 'f loop_error =
    Unknown_Specialist refusal
  | Retries_Not_Eligible
  | Audit_Raised attempt_exn
  | Invocation_Failure failure_category int int attempt_exn
  | Escaped attempt_exn

record 'f invocation_outcome =
  io_result :: "'f result"
  io_retries :: int
  io_attempts :: int

type_synonym ('w, 'f, 'a) loop_prog = "('w loop_state, 'f loop_error, 'a) prog"

definition audit :: "('w, 'f) surroundings \<Rightarrow> string \<Rightarrow> ('w, 'f, unit) loop_prog" where
  "audit env action s = (case write_audit env action (lp_world s) of
      (None, w) \<Rightarrow> (Inr (), s\<lparr>lp_world := w, lp_log := lp_log s @ [Audited action]\<rparr>)
    | (Some e, w) \<Rightarrow> (Inl (Audit_Raised e), s\<lparr>lp_world := w\<rparr>))"

definition clock_now :: "('w, 'f) surroundings \<Rightarrow> ('w, 'f, 'f) loop_prog" where
  "clock_now env s = (case read_clock env (lp_world s) of (t, w) \<Rightarrow> (Inr t, s\<lparr>lp_world := w\<rparr>))"

text \<open>
  The body of the \<open>try\<close>: the specialist runs under \<open>enforce_hard_deadline\<close> and its result passes
  the contract. What the alarm does to a running specialist is part of \<open>run_specialist\<close>.
\<close>

definition attempt_body ::
    "'f pylib \<Rightarrow> ('w, 'f) surroundings \<Rightarrow> 'f task \<Rightarrow> 'f \<Rightarrow> ('w, 'f, attempt_exn + 'f result) loop_prog" where
  "attempt_body lib env t deadline =
     bnd (clock_now env) (\<lambda>clock.
     if lib_le lib (lib_sub lib deadline clock) (lib_zero lib) then ret (Inl Hard_Timeout)
     else bnd (gets (\<lambda>s. timer_available env (lp_world s))) (\<lambda>armed.
     if \<not> armed then ret (Inl Timer_Unavailable)
     else (\<lambda>s. case run_specialist env t (lp_world s) of
        (outcome, w) \<Rightarrow> (Inr (case outcome of
              Inl e \<Rightarrow> Inl e
            | Inr r \<Rightarrow> (case enforce_result_contract lib t r of
                  Inl why \<Rightarrow> Inl (Other_Exn ''PermissionError'' (refusal_text env why))
                | Inr v \<Rightarrow> Inr v)),
            s\<lparr>lp_world := w, lp_log := lp_log s @ [Invoked]\<rparr>))))"

text \<open>(allowed, backoff, stopped by the deadline)\<close>

definition resolve_retry_schedule ::
    "'f pylib \<Rightarrow> ('w, 'f) surroundings \<Rightarrow> capability \<Rightarrow> int \<Rightarrow> int \<Rightarrow> 'f \<Rightarrow> ('w, 'f, bool \<times> 'f \<times> bool) loop_prog" where
  "resolve_retry_schedule lib env c retries_consumed max_retries deadline =
     (if \<not> retry_is_allowed c retries_consumed max_retries then ret (False, lib_zero lib, False)
      else bnd (clock_now env) (\<lambda>clock.
        let backoff = retry_backoff_seconds lib retries_consumed;
            deadline_blocked = lib_le lib deadline (lib_add lib clock backoff)
        in ret (\<not> deadline_blocked, backoff, deadline_blocked)))"

text \<open>One pass of the loop: an outcome to return, or the backoff before the next attempt.\<close>

datatype 'f pass = Finished "'f invocation_outcome" | Again 'f

definition after_exception ::
    "'f pylib \<Rightarrow> ('w, 'f) surroundings \<Rightarrow> capability \<Rightarrow> int \<Rightarrow> 'f \<Rightarrow> int \<Rightarrow> int \<Rightarrow> attempt_exn \<Rightarrow> ('w, 'f, 'f pass) loop_prog" where
  "after_exception lib env c max_retries deadline retries_consumed attempt_number e =
     (case e of
        Base_Exn _ \<Rightarrow> throw (Escaped e)
      | Hard_Timeout \<Rightarrow>
          bnd (audit env ''supervisor_specialist_attempt_timed_out'') (\<lambda>_.
          throw (Invocation_Failure Cat_Hard_Timeout retries_consumed attempt_number e))
      | _ \<Rightarrow>
          let category = (if is_retryable_exception e then Cat_Transient_Failure else Cat_Specialist_Failed) in
          bnd (if category = Cat_Transient_Failure
               then resolve_retry_schedule lib env c retries_consumed max_retries deadline
               else ret (False, lib_zero lib, False)) (\<lambda>(retry_allowed, backoff, deadline_rejected).
          bnd (audit env ''supervisor_specialist_attempt_failed'') (\<lambda>_.
          if \<not> retry_allowed
          then throw (Invocation_Failure
                 (if e = Timer_Unavailable then Cat_Timer_Unavailable
                  else if deadline_rejected then Cat_Hard_Timeout else category) retries_consumed attempt_number e)
          else ret (Again backoff))))"

definition after_result ::
    "'f pylib \<Rightarrow> ('w, 'f) surroundings \<Rightarrow> capability \<Rightarrow> int \<Rightarrow> 'f \<Rightarrow> int \<Rightarrow> int \<Rightarrow> 'f result \<Rightarrow> ('w, 'f, 'f pass) loop_prog" where
  "after_result lib env c max_retries deadline retries_consumed attempt_number candidate =
     (let outcome = \<lparr>io_result = candidate, io_retries = retries_consumed, io_attempts = attempt_number\<rparr> in
      if \<not> is_retryable_result candidate then
        bnd (audit env ''supervisor_specialist_attempt_completed'') (\<lambda>_. ret (Finished outcome))
      else
        bnd (resolve_retry_schedule lib env c retries_consumed max_retries deadline) (\<lambda>(retry_allowed, backoff, _).
        bnd (audit env ''supervisor_specialist_attempt_failed'') (\<lambda>_.
        if \<not> retry_allowed then ret (Finished outcome) else ret (Again backoff))))"

definition loop_pass ::
    "'f pylib \<Rightarrow> ('w, 'f) surroundings \<Rightarrow> 'f task \<Rightarrow> capability \<Rightarrow> int \<Rightarrow> 'f \<Rightarrow> int \<Rightarrow> int \<Rightarrow> ('w, 'f, 'f pass) loop_prog" where
  "loop_pass lib env t c max_retries deadline retries_consumed attempt_number =
     bnd (audit env ''supervisor_specialist_attempt_started'') (\<lambda>_.
     bnd (attempt_body lib env t deadline) (\<lambda>tried.
     bnd (case tried of
            Inl e \<Rightarrow> after_exception lib env c max_retries deadline retries_consumed attempt_number e
          | Inr candidate \<Rightarrow> after_result lib env c max_retries deadline retries_consumed attempt_number candidate) (\<lambda>next.
     case next of
       Finished outcome \<Rightarrow> ret (Finished outcome)
     | Again backoff \<Rightarrow>
         bnd (audit env ''supervisor_specialist_retry_scheduled'') (\<lambda>_.
         bnd (modify (\<lambda>s. s\<lparr>lp_world := sleep env backoff (lp_world s)\<rparr>)) (\<lambda>_. ret (Again backoff))))))"

lemma retry_scheduled_allowed:
  assumes "resolve_retry_schedule lib env c retries max_retries deadline s = (Inr (allowed, x), s')" and "allowed"
  shows "retry_is_allowed c retries max_retries"
  using assms by (auto simp: resolve_retry_schedule_def split: if_splits)

lemma after_exception_again:
  "after_exception lib env c max_retries deadline retries n e s = (Inr p, s') \<Longrightarrow>
     (\<exists>b. p = Again b) \<and> retry_is_allowed c retries max_retries"
  by (cases e) (auto simp: after_exception_def Let_def bnd_Inr dest!: retry_scheduled_allowed split: if_splits)

lemma after_result_again:
  "after_result lib env c max_retries deadline retries n r s = (Inr p, s') \<Longrightarrow>
     p = Finished \<lparr>io_result = r, io_retries = retries, io_attempts = n\<rparr> \<or>
     (\<exists>b. p = Again b) \<and> retry_is_allowed c retries max_retries"
  by (auto simp: after_result_def Let_def bnd_Inr dest!: retry_scheduled_allowed split: if_splits)

lemma loop_pass_again:
  "loop_pass lib env t c max_retries deadline retries n s = (Inr (Again b), s') \<Longrightarrow> retry_is_allowed c retries max_retries"
proof -
  assume "loop_pass lib env t c max_retries deadline retries n s = (Inr (Again b), s')"
  then obtain s1 s2 s3 tried step where "(case tried of
        Inl e \<Rightarrow> after_exception lib env c max_retries deadline retries n e
      | Inr candidate \<Rightarrow> after_result lib env c max_retries deadline retries n candidate) s2 = (Inr step, s3)"
    and "(case step of Finished outcome \<Rightarrow> ret (Finished outcome)
      | Again backoff \<Rightarrow> bnd (audit env ''supervisor_specialist_retry_scheduled'') (\<lambda>_.
          bnd (modify (\<lambda>s. s\<lparr>lp_world := sleep env backoff (lp_world s)\<rparr>)) (\<lambda>_. ret (Again backoff)))) s3 = (Inr (Again b), s')"
    unfolding loop_pass_def bnd_Inr by blast
  then show ?thesis
    by (cases tried; cases step) (auto dest: after_exception_again after_result_again)
qed

text \<open>The \<open>while True\<close> loop. It ends because every further pass has used up one more retry.\<close>

function retry_loop ::
    "'f pylib \<Rightarrow> ('w, 'f) surroundings \<Rightarrow> 'f task \<Rightarrow> capability \<Rightarrow> int \<Rightarrow> 'f \<Rightarrow> int \<Rightarrow> int \<Rightarrow> 'w loop_state \<Rightarrow>
     ('f loop_error + 'f invocation_outcome) \<times> 'w loop_state" where
  "retry_loop lib env t c max_retries deadline retries_consumed attempt_number s =
     (case loop_pass lib env t c max_retries deadline retries_consumed attempt_number s of
        (Inl e, s') \<Rightarrow> (Inl e, s')
      | (Inr (Finished outcome), s') \<Rightarrow> (Inr outcome, s')
      | (Inr (Again _), s') \<Rightarrow>
          retry_loop lib env t c max_retries deadline (retries_consumed + 1) (attempt_number + 1) s')"
  by pat_completeness auto

termination
  by (relation "measure (\<lambda>(lib, env, t, c, max_retries, deadline, retries, n, s). nat (max_retries - retries))")
    (auto simp: retry_is_allowed_def dest!: loop_pass_again[OF sym])

declare retry_loop.simps [simp del]

definition invoke_specialist_with_resilience ::
    "'f pylib \<Rightarrow> ('w, 'f) surroundings \<Rightarrow> 'f task \<Rightarrow> int \<Rightarrow> 'f \<Rightarrow> ('w, 'f, 'f invocation_outcome) loop_prog" where
  "invoke_specialist_with_resilience lib env t max_retries deadline =
     bnd (lift (\<lambda>_. case get_agent_capability (tk_specialist t) of Inl e \<Rightarrow> Inl (Unknown_Specialist e) | Inr c \<Rightarrow> Inr c)) (\<lambda>c.
     bnd (require (\<not> (0 < max_retries \<and> \<not> cp_retry_safe c)) Retries_Not_Eligible) (\<lambda>_.
     retry_loop lib env t c max_retries deadline 0 1))"

section \<open>What the circuit shows\<close>

definition failure_row :: "string \<times> timestamp \<Rightarrow> bool" where
  "failure_row r \<longleftrightarrow> lower (strip (fst r)) \<in> set CIRCUIT_FAILURE_STATUSES"

definition reset_row :: "string \<times> timestamp \<Rightarrow> bool" where
  "reset_row r \<longleftrightarrow> lower (strip (fst r)) \<in> set CIRCUIT_RESET_STATUSES"

text \<open>The failures since the last success, newest first.\<close>

definition current_failures :: "(string \<times> timestamp) list \<Rightarrow> (string \<times> timestamp) list" where
  "current_failures rows = filter failure_row (takeWhile (\<lambda>r. \<not> reset_row r) rows)"

lemma scan_history_Some:
  "scan_history read_iso rows n (Some i) = Inr (n + int (length (current_failures rows)), Some i)"
proof (induction rows arbitrary: n)
  case (Cons r rows)
  then show ?case
    by (cases r) (auto simp: current_failures_def failure_row_def reset_row_def Let_def CIRCUIT_FAILURE_STATUSES_def CIRCUIT_RESET_STATUSES_def)
qed (simp add: current_failures_def)

lemma scan_history_None:
  "scan_history read_iso rows n None =
     (case current_failures rows of
        [] \<Rightarrow> Inr (n, None)
      | r # rs \<Rightarrow> and_then (parse_circuit_timestamp read_iso (snd r)) (\<lambda>i. Inr (n + 1 + int (length rs), Some i)))"
proof (induction rows arbitrary: n)
  case (Cons r rows)
  show ?case
    by (cases r) (use Cons in \<open>auto simp: current_failures_def failure_row_def reset_row_def Let_def scan_history_Some
      CIRCUIT_FAILURE_STATUSES_def CIRCUIT_RESET_STATUSES_def\<close>)
qed (simp add: current_failures_def)

text \<open>
  C31. The breaker in terms of the audit history: it counts exactly the failures since the last
  success or partial success and nothing before it, it is open exactly when they reach the
  threshold and the newest of them is younger than the cooldown, a call is refused exactly while
  it is open, and the announced wait is what is left of the cooldown.
\<close>

theorem circuit_follows_history:
  assumes "load_circuit_breaker_snapshot read_iso query name p instant = Inr sn"
    and "build_circuit_history_sql name p = Inr statement"
  shows "let fs = current_failures (query statement);
             age = (\<lambda>at. max 0 ((instant - at) div 1000000)) in
     sn_failures sn = int (length fs) \<and>
     (case fs of
        [] \<Rightarrow> sn_state sn = Circuit_Closed \<and> sn_last_failure sn = None
      | r # _ \<Rightarrow> (\<exists>at. parse_circuit_timestamp read_iso (snd r) = Inr at \<and> sn_last_failure sn = Some at \<and>
          sn_state sn = (if int (length fs) < cb_threshold p then Circuit_Closed
                         else if age at < cb_recovery p then Circuit_Open else Circuit_Half_Open) \<and>
          (sn_state sn = Circuit_Open \<longrightarrow> sn_retry_after sn = cb_recovery p - age at))) \<and>
     (require_circuit_allows sn = Inr () \<longleftrightarrow> sn_state sn \<noteq> Circuit_Open)"
proof (cases "query statement = []")
  case True
  then show ?thesis
    using assms
    by (auto simp: load_circuit_breaker_snapshot_def from_refusal_def closed_circuit_snapshot_def current_failures_def
        require_circuit_allows_def Let_def split: sum.splits)
next
  case False
  obtain failures last_at where scan: "scan_history read_iso (query statement) 0 None = Inr (failures, last_at)"
    using assms False by (auto simp: load_circuit_breaker_snapshot_def from_refusal_def Let_def)
  show ?thesis
  proof (cases "current_failures (query statement)")
    case Nil
    then have "failures = 0" and "last_at = None" using scan by (auto simp: scan_history_None)
    then show ?thesis
      using assms False scan Nil
      by (auto simp: load_circuit_breaker_snapshot_def from_refusal_def Let_def require_circuit_allows_def)
  next
    case (Cons r rs)
    then obtain at where at: "parse_circuit_timestamp read_iso (snd r) = Inr at" "failures = 1 + int (length rs)" "last_at = Some at"
      using scan by (auto simp: scan_history_None)
    then show ?thesis
      using assms False scan Cons
      by (auto simp: load_circuit_breaker_snapshot_def from_refusal_def Let_def require_circuit_allows_def split: if_splits)
  qed
qed

section \<open>What the loop does\<close>

definition invocations :: "'w loop_state \<Rightarrow> nat" where
  "invocations s = length (filter (\<lambda>h. h = Invoked) (lp_log s))"

definition runs :: "nat \<Rightarrow> ('w, 'f, 'a) loop_prog \<Rightarrow> bool" where
  "runs n m \<longleftrightarrow> (\<forall>s. invocations (snd (m s)) \<le> invocations s + n)"

named_theorems run_rules

lemma runs_bnd [run_rules]: "runs m p \<Longrightarrow> (\<And>x. runs n (f x)) \<Longrightarrow> runs (m + n) (bnd p f)"
  unfolding runs_def bnd_def
  by (auto split: prod.splits sum.splits) (metis add_leD1 add.assoc add_mono order_trans snd_conv le_add1 nat_add_left_cancel_le add.commute)+

lemma runs_quiet [run_rules]:
  "runs n (ret x)" "runs n (throw e)" "runs n (gets f)" "runs n (audit env a)" "runs n (clock_now env)"
  by (auto simp: runs_def invocations_def audit_def clock_now_def split: prod.splits option.splits)

lemma runs_quiet_bnd: "runs 0 p \<Longrightarrow> (\<And>x. runs n (f x)) \<Longrightarrow> runs n (bnd p f)"
  using runs_bnd[of 0 p n f] by simp

lemma runs_attempt: "runs 1 (attempt_body lib env t deadline)"
  unfolding attempt_body_def
  by (intro runs_quiet_bnd run_rules) (auto simp: runs_def invocations_def split: prod.splits intro!: run_rules)

lemma runs_schedule: "runs 0 (resolve_retry_schedule lib env c retries max_retries deadline)"
  unfolding resolve_retry_schedule_def by (auto simp: Let_def intro!: runs_quiet_bnd run_rules)

lemma runs_after:
  "runs 0 (after_exception lib env c max_retries deadline retries n e)"
  "runs 0 (after_result lib env c max_retries deadline retries n r)"
  by (cases e; auto simp: after_exception_def Let_def intro!: runs_quiet_bnd run_rules runs_schedule split: prod.splits)
    (auto simp: after_result_def Let_def intro!: runs_quiet_bnd run_rules runs_schedule split: prod.splits)

lemma runs_modify: "(\<And>s. lp_log (f s) = lp_log s) \<Longrightarrow> runs 0 (modify f)"
  by (simp add: runs_def invocations_def)

lemma runs_loop_pass: "runs 1 (loop_pass lib env t c max_retries deadline retries n)"
proof -
  have last: "runs 0 (case p of Finished outcome \<Rightarrow> ret (Finished outcome)
      | Again backoff \<Rightarrow> bnd (audit env a) (\<lambda>_.
          bnd (modify (\<lambda>s. s\<lparr>lp_world := sleep env backoff (lp_world s)\<rparr>)) (\<lambda>_. ret (Again backoff))))" for p a
    by (cases p) (auto intro!: runs_quiet_bnd run_rules runs_modify)
  show ?thesis
    unfolding loop_pass_def
    by (rule runs_quiet_bnd[OF runs_quiet(4)], rule runs_bnd[OF runs_attempt, where n = 0, unfolded add_0_right])
      (auto intro!: runs_quiet_bnd runs_after last split: sum.splits)
qed

lemma retry_loop_invocations:
  "invocations (snd (retry_loop lib env t c max_retries deadline retries n s)) \<le>
     invocations s + (if cp_retry_safe c then nat (max_retries - retries) else 0) + 1"
proof (induction lib env t c max_retries deadline retries n s rule: retry_loop.induct)
  case (1 lib env t c max_retries deadline retries n s)
  let ?p = "loop_pass lib env t c max_retries deadline retries n s"
  have once: "invocations (snd ?p) \<le> invocations s + 1"
    using runs_loop_pass[of lib env t c max_retries deadline retries n] by (simp add: runs_def)
  show ?case
  proof (cases "fst ?p")
    case (Inl e)
    then show ?thesis using once by (cases ?p) (simp add: retry_loop.simps)
  next
    case (Inr p)
    show ?thesis
    proof (cases p)
      case (Finished outcome)
      then show ?thesis using once Inr by (cases ?p) (simp add: retry_loop.simps)
    next
      case (Again b)
      then have run: "?p = (Inr (Again b), snd ?p)" using Inr by (metis prod.collapse)
      then have allowed: "cp_retry_safe c" "retries < max_retries"
        using loop_pass_again[OF run] by (simp_all add: retry_is_allowed_def)
      have "invocations (snd (retry_loop lib env t c max_retries deadline (retries + 1) (n + 1) (snd ?p))) \<le>
          invocations (snd ?p) + nat (max_retries - (retries + 1)) + 1"
        using "1.IH"[OF run[symmetric]] Again allowed by fastforce
      moreover have "nat (max_retries - retries) = nat (max_retries - (retries + 1)) + 1" using allowed by simp
      ultimately show ?thesis
        using once allowed by (subst retry_loop.simps, subst run) simp
    qed
  qed
qed

lemma specialist_Inr:
  "(case run_specialist env t w of (outcome, w') \<Rightarrow>
      (Inr (case outcome of Inl e \<Rightarrow> Inl e
            | Inr r \<Rightarrow> (case enforce_result_contract lib t r of Inl why \<Rightarrow> Inl (g why) | Inr v \<Rightarrow> Inr v)), f w')) = (Inr (Inr v), s') \<Longrightarrow>
     \<exists>raw. enforce_result_contract lib t raw = Inr v"
  by (cases "run_specialist env t w") (auto split: sum.splits)

lemma attempt_body_Inr:
  "attempt_body lib env t deadline s = (Inr (Inr v), s') \<Longrightarrow> \<exists>raw. enforce_result_contract lib t raw = Inr v"
  unfolding attempt_body_def bnd_Inr
  by (elim exE conjE) (auto simp: bnd_Inr split: if_splits dest: specialist_Inr)

lemma loop_pass_finished:
  assumes "loop_pass lib env t c max_retries deadline retries n s = (Inr (Finished out), s')"
  shows "io_retries out = retries \<and> io_attempts out = n \<and> (\<exists>r. enforce_result_contract lib t r = Inr (io_result out))"
proof -
  obtain s1 s2 s3 tried step where body: "attempt_body lib env t deadline s1 = (Inr tried, s2)"
    and mid: "(case tried of
        Inl e \<Rightarrow> after_exception lib env c max_retries deadline retries n e
      | Inr candidate \<Rightarrow> after_result lib env c max_retries deadline retries n candidate) s2 = (Inr step, s3)"
    and step: "(case step of Finished outcome \<Rightarrow> ret (Finished outcome)
      | Again backoff \<Rightarrow> bnd (audit env ''supervisor_specialist_retry_scheduled'') (\<lambda>_.
          bnd (modify (\<lambda>s. s\<lparr>lp_world := sleep env backoff (lp_world s)\<rparr>)) (\<lambda>_. ret (Again backoff)))) s3 = (Inr (Finished out), s')"
    using assms unfolding loop_pass_def bnd_Inr by blast
  then have step_is: "step = Finished out" by (cases step) (auto simp: bnd_Inr)
  obtain r where r: "tried = Inr r" using mid step_is by (cases tried) (auto dest: after_exception_again)
  then have "\<exists>raw. enforce_result_contract lib t raw = Inr r"
    using body by (auto dest: attempt_body_Inr)
  then show ?thesis using mid r step_is by (auto dest!: after_result_again)
qed

lemma retry_loop_outcome:
  "retry_loop lib env t c max_retries deadline retries n s = (Inr out, s') \<Longrightarrow>
     retries \<le> io_retries out \<and> io_retries out \<le> max retries max_retries \<and> io_attempts out - io_retries out = n - retries \<and>
     (\<exists>r. enforce_result_contract lib t r = Inr (io_result out))"
proof (induction lib env t c max_retries deadline retries n s arbitrary: out s' rule: retry_loop.induct)
  case (1 lib env t c max_retries deadline retries n s)
  show ?case
  proof (cases "loop_pass lib env t c max_retries deadline retries n s")
    case (Pair r s1)
    show ?thesis
    proof (cases r)
      case (Inl e)
      then show ?thesis using "1.prems" Pair by (simp add: retry_loop.simps)
    next
      case (Inr p)
      show ?thesis
      proof (cases p)
        case (Finished o1)
        then show ?thesis
          using "1.prems" Pair Inr loop_pass_finished[of lib env t c max_retries deadline retries n s o1 s1]
          by (simp add: retry_loop.simps)
      next
        case (Again b)
        then have "retries < max_retries"
          using loop_pass_again[of lib env t c max_retries deadline retries n s b s1] Pair Inr by (simp add: retry_is_allowed_def)
        moreover have "retry_loop lib env t c max_retries deadline (retries + 1) (n + 1) s1 = (Inr out, s')"
          using "1.prems" Pair Inr Again by (simp add: retry_loop.simps[of _ _ _ _ _ _ retries])
        ultimately show ?thesis using "1.IH"[OF Pair[symmetric] Inr Again] by fastforce
      qed
    qed
  qed
qed

text \<open>
  C32. The retry loop is finite and harmless, whatever the clock, the audit log and the specialist
  do: an invocation always comes back, after at most \<open>max_retries\<close> + 1 runs of the specialist; a
  specialist is run a second time only if the registry marks it as retry-safe, and then its only
  side effect is to append audit events; and the outcome it returns passed the result contract and
  counts its attempts correctly.
\<close>

theorem retries_bounded_and_harmless:
  "case invoke_specialist_with_resilience lib env t max_retries deadline s of (out, s') \<Rightarrow>
     invocations s' \<le> invocations s + nat max_retries + 1 \<and>
     (invocations s + 1 < invocations s' \<longrightarrow>
        (\<exists>c. get_agent_capability (tk_specialist t) = Inr c \<and> cp_retry_safe c \<and> \<not> cp_mutation c \<and>
           set (cp_side_effects c) \<subseteq> {''append_audit_events''})) \<and>
     (case out of Inl _ \<Rightarrow> True
      | Inr done_well \<Rightarrow> io_attempts done_well = io_retries done_well + 1 \<and> 0 \<le> io_retries done_well \<and>
          io_retries done_well \<le> max 0 max_retries \<and>
          (\<exists>r. enforce_result_contract lib t r = Inr (io_result done_well)))"
proof (cases "get_agent_capability (tk_specialist t)")
  case (Inl e)
  then show ?thesis by (simp add: invoke_specialist_with_resilience_def bnd_def lift_def)
next
  case (Inr c)
  then have "(lower (strip (tk_specialist t)), c) \<in> set AGENT_CAPABILITY_REGISTRY"
    by (auto simp: get_agent_capability_def split: option.splits dest: map_of_SomeD)
  then have sound: "validate_unique_capabilities c" "\<not> cp_mutation c"
    using registry_sound by (auto simp: list_all_iff)
  show ?thesis
  proof (cases "0 < max_retries \<and> \<not> cp_retry_safe c")
    case True
    then show ?thesis using Inr by (simp add: invoke_specialist_with_resilience_def bnd_def lift_def)
  next
    case False
    let ?run = "retry_loop lib env t c max_retries deadline 0 1 s"
    have run: "invoke_specialist_with_resilience lib env t max_retries deadline s = ?run"
      using Inr False by (simp add: invoke_specialist_with_resilience_def bnd_def lift_def)
    have count: "invocations (snd ?run) \<le> invocations s + (if cp_retry_safe c then nat max_retries else 0) + 1"
      using retry_loop_invocations[of lib env t c max_retries deadline 0 1 s] unfolding diff_0_right .
    have "\<exists>c'. get_agent_capability (tk_specialist t) = Inr c' \<and> cp_retry_safe c' \<and> \<not> cp_mutation c' \<and>
        set (cp_side_effects c') \<subseteq> {''append_audit_events''}" if "invocations s + 1 < invocations (snd ?run)"
      using Inr count that sound by (auto simp: validate_unique_capabilities_def list_ex_iff split: if_splits)
    moreover have "case fst ?run of Inl _ \<Rightarrow> True
      | Inr out \<Rightarrow> io_attempts out = io_retries out + 1 \<and> 0 \<le> io_retries out \<and> io_retries out \<le> max 0 max_retries \<and>
          (\<exists>r. enforce_result_contract lib t r = Inr (io_result out))"
      using retry_loop_outcome[of lib env t c max_retries deadline 0 1 s _ "snd ?run"]
      by (cases ?run) (auto split: sum.splits)
    moreover have "invocations (snd ?run) \<le> invocations s + nat max_retries + 1"
      using count by (simp split: if_splits)
    ultimately show ?thesis by (simp add: run case_prod_unfold)
  qed
qed

end
