(* ===== verification/Supervisor_Instance.thy ===== *)
theory Supervisor_Instance
  imports Resilience
begin

text \<open>
  Concrete tasks, results, plans and ledgers of the supervisor, at which the theorems'
  hypotheses hold. Floats are instantiated by integers in units of 1/100.
\<close>

definition trial_lib :: "int pylib" where
  "trial_lib = \<lparr>lib_literal = (\<lambda>s. if s = ''0.05'' then 5 else if s = ''0.15'' then 15 else if s = ''1.0'' then 100
       else if s = ''1000'' then 1000 else 0),
     lib_add = (+), lib_sub = (-), lib_mul = (*), lib_trunc = (\<lambda>x. x), lib_le = (\<le>), lib_less = (<), lib_round8 = (\<lambda>x. x),
     lib_json = (\<lambda>_. [])\<rparr>"

lemma payload_accepted_iff_witness:
  "validate_bounded_payload trial_lib [(''alert'', JArr [JObj [(''note'', JStr ''x'')]])] ''input_payload''
     = Inr [(''alert'', JArr [JObj [(''note'', JStr ''x'')]])]"
proof -
  have "length (spaced (lib_json trial_lib) (JObj [(''alert'', JArr [JObj [(''note'', JStr ''x'')]])])) \<le> MAX_CONTEXT_PAYLOAD_BYTES"
    and "\<not> forbidden_key ''alert''" and "\<not> forbidden_key ''note''"
    by code_simp+
  then show ?thesis by (intro payload_accepted_iff[THEN iffD2]) simp
qed

definition trial_result :: "int result" where
  "trial_result = \<lparr>rs_task_id = ''t1'', rs_parent = ''p'', rs_specialist = '' Metadata_Lineage_Agent'', rs_type = ''blast_radius'',
     rs_status = Task_Partial, rs_evidence = [\<lparr>ev_type = ''lineage'', ev_tool = ''metadata_catalog'', ev_reference = ''r'', ev_summary = ''s''\<rparr>],
     rs_output = [], rs_confidence = 50, rs_route = No_Llm_Fallback, rs_model_calls = 0, rs_tokens = 0, rs_cost = 0,
     rs_duration = 10, rs_errors = ['' no owner ''], rs_next_step = [], rs_needs_approval = False, rs_completed_at = 0\<rparr>"

lemma trial_result_accepted:
  "(case validate_result trial_lib trial_result of Inl _ \<Rightarrow> False | Inr r \<Rightarrow> rs_errors r = [''no owner''])"
  by code_simp

lemma result_validation_is_stable_witness:
  "\<exists>r. validate_result trial_lib trial_result = Inr r \<and> validate_result trial_lib r = Inr r"
proof -
  obtain r where "validate_result trial_lib trial_result = Inr r"
    using trial_result_accepted by (auto split: sum.splits)
  then show ?thesis using result_validation_is_stable by blast
qed

section \<open>Budgets\<close>

definition trial_ops :: "int ledger_op list" where
  "trial_ops = [Reserve 0 ''a'' 50 1, Reserve 1 ''b'' 40 1, Reconcile ''a'' 30 1, Reserve 2 ''c'' 20 1]"

lemma ledger_keeps_its_books_witness:
  "let l0 = new_ledger trial_lib 3 100 5 10; l = run_ledger trial_lib trial_ops l0
   in ld_calls l = 3 \<and> ld_tokens l = 90 \<and> reserved_tokens l = 60 \<and> settled_tokens trial_lib trial_ops l0 = 30 \<and>
      ld_tokens l = reserved_tokens l + settled_tokens trial_lib trial_ops l0 \<and> ld_tokens l \<le> 100"
proof -
  let ?l0 = "new_ledger trial_lib 3 100 5 10"
  have "ld_calls (run_ledger trial_lib trial_ops ?l0) = 3" and "ld_tokens (run_ledger trial_lib trial_ops ?l0) = 90"
    and "reserved_tokens (run_ledger trial_lib trial_ops ?l0) = 60" and "settled_tokens trial_lib trial_ops ?l0 = 30"
    by code_simp+
  moreover have "settles_within trial_ops"
    by (auto simp: settles_within_def trial_ops_def)
  moreover have "distinct (reserved_ids trial_ops)"
    by (simp add: trial_ops_def)
  ultimately show ?thesis
    using ledger_keeps_its_books[of 3 100 trial_ops trial_lib 5 10] by (simp add: Let_def)
qed

definition trial_task :: "string \<Rightarrow> int \<Rightarrow> int task" where
  "trial_task tid calls = \<lparr>tk_task_id = tid, tk_parent = ''p'', tk_specialist = ''incident_triage_agent'',
     tk_type = ''interpret_dq_history'', tk_risk = Low_Risk,
     tk_tools = [''alerts'', ''dq_history'', ''llm_router'', ''agent_audit_log''], tk_context = [],
     tk_route = Quickthink_Llm, tk_model_calls = calls, tk_tokens = 100, tk_cost = 1, tk_timeout = 30,
     tk_requester = ''ana'', tk_alert_key = ''k'', tk_payload = [], tk_created_at = 0\<rparr>"

lemma allocations_fit_and_stay_witness:
  "let al = run_allocator trial_lib [(trial_task ''a'' 1, None), (trial_task ''b'' 3, None)] (new_allocator 3 500 5 2)
   in allocated bv_calls al = [1] \<and> sum_list (allocated bv_calls al) \<le> 3"
proof -
  have "allocated bv_calls (run_allocator trial_lib [(trial_task ''a'' 1, None), (trial_task ''b'' 3, None)] (new_allocator 3 500 5 2)) = [1]"
    by code_simp
  moreover have "\<not> lib_less trial_lib 5 (lib_zero trial_lib)"
    by code_simp
  ultimately show ?thesis
    using allocations_fit_and_stay[of 3 500 2 trial_lib 5 "[(trial_task ''a'' 1, None), (trial_task ''b'' 3, None)]"]
    by (simp add: Let_def)
qed

lemma admitted_task_least_privilege_witness:
  "\<exists>c. enforce_task_capability (trial_task ''a'' 1) = Inr c \<and> \<not> cp_mutation c"
proof -
  have "(case enforce_task_capability (trial_task ''a'' 1) of Inl _ \<Rightarrow> False | Inr _ \<Rightarrow> True)"
    by code_simp
  then obtain c where "enforce_task_capability (trial_task ''a'' 1) = Inr c" by (auto split: sum.splits)
  then show ?thesis using admitted_task_least_privilege by blast
qed

definition lineage_task :: "int task" where
  "lineage_task = (trial_task ''t1'' 0)\<lparr>tk_specialist := ''metadata_lineage_agent'', tk_type := ''blast_radius'',
     tk_tools := [''metadata_catalog'', ''dbt_blast_radius'', ''agent_audit_log''], tk_route := No_Llm_Fallback,
     tk_tokens := 0, tk_cost := 0\<rparr>"

lemma accepted_result_answers_task_witness:
  "\<exists>v. enforce_result_contract trial_lib lineage_task trial_result = Inr v \<and> rs_task_id v = ''t1'' \<and> rs_duration v \<le> 30000"
proof -
  have "(case enforce_result_contract trial_lib lineage_task trial_result of Inl _ \<Rightarrow> False | Inr _ \<Rightarrow> True)"
    by code_simp
  then obtain v where "enforce_result_contract trial_lib lineage_task trial_result = Inr v" by (auto split: sum.splits)
  then show ?thesis
    using accepted_result_answers_task[of trial_lib lineage_task trial_result v] by (simp add: lineage_task_def trial_task_def)
qed

section \<open>Resilience\<close>

definition trial_policy :: circuit_policy where
  "trial_policy = \<lparr>cb_threshold = 2, cb_window = 900, cb_recovery = 300, cb_limit = 20\<rparr>"

definition trial_history :: "(string \<times> timestamp) list" where
  "trial_history = [(''blocked'', Ts_Other), ('' Failed'', Ts_Instant 100000000), (''timed_out'', Ts_Other), (''success'', Ts_Other)]"

lemma trial_scan: "scan_history (\<lambda>_. None) trial_history 0 None = Inr (2, Some 100000000)"
  by code_simp

lemma schema_drift_registered: "(case get_agent_capability ''schema_drift_agent'' of Inl _ \<Rightarrow> False | Inr _ \<Rightarrow> True)"
  by code_simp

lemma circuit_follows_history_witness:
  "\<exists>sn. load_circuit_breaker_snapshot (\<lambda>_. None) (\<lambda>_. trial_history) ''schema_drift_agent'' trial_policy 160000000 = Inr sn \<and>
     sn_failures sn = 2 \<and> sn_state sn = Circuit_Open \<and> require_circuit_allows sn \<noteq> Inr ()"
proof -
  obtain statement where statement: "build_circuit_history_sql ''schema_drift_agent'' trial_policy = Inr statement"
    using schema_drift_registered by (auto simp: build_circuit_history_sql_def split: sum.splits)
  moreover have "trial_history \<noteq> []" by (simp add: trial_history_def)
  ultimately have sn: "load_circuit_breaker_snapshot (\<lambda>_. None) (\<lambda>_. trial_history) ''schema_drift_agent'' trial_policy 160000000 =
      Inr \<lparr>sn_specialist = ''schema_drift_agent'', sn_state = Circuit_Open, sn_allowed = False, sn_failures = 2,
        sn_threshold = 2, sn_retry_after = 240, sn_last_failure = Some 100000000\<rparr>" (is "_ = Inr ?sn")
    unfolding load_circuit_breaker_snapshot_def statement trial_scan
    by (simp add: from_refusal_def trial_policy_def trial_scan Let_def)
  have "length (current_failures trial_history) = 2"
    by code_simp
  then show ?thesis
    using circuit_follows_history[OF sn statement] sn by (auto simp: Let_def)
qed

text \<open>A specialist whose connection drops, twice.\<close>

definition trial_surroundings :: "(nat, int) surroundings" where
  "trial_surroundings = \<lparr>read_clock = (\<lambda>w. (0, w)), timer_available = (\<lambda>_. True),
     run_specialist = (\<lambda>t w. (Inl (Os_Connection []), w + 1)),
     refusal_text = (\<lambda>_. []), write_audit = (\<lambda>a w. (None, w)), sleep = (\<lambda>_ w. w)\<rparr>"

definition trial_loop :: "nat loop_state" where
  "trial_loop = \<lparr>lp_world = 0, lp_log = []\<rparr>"

definition trial_invocation :: "(int loop_error + int invocation_outcome) \<times> nat loop_state" where
  "trial_invocation = invoke_specialist_with_resilience trial_lib trial_surroundings lineage_task 1 10 trial_loop"

lemma trial_invocation_outcome: "invocations (snd trial_invocation) = 2"
  by code_simp

lemma retries_bounded_and_harmless_witness:
  "invocations (snd trial_invocation) = 2 \<and>
   (\<exists>c. get_agent_capability (tk_specialist lineage_task) = Inr c \<and> cp_retry_safe c \<and>
      set (cp_side_effects c) \<subseteq> {''append_audit_events''})"
proof -
  have "invocations trial_loop = 0"
    by (simp add: invocations_def trial_loop_def)
  then show ?thesis
    using retries_bounded_and_harmless[where lib = trial_lib and env = trial_surroundings and t = lineage_task
        and max_retries = 1 and deadline = 10 and s = trial_loop] trial_invocation_outcome
    by (auto simp: trial_invocation_def split: prod.splits)
qed

end
