(* ===== verification/Json_Text.thy ===== *)
theory Json_Text
  imports Json
begin

text \<open>
  \<open>json.dumps(x, sort_keys=True, separators=(",", ":"), default=str)\<close>, the canonical text from
  which plans, tasks and their identities are hashed (\<open>canonical_json\<close> of
  \<open>agent/supervisor/execution_plan.py\<close>), and the proof that it can be read back in one way only:
  equal texts are texts of equal values. \<open>other\<close> is the text of a value that is not JSON.

  The locale \<open>prefix_code\<close> is the reason: a code whose words can be told apart in front of anything.
\<close>

section \<open>Prefix codes\<close>

locale prefix_code =
  fixes code :: "'a \<Rightarrow> string"
  assumes unique: "code x @ r = code y @ s \<Longrightarrow> x = y \<and> r = s"
begin

lemma list_until:
  assumes "\<And>x. code x \<noteq> [] \<and> hd (code x) \<noteq> d"
  shows "concat (map code xs) @ d # r = concat (map code ys) @ d # s \<Longrightarrow> xs = ys \<and> r = s"
proof (induction xs arbitrary: ys)
  case Nil
  show ?case
  proof (cases ys)
    case (Cons y ys')
    then show ?thesis using Nil.prems assms[of y] by (cases "code y") auto
  qed (use Nil.prems in simp)
next
  case (Cons x xs)
  then obtain y ys' where ys: "ys = y # ys'"
    using assms[of x] by (cases ys; cases "code x") auto
  then have "code x @ (concat (map code xs) @ d # r) = code y @ (concat (map code ys') @ d # s)"
    using Cons.prems by simp
  then show ?case using unique Cons.IH[of ys'] ys by blast
qed

end

section \<open>Strings\<close>

definition hex_value :: "char \<Rightarrow> nat" where
  "hex_value c = (let n = (of_char c :: nat) in if n < 58 then n - 48 else n - 87)"

definition unescape :: "string \<Rightarrow> (char \<times> nat) option" where
  "unescape w = (case w of
       [] \<Rightarrow> None
     | c # rest \<Rightarrow> if c \<noteq> CHR 0x5C then Some (c, 1) else (case rest of
           [] \<Rightarrow> None
         | e # digits \<Rightarrow>
             if e = CHR ''u'' then Some (char_of (hex_value (digits ! 2) * 16 + hex_value (digits ! 3)), 6)
             else Some (if e = CHR ''n'' then CHR 0x0A else if e = CHR ''r'' then CHR 0x0D
                   else if e = CHR ''t'' then CHR 0x09 else if e = CHR ''f'' then CHR 0x0C
                   else if e = CHR ''b'' then CHR 0x08 else e, 2)))"

lemma hex_value_digit: "d < 16 \<Longrightarrow> hex_value (if d < 10 then char_of (48 + d) else char_of (87 + d)) = d"
  by (simp add: hex_value_def)

lemma of_char_bound: "(of_char c :: nat) < 256"
  by (metis of_char_of of_char_mod_256 mod_less_divisor zero_less_numeral)

lemma special_chars: "CHR 0x22 = char_of (34 :: nat)" "CHR 0x5C = char_of (92 :: nat)" "CHR 0x0A = char_of (10 :: nat)" "CHR 0x0D = char_of (13 :: nat)"
  "CHR 0x09 = char_of (9 :: nat)" "CHR 0x0C = char_of (12 :: nat)" "CHR 0x08 = char_of (8 :: nat)"
  by code_simp+

lemma unescape_escape: "unescape (escape_char c @ r) = Some (c, length (escape_char c))"
proof -
  define n where "n = (of_char c :: nat)"
  have c: "c = char_of n" by (simp add: n_def)
  have n: "n < 256" using of_char_bound n_def by simp
  have hex: "char_of (n div 16 mod 16 * 16 + n mod 16) = c"
  proof -
    have "n div 16 < 16" using n by (simp add: less_mult_imp_div_less)
    then show ?thesis using c by (simp add: div_mult_mod_eq)
  qed
  consider "n \<in> {34, 92, 10, 13, 9, 12, 8}" | "n \<notin> {34, 92, 10, 13, 9, 12, 8}" "32 \<le> n \<and> n \<le> 126"
    | "n \<notin> {34, 92, 10, 13, 9, 12, 8}" "\<not> (32 \<le> n \<and> n \<le> 126)"
    by blast
  then show ?thesis
  proof cases
    case 1
    then show ?thesis using c by (auto simp: escape_char_def unescape_def n_def[symmetric] special_chars[symmetric])
  next
    case 2
    then have "c \<noteq> CHR 0x5C" using n_def by auto
    then show ?thesis using 2 by (simp add: escape_char_def unescape_def n_def[symmetric])
  next
    case 3
    then show ?thesis
      using hex hex_value_digit[of "n div 16 mod 16"] hex_value_digit[of "n mod 16"]
      by (auto simp: escape_char_def unescape_def n_def[symmetric] hex4_def)
  qed
qed

interpretation escaped: prefix_code escape_char
proof
  fix x y r s
  assume "escape_char x @ r = escape_char y @ s"
  then show "x = y \<and> r = s"
    using unescape_escape[of x r] unescape_escape[of y s] by (auto simp: append_eq_append_conv)
qed

lemma escape_char_head: "escape_char c \<noteq> [] \<and> hd (escape_char c) \<noteq> CHR 0x22"
  by (auto simp: escape_char_def Let_def)

interpretation quoted: prefix_code json_string
proof
  fix x y r s
  assume "json_string x @ r = json_string y @ s"
  then show "x = y \<and> r = s"
    using escaped.list_until[OF escape_char_head, of x r y s] by (simp add: json_string_def)
qed

section \<open>Numbers\<close>

definition number_char :: "char \<Rightarrow> bool" where
  "number_char c \<longleftrightarrow> c \<in> set ''0123456789+-.e''"

text \<open>The \<open>repr\<close> of a finite float has a point or an exponent.\<close>

definition real_text :: "string \<Rightarrow> bool" where
  "real_text r \<longleftrightarrow> list_all number_char r \<and> (CHR ''.'' \<in> set r \<or> CHR ''e'' \<in> set r)"

definition decimal :: "string \<Rightarrow> nat" where
  "decimal s = foldl (\<lambda>n c. 10 * n + (of_char c - 48)) 0 s"

lemma decimal_nat_str: "decimal (nat_str n) = n"
proof (induction n rule: nat_str.induct)
  case (1 n)
  show ?case
  proof (cases "n < 10")
    case True
    then show ?thesis by (subst nat_str.simps) (simp add: decimal_def digit_char_def)
  next
    case False
    then have "decimal (nat_str n) = 10 * decimal (nat_str (n div 10)) + n mod 10"
      by (subst nat_str.simps) (simp add: decimal_def digit_char_def)
    then show ?thesis using 1 False by simp
  qed
qed

definition DIGITS :: string where
  "DIGITS = ''0123456789''"

lemma digit_chars: "list_all (\<lambda>k. digit_char k \<in> set DIGITS) [0..<10]"
  "list_all (\<lambda>c. number_char c \<and> c \<noteq> CHR ''.'' \<and> c \<noteq> CHR ''e'') (CHR ''-'' # DIGITS)" "CHR ''-'' \<notin> set DIGITS"
  by code_simp+

lemma nat_str_chars: "nat_str n \<noteq> [] \<and> set (nat_str n) \<subseteq> set DIGITS"
proof (induction n rule: nat_str.induct)
  case (1 n)
  have d: "digit_char k \<in> set DIGITS" if "k < 10" for k
    using that digit_chars(1) by (simp add: list_all_iff)
  show ?case
  proof (cases "n < 10")
    case True
    then show ?thesis using d by (subst (1 2) nat_str.simps) simp
  next
    case False
    then show ?thesis using 1 d[of "n mod 10"] by (subst (1 2) nat_str.simps) auto
  qed
qed

lemma int_str_chars: "int_str i \<noteq> [] \<and> set (int_str i) \<subseteq> set (CHR ''-'' # DIGITS)"
  using nat_str_chars[of "nat i"] nat_str_chars[of "nat (- i)"] by (auto simp: int_str_def)

lemma nat_str_eq_iff: "nat_str n = nat_str m \<longleftrightarrow> n = m"
  by (metis decimal_nat_str)

lemma nat_str_minus: "nat_str n \<noteq> CHR ''-'' # s" "CHR ''-'' # s \<noteq> nat_str n"
  using nat_str_chars[of n] digit_chars(3) by (metis list.set_intros(1) subsetD)+

lemma int_str_inj: "int_str i = int_str j \<Longrightarrow> i = j"
  by (simp add: int_str_def nat_str_minus nat_str_eq_iff split: if_splits)

lemma int_str_number: "list_all number_char (int_str i) \<and> \<not> real_text (int_str i)"
  using int_str_chars[of i] digit_chars(2) unfolding list_all_iff real_text_def by blast

lemma int_str_eq_iff: "int_str i = int_str j \<longleftrightarrow> i = j"
  using int_str_inj by blast

lemma int_str_not_real: "\<not> real_text (int_str i)"
  using int_str_number by blast

definition ends_number :: "string \<Rightarrow> bool" where
  "ends_number r \<longleftrightarrow> r = [] \<or> \<not> number_char (hd r)"

lemma number_unique:
  assumes "list_all number_char a" and "list_all number_char b" and "ends_number r" and "ends_number s" and "a @ r = b @ s"
  shows "a = b \<and> r = s"
proof -
  have stop: "takeWhile number_char (x @ t) = x" if "list_all number_char x" "ends_number t" for x t
    using that by (cases t) (auto simp: takeWhile_append list_all_iff ends_number_def)
  show ?thesis using stop[OF assms(1,3)] stop[OF assms(2,4)] assms(5) by simp
qed

section \<open>Values\<close>

fun compact :: "(json \<Rightarrow> string) \<Rightarrow> json \<Rightarrow> string"
  and compact_items :: "(json \<Rightarrow> string) \<Rightarrow> json list \<Rightarrow> string"
  and compact_fields :: "(json \<Rightarrow> string) \<Rightarrow> fields \<Rightarrow> string" where
  "compact other JNull = ''null''"
| "compact other (JBool b) = (if b then ''true'' else ''false'')"
| "compact other (JInt i) = int_str i"
| "compact other (JReal r) = r"
| "compact other (JStr s) = json_string s"
| "compact other (JArr xs) = ''['' @ compact_items other xs @ '']''"
| "compact other (JObj kvs) = ''{'' @ compact_fields other kvs @ ''}''"
| "compact other JNon_Finite = other JNon_Finite"
| "compact other JOpaque = other JOpaque"
| "compact_items other [] = []"
| "compact_items other (x # xs) = compact other x @ (if xs = [] then [] else '','' @ compact_items other xs)"
| "compact_fields other [] = []"
| "compact_fields other ((k, v) # kvs) =
     json_string k @ '':'' @ compact other v @ (if kvs = [] then [] else '','' @ compact_fields other kvs)"

definition canonical_json :: "(json \<Rightarrow> string) \<Rightarrow> json \<Rightarrow> string" where
  "canonical_json other j = compact other (canon j)"

text \<open>Values that are JSON all the way down.\<close>

fun plain :: "json \<Rightarrow> bool"
  and plain_items :: "json list \<Rightarrow> bool"
  and plain_fields :: "fields \<Rightarrow> bool" where
  "plain (JReal r) = real_text r"
| "plain (JArr xs) = plain_items xs"
| "plain (JObj kvs) = plain_fields kvs"
| "plain JNon_Finite = False"
| "plain JOpaque = False"
| "plain _ = True"
| "plain_items [] = True"
| "plain_items (x # xs) = (plain x \<and> plain_items xs)"
| "plain_fields [] = True"
| "plain_fields ((k, v) # kvs) = (plain v \<and> plain_fields kvs)"

text \<open>The kind of a value can be read off the first character of its text.\<close>

fun kind :: "json \<Rightarrow> nat" where
  "kind JNull = 0"
| "kind (JBool b) = (if b then 1 else 2)"
| "kind (JInt i) = 3"
| "kind (JReal r) = 3"
| "kind (JStr s) = 4"
| "kind (JArr xs) = 5"
| "kind (JObj kvs) = 6"
| "kind _ = 7"

definition kind_of_char :: "char \<Rightarrow> nat" where
  "kind_of_char c = (if c = CHR ''n'' then 0 else if c = CHR ''t'' then 1 else if c = CHR ''f'' then 2
     else if number_char c then 3 else if c = CHR 0x22 then 4 else if c = CHR ''['' then 5
     else if c = CHR ''{'' then 6 else 7)"

lemma kind_chars: "kind_of_char (CHR ''n'') = 0" "kind_of_char (CHR ''t'') = 1" "kind_of_char (CHR ''f'') = 2"
  "kind_of_char (CHR 0x22) = 4" "kind_of_char (CHR ''['') = 5" "kind_of_char (CHR ''{'') = 6"
  "kind_of_char (CHR '']'') = 7" "\<not> number_char (CHR ''n'')" "\<not> number_char (CHR ''t'')" "\<not> number_char (CHR ''f'')"
  "\<not> number_char (CHR '','')" "\<not> number_char (CHR '']'')" "\<not> number_char (CHR ''}'')"
  by code_simp+

lemma number_kind: "number_char c \<Longrightarrow> kind_of_char c = 3"
  using kind_chars(8-10) by (auto simp: kind_of_char_def)

lemma compact_kind: "plain j \<Longrightarrow> \<exists>c t. compact other j = c # t \<and> kind_of_char c = kind j"
proof (cases j)
  case (JInt i)
  then show ?thesis
    using int_str_chars[of i] int_str_number[of i] by (cases "int_str i") (simp_all add: number_kind)
next
  case (JReal r)
  assume "plain j"
  then show ?thesis using JReal by (cases r) (simp_all add: number_kind real_text_def)
qed (simp_all add: kind_chars json_string_def)

lemma compact_same_kind:
  assumes "plain x" and "plain y" and "compact other x @ r = compact other y @ s"
  shows "kind x = kind y"
  using compact_kind[OF assms(1), of other] compact_kind[OF assms(2), of other] assms(3) by auto

lemma ends_number_simps [simp]: "ends_number (CHR '','' # r)" "ends_number (CHR '']'' # r)" "ends_number (CHR ''}'' # r)"
  "ends_number []"
  using kind_chars by (simp_all add: ends_number_def)

lemma compact_item_head:
  "plain x \<Longrightarrow> compact other x @ r \<noteq> CHR '']'' # s"
  using compact_kind[of x other] kind_chars(7) by (cases x) auto

lemma number_text: "plain x \<Longrightarrow> kind x = 3 \<longleftrightarrow> (\<exists>i. x = JInt i) \<or> (\<exists>a. x = JReal a)"
  by (cases x) auto

lemma compact_number_unique:
  assumes "plain x" and "plain y" and "kind x = 3" and "kind y = 3" and "ends_number r" and "ends_number s"
    and "compact other x @ r = compact other y @ s"
  shows "x = y \<and> r = s"
proof -
  have n: "list_all number_char (compact other z)" if "plain z" "kind z = 3" for z
    using that int_str_number by (cases z) (simp_all add: real_text_def split: if_splits)
  have "compact other x = compact other y \<and> r = s"
    using number_unique[OF n[OF assms(1,3)] n[OF assms(2,4)] assms(5-7)] .
  then show ?thesis
    using assms(1-4) by (cases x; cases y) (auto simp: int_str_eq_iff int_str_not_real split: if_splits)
qed

lemmas plain_induct =
  plain_plain_items_plain_fields.induct [case_names real arr obj non_finite opaque null bool int str no_items items no_fields fields]

lemma compact_unique:
  "plain x \<Longrightarrow> plain y \<Longrightarrow> ends_number r \<Longrightarrow> ends_number s \<Longrightarrow> compact other x @ r = compact other y @ s \<Longrightarrow> x = y \<and> r = s"
  "plain_items xs \<Longrightarrow> plain_items ys \<Longrightarrow> compact_items other xs @ CHR '']'' # r = compact_items other ys @ CHR '']'' # s \<Longrightarrow>
     xs = ys \<and> r = s"
  "plain_fields kvs \<Longrightarrow> plain_fields lws \<Longrightarrow> compact_fields other kvs @ CHR ''}'' # r = compact_fields other lws @ CHR ''}'' # s \<Longrightarrow>
     kvs = lws \<and> r = s"
proof (induction x and xs and kvs arbitrary: y r s and ys r s and lws r s rule: plain_induct)
  case (real a)
  have k: "kind y = 3" using compact_same_kind[OF real.prems(1,2,5)] by (metis kind.simps(4))
  show ?case
    using compact_number_unique[OF real.prems(1,2) _ k real.prems(3-5)] by (metis kind.simps(4))
next
  case (arr xs)
  have "kind y = 5" using compact_same_kind[OF arr.prems(1,2,5)] by (metis kind.simps(6))
  then obtain ys where "y = JArr ys" by (cases y) (simp_all split: if_splits)
  then show ?case using arr.IH[of ys r s] arr.prems by simp
next
  case (obj kvs)
  have "kind y = 6" using compact_same_kind[OF obj.prems(1,2,5)] by (metis kind.simps(7))
  then obtain lws where "y = JObj lws" by (cases y) (simp_all split: if_splits)
  then show ?case using obj.IH[of lws r s] obj.prems by simp
next
  case null
  have "kind y = 0" using compact_same_kind[OF null.prems(1,2,5)] by (metis kind.simps(1))
  then have "y = JNull" by (cases y) (simp_all split: if_splits)
  then show ?case using null.prems(5) by simp
next
  case (bool b)
  have "kind y = kind (JBool b)" using compact_same_kind[OF bool.prems(1,2,5)] by simp
  then have "y = JBool b" by (cases y) (simp_all split: if_splits)
  then show ?case using bool.prems(5) by simp
next
  case (int i)
  have k: "kind y = 3" using compact_same_kind[OF int.prems(1,2,5)] by (metis kind.simps(3))
  show ?case
    using compact_number_unique[OF int.prems(1,2) _ k int.prems(3-5)] by (metis kind.simps(3))
next
  case (str t)
  have "kind y = 4" using compact_same_kind[OF str.prems(1,2,5)] by (metis kind.simps(5))
  then obtain u where "y = JStr u" by (cases y) (simp_all split: if_splits)
  then show ?case using quoted.unique[of t r u s] str.prems(5) by simp
next
  case no_items
  show ?case
  proof (cases ys)
    case (Cons y ys')
    then show ?thesis using no_items.prems compact_item_head[of y other _ r, symmetric] by simp
  qed (use no_items.prems in simp)
next
  case (items x xs)
  then obtain y ys' where ys: "ys = y # ys'"
  proof (cases ys)
    case Nil
    then show ?thesis using items.prems compact_item_head[of x other] by simp
  qed
  define tail where "tail zs = (if zs = [] then [] else CHR '','' # compact_items other zs)" for zs
  have ends: "ends_number (tail zs @ CHR '']'' # t)" for zs t by (simp add: tail_def)
  have p: "plain x" "plain y" "plain_items xs" "plain_items ys'" using items.prems(1,2) ys by simp_all
  have "compact other x @ tail xs @ CHR '']'' # r = compact other y @ tail ys' @ CHR '']'' # s"
    using items.prems(3) by (cases "xs = []"; cases "ys' = []") (simp_all add: ys tail_def)
  then have head: "x = y" and rest: "tail xs @ CHR '']'' # r = tail ys' @ CHR '']'' # s"
    using items.IH(1)[OF p(1,2) ends ends] by simp_all
  have "xs = ys' \<and> r = s"
  proof (cases "xs = [] \<or> ys' = []")
    case True
    then show ?thesis using rest by (cases "xs = []"; cases "ys' = []") (simp_all add: tail_def)
  next
    case False
    then show ?thesis using rest by (intro items.IH(2)[OF p(3,4)]) (simp add: tail_def)
  qed
  then show ?case using head ys by simp
next
  case no_fields
  show ?case
  proof (cases lws)
    case (Cons m lws')
    then show ?thesis using no_fields.prems by (cases m) (simp add: json_string_def)
  qed (use no_fields.prems in simp)
next
  case (fields k v kvs)
  then obtain l w lws' where lws: "lws = (l, w) # lws'"
  proof (cases lws)
    case Nil
    then show ?thesis using fields.prems by (simp add: json_string_def)
  next
    case (Cons m lws')
    then show ?thesis using that by (cases m) simp
  qed
  define tail where "tail ms = (if ms = [] then [] else CHR '','' # compact_fields other ms)" for ms
  have ends: "ends_number (tail ms @ CHR ''}'' # t)" for ms t by (simp add: tail_def)
  have p: "plain v" "plain w" "plain_fields kvs" "plain_fields lws'" using fields.prems(1,2) lws by simp_all
  have "json_string k @ CHR '':'' # compact other v @ tail kvs @ CHR ''}'' # r =
      json_string l @ CHR '':'' # compact other w @ tail lws' @ CHR ''}'' # s"
    using fields.prems(3) by (cases "kvs = []"; cases "lws' = []") (simp_all add: lws tail_def)
  then have key: "k = l" and vals: "compact other v @ tail kvs @ CHR ''}'' # r = compact other w @ tail lws' @ CHR ''}'' # s"
    by (auto dest: quoted.unique)
  have val: "v = w" and rest: "tail kvs @ CHR ''}'' # r = tail lws' @ CHR ''}'' # s"
    using fields.IH(1)[OF p(1,2) ends ends vals] by simp_all
  have "kvs = lws' \<and> r = s"
  proof (cases "kvs = [] \<or> lws' = []")
    case True
    then show ?thesis using rest by (cases "kvs = []"; cases "lws' = []") (simp_all add: tail_def)
  next
    case False
    then show ?thesis using rest by (intro fields.IH(2)[OF p(3,4)]) (simp add: tail_def)
  qed
  then show ?case using key val lws by simp
qed (simp_all only: plain.simps)

subsection \<open>Canonical forms\<close>

lemma plain_fields_iff: "plain_fields kvs \<longleftrightarrow> (\<forall>v \<in> snd ` set kvs. plain v)"
  by (induction kvs) auto

lemma plain_canon:
  "plain j \<Longrightarrow> plain (canon j)"
  "plain_items xs \<Longrightarrow> plain_items (canon_items xs)"
  "plain_fields kvs \<Longrightarrow> plain_fields (canon_fields kvs)"
  by (induction j and xs and kvs rule: plain_plain_items_plain_fields.induct) (auto simp: plain_fields_iff)

lemma canonical_text_equal:
  assumes "plain a" and "plain b"
  shows "canonical_json other a = canonical_json other b \<longleftrightarrow> json_eq a b"
proof
  assume "canonical_json other a = canonical_json other b"
  then show "json_eq a b"
    using compact_unique(1)[of "canon a" "canon b" "[]" "[]" other] plain_canon(1)[OF assms(1)] plain_canon(1)[OF assms(2)]
    by (simp add: canonical_json_def json_eq_def)
qed (simp add: canonical_json_def json_eq_def)

text \<open>
  What is hashed for plans and task identities says everything about the value: two values
  have the same canonical text exactly when they are equal as JSON values, that is up to the
  order in which their objects' keys were inserted. No string, key or number can be chosen such
  that the text of one value reads as that of another.
\<close>

theorem canonical_text_identifies:
  assumes "plain a" and "plain b"
  shows "canonical_json other a = canonical_json other b \<longleftrightarrow> json_eq a b"
  by (rule canonical_text_equal[OF assms])

text \<open>The members of objects that are equal as JSON values.\<close>

lemma map_of_canon: "map_of (canon_fields kvs) k = map_option canon (map_of kvs k)"
  by (induction kvs) auto

lemma sort_fst_map_of: "distinct (map fst kvs) \<Longrightarrow> map_of (sort_key fst kvs) = map_of (kvs :: fields)"
  by (intro map_of_inject_set[THEN iffD2]) (simp_all add: distinct_map)

lemma json_eq_member:
  assumes "json_eq (JObj kvs) (JObj lws)" and "distinct (map fst kvs)" and "distinct (map fst lws)"
  shows "map_option canon (map_of kvs k) = map_option canon (map_of lws k)"
proof -
  have d: "distinct (map fst (canon_fields ms))" if "distinct (map fst ms)" for ms
    using that by (simp add: canon_fields_map comp_def case_prod_unfold)
  have "sort_key fst (canon_fields kvs) = sort_key fst (canon_fields lws)"
    using assms(1) by (simp add: json_eq_def)
  then have "map_of (canon_fields kvs) = map_of (canon_fields lws)"
    using sort_fst_map_of[OF d[OF assms(2)]] sort_fst_map_of[OF d[OF assms(3)]] by metis
  then show ?thesis by (metis map_of_canon)
qed

end
