(* ===== verification/Execution_Plan.thy ===== *)
theory Execution_Plan
  imports Budgets Json_Text
begin

text \<open>
  Fan-out plans, \<open>agent/supervisor/execution_plan.py\<close>, and the parts of
  \<open>agent/supervisor/fanout.py\<close> that decide: the reservation of a wave, the check of a worker's
  usage, the blocking of a worker behind a failed one. SHA-256 (as hexadecimal text), the UUIDs
  of version 5 and the JSON text of a float are fields of the record \<open>planner\<close>.
\<close>

section \<open>Data\<close>

definition MAX_AGENT_WORKERS :: nat where "MAX_AGENT_WORKERS = 10"
definition DEFAULT_MAX_CONCURRENCY :: int where "DEFAULT_MAX_CONCURRENCY = 3"
definition MAX_PLAN_DEPENDENCIES :: nat where "MAX_PLAN_DEPENDENCIES = 45"
definition PLAN_HASH_LENGTH :: nat where "PLAN_HASH_LENGTH = 64"

record 'f planner =
  pn_sha256 :: "string \<Rightarrow> string"
  pn_uuid5 :: "string \<Rightarrow> string \<Rightarrow> string"
  pn_real :: "'f \<Rightarrow> json"

datatype intent =
    Auto_Intent | Triage_Alert | Interpret_Incident_Evidence | Asset_Context | Blast_Radius
  | Trusted_Asset_Search | Review_Sql | Schema_Drift_Assessment

datatype requirement = Required_Worker | Optional_Worker

datatype aggregation_strategy = Evidence_First

datatype plan_source = Deterministic | Llm_Proposal

record dependency =
  dp_upstream :: string
  dp_downstream :: string

record 'f worker =
  wk_task :: "'f task"
  wk_intent :: intent
  wk_requirement :: requirement
  wk_retry_budget :: int
  wk_namespace :: string
  wk_rationale :: string

record 'f fanout_policy =
  fp_max_workers :: int
  fp_max_concurrency :: int
  fp_max_calls :: int
  fp_tokens :: int
  fp_cost :: 'f
  fp_latency :: int
  fp_external_llm :: bool
  fp_mutation :: bool

record wave =
  wv_index :: nat
  wv_ids :: "string list"

record 'f plan =
  pl_parent :: string
  pl_workers :: "'f worker list"
  pl_dependencies :: "dependency list"
  pl_policy :: "'f fanout_policy"
  pl_waves :: "wave list"
  pl_strategy :: aggregation_strategy
  pl_source :: plan_source
  pl_hash :: string
  pl_created_at :: int

record 'f aggregation =
  ag_status :: task_status
  ag_completed :: "string list"
  ag_optional_failed :: "string list"
  ag_required_failed :: "string list"
  ag_evidence :: "evidence_reference list"
  ag_confidence :: 'f
  ag_summary :: string
  ag_missing :: "string list"
  ag_calls :: int
  ag_tokens :: int
  ag_cost :: 'f
  ag_duration :: int

section \<open>Validators\<close>

definition reject_self_dependency :: "dependency \<Rightarrow> refusal + dependency" where
  "reject_self_dependency d =
     and_then (check (dp_upstream d \<noteq> dp_downstream d) (Invalid ''dependency'')) (\<lambda>_. Inr d)"

definition validate_worker :: "'f worker \<Rightarrow> refusal + 'f worker" where
  "validate_worker w =
     and_then (ranged 0 2 (wk_retry_budget w) ''retry_budget'') (\<lambda>_.
     and_then (sized 1 200 (wk_namespace w) ''checkpoint_namespace'') (\<lambda>_.
     and_then (sized 0 500 (wk_rationale w) ''rationale'') (\<lambda>_. Inr w)))"

definition validate_concurrency_policy :: "'f pylib \<Rightarrow> 'f fanout_policy \<Rightarrow> refusal + 'f fanout_policy" where
  "validate_concurrency_policy lib p =
     and_then (ranged 2 (int MAX_AGENT_WORKERS) (fp_max_workers p) ''max_workers'') (\<lambda>_.
     and_then (ranged 1 3 (fp_max_concurrency p) ''max_concurrency'') (\<lambda>_.
     and_then (ranged 0 10 (fp_max_calls p) ''max_model_calls'') (\<lambda>_.
     and_then (ranged 0 64000 (fp_tokens p) ''token_budget'') (\<lambda>_.
     and_then (check (within lib ''0.15'' (fp_cost p)) (Invalid ''estimated_cost_budget_usd'')) (\<lambda>_.
     and_then (ranged 1000 900000 (fp_latency p) ''latency_budget_ms'') (\<lambda>_.
     and_then (check (\<not> fp_max_workers p < fp_max_concurrency p) (Invalid ''max_concurrency'')) (\<lambda>_.
     and_then (check (\<not> fp_mutation p) (Invalid ''mutation_allowed'')) (\<lambda>_. Inr p))))))))"

definition reject_duplicate_wave_tasks :: "nat \<Rightarrow> string list \<Rightarrow> refusal + wave" where
  "reject_duplicate_wave_tasks wave_index task_ids =
     and_then (check (wave_index \<le> MAX_AGENT_WORKERS - 1) (Invalid ''wave_index'')) (\<lambda>_.
     and_then (sized 1 MAX_AGENT_WORKERS task_ids ''task_ids'') (\<lambda>_.
     and_then (check (distinct task_ids) (Invalid ''task_ids'')) (\<lambda>_.
     Inr \<lparr>wv_index = wave_index, wv_ids = task_ids\<rparr>)))"

section \<open>Waves\<close>

text \<open>\<open>incoming[task_id]\<close>; a Python set is a list here, of which only the members are used.\<close>

definition incoming :: "dependency list \<Rightarrow> string \<Rightarrow> string list" where
  "incoming deps i = map dp_upstream (filter (\<lambda>d. dp_downstream d = i) deps)"

definition known_dependency :: "string list \<Rightarrow> dependency \<Rightarrow> refusal + unit" where
  "known_dependency ids d =
     and_then (check (dp_upstream d \<in> set ids) (Invalid ''upstream'')) (\<lambda>_.
     check (dp_downstream d \<in> set ids) (Invalid ''downstream''))"

definition ready_tasks :: "string list \<Rightarrow> dependency list \<Rightarrow> string list \<Rightarrow> string list \<Rightarrow> string list" where
  "ready_tasks ids deps remaining completed =
     filter (\<lambda>i. i \<in> set remaining \<and> set (incoming deps i) \<subseteq> set completed) ids"

lemma ready_remaining: "ready_tasks ids deps remaining completed \<noteq> [] \<Longrightarrow>
     length (filter (\<lambda>i. i \<notin> set (ready_tasks ids deps remaining completed)) remaining) < length remaining"
proof -
  assume "ready_tasks ids deps remaining completed \<noteq> []"
  then obtain i where "i \<in> set (ready_tasks ids deps remaining completed)" by (metis list.set_intros(1) neq_Nil_conv)
  then show ?thesis by (intro length_filter_less[of i]) (auto simp: ready_tasks_def)
qed

function wave_loop ::
    "string list \<Rightarrow> dependency list \<Rightarrow> string list \<Rightarrow> string list \<Rightarrow> wave list \<Rightarrow> refusal + wave list" where
  "wave_loop ids deps remaining completed waves =
     (if remaining = [] then Inr waves
      else let ready = ready_tasks ids deps remaining completed
        in if ready = [] then Inl (Invalid ''cycle'')
           else and_then (reject_duplicate_wave_tasks (length waves) ready) (\<lambda>w.
             wave_loop ids deps (filter (\<lambda>i. i \<notin> set ready) remaining) (completed @ ready) (waves @ [w])))"
  by pat_completeness auto
termination
  by (relation "measure (\<lambda>(_, _, remaining, _, _). length remaining)") (simp_all add: ready_remaining)

declare wave_loop.simps [simp del]

definition build_execution_waves :: "string list \<Rightarrow> dependency list \<Rightarrow> refusal + wave list" where
  "build_execution_waves ids deps =
     and_then (try_map (known_dependency ids) deps) (\<lambda>_. wave_loop ids deps ids [] [])"


subsection \<open>What the waves are\<close>

abbreviation wave_tasks :: "wave list \<Rightarrow> string list" where
  "wave_tasks ws \<equiv> concat (map wv_ids ws)"

definition layer :: "dependency list \<Rightarrow> wave list \<Rightarrow> wave \<Rightarrow> bool" where
  "layer deps ws w \<longleftrightarrow> wv_index w = length ws \<and> wv_ids w \<noteq> [] \<and>
     (\<forall>i \<in> set (wv_ids w). set (incoming deps i) \<subseteq> set (wave_tasks ws) \<and>
        (ws \<noteq> [] \<longrightarrow> \<not> set (incoming deps i) \<subseteq> set (wave_tasks (butlast ws))))"

fun layered :: "dependency list \<Rightarrow> wave list \<Rightarrow> wave list \<Rightarrow> bool" where
  "layered deps ws [] = True"
| "layered deps ws (w # rest) = (layer deps ws w \<and> layered deps (ws @ [w]) rest)"

lemma layered_append: "layered deps ws (vs @ us) \<longleftrightarrow> layered deps ws vs \<and> layered deps (ws @ vs) us"
  by (induction vs arbitrary: ws) auto

lemma layered_nth: "layered deps [] ws \<Longrightarrow> k < length ws \<Longrightarrow> layer deps (take k ws) (ws ! k)"
  using layered_append[of deps "[]" "take k ws" "ws ! k # drop (Suc k) ws"] by (simp add: id_take_nth_drop[symmetric])

text \<open>The tasks of \<open>remaining\<close> are those not in a wave yet, and none of them was ready before.\<close>

definition wave_inv :: "string list \<Rightarrow> dependency list \<Rightarrow> string list \<Rightarrow> string list \<Rightarrow> wave list \<Rightarrow> bool" where
  "wave_inv ids deps remaining completed waves \<longleftrightarrow>
     completed = wave_tasks waves \<and> distinct completed \<and> layered deps [] waves \<and>
     set remaining \<inter> set completed = {} \<and> set remaining \<subseteq> set ids \<and>
     mset completed + mset (filter (\<lambda>i. i \<in> set remaining) ids) = mset ids \<and>
     (\<forall>i \<in> set remaining. waves \<noteq> [] \<longrightarrow> \<not> set (incoming deps i) \<subseteq> set (wave_tasks (butlast waves)))"

lemma make_wave_Inr: "reject_duplicate_wave_tasks n ids = Inr w \<longleftrightarrow>
     w = \<lparr>wv_index = n, wv_ids = ids\<rparr> \<and> n \<le> 9 \<and> 1 \<le> length ids \<and> length ids \<le> 10 \<and> distinct ids"
  by (auto simp: reject_duplicate_wave_tasks_def sized_def MAX_AGENT_WORKERS_def)

lemma wave_inv_step:
  assumes inv: "wave_inv ids deps remaining completed waves"
    and ready: "ready = ready_tasks ids deps remaining completed"
    and w: "reject_duplicate_wave_tasks (length waves) ready = Inr w"
  shows "wave_inv ids deps (filter (\<lambda>i. i \<notin> set ready) remaining) (completed @ ready) (waves @ [w])"
proof -
  have w': "w = \<lparr>wv_index = length waves, wv_ids = ready\<rparr>" "ready \<noteq> []" "distinct ready"
    using w by (auto simp: make_wave_Inr)
  have sub: "set ready \<subseteq> set remaining" "\<forall>i \<in> set ready. set (incoming deps i) \<subseteq> set completed"
    by (auto simp: ready ready_tasks_def)
  have "mset (filter (\<lambda>i. i \<in> set remaining) ids) =
      mset ready + mset (filter (\<lambda>i. i \<in> set (filter (\<lambda>i. i \<notin> set ready) remaining)) ids)"
  proof -
    have "filter (\<lambda>i. i \<in> set ready) ids = ready"
      unfolding ready by (auto simp: ready_tasks_def intro!: filter_cong)
    moreover have "mset (filter (\<lambda>i. i \<in> set remaining) ids) =
        mset (filter (\<lambda>i. i \<in> set ready) ids) + mset (filter (\<lambda>i. i \<in> set remaining \<and> i \<notin> set ready) ids)"
      using sub(1) by (induction ids) auto
    ultimately show ?thesis by simp
  qed
  moreover have "layer deps waves w"
    using inv sub w' by (auto simp: layer_def wave_inv_def)
  moreover have "\<not> set (incoming deps i) \<subseteq> set completed" if "i \<in> set remaining" "i \<notin> set ready" for i
    using inv that by (auto simp: wave_inv_def ready ready_tasks_def)
  moreover have "set ready \<inter> set completed = {}" and "set remaining \<inter> set completed = {}"
    using inv sub(1) unfolding wave_inv_def by blast+
  moreover have "set (filter (\<lambda>i. i \<notin> set ready) remaining) \<inter> set (completed @ ready) = {}"
    using calculation(5) by auto
  moreover have "set (filter (\<lambda>i. i \<notin> set ready) remaining) \<subseteq> set ids" "completed = wave_tasks waves" "distinct completed"
    "layered deps [] waves" "mset completed + mset (filter (\<lambda>i. i \<in> set remaining) ids) = mset ids"
    using inv unfolding wave_inv_def by auto
  ultimately show ?thesis
    using w' unfolding wave_inv_def by (intro conjI) (simp_all add: layered_append Int_commute add.assoc)
qed

lemma wave_loop_inv:
  "wave_inv ids deps remaining completed waves \<Longrightarrow> wave_loop ids deps remaining completed waves = Inr ws \<Longrightarrow>
     wave_inv ids deps [] (wave_tasks ws) ws"
proof (induction ids deps remaining completed waves rule: wave_loop.induct)
  case (1 ids deps remaining completed waves)
  let ?ready = "ready_tasks ids deps remaining completed"
  show ?case
  proof (cases "remaining = []")
    case True
    then show ?thesis using "1.prems" by (auto simp: wave_loop.simps wave_inv_def)
  next
    case False
    then have ready: "?ready \<noteq> []" using "1.prems"(2) by (subst (asm) wave_loop.simps) (auto simp: Let_def)
    then obtain w where w: "reject_duplicate_wave_tasks (length waves) ?ready = Inr w"
      and rest: "wave_loop ids deps (filter (\<lambda>i. i \<notin> set ?ready) remaining) (completed @ ?ready) (waves @ [w]) = Inr ws"
      using "1.prems"(2) False by (subst (asm) wave_loop.simps) (auto simp: Let_def)
    show ?thesis
      by (rule "1.IH"[OF False refl ready wave_inv_step[OF "1.prems"(1) refl w] rest])
  qed
qed

lemma build_waves_inv:
  assumes "build_execution_waves ids deps = Inr ws"
  shows "wave_inv ids deps [] (wave_tasks ws) ws \<and> (\<forall>d \<in> set deps. dp_upstream d \<in> set ids \<and> dp_downstream d \<in> set ids)"
proof -
  obtain us where us: "map (known_dependency ids) deps = map Inr us" and loop: "wave_loop ids deps ids [] [] = Inr ws"
    using assms by (auto simp: build_execution_waves_def try_map_Inr)
  have "wave_inv ids deps ids [] []" by (simp add: wave_inv_def)
  moreover have "known_dependency ids d = Inr ()" if "d \<in> set deps" for d
  proof -
    have "known_dependency ids d \<in> set (map Inr us)" using us that by (metis image_eqI list.set_map)
    then show ?thesis by auto
  qed
  ultimately show ?thesis using wave_loop_inv loop by (fastforce simp: known_dependency_def)
qed


lemma in_wave_tasks: "i \<in> set (wave_tasks ws) \<longleftrightarrow> (\<exists>k < length ws. i \<in> set (wv_ids (ws ! k)))"
  by simp (metis in_set_conv_nth)

lemma layered_order:
  assumes "layered deps [] ws" and "d \<in> set deps" and "k < length ws" and "dp_downstream d \<in> set (wv_ids (ws ! k))"
  shows "\<exists>j < k. dp_upstream d \<in> set (wv_ids (ws ! j))"
proof -
  have "dp_upstream d \<in> set (incoming deps (dp_downstream d))" using assms(2) by (auto simp: incoming_def)
  then have "dp_upstream d \<in> set (wave_tasks (take k ws))"
    using layered_nth[OF assms(1,3)] assms(4) unfolding layer_def by blast
  then show ?thesis using assms(3) by (auto simp: in_wave_tasks simp del: set_concat)
qed

text \<open>
  C33. A compiled schedule: the waves contain every task exactly once, they are numbered in their
  order, no task is in a wave before or beside one that it depends on, and a task is never later
  than it must be: outside the first wave it waits for one in the wave right before its own.
\<close>

theorem waves_schedule_every_task:
  assumes "build_execution_waves ids deps = Inr ws"
  shows "distinct ids \<and> mset (concat (map wv_ids ws)) = mset ids \<and>
     (\<forall>k < length ws. wv_index (ws ! k) = k \<and> wv_ids (ws ! k) \<noteq> []) \<and>
     (\<forall>d \<in> set deps. \<exists>k < length ws. dp_downstream d \<in> set (wv_ids (ws ! k)) \<and>
        (\<exists>j < k. dp_upstream d \<in> set (wv_ids (ws ! j)))) \<and>
     (\<forall>k i. 0 < k \<longrightarrow> k < length ws \<longrightarrow> i \<in> set (wv_ids (ws ! k)) \<longrightarrow>
        (\<exists>d \<in> set deps. dp_downstream d = i \<and> dp_upstream d \<in> set (wv_ids (ws ! (k - 1)))))"
proof (intro conjI)
  have inv: "wave_inv ids deps [] (wave_tasks ws) ws"
    and known: "\<forall>d \<in> set deps. dp_upstream d \<in> set ids \<and> dp_downstream d \<in> set ids"
    using build_waves_inv[OF assms] by auto
  have lay: "layered deps [] ws" and m: "mset (wave_tasks ws) = mset ids" and dist: "distinct (wave_tasks ws)"
    using inv by (simp_all add: wave_inv_def)
  show "mset (concat (map wv_ids ws)) = mset ids" by (fact m)
  show "distinct ids" using dist m by (metis mset_eq_imp_distinct_iff)
  show "\<forall>k < length ws. wv_index (ws ! k) = k \<and> wv_ids (ws ! k) \<noteq> []"
    using layered_nth[OF lay] by (auto simp: layer_def)
  show "\<forall>d \<in> set deps. \<exists>k < length ws. dp_downstream d \<in> set (wv_ids (ws ! k)) \<and>
        (\<exists>j < k. dp_upstream d \<in> set (wv_ids (ws ! j)))"
  proof
    fix d assume d: "d \<in> set deps"
    then have "dp_downstream d \<in> set (wave_tasks ws)" using known m by (metis mset_eq_setD)
    then obtain k where "k < length ws" "dp_downstream d \<in> set (wv_ids (ws ! k))"
      unfolding in_wave_tasks by blast
    then show "\<exists>k < length ws. dp_downstream d \<in> set (wv_ids (ws ! k)) \<and> (\<exists>j < k. dp_upstream d \<in> set (wv_ids (ws ! j)))"
      using layered_order[OF lay d] by blast
  qed
  show "\<forall>k i. 0 < k \<longrightarrow> k < length ws \<longrightarrow> i \<in> set (wv_ids (ws ! k)) \<longrightarrow>
        (\<exists>d \<in> set deps. dp_downstream d = i \<and> dp_upstream d \<in> set (wv_ids (ws ! (k - 1))))"
  proof (intro allI impI)
    fix k i assume k: "0 < k" "k < length ws" and i: "i \<in> set (wv_ids (ws ! k))"
    have now: "take k ws = take (k - 1) ws @ [ws ! (k - 1)]" using k by (simp add: take_Suc_conv_app_nth[symmetric])
    have "set (incoming deps i) \<subseteq> set (wave_tasks (take k ws))"
      "\<not> set (incoming deps i) \<subseteq> set (wave_tasks (butlast (take k ws)))"
      using layered_nth[OF lay k(2)] i k by (auto simp: layer_def)
    then obtain u where "u \<in> set (incoming deps i)" "u \<in> set (wv_ids (ws ! (k - 1)))"
      unfolding now by auto
    then show "\<exists>d \<in> set deps. dp_downstream d = i \<and> dp_upstream d \<in> set (wv_ids (ws ! (k - 1)))"
      by (auto simp: incoming_def)
  qed
qed

subsection \<open>When there are waves\<close>

definition depends :: "dependency list \<Rightarrow> (string \<times> string) set" where
  "depends deps = (\<lambda>d. (dp_upstream d, dp_downstream d)) ` set deps"

lemma ready_exists:
  assumes "acyclic (depends deps)" and "remaining \<noteq> []" and "set remaining \<union> set completed = set ids"
    and "\<forall>d \<in> set deps. dp_upstream d \<in> set ids"
  shows "ready_tasks ids deps remaining completed \<noteq> []"
proof -
  have "wf (depends deps)" using assms(1) by (intro finite_acyclic_wf) (simp_all add: depends_def)
  then obtain i where i: "i \<in> set remaining" and least: "\<And>u. (u, i) \<in> depends deps \<Longrightarrow> u \<notin> set remaining"
    using assms(2) by (metis wfE_min list.set_sel(1))
  have "set (incoming deps i) \<subseteq> set completed"
    using least assms(3,4) by (fastforce simp: incoming_def depends_def)
  then show ?thesis using i assms(3) by (auto simp: ready_tasks_def filter_empty_conv)
qed

lemma wave_count: "layered deps us ws \<Longrightarrow> length ws \<le> length (wave_tasks ws)"
proof (induction ws arbitrary: us)
  case (Cons w ws)
  then have "wv_ids w \<noteq> []" by (simp add: layer_def)
  then show ?case using Cons by (cases "wv_ids w") fastforce+
qed simp

lemma wave_loop_total:
  assumes "acyclic (depends deps)" and "distinct ids" and "length ids \<le> 10" and "\<forall>d \<in> set deps. dp_upstream d \<in> set ids"
  shows "wave_inv ids deps remaining completed waves \<Longrightarrow> \<exists>ws. wave_loop ids deps remaining completed waves = Inr ws"
  using assms
proof (induction ids deps remaining completed waves rule: wave_loop.induct)
  case (1 ids deps remaining completed waves)
  let ?ready = "ready_tasks ids deps remaining completed"
  note inv = "1.prems"(1)
  show ?case
  proof (cases "remaining = []")
    case True
    then show ?thesis by (simp add: wave_loop.simps)
  next
    case False
    have m: "mset completed + mset (filter (\<lambda>i. i \<in> set remaining) ids) = mset ids"
      using inv unfolding wave_inv_def by blast
    have "set completed \<union> (set ids \<inter> set remaining) = set ids"
      using arg_cong[OF m, of set_mset] by auto
    then have all: "set remaining \<union> set completed = set ids" using inv by (auto simp: wave_inv_def)
    have ready: "?ready \<noteq> []" using ready_exists[OF "1.prems"(2) False all] "1.prems"(5) by simp
    have "length waves \<le> length completed" using inv wave_count by (auto simp: wave_inv_def)
    moreover have "length completed + length (filter (\<lambda>i. i \<in> set remaining) ids) = length ids"
      using arg_cong[OF m, of size] by (simp del: mset_filter)
    moreover have "filter (\<lambda>i. i \<in> set remaining) ids \<noteq> []"
      using False all by (cases remaining) (auto simp: filter_empty_conv)
    ultimately have "length waves \<le> 9" using "1.prems"(4) by (cases "filter (\<lambda>i. i \<in> set remaining) ids") auto
    moreover have "length ?ready \<le> 10" using "1.prems"(4) unfolding ready_tasks_def by (meson le_trans length_filter_le)
    moreover have "distinct ?ready" using "1.prems"(3) by (simp add: ready_tasks_def)
    ultimately have w: "reject_duplicate_wave_tasks (length waves) ?ready = Inr \<lparr>wv_index = length waves, wv_ids = ?ready\<rparr>"
      using ready by (simp add: make_wave_Inr Suc_le_eq)
    show ?thesis
      using "1.IH"[OF False refl ready wave_inv_step[OF inv refl w]] "1.prems"(2-5) False ready w
      by (subst wave_loop.simps) (simp add: Let_def)
  qed
qed

lemma waves_acyclic:
  assumes "layered deps [] ws" and "\<forall>d \<in> set deps. dp_downstream d \<in> set (wave_tasks ws)"
  shows "acyclic (depends deps)"
proof -
  define f where "f i = (LEAST k. k < length ws \<and> i \<in> set (wv_ids (ws ! k)))" for i
  have "f (dp_upstream d) < f (dp_downstream d)" if d: "d \<in> set deps" for d
  proof -
    have "\<exists>k. k < length ws \<and> dp_downstream d \<in> set (wv_ids (ws ! k))"
      using assms(2) d unfolding in_wave_tasks by blast
    then have k: "f (dp_downstream d) < length ws" "dp_downstream d \<in> set (wv_ids (ws ! f (dp_downstream d)))"
      unfolding f_def by (metis (mono_tags, lifting) LeastI_ex)+
    then obtain j where "j < f (dp_downstream d)" "dp_upstream d \<in> set (wv_ids (ws ! j))"
      using layered_order[OF assms(1) d] by blast
    moreover have "f (dp_upstream d) \<le> j" unfolding f_def using calculation k(1) by (intro Least_le) simp
    ultimately show ?thesis by simp
  qed
  then have "depends deps \<subseteq> measure f" by (auto simp: depends_def)
  then show ?thesis by (meson wf_acyclic wf_measure wf_subset)
qed

text \<open>
  C34. The scheduler ends, and it refuses nothing but what cannot be scheduled: for at most ten
  distinct tasks and dependencies among them, it finds waves exactly when the dependencies have
  no cycle.
\<close>

theorem waves_exist_iff_acyclic:
  assumes "distinct ids" and "length ids \<le> MAX_AGENT_WORKERS"
    and "\<forall>d \<in> set deps. dp_upstream d \<in> set ids \<and> dp_downstream d \<in> set ids"
  shows "(\<exists>ws. build_execution_waves ids deps = Inr ws) \<longleftrightarrow>
     acyclic ((\<lambda>d. (dp_upstream d, dp_downstream d)) ` set deps)"
proof
  assume "\<exists>ws. build_execution_waves ids deps = Inr ws"
  then obtain ws where "wave_inv ids deps [] (wave_tasks ws) ws" using build_waves_inv by blast
  then show "acyclic ((\<lambda>d. (dp_upstream d, dp_downstream d)) ` set deps)"
    using waves_acyclic[of deps ws] assms(3) unfolding wave_inv_def depends_def[symmetric]
    by (metis add.right_neutral filter_False list.set(1) empty_iff mset.simps(1) mset_eq_setD)
next
  assume "acyclic ((\<lambda>d. (dp_upstream d, dp_downstream d)) ` set deps)"
  then have "\<exists>ws. wave_loop ids deps ids [] [] = Inr ws"
    using wave_loop_total[of deps ids ids "[]" "[]"] assms by (simp add: depends_def wave_inv_def MAX_AGENT_WORKERS_def)
  moreover have "try_map (known_dependency ids) deps = Inr (map (\<lambda>_. ()) deps)"
    using assms(3) by (simp add: try_map_Inr known_dependency_def)
  ultimately show "\<exists>ws. build_execution_waves ids deps = Inr ws" by (simp add: build_execution_waves_def)
qed

section \<open>Identities and hashes\<close>

primrec kind_value :: "reference_kind \<Rightarrow> string" where
  "kind_value Ref_Alert = ''alert''"
| "kind_value Ref_Metadata_Asset = ''metadata_asset''"
| "kind_value Ref_Dbt_Manifest = ''dbt_manifest''"
| "kind_value Ref_S3_Artifact = ''s3_artifact''"
| "kind_value Ref_Audit_Run = ''audit_run''"
| "kind_value Ref_Run_Context = ''run_context''"
| "kind_value Ref_Incident_Memory = ''incident_memory''"

primrec risk_value :: "risk_tier \<Rightarrow> string" where
  "risk_value Low_Risk = ''low''"
| "risk_value Medium_Risk = ''medium''"
| "risk_value High_Risk = ''high''"
| "risk_value Critical_Risk = ''critical''"

primrec route_value :: "model_route \<Rightarrow> string" where
  "route_value No_Llm_Fallback = ''no_llm_fallback''"
| "route_value Quickthink_Llm = ''quickthinkllm''"
| "route_value Deepthink_Llm = ''deepthinkllm''"

primrec intent_value :: "intent \<Rightarrow> string" where
  "intent_value Auto_Intent = ''auto''"
| "intent_value Triage_Alert = ''triage_alert''"
| "intent_value Interpret_Incident_Evidence = ''interpret_incident_evidence''"
| "intent_value Asset_Context = ''asset_context''"
| "intent_value Blast_Radius = ''blast_radius''"
| "intent_value Trusted_Asset_Search = ''trusted_asset_search''"
| "intent_value Review_Sql = ''review_sql''"
| "intent_value Schema_Drift_Assessment = ''schema_drift_assessment''"

primrec requirement_value :: "requirement \<Rightarrow> string" where
  "requirement_value Required_Worker = ''required''"
| "requirement_value Optional_Worker = ''optional''"

primrec strategy_value :: "aggregation_strategy \<Rightarrow> string" where
  "strategy_value Evidence_First = ''evidence_first''"

primrec source_value :: "plan_source \<Rightarrow> string" where
  "source_value Deterministic = ''deterministic''"
| "source_value Llm_Proposal = ''llm_proposal''"

text \<open>\<open>model_dump(mode="json")\<close> of the models, for payloads of JSON values.\<close>

definition context_json :: "context_reference \<Rightarrow> json" where
  "context_json c = JObj [(''reference_type'', JStr (kind_value (cx_kind c))), (''reference'', JStr (cx_reference c)),
     (''description'', JStr (cx_description c))]"

definition task_signature_json :: "'f task \<Rightarrow> json" where
  "task_signature_json t =
     JObj [(''specialist_name'', JStr (tk_specialist t)), (''task_type'', JStr (tk_type t)),
           (''input_payload'', JObj (tk_payload t)), (''context_references'', JArr (map context_json (tk_context t)))]"

definition task_signature :: "'f pylib \<Rightarrow> 'f planner \<Rightarrow> 'f task \<Rightarrow> string" where
  "task_signature lib pn t = pn_sha256 pn (canonical_json (lib_json lib) (task_signature_json t))"

definition assign_stable_task_identity :: "'f pylib \<Rightarrow> 'f planner \<Rightarrow> 'f task \<Rightarrow> refusal + 'f task" where
  "assign_stable_task_identity lib pn t =
     validate_task lib (t\<lparr>tk_task_id := pn_uuid5 pn (tk_parent t) (task_signature lib pn t)\<rparr>)"

text \<open>The dump of a planned worker without the task's creation time.\<close>

definition task_json :: "'f planner \<Rightarrow> 'f task \<Rightarrow> json" where
  "task_json pn t =
     JObj [(''task_id'', JStr (tk_task_id t)), (''parent_run_id'', JStr (tk_parent t)),
           (''specialist_name'', JStr (tk_specialist t)), (''task_type'', JStr (tk_type t)),
           (''risk_tier'', JStr (risk_value (tk_risk t))), (''allowed_tools'', JArr (map JStr (tk_tools t))),
           (''context_references'', JArr (map context_json (tk_context t))),
           (''model_route'', JStr (route_value (tk_route t))), (''model_call_budget'', JInt (tk_model_calls t)),
           (''token_budget'', JInt (tk_tokens t)), (''estimated_cost_budget_usd'', pn_real pn (tk_cost t)),
           (''timeout_seconds'', JInt (tk_timeout t)), (''requester'', JStr (tk_requester t)),
           (''alert_key'', JStr (tk_alert_key t)), (''input_payload'', JObj (tk_payload t))]"

definition worker_json :: "'f planner \<Rightarrow> 'f worker \<Rightarrow> json" where
  "worker_json pn w =
     JObj [(''task'', task_json pn (wk_task w)), (''intent'', JStr (intent_value (wk_intent w))),
           (''requirement'', JStr (requirement_value (wk_requirement w))), (''retry_budget'', JInt (wk_retry_budget w)),
           (''checkpoint_namespace'', JStr (wk_namespace w)), (''rationale'', JStr (wk_rationale w))]"

definition dependency_json :: "dependency \<Rightarrow> json" where
  "dependency_json d =
     JObj [(''upstream_task_id'', JStr (dp_upstream d)), (''downstream_task_id'', JStr (dp_downstream d))]"

definition policy_json :: "'f planner \<Rightarrow> 'f fanout_policy \<Rightarrow> json" where
  "policy_json pn p =
     JObj [(''max_workers'', JInt (fp_max_workers p)), (''max_concurrency'', JInt (fp_max_concurrency p)),
           (''max_model_calls'', JInt (fp_max_calls p)), (''token_budget'', JInt (fp_tokens p)),
           (''estimated_cost_budget_usd'', pn_real pn (fp_cost p)), (''latency_budget_ms'', JInt (fp_latency p)),
           (''allow_external_llm'', JBool (fp_external_llm p)), (''mutation_allowed'', JBool (fp_mutation p))]"

definition wave_json :: "wave \<Rightarrow> json" where
  "wave_json w = JObj [(''wave_index'', JInt (int (wv_index w))), (''task_ids'', JArr (map JStr (wv_ids w)))]"

definition plan_hash_payload :: "'f planner \<Rightarrow> 'f plan \<Rightarrow> fields" where
  "plan_hash_payload pn p =
     [(''parent_run_id'', JStr (pl_parent p)), (''workers'', JArr (map (worker_json pn) (pl_workers p))),
      (''dependencies'', JArr (map dependency_json (pl_dependencies p))),
      (''fanout_policy'', policy_json pn (pl_policy p)), (''waves'', JArr (map wave_json (pl_waves p))),
      (''aggregation_strategy'', JStr (strategy_value (pl_strategy p))),
      (''plan_source'', JStr (source_value (pl_source p)))]"

definition calculate_plan_hash :: "'f pylib \<Rightarrow> 'f planner \<Rightarrow> 'f plan \<Rightarrow> string" where
  "calculate_plan_hash lib pn p = pn_sha256 pn (canonical_json (lib_json lib) (JObj (plan_hash_payload pn p)))"

section \<open>The gate of a plan\<close>

text \<open>The intents of the task types, the evidence interpretation tasks first.\<close>

definition intent_mapping :: "((string \<times> string) \<times> intent) list" where
  "intent_mapping =
     map (\<lambda>(task_type, specialist). ((specialist, task_type), Interpret_Incident_Evidence)) EVIDENCE_INTERPRETATION_TASKS @
     [((INCIDENT_TRIAGE_SPECIALIST_NAME, ''triage_alert''), Triage_Alert),
      ((METADATA_LINEAGE_SPECIALIST_NAME, ''asset_context''), Asset_Context),
      ((METADATA_LINEAGE_SPECIALIST_NAME, ''blast_radius''), Blast_Radius),
      ((METADATA_LINEAGE_SPECIALIST_NAME, ''trusted_asset_search''), Trusted_Asset_Search),
      ((SQL_REVIEW_SPECIALIST_NAME, ''review_sql''), Review_Sql),
      ((SCHEMA_DRIFT_SPECIALIST_NAME, ''assess_schema_drift''), Schema_Drift_Assessment)]"

definition intent_for_task :: "'f task \<Rightarrow> refusal + intent" where
  "intent_for_task t =
     (case map_of intent_mapping (tk_specialist t, tk_type t) of None \<Rightarrow> Inl (Invalid ''intent'') | Some i \<Rightarrow> Inr i)"

definition plan_ids :: "'f plan \<Rightarrow> string list" where
  "plan_ids p = map (tk_task_id \<circ> wk_task) (pl_workers p)"

text \<open>\<open>effective_fanout_worker_budget\<close>, whose vectors a task's budgets cannot make invalid but a NaN.\<close>

definition worker_budget :: "'f pylib \<Rightarrow> bool \<Rightarrow> int \<Rightarrow> 'f worker \<Rightarrow> refusal + 'f budget_vector" where
  "worker_budget lib external calls w =
     (case effective_fanout_worker_budget lib (wk_task w) external calls of
        Inl _ \<Rightarrow> Inl (Invalid ''budget'') | Inr v \<Rightarrow> Inr v)"

definition admit_worker :: "'f plan \<Rightarrow> 'f worker \<Rightarrow> refusal + unit" where
  "admit_worker p w =
     and_then (check (tk_parent (wk_task w) = pl_parent p) (Invalid ''parent_run_id'')) (\<lambda>_.
     and_then (enforce_task_capability (wk_task w)) (\<lambda>c.
     check (\<not> cp_mutation c) (Denied ''mutation'')))"

definition validate_execution_plan :: "'f pylib \<Rightarrow> 'f planner \<Rightarrow> 'f plan \<Rightarrow> refusal + 'f plan" where
  "validate_execution_plan lib pn p =
     and_then (check (int (length (pl_workers p)) \<le> fp_max_workers (pl_policy p)) (Invalid ''capacity'')) (\<lambda>_.
     and_then (check (distinct (plan_ids p)) (Invalid ''task_ids'')) (\<lambda>_.
     and_then (check (distinct (map (task_signature lib pn \<circ> wk_task) (pl_workers p))) (Invalid ''signatures'')) (\<lambda>_.
     and_then (try_map (admit_worker p) (pl_workers p)) (\<lambda>_.
     and_then (build_execution_waves (plan_ids p) (pl_dependencies p)) (\<lambda>expected_waves.
     and_then (check (pl_waves p = expected_waves) (Invalid ''waves'')) (\<lambda>_.
     and_then (try_map (worker_budget lib (fp_external_llm (pl_policy p)) (fp_max_calls (pl_policy p))) (pl_workers p)) (\<lambda>budgets.
     and_then (check (sum_list (map bv_calls budgets) \<le> fp_max_calls (pl_policy p)) (Invalid ''model_calls'')) (\<lambda>_.
     and_then (check (sum_list (map bv_tokens budgets) \<le> fp_tokens (pl_policy p)) (Invalid ''tokens'')) (\<lambda>_.
     and_then (check (\<not> lib_less lib (fp_cost (pl_policy p)) (float_sum lib (map bv_cost budgets))) (Invalid ''cost'')) (\<lambda>_.
     and_then (check (sum_list (map wk_retry_budget (pl_workers p)) \<le> int MAX_AGENT_WORKERS * 2) (Invalid ''retries'')) (\<lambda>_.
     and_then (check (pl_hash p = calculate_plan_hash lib pn p) (Invalid ''hash'')) (\<lambda>_.
     Inr p))))))))))))"

text \<open>The fields of the plan's model, which its construction checks.\<close>

definition plan_fields :: "'f plan \<Rightarrow> refusal + 'f plan" where
  "plan_fields p =
     and_then (sized 2 MAX_AGENT_WORKERS (pl_workers p) ''workers'') (\<lambda>_.
     and_then (sized 0 MAX_PLAN_DEPENDENCIES (pl_dependencies p) ''dependencies'') (\<lambda>_.
     and_then (sized 1 MAX_AGENT_WORKERS (pl_waves p) ''waves'') (\<lambda>_.
     and_then (sized PLAN_HASH_LENGTH PLAN_HASH_LENGTH (pl_hash p) ''deterministic_plan_hash'') (\<lambda>_. Inr p))))"


section \<open>What a plan hash commits to\<close>

lemma canon_items_map: "canon_items xs = map canon xs"
  by (induction xs) auto

definition json_member :: "string \<Rightarrow> json \<Rightarrow> json option" where
  "json_member k j = (case j of JObj kvs \<Rightarrow> map_of kvs k | _ \<Rightarrow> None)"

lemma json_member_canon: "distinct (map fst kvs) \<Longrightarrow> json_member k (canon (JObj kvs)) = map_option canon (map_of kvs k)"
proof -
  assume "distinct (map fst kvs)"
  then have "distinct (map fst (canon_fields kvs))" by (simp add: canon_fields_map comp_def case_prod_unfold)
  then show ?thesis by (simp add: json_member_def sort_fst_map_of map_of_canon)
qed

lemma same_member: "canon j = canon j' \<Longrightarrow> json_member k (canon j) = json_member k (canon j')"
  by simp

lemmas canon_obj [simp del] = canon.simps(8)

lemma canon_arr_inj:
  assumes "canon_items (map f xs) = canon_items (map f ys)"
    and "\<And>x y. x \<in> set xs \<Longrightarrow> y \<in> set ys \<Longrightarrow> canon (f x) = canon (f y) \<Longrightarrow> g x = g y"
  shows "map g xs = map g ys"
proof -
  have "map (canon \<circ> f) xs = map (canon \<circ> f) ys" using assms(1) by (simp add: canon_items_map)
  then show ?thesis using assms(2) by (auto simp: list_eq_iff_nth_eq)
qed

lemma strings_inj: "canon_items (map JStr xs) = canon_items (map JStr ys) \<longleftrightarrow> xs = ys"
  using canon_arr_inj[of JStr xs ys "\<lambda>x. x"] by auto

lemma kind_value_inj: "kind_value a = kind_value b \<longleftrightarrow> a = b"
  by (cases a; cases b) simp_all

lemma risk_value_inj: "risk_value a = risk_value b \<longleftrightarrow> a = b"
  by (cases a; cases b) simp_all

lemma route_value_inj: "route_value a = route_value b \<longleftrightarrow> a = b"
  by (cases a; cases b) simp_all

lemma intent_value_inj: "intent_value a = intent_value b \<longleftrightarrow> a = b"
  by (cases a; cases b) simp_all

lemma requirement_value_inj: "requirement_value a = requirement_value b \<longleftrightarrow> a = b"
  by (cases a; cases b) simp_all

lemma source_value_inj: "source_value a = source_value b \<longleftrightarrow> a = b"
  by (cases a; cases b) simp_all

lemmas value_inj = kind_value_inj risk_value_inj route_value_inj intent_value_inj requirement_value_inj source_value_inj

text \<open>The dump of a model determines its fields; a payload is determined as a JSON value.\<close>

lemma dependency_json_inj:
  assumes "canon (dependency_json d) = canon (dependency_json d')"
  shows "d = d'"
  using same_member[OF assms, of "''upstream_task_id''"] same_member[OF assms, of "''downstream_task_id''"]
  by (simp add: dependency_json_def json_member_canon)

lemma wave_json_inj:
  assumes "canon (wave_json w) = canon (wave_json w')"
  shows "w = w'"
  using same_member[OF assms, of "''wave_index''"] same_member[OF assms, of "''task_ids''"]
  by (simp add: wave_json_def json_member_canon strings_inj)

lemma context_json_inj:
  assumes "canon (context_json c) = canon (context_json c')"
  shows "c = c'"
  using same_member[OF assms, of "''reference_type''"] same_member[OF assms, of "''reference''"] same_member[OF assms, of "''description''"]
  by (simp add: context_json_def json_member_canon value_inj)

lemma contexts_inj: "canon_items (map context_json xs) = canon_items (map context_json ys) \<longleftrightarrow> xs = ys"
  using canon_arr_inj[of context_json xs ys "\<lambda>x. x"] context_json_inj by auto

text \<open>Equal up to the creation time, the JSON text of the cost and the order of the payload's keys.\<close>

definition same_task :: "'f planner \<Rightarrow> 'f task \<Rightarrow> 'f task \<Rightarrow> bool" where
  "same_task pn t u \<longleftrightarrow>
     json_eq (JObj (tk_payload t)) (JObj (tk_payload u)) \<and> json_eq (pn_real pn (tk_cost t)) (pn_real pn (tk_cost u)) \<and>
     t = u\<lparr>tk_payload := tk_payload t, tk_cost := tk_cost t, tk_created_at := tk_created_at t\<rparr>"

lemma task_json_inj:
  assumes "canon (task_json pn t) = canon (task_json pn u)"
  shows "same_task pn t u"
  using same_member[OF assms, of "''task_id''"]
    same_member[OF assms, of "''parent_run_id''"]
    same_member[OF assms, of "''specialist_name''"]
    same_member[OF assms, of "''task_type''"]
    same_member[OF assms, of "''risk_tier''"]
    same_member[OF assms, of "''allowed_tools''"]
    same_member[OF assms, of "''context_references''"]
    same_member[OF assms, of "''model_route''"]
    same_member[OF assms, of "''model_call_budget''"]
    same_member[OF assms, of "''token_budget''"]
    same_member[OF assms, of "''estimated_cost_budget_usd''"]
    same_member[OF assms, of "''timeout_seconds''"]
    same_member[OF assms, of "''requester''"]
    same_member[OF assms, of "''alert_key''"]
    same_member[OF assms, of "''input_payload''"]
  by (simp add: task_json_def json_member_canon value_inj same_task_def json_eq_def strings_inj contexts_inj)

lemma worker_json_inj:
  assumes "canon (worker_json pn w) = canon (worker_json pn v)"
  shows "same_task pn (wk_task w) (wk_task v) \<and> w = v\<lparr>wk_task := wk_task w\<rparr>"
  using same_member[OF assms, of "''task''"]
    same_member[OF assms, of "''intent''"]
    same_member[OF assms, of "''requirement''"]
    same_member[OF assms, of "''retry_budget''"]
    same_member[OF assms, of "''checkpoint_namespace''"]
    same_member[OF assms, of "''rationale''"]
  by (auto simp: worker_json_def json_member_canon value_inj dest!: task_json_inj)

lemma policy_json_inj:
  assumes "canon (policy_json pn a) = canon (policy_json pn b)"
  shows "json_eq (pn_real pn (fp_cost a)) (pn_real pn (fp_cost b)) \<and> a = b\<lparr>fp_cost := fp_cost a\<rparr>"
  using same_member[OF assms, of "''max_workers''"]
    same_member[OF assms, of "''max_concurrency''"]
    same_member[OF assms, of "''max_model_calls''"]
    same_member[OF assms, of "''token_budget''"]
    same_member[OF assms, of "''estimated_cost_budget_usd''"]
    same_member[OF assms, of "''latency_budget_ms''"]
    same_member[OF assms, of "''allow_external_llm''"]
    same_member[OF assms, of "''mutation_allowed''"]
  by (simp add: policy_json_def json_member_canon json_eq_def)


text \<open>The content of a plan, without the hash and the creation times.\<close>

definition same_plan :: "'f planner \<Rightarrow> 'f plan \<Rightarrow> 'f plan \<Rightarrow> bool" where
  "same_plan pn p q \<longleftrightarrow>
     pl_parent p = pl_parent q \<and> pl_dependencies p = pl_dependencies q \<and> pl_waves p = pl_waves q \<and>
     pl_source p = pl_source q \<and> pl_strategy p = pl_strategy q \<and>
     list_all2 (\<lambda>w v. same_task pn (wk_task w) (wk_task v) \<and> wk_intent w = wk_intent v \<and> wk_requirement w = wk_requirement v \<and>
        wk_retry_budget w = wk_retry_budget v \<and> wk_namespace w = wk_namespace v \<and> wk_rationale w = wk_rationale v)
       (pl_workers p) (pl_workers q) \<and>
     json_eq (pn_real pn (fp_cost (pl_policy p))) (pn_real pn (fp_cost (pl_policy q))) \<and>
     pl_policy p = (pl_policy q)\<lparr>fp_cost := fp_cost (pl_policy p)\<rparr>"

lemma same_worker:
  "same_task pn (wk_task w) (wk_task v) \<and> w = v\<lparr>wk_task := wk_task w\<rparr> \<Longrightarrow>
     same_task pn (wk_task w) (wk_task v) \<and> wk_intent w = wk_intent v \<and> wk_requirement w = wk_requirement v \<and>
     wk_retry_budget w = wk_retry_budget v \<and> wk_namespace w = wk_namespace v \<and> wk_rationale w = wk_rationale v"
  by (cases w; cases v) simp

text \<open>
  C40. The hash of a plan commits to what will run. Take two validated plans whose content is plain
  JSON: every value in the payloads of their tasks is one that JSON has, and no number is NaN or
  infinite. (Of any other value \<open>canonical_json\<close>, with its \<open>default=str\<close>, hashes only the text, so a
  value and its text would have one hash.) If the plans have the same hash, then, unless SHA-256
  gives one digest to their two texts, they have the same tasks with the same payloads, tools,
  routes and budgets, the same requirements and retries, dependencies, waves and limits. So a plan
  that is replayed or resumed under a validated hash is the plan that was validated.
\<close>

theorem plan_hash_commits_to_content:
  assumes "validate_execution_plan lib pn p = Inr p'" and "validate_execution_plan lib pn q = Inr q'" and "pl_hash p = pl_hash q"
    and "plain (JObj (plan_hash_payload pn p))" and "plain (JObj (plan_hash_payload pn q))"
    and "pn_sha256 pn (canonical_json (lib_json lib) (JObj (plan_hash_payload pn p))) =
         pn_sha256 pn (canonical_json (lib_json lib) (JObj (plan_hash_payload pn q))) \<Longrightarrow>
         canonical_json (lib_json lib) (JObj (plan_hash_payload pn p)) = canonical_json (lib_json lib) (JObj (plan_hash_payload pn q))"
  shows "same_plan pn p q"
proof -
  have "pl_hash p = calculate_plan_hash lib pn p" "pl_hash q = calculate_plan_hash lib pn q"
    using assms(1,2) unfolding validate_execution_plan_def by auto
  then have "canonical_json (lib_json lib) (JObj (plan_hash_payload pn p)) = canonical_json (lib_json lib) (JObj (plan_hash_payload pn q))"
    using assms(3,6) by (simp add: calculate_plan_hash_def)
  then have eq: "canon (JObj (plan_hash_payload pn p)) = canon (JObj (plan_hash_payload pn q))"
    using canonical_text_equal[OF assms(4,5)] by (simp add: json_eq_def)
  have m: "map_option canon (map_of (plan_hash_payload pn p) k) = map_option canon (map_of (plan_hash_payload pn q) k)" for k
    using same_member[OF eq, of k] by (simp add: json_member_canon plan_hash_payload_def)
  have "pl_parent p = pl_parent q" using m[of "''parent_run_id''"] by (simp add: plan_hash_payload_def)
  moreover have "map id (pl_dependencies p) = map id (pl_dependencies q)"
    using m[of "''dependencies''"] dependency_json_inj
    by (intro canon_arr_inj[of dependency_json]) (simp_all add: plan_hash_payload_def)
  moreover have "map id (pl_waves p) = map id (pl_waves q)"
    using m[of "''waves''"] wave_json_inj by (intro canon_arr_inj[of wave_json]) (simp_all add: plan_hash_payload_def)
  moreover have "pl_source p = pl_source q" using m[of "''plan_source''"] by (simp add: plan_hash_payload_def value_inj)
  moreover have "pl_strategy p = pl_strategy q" by (cases "pl_strategy p"; cases "pl_strategy q") simp
  moreover have "list_all2 (\<lambda>w v. canon (worker_json pn w) = canon (worker_json pn v)) (pl_workers p) (pl_workers q)"
  proof -
    have "map (canon \<circ> worker_json pn) (pl_workers p) = map (canon \<circ> worker_json pn) (pl_workers q)"
      using m[of "''workers''"] by (simp add: plan_hash_payload_def canon_items_map)
    then show ?thesis by (simp add: list_all2_conv_all_nth list_eq_iff_nth_eq)
  qed
  moreover have "json_eq (pn_real pn (fp_cost (pl_policy p))) (pn_real pn (fp_cost (pl_policy q))) \<and>
      pl_policy p = (pl_policy q)\<lparr>fp_cost := fp_cost (pl_policy p)\<rparr>"
    using m[of "''fanout_policy''"] by (intro policy_json_inj) (simp add: plan_hash_payload_def)
  ultimately show ?thesis
    unfolding same_plan_def using same_worker[OF worker_json_inj] by (auto elim!: list_all2_mono)
qed


end
