(* ===== verification/Fanout.thy ===== *)
theory Fanout
  imports Execution_Plan Resilience
begin

text \<open>
  The fan-out runtime, \<open>agent/supervisor/fanout.py\<close>, and the aggregation of its results
  (\<open>aggregate_agent_results\<close> of \<open>agent/supervisor/execution_plan.py\<close>): reserving the budgets of a
  wave, running one worker behind its gates, blocking a worker behind a failed one, and the
  decision over all results. The audit log and its client, the circuit breaker's store, the worker
  process and the clocks are the record \<open>fan_env\<close>; all but the clocks may raise. The checkpoint
  graphs around a wave and a worker, which only persist and replay these steps, are not modelled.
\<close>

section \<open>Environment\<close>

datatype fan_error =
    Budget_Error budget_error | Contract_Error refusal | Circuit_Error circuit_error | Usage_Error string
  | Process_Error string | World_Error string

text \<open>
  How a worker process ended: it could not be run at all, or its contract file not be written; its
  time was over; or it left an exit code, and what parsing its result file gave if there is one.
\<close>

datatype 'f process_end = Not_Run string | Timed_Out | Exited int "(refusal + 'f result) option"

record ('w, 'f) fan_env =
  fe_client :: "'w \<Rightarrow> string option \<times> 'w"
  fe_close :: "'w \<Rightarrow> string option \<times> 'w"
  fe_audit :: "string \<Rightarrow> 'w \<Rightarrow> string option \<times> 'w"
  fe_circuit :: "string \<Rightarrow> 'w \<Rightarrow> (fan_error + circuit_snapshot) \<times> 'w"
  fe_executor :: "('f worker \<Rightarrow> 'w \<Rightarrow> (fan_error + 'f result) \<times> 'w) option"
  fe_process :: "'f worker \<Rightarrow> 'w \<Rightarrow> 'f process_end \<times> 'w"
  fe_monotonic :: "'w \<Rightarrow> 'f \<times> 'w"
  fe_now :: "'w \<Rightarrow> int"
  fe_describe :: "fan_error \<Rightarrow> string \<times> string"

record ('w, 'f) fan_state =
  fs_allocator :: "'f allocator"
  fs_world :: 'w

type_synonym ('w, 'f, 'a) fan_prog = "(('w, 'f) fan_state, fan_error, 'a) prog"

definition pure :: "('e \<Rightarrow> fan_error) \<Rightarrow> 'e + 'a \<Rightarrow> ('w, 'f, 'a) fan_prog" where
  "pure raise m = lift (\<lambda>_. case m of Inl e \<Rightarrow> Inl (raise e) | Inr x \<Rightarrow> Inr x)"

definition on_allocator :: "('f allocator, budget_error, 'a) prog \<Rightarrow> ('w, 'f, 'a) fan_prog" where
  "on_allocator m s = (case m (fs_allocator s) of
      (Inl e, al) \<Rightarrow> (Inl (Budget_Error e), s\<lparr>fs_allocator := al\<rparr>)
    | (Inr x, al) \<Rightarrow> (Inr x, s\<lparr>fs_allocator := al\<rparr>))"

definition audit_worker :: "('w, 'f) fan_env \<Rightarrow> string \<Rightarrow> ('w, 'f, unit) fan_prog" where
  "audit_worker env action s = (case fe_audit env action (fs_world s) of
      (None, w) \<Rightarrow> (Inr (), s\<lparr>fs_world := w\<rparr>)
    | (Some e, w) \<Rightarrow> (Inl (World_Error e), s\<lparr>fs_world := w\<rparr>))"

text \<open>Creating and closing the audit client, each of which may raise; \<open>run_finally\<close> is Python's \<open>finally\<close>.\<close>

definition client_call :: "('w \<Rightarrow> string option \<times> 'w) \<Rightarrow> ('w, 'f, unit) fan_prog" where
  "client_call f s = (case f (fs_world s) of
      (None, w) \<Rightarrow> (Inr (), s\<lparr>fs_world := w\<rparr>)
    | (Some e, w) \<Rightarrow> (Inl (World_Error e), s\<lparr>fs_world := w\<rparr>))"

definition run_finally :: "('w, 'f, 'a) fan_prog \<Rightarrow> ('w, 'f, unit) fan_prog \<Rightarrow> ('w, 'f, 'a) fan_prog" where
  "run_finally m c s = (case m s of (out, t) \<Rightarrow> (case c t of
      (Inl e, u) \<Rightarrow> (Inl e, u)
    | (Inr _, u) \<Rightarrow> (out, u)))"

definition on_world :: "('w \<Rightarrow> 'a \<times> 'w) \<Rightarrow> ('w, 'f, 'a) fan_prog" where
  "on_world f s = (case f (fs_world s) of (x, w) \<Rightarrow> (Inr x, s\<lparr>fs_world := w\<rparr>))"

section \<open>Reserving a wave\<close>

definition wave_workers :: "'f plan \<Rightarrow> wave \<Rightarrow> refusal + 'f worker list" where
  "wave_workers p wv =
     try_map (\<lambda>i. case find (\<lambda>w. tk_task_id (wk_task w) = i) (rev (pl_workers p)) of
        None \<Rightarrow> Inl (Invalid i) | Some w \<Rightarrow> Inr w) (wv_ids wv)"

definition reserve_planned :: "'f pylib \<Rightarrow> bool \<Rightarrow> int \<Rightarrow> 'f worker \<Rightarrow> ('w, 'f, 'f budget_vector) fan_prog" where
  "reserve_planned lib external calls w =
     bnd (pure Budget_Error (effective_fanout_worker_budget lib (wk_task w) external calls)) (\<lambda>effective.
     on_allocator (reserve_worker lib (wk_task w) (Some effective)))"

definition reserve_wave :: "'f pylib \<Rightarrow> 'f plan \<Rightarrow> bool \<Rightarrow> int \<Rightarrow> wave \<Rightarrow> ('w, 'f, 'f budget_vector list) fan_prog" where
  "reserve_wave lib p external calls wv =
     bnd (pure Contract_Error (wave_workers p wv)) (\<lambda>ws. for_each (reserve_planned lib external calls) ws)"

definition fanout_allocator :: "'f plan \<Rightarrow> 'f allocator" where
  "fanout_allocator p =
     new_allocator (fp_max_calls (pl_policy p)) (fp_tokens (pl_policy p)) (fp_cost (pl_policy p)) (fp_max_workers (pl_policy p))"

section \<open>One worker\<close>

definition validate_worker_usage :: "'f pylib \<Rightarrow> 'f worker \<Rightarrow> 'f result \<Rightarrow> 'f budget_vector option \<Rightarrow> fan_error + unit" where
  "validate_worker_usage lib w r effective_budget =
     (case (case effective_budget of Some v \<Rightarrow> Inr v | None \<Rightarrow> task_vector lib (wk_task w)) of
        Inl e \<Rightarrow> Inl (Budget_Error e)
      | Inr budget \<Rightarrow>
          and_then (check (\<not> bv_calls budget < rs_model_calls r) (Usage_Error ''model_calls'')) (\<lambda>_.
          and_then (check (\<not> bv_tokens budget < rs_tokens r) (Usage_Error ''tokens'')) (\<lambda>_.
          and_then (check (\<not> lib_less lib (bv_cost budget) (rs_cost r)) (Usage_Error ''cost'')) (\<lambda>_.
          check (\<not> tk_timeout (wk_task w) * 1000 < rs_duration r) (Usage_Error ''duration'')))))"

lemma split_words_shorter:
  "dropWhile py_space s \<noteq> [] \<Longrightarrow> length (dropWhile (\<lambda>c. \<not> py_space c) (dropWhile py_space s)) < length s"
proof -
  assume ne: "dropWhile py_space s \<noteq> []"
  then have "\<not> py_space (hd (dropWhile py_space s))" by (rule hd_dropWhile)
  then have "length (dropWhile (\<lambda>c. \<not> py_space c) (dropWhile py_space s)) < length (dropWhile py_space s)"
    using ne length_dropWhile_le[of "\<lambda>c. \<not> py_space c" "tl (dropWhile py_space s)"]
    by (cases "dropWhile py_space s") (auto simp: less_Suc_eq_le)
  then show ?thesis using length_dropWhile_le[of py_space s] by linarith
qed

function split_words :: "string \<Rightarrow> string list" where
  "split_words s =
     (let rest = dropWhile py_space s
      in if rest = [] then []
         else takeWhile (\<lambda>c. \<not> py_space c) rest # split_words (dropWhile (\<lambda>c. \<not> py_space c) rest))"
  by pat_completeness auto

termination
  by (relation "measure length") (simp_all add: split_words_shorter)

declare split_words.simps [simp del]

definition sanitize_supervisor_error :: "('w, 'f) fan_env \<Rightarrow> fan_error \<Rightarrow> string" where
  "sanitize_supervisor_error env e =
     (case fe_describe env e of (exception_type, message) \<Rightarrow>
        exception_type @ '': '' @ take 1500 (join '' '' (split_words message)))"

definition FAILED_NEXT_STEP :: string where
  "FAILED_NEXT_STEP = ''Review the worker audit and dependency state before a bounded retry.''"

definition empty_result :: "'f pylib \<Rightarrow> 'f worker \<Rightarrow> task_status \<Rightarrow> int \<Rightarrow> string \<Rightarrow> string \<Rightarrow> int \<Rightarrow> 'f result" where
  "empty_result lib w status duration_ms error next_step at =
     \<lparr>rs_task_id = tk_task_id (wk_task w), rs_parent = tk_parent (wk_task w), rs_specialist = tk_specialist (wk_task w),
      rs_type = tk_type (wk_task w), rs_status = status, rs_evidence = [], rs_output = [], rs_confidence = lib_zero lib,
      rs_route = No_Llm_Fallback, rs_model_calls = 0, rs_tokens = 0, rs_cost = lib_zero lib, rs_duration = duration_ms,
      rs_errors = [error], rs_next_step = next_step, rs_needs_approval = False, rs_completed_at = at\<rparr>"

definition build_failed_worker_result ::
    "'f pylib \<Rightarrow> ('w, 'f) fan_env \<Rightarrow> 'f worker \<Rightarrow> fan_error \<Rightarrow> int \<Rightarrow> int \<Rightarrow> refusal + 'f result" where
  "build_failed_worker_result lib env w e duration_ms at =
     validate_result lib (empty_result lib w Task_Failed (max 0 duration_ms) (sanitize_supervisor_error env e) FAILED_NEXT_STEP at)"

text \<open>\<open>invoke_isolated_agent_worker\<close>: the contract files are part of \<open>fe_process\<close>.\<close>

definition invoke_isolated_agent_worker ::
    "'f pylib \<Rightarrow> ('w, 'f) fan_env \<Rightarrow> bool \<Rightarrow> int \<Rightarrow> 'f worker \<Rightarrow> ('w, 'f, 'f result) fan_prog" where
  "invoke_isolated_agent_worker lib env external calls w =
     bnd (on_world (fe_process env w)) (\<lambda>ended. case ended of
       Not_Run e \<Rightarrow> throw (World_Error e)
     | Timed_Out \<Rightarrow> throw (Process_Error ''timeout'')
     | Exited code parsed \<Rightarrow>
         bnd (require (code = 0) (Process_Error ''exit code'')) (\<lambda>_.
         bnd (pure (\<lambda>e. e) (case parsed of None \<Rightarrow> Inl (Process_Error ''no result'')
                | Some (Inl e) \<Rightarrow> Inl (Contract_Error e) | Some (Inr r) \<Rightarrow> Inr r)) (\<lambda>r.
         bnd (pure Contract_Error (enforce_result_contract lib (wk_task w) r)) (\<lambda>validated.
         bnd (pure Budget_Error (effective_fanout_worker_budget lib (wk_task w) external calls)) (\<lambda>effective.
         bnd (pure (\<lambda>e. e) (validate_worker_usage lib w validated (Some effective))) (\<lambda>_.
         ret validated))))))"

definition run_executor ::
    "'f pylib \<Rightarrow> ('w, 'f) fan_env \<Rightarrow> bool \<Rightarrow> int \<Rightarrow> 'f worker \<Rightarrow> 'f budget_vector \<Rightarrow> ('w, 'f, 'f result) fan_prog" where
  "run_executor lib env external calls w allocation =
     (case fe_executor env of
        None \<Rightarrow> invoke_isolated_agent_worker lib env external calls w
      | Some executor \<Rightarrow>
          bnd (on_world (executor w)) (\<lambda>outcome.
          bnd (pure (\<lambda>e. e) outcome) (\<lambda>r.
          bnd (pure Contract_Error (enforce_result_contract lib (wk_task w) r)) (\<lambda>validated.
          bnd (pure (\<lambda>e. e) (validate_worker_usage lib w validated (Some allocation))) (\<lambda>_.
          ret validated)))))"

definition elapsed :: "'f pylib \<Rightarrow> 'f \<Rightarrow> 'f \<Rightarrow> int" where
  "elapsed lib started t = lib_trunc lib (lib_mul lib (lib_sub lib t started) (lib_literal lib ''1000''))"

text \<open>
  The two blocks of \<open>execute_planned_worker\<close>: \<open>attempt_worker\<close> is its \<open>try\<close> with its \<open>except\<close>. The
  \<open>SupervisorRoute\<close> before them holds fields that the plan has validated (the rationale has at most
  500 characters, and an empty one is replaced), so building it does not raise.
\<close>

definition attempt_worker ::
    "'f pylib \<Rightarrow> ('w, 'f) fan_env \<Rightarrow> bool \<Rightarrow> int \<Rightarrow> 'f worker \<Rightarrow> 'f \<Rightarrow> ('w, 'f, 'f result) fan_prog" where
  "attempt_worker lib env external calls w started =
     handle
       (bnd (reserve_planned lib external calls w) (\<lambda>allocation.
        bnd (audit_worker env ''supervisor_worker_budget_reserved'') (\<lambda>_.
        bnd (on_world (fe_circuit env (tk_specialist (wk_task w)))) (\<lambda>loaded.
        bnd (pure (\<lambda>e. e) loaded) (\<lambda>snapshot.
        bnd (audit_worker env ''supervisor_circuit_checked'') (\<lambda>_.
        bnd (pure Circuit_Error (require_circuit_allows snapshot)) (\<lambda>_.
        bnd (audit_worker env ''supervisor_handoff_started'') (\<lambda>_.
        bnd (run_executor lib env external calls w allocation) (\<lambda>result.
        bnd (on_world (fe_monotonic env)) (\<lambda>_.
        bnd (audit_worker env ''supervisor_handoff_completed'') (\<lambda>_.
        ret result)))))))))))
       (\<lambda>e.
        bnd (on_world (fe_monotonic env)) (\<lambda>t.
        bnd (gets (\<lambda>s. fe_now env (fs_world s))) (\<lambda>at.
        bnd (pure Contract_Error (build_failed_worker_result lib env w e (elapsed lib started t) at)) (\<lambda>result.
        bnd (audit_worker env ''supervisor_handoff_failed'') (\<lambda>_.
        ret result)))))"

definition execute_planned_worker ::
    "'f pylib \<Rightarrow> ('w, 'f) fan_env \<Rightarrow> bool \<Rightarrow> int \<Rightarrow> 'f worker \<Rightarrow> ('w, 'f, 'f result) fan_prog" where
  "execute_planned_worker lib env external calls w =
     bnd (on_world (fe_monotonic env)) (\<lambda>started.
     bnd (client_call (fe_client env)) (\<lambda>_.
     run_finally (attempt_worker lib env external calls w started) (client_call (fe_close env))))"

text \<open>
  \<open>dependency_blocked_result\<close>. The order in which Python iterates over the set of upstream tasks
  is the argument \<open>order\<close>.
\<close>

definition usable :: "'f result \<Rightarrow> bool" where
  "usable r \<longleftrightarrow> rs_status r \<in> {Task_Success, Task_Partial}"

definition failed_upstream :: "(string list \<Rightarrow> string list) \<Rightarrow> 'f plan \<Rightarrow> (string \<times> 'f result) list \<Rightarrow> 'f worker \<Rightarrow> string list" where
  "failed_upstream order p prior w =
     filter (\<lambda>i. case map_of prior i of None \<Rightarrow> True | Some r \<Rightarrow> \<not> usable r)
       (order (remdups (incoming (pl_dependencies p) (tk_task_id (wk_task w)))))"

definition dependency_blocked_result ::
    "'f pylib \<Rightarrow> (string list \<Rightarrow> string list) \<Rightarrow> 'f worker \<Rightarrow> (string \<times> 'f result) list \<Rightarrow> 'f plan \<Rightarrow> int \<Rightarrow>
     refusal + 'f result option" where
  "dependency_blocked_result lib order w prior p at =
     (if failed_upstream order p prior w = [] then Inr None
      else and_then (validate_result lib (empty_result lib w Task_Blocked 0
             (''Worker dependency did not return usable evidence: '' @ join '', '' (failed_upstream order p prior w))
             ''Resolve the failed upstream worker before retrying this task.'' at)) (\<lambda>r. Inr (Some r)))"

section \<open>The waves of a plan\<close>

definition run_worker_node ::
    "'f pylib \<Rightarrow> ('w, 'f) fan_env \<Rightarrow> (string list \<Rightarrow> string list) \<Rightarrow> bool \<Rightarrow> int \<Rightarrow> 'f plan \<Rightarrow> (string \<times> 'f result) list \<Rightarrow>
     'f worker \<Rightarrow> ('w, 'f, 'f result) fan_prog" where
  "run_worker_node lib env order external calls p prior w =
     bnd (gets (\<lambda>s. fe_now env (fs_world s))) (\<lambda>at.
     bnd (pure Contract_Error (dependency_blocked_result lib order w prior p at)) (\<lambda>blocked. case blocked of
       Some r \<Rightarrow> ret r
     | None \<Rightarrow> execute_planned_worker lib env external calls w))"

text \<open>A dictionary filled in the order of the list: a later entry for a key replaces an earlier one.\<close>

definition results_by_id :: "'f result list \<Rightarrow> (string \<times> 'f result) list" where
  "results_by_id results = rev (map (\<lambda>r. (rs_task_id r, r)) results)"

text \<open>
  The workers of a wave run as concurrent nodes, each of whose steps on the allocator is atomic;
  \<open>sched\<close> is the order in which they run.
\<close>

definition execute_agent_wave ::
    "'f pylib \<Rightarrow> ('w, 'f) fan_env \<Rightarrow> (string list \<Rightarrow> string list) \<Rightarrow> ('f worker list \<Rightarrow> 'f worker list) \<Rightarrow> bool \<Rightarrow> int \<Rightarrow> 'f plan \<Rightarrow>
     (string \<times> 'f result) list \<Rightarrow> wave \<Rightarrow> ('w, 'f, 'f result list) fan_prog" where
  "execute_agent_wave lib env order sched external calls p prior wv =
     bnd (pure Contract_Error (wave_workers p wv)) (\<lambda>ws.
     bnd (for_each (reserve_planned lib external calls) ws) (\<lambda>_.
     bnd (for_each (run_worker_node lib env order external calls p prior) (sched ws)) (\<lambda>rs.
     ret (List.map_filter (\<lambda>w. map_of (results_by_id rs) (tk_task_id (wk_task w))) ws))))"

fun run_waves ::
    "'f pylib \<Rightarrow> ('w, 'f) fan_env \<Rightarrow> (string list \<Rightarrow> string list) \<Rightarrow> ('f worker list \<Rightarrow> 'f worker list) \<Rightarrow> bool \<Rightarrow> int \<Rightarrow> 'f plan \<Rightarrow>
     'f result list \<Rightarrow> wave list \<Rightarrow> ('w, 'f, 'f result list) fan_prog" where
  "run_waves lib env order sched external calls p results [] = ret results"
| "run_waves lib env order sched external calls p results (wv # wvs) =
     bnd (audit_worker env ''supervisor_execution_wave_started'') (\<lambda>_.
     bnd (execute_agent_wave lib env order sched external calls p (results_by_id results) wv) (\<lambda>rs.
     bnd (audit_worker env ''supervisor_execution_wave_completed'') (\<lambda>_.
     run_waves lib env order sched external calls p (results @ rs) wvs)))"

section \<open>Aggregation\<close>

definition validate_aggregation :: "'f pylib \<Rightarrow> 'f aggregation \<Rightarrow> refusal + 'f aggregation" where
  "validate_aggregation lib a =
     and_then (sized 0 MAX_AGENT_WORKERS (ag_completed a) ''completed_task_ids'') (\<lambda>_.
     and_then (sized 0 MAX_AGENT_WORKERS (ag_optional_failed a) ''optional_failed_task_ids'') (\<lambda>_.
     and_then (sized 0 MAX_AGENT_WORKERS (ag_required_failed a) ''required_failed_task_ids'') (\<lambda>_.
     and_then (sized 0 250 (ag_evidence a) ''evidence_references'') (\<lambda>_.
     and_then (check (within lib ''1.0'' (ag_confidence a)) (Invalid ''confidence'')) (\<lambda>_.
     and_then (sized 0 20000 (ag_summary a) ''summary'') (\<lambda>_.
     and_then (sized 0 20 (ag_missing a) ''missing_evidence'') (\<lambda>_.
     and_then (ranged 0 10 (ag_calls a) ''model_call_count'') (\<lambda>_.
     and_then (ranged 0 64000 (ag_tokens a) ''token_usage'') (\<lambda>_.
     and_then (check (within lib ''0.15'' (ag_cost a)) (Invalid ''estimated_cost_usd'')) (\<lambda>_.
     and_then (ranged 0 900000 (ag_duration a) ''duration_ms'') (\<lambda>_. Inr a)))))))))))"

text \<open>The results by task; a result outside the plan and a second one for a task are refused.\<close>

fun collect_results :: "string list \<Rightarrow> (string \<times> 'f result) list \<Rightarrow> 'f result list \<Rightarrow> refusal + (string \<times> 'f result) list" where
  "collect_results ids found [] = Inr found"
| "collect_results ids found (r # rs) =
     (if rs_task_id r \<notin> set ids then Inl (Invalid ''outside'')
      else if rs_task_id r \<in> set (map fst found) then Inl (Invalid ''duplicate'')
      else collect_results ids (found @ [(rs_task_id r, r)]) rs)"

type_synonym evidence_key = "string \<times> string \<times> string"

definition evidence_key :: "evidence_reference \<Rightarrow> evidence_key" where
  "evidence_key e = (ev_type e, ev_tool e, ev_reference e)"

definition setdefault_evidence :: "evidence_reference list \<Rightarrow> evidence_reference \<Rightarrow> evidence_reference list" where
  "setdefault_evidence known e = (if evidence_key e \<in> set (map evidence_key known) then known else known @ [e])"

record 'f tally =
  ty_completed :: "string list"
  ty_optional :: "string list"
  ty_required :: "string list"
  ty_missing :: "string list"
  ty_evidence :: "evidence_reference list"
  ty_confidence :: "'f list"

definition tally_failure :: "'f worker \<Rightarrow> string \<Rightarrow> 'f tally \<Rightarrow> 'f tally" where
  "tally_failure w message y =
     (let i = tk_task_id (wk_task w) in
      (if wk_requirement w = Required_Worker then y\<lparr>ty_required := ty_required y @ [i]\<rparr>
       else y\<lparr>ty_optional := ty_optional y @ [i]\<rparr>)\<lparr>ty_missing := ty_missing y @ [message]\<rparr>)"

definition tally_worker :: "(string \<times> 'f result) list \<Rightarrow> 'f worker \<Rightarrow> 'f tally \<Rightarrow> 'f tally" where
  "tally_worker found w y =
     (case map_of found (tk_task_id (wk_task w)) of
        None \<Rightarrow> tally_failure w (tk_specialist (wk_task w) @ ''.'' @ tk_type (wk_task w) @ '' returned no terminal result.'') y
      | Some r \<Rightarrow>
          if rs_status r \<in> {Task_Success, Task_Partial}
          then y\<lparr>ty_completed := ty_completed y @ [rs_task_id r], ty_confidence := ty_confidence y @ [rs_confidence r],
                 ty_evidence := foldl setdefault_evidence (ty_evidence y) (rs_evidence r),
                 ty_missing := (if rs_status r = Task_Partial then ty_missing y @ rs_errors r else ty_missing y)\<rparr>
          else tally_failure w (case rs_errors r of e # _ \<Rightarrow> e
                 | [] \<Rightarrow> rs_specialist r @ ''.'' @ rs_type r @ '' failed without usable evidence.'') y)"

definition empty_tally :: "'f tally" where
  "empty_tally = \<lparr>ty_completed = [], ty_optional = [], ty_required = [], ty_missing = [], ty_evidence = [], ty_confidence = []\<rparr>"

text \<open>\<open>min(values, default=0.0)\<close>: the first of the least values.\<close>

definition min_float :: "'f pylib \<Rightarrow> 'f list \<Rightarrow> 'f" where
  "min_float lib xs = (case xs of [] \<Rightarrow> lib_zero lib
      | x # rest \<Rightarrow> foldl (\<lambda>m v. if lib_less lib v m then v else m) x rest)"

definition BLOCKED_SUMMARY :: string where
  "BLOCKED_SUMMARY = ''The investigation is blocked because required evidence failed. No remediation may be proposed from this partial worker set.''"

definition PARTIAL_SUMMARY :: string where
  "PARTIAL_SUMMARY = ''The investigation retained usable evidence, but optional or partial evidence is missing. Review the disclosed worker gaps before acting.''"

definition SUCCESS_SUMMARY :: string where
  "SUCCESS_SUMMARY = ''All required and optional worker evidence completed successfully.''"

definition conclude :: "'f pylib \<Rightarrow> 'f tally \<Rightarrow> task_status \<times> 'f \<times> string" where
  "conclude lib y =
     (if ty_required y \<noteq> [] then (Task_Blocked, lib_zero lib, BLOCKED_SUMMARY)
      else if ty_optional y \<noteq> [] \<or> ty_missing y \<noteq> [] then (Task_Partial, min_float lib (ty_confidence y), PARTIAL_SUMMARY)
      else (Task_Success, min_float lib (ty_confidence y), SUCCESS_SUMMARY))"

definition aggregation_of :: "'f pylib \<Rightarrow> 'f result list \<Rightarrow> int \<Rightarrow> 'f tally \<Rightarrow> 'f aggregation" where
  "aggregation_of lib results duration_ms y =
     (case conclude lib y of (status, confidence, summary) \<Rightarrow>
        \<lparr>ag_status = status, ag_completed = ty_completed y, ag_optional_failed = ty_optional y,
         ag_required_failed = ty_required y, ag_evidence = ty_evidence y, ag_confidence = confidence, ag_summary = summary,
         ag_missing = take 20 (ty_missing y), ag_calls = sum_list (map rs_model_calls results),
         ag_tokens = sum_list (map rs_tokens results), ag_cost = float_sum lib (map rs_cost results),
         ag_duration = duration_ms\<rparr>)"

definition aggregate_agent_results ::
    "'f pylib \<Rightarrow> 'f planner \<Rightarrow> 'f plan \<Rightarrow> 'f result list \<Rightarrow> int \<Rightarrow> refusal + 'f aggregation" where
  "aggregate_agent_results lib pn p results duration_ms =
     and_then (validate_execution_plan lib pn p) (\<lambda>_.
     and_then (collect_results (plan_ids p) [] results) (\<lambda>found.
     validate_aggregation lib (aggregation_of lib results duration_ms (fold (tally_worker found) (pl_workers p) empty_tally))))"

text \<open>The decision of \<open>run_control_plane_fanout\<close> after the waves.\<close>

definition conclude_fanout ::
    "'f pylib \<Rightarrow> 'f planner \<Rightarrow> 'f plan \<Rightarrow> 'f result list \<Rightarrow> int \<Rightarrow> refusal + 'f aggregation \<times> approval_need" where
  "conclude_fanout lib pn p results duration_ms =
     and_then (aggregate_agent_results lib pn p results duration_ms) (\<lambda>a.
     and_then (check (\<not> fp_max_calls (pl_policy p) < ag_calls a) (Denied ''model_calls'')) (\<lambda>_.
     and_then (check (\<not> fp_tokens (pl_policy p) < ag_tokens a) (Denied ''tokens'')) (\<lambda>_.
     and_then (check (\<not> lib_less lib (fp_cost (pl_policy p)) (ag_cost a)) (Denied ''cost'')) (\<lambda>_.
     Inr (a, if list_ex rs_needs_approval results then Is_Pending else Not_Required)))))"

section \<open>Budgets of the workers\<close>

abbreviation worker_id :: "'f worker \<Rightarrow> string" where
  "worker_id w \<equiv> tk_task_id (wk_task w)"

definition granted :: "'f pylib \<Rightarrow> bool \<Rightarrow> int \<Rightarrow> 'f worker \<Rightarrow> 'f budget_vector" where
  "granted lib external calls w =
     (case effective_fanout_worker_budget lib (wk_task w) external calls of Inl _ \<Rightarrow> no_budget lib | Inr v \<Rightarrow> v)"

lemma on_allocator_Inr: "on_allocator m s = (Inr x, t) \<longleftrightarrow>
     (\<exists>al. m (fs_allocator s) = (Inr x, al) \<and> t = s\<lparr>fs_allocator := al\<rparr>)"
  by (auto simp: on_allocator_def split: prod.splits sum.splits)

lemma pure_run [simp]: "pure raise (Inr x) s = (Inr x, s)" "pure raise (Inl e) s = (Inl (raise e), s)"
  by (simp_all add: pure_def lift_def)

lemma pure_Inr: "pure raise m s = (Inr x, t) \<longleftrightarrow> m = Inr x \<and> t = s"
  by (cases m) auto

lemma budget_valid:
  "effective_fanout_worker_budget lib t external calls = Inr v \<Longrightarrow> valid_vector lib v"
  by (auto simp: effective_fanout_worker_budget_def task_vector_def vector_def split: if_splits)

lemma reserve_fresh:
  assumes "map_of (al_allocations al) (tk_task_id t) = None" and "int (length (al_allocations al)) < al_capacity al"
    and "sum_list (allocated bv_calls al) + bv_calls v \<le> al_max_calls al"
    and "sum_list (allocated bv_tokens al) + bv_tokens v \<le> al_token_budget al"
  shows "reserve_worker lib t (Some v) al =
     (if lib_less lib (al_cost_budget al) (lib_add lib (float_sum lib (allocated bv_cost al)) (bv_cost v))
      then (Inl Cost_Exceeded, al)
      else (Inr v, al\<lparr>al_allocations := al_allocations al @ [(tk_task_id t, v)]\<rparr>))"
proof -
  have "tk_task_id t \<notin> fst ` set (al_allocations al)" using assms(1) by (simp add: map_of_eq_None_iff)
  then show ?thesis
    using assms
    by (simp add: reserve_worker_def bnd_def gets_def modify_def require_def ret_def throw_def lift_def update_fresh)
qed

definition granted_to :: "'f pylib \<Rightarrow> bool \<Rightarrow> int \<Rightarrow> 'f worker list \<Rightarrow> (string \<times> 'f budget_vector) list" where
  "granted_to lib external calls ws = map (\<lambda>w. (worker_id w, granted lib external calls w)) ws"

text \<open>No prefix of the costs, added in order, exceeds the budget.\<close>

definition cost_fits :: "'f pylib \<Rightarrow> 'f \<Rightarrow> 'f list \<Rightarrow> bool" where
  "cost_fits lib budget xs \<longleftrightarrow> (\<forall>k \<le> length xs. \<not> lib_less lib budget (float_sum lib (take k xs)))"

lemma cost_fits_prefix: "cost_fits lib budget (xs @ ys) \<Longrightarrow> cost_fits lib budget xs"
proof -
  assume fits: "cost_fits lib budget (xs @ ys)"
  have "\<not> lib_less lib budget (float_sum lib (take k xs))" if "k \<le> length xs" for k
    using fits[unfolded cost_fits_def, rule_format, of k] that by simp
  then show ?thesis by (simp add: cost_fits_def)
qed

text \<open>Workers \<open>ws\<close> that still have to be reserved, after the workers \<open>held\<close>, fit the limits of \<open>al\<close>.\<close>

definition room :: "'f pylib \<Rightarrow> bool \<Rightarrow> int \<Rightarrow> 'f allocator \<Rightarrow> 'f worker list \<Rightarrow> 'f worker list \<Rightarrow> bool" where
  "room lib external calls al held ws \<longleftrightarrow>
     al_allocations al = granted_to lib external calls held \<and>
     (\<forall>w \<in> set ws. effective_fanout_worker_budget lib (wk_task w) external calls = Inr (granted lib external calls w)) \<and>
     distinct (map worker_id (held @ ws)) \<and> int (length (held @ ws)) \<le> al_capacity al \<and>
     sum_list (map (bv_calls \<circ> granted lib external calls) (held @ ws)) \<le> al_max_calls al \<and>
     sum_list (map (bv_tokens \<circ> granted lib external calls) (held @ ws)) \<le> al_token_budget al"

lemma room_allocated:
  "room lib external calls al held ws \<Longrightarrow> allocated f al = map (f \<circ> granted lib external calls) held"
  by (simp add: room_def allocated_def granted_to_def)

lemma room_nonneg:
  assumes "room lib external calls al held ws" and "w \<in> set ws"
  shows "0 \<le> bv_calls (granted lib external calls w) \<and> 0 \<le> bv_tokens (granted lib external calls w)"
  using assms budget_valid unfolding room_def by (fastforce simp: valid_vector_def)

lemma sum_list_prefix_le:
  "(\<And>x. x \<in> set ys \<Longrightarrow> 0 \<le> (f x :: int)) \<Longrightarrow> sum_list (map f xs) \<le> sum_list (map f (xs @ ys))"
  by (auto intro!: sum_list_nonneg)

lemma room_Cons:
  assumes room: "room lib external calls al held (w # ws)"
  shows "reserve_worker lib (wk_task w) (Some (granted lib external calls w)) al =
     (if lib_less lib (al_cost_budget al) (float_sum lib (map (bv_cost \<circ> granted lib external calls) (held @ [w])))
      then (Inl Cost_Exceeded, al)
      else (Inr (granted lib external calls w), al\<lparr>al_allocations := granted_to lib external calls (held @ [w])\<rparr>))"
    and "room lib external calls (al\<lparr>al_allocations := granted_to lib external calls (held @ [w])\<rparr>) (held @ [w]) ws"
proof -
  let ?g = "granted lib external calls"
  note alloc = room_allocated[OF room]
  have fresh: "map_of (al_allocations al) (worker_id w) = None"
    using room by (auto simp: room_def granted_to_def map_of_eq_None_iff)
  have "sum_list (map (bv_calls \<circ> ?g) (held @ [w])) \<le> sum_list (map (bv_calls \<circ> ?g) ((held @ [w]) @ ws))"
    "sum_list (map (bv_tokens \<circ> ?g) (held @ [w])) \<le> sum_list (map (bv_tokens \<circ> ?g) ((held @ [w]) @ ws))"
    using room_nonneg[OF room] by (intro sum_list_prefix_le; simp)+
  then have "sum_list (allocated bv_calls al) + bv_calls (?g w) \<le> al_max_calls al"
    "sum_list (allocated bv_tokens al) + bv_tokens (?g w) \<le> al_token_budget al"
    using room unfolding room_def alloc by simp_all
  moreover have "int (length (al_allocations al)) < al_capacity al"
    using room by (simp add: room_def granted_to_def)
  ultimately show "reserve_worker lib (wk_task w) (Some (?g w)) al =
     (if lib_less lib (al_cost_budget al) (float_sum lib (map (bv_cost \<circ> ?g) (held @ [w])))
      then (Inl Cost_Exceeded, al)
      else (Inr (?g w), al\<lparr>al_allocations := granted_to lib external calls (held @ [w])\<rparr>))"
    using reserve_fresh[OF fresh, of "?g w" lib] room alloc[of bv_cost]
    by (simp add: room_def granted_to_def float_sum_snoc)
  show "room lib external calls (al\<lparr>al_allocations := granted_to lib external calls (held @ [w])\<rparr>) (held @ [w]) ws"
    using room by (simp add: room_def)
qed

lemma reserve_planned_run:
  "effective_fanout_worker_budget lib (wk_task w) external calls = Inr v \<Longrightarrow>
     reserve_planned lib external calls w s = on_allocator (reserve_worker lib (wk_task w) (Some v)) s"
  by (simp add: reserve_planned_def)

text \<open>Reserving a list of workers that fits: everyone gets its budget, or float addition refuses one.\<close>

lemma reserve_list:
  assumes "room lib external calls (fs_allocator s) held ws"
  shows "(\<exists>t. for_each (reserve_planned lib external calls) ws s = (Inr (map (granted lib external calls) ws), t) \<and>
       fs_allocator t = (fs_allocator s)\<lparr>al_allocations := granted_to lib external calls (held @ ws)\<rparr>) \<or>
     (\<exists>t. for_each (reserve_planned lib external calls) ws s = (Inl (Budget_Error Cost_Exceeded), t) \<and>
       \<not> cost_fits lib (al_cost_budget (fs_allocator s)) (map (bv_cost \<circ> granted lib external calls) (held @ ws)))"
  using assms
proof (induction ws arbitrary: held s)
  case Nil
  then show ?case by (simp add: room_def)
next
  case (Cons w ws)
  let ?g = "granted lib external calls" and ?al = "fs_allocator s"
  have eff: "effective_fanout_worker_budget lib (wk_task w) external calls = Inr (?g w)"
    using Cons.prems by (simp add: room_def)
  note step = room_Cons[OF Cons.prems]
  show ?case
  proof (cases "lib_less lib (al_cost_budget ?al) (float_sum lib (map (bv_cost \<circ> ?g) (held @ [w])))")
    case True
    then have "\<not> cost_fits lib (al_cost_budget ?al) (map (bv_cost \<circ> ?g) (held @ w # ws))"
      unfolding cost_fits_def by (auto intro!: exI[of _ "Suc (length held)"] simp: take_map)
    then show ?thesis
      using True step(1) eff by (auto simp: reserve_planned_run on_allocator_def comp_def)
  next
    case False
    let ?t = "s\<lparr>fs_allocator := ?al\<lparr>al_allocations := granted_to lib external calls (held @ [w])\<rparr>\<rparr>"
    have run: "reserve_planned lib external calls w s = (Inr (?g w), ?t)"
      using False step(1) eff by (simp add: reserve_planned_run on_allocator_def)
    have "room lib external calls (fs_allocator ?t) (held @ [w]) ws" using step(2) by simp
    from Cons.IH[OF this] run show ?thesis by (auto simp: bnd_def ret_def)
  qed
qed

lemma room_append:
  assumes "room lib external calls al held (us @ ws)"
  shows "room lib external calls al held us"
    and "room lib external calls (al\<lparr>al_allocations := granted_to lib external calls (held @ us)\<rparr>) (held @ us) ws"
proof -
  let ?g = "granted lib external calls"
  have "sum_list (map (bv_calls \<circ> ?g) (held @ us)) \<le> sum_list (map (bv_calls \<circ> ?g) ((held @ us) @ ws))"
    "sum_list (map (bv_tokens \<circ> ?g) (held @ us)) \<le> sum_list (map (bv_tokens \<circ> ?g) ((held @ us) @ ws))"
    using room_nonneg[OF assms] by (intro sum_list_prefix_le; simp)+
  then show "room lib external calls al held us"
    using assms unfolding room_def by auto
  show "room lib external calls (al\<lparr>al_allocations := granted_to lib external calls (held @ us)\<rparr>) (held @ us) ws"
    using assms unfolding room_def by simp
qed

section \<open>What a validated plan guarantees\<close>

lemma validated_plan:
  fixes p :: "'f plan" and lib :: "'f pylib"
  defines "g \<equiv> granted lib (fp_external_llm (pl_policy p)) (fp_max_calls (pl_policy p))"
  assumes "validate_execution_plan lib pn p = Inr q"
  shows "q = p" and "distinct (plan_ids p)" and "int (length (pl_workers p)) \<le> fp_max_workers (pl_policy p)"
    and "build_execution_waves (plan_ids p) (pl_dependencies p) = Inr (pl_waves p)"
    and "\<forall>w \<in> set (pl_workers p).
      effective_fanout_worker_budget lib (wk_task w) (fp_external_llm (pl_policy p)) (fp_max_calls (pl_policy p)) = Inr (g w) \<and>
      tk_parent (wk_task w) = pl_parent p \<and> (\<exists>c. enforce_task_capability (wk_task w) = Inr c \<and> \<not> cp_mutation c)"
    and "sum_list (map (bv_calls \<circ> g) (pl_workers p)) \<le> fp_max_calls (pl_policy p)"
    and "sum_list (map (bv_tokens \<circ> g) (pl_workers p)) \<le> fp_tokens (pl_policy p)"
    and "\<not> lib_less lib (fp_cost (pl_policy p)) (float_sum lib (map (bv_cost \<circ> g) (pl_workers p)))"
proof -
  obtain us budgets where q: "q = p" and dist: "distinct (plan_ids p)" and len: "int (length (pl_workers p)) \<le> fp_max_workers (pl_policy p)"
    and admit: "map (admit_worker p) (pl_workers p) = map Inr us"
    and waves: "build_execution_waves (plan_ids p) (pl_dependencies p) = Inr (pl_waves p)"
    and budgets: "map (worker_budget lib (fp_external_llm (pl_policy p)) (fp_max_calls (pl_policy p))) (pl_workers p) = map Inr budgets"
    and sums: "sum_list (map bv_calls budgets) \<le> fp_max_calls (pl_policy p)" "sum_list (map bv_tokens budgets) \<le> fp_tokens (pl_policy p)"
      "\<not> lib_less lib (fp_cost (pl_policy p)) (float_sum lib (map bv_cost budgets))"
    using assms(2) unfolding validate_execution_plan_def by (auto simp: try_map_Inr)
  show "q = p" "distinct (plan_ids p)" "int (length (pl_workers p)) \<le> fp_max_workers (pl_policy p)"
    "build_execution_waves (plan_ids p) (pl_dependencies p) = Inr (pl_waves p)"
    by (fact q dist len waves)+
  have each: "admit_worker p w \<in> range Inr"
    "worker_budget lib (fp_external_llm (pl_policy p)) (fp_max_calls (pl_policy p)) w \<in> range Inr" if "w \<in> set (pl_workers p)" for w
    using that arg_cong[OF admit, of set] arg_cong[OF budgets, of set] by (auto simp: image_iff)
  then show "\<forall>w \<in> set (pl_workers p).
      effective_fanout_worker_budget lib (wk_task w) (fp_external_llm (pl_policy p)) (fp_max_calls (pl_policy p)) = Inr (g w) \<and>
      tk_parent (wk_task w) = pl_parent p \<and> (\<exists>c. enforce_task_capability (wk_task w) = Inr c \<and> \<not> cp_mutation c)"
    by (fastforce simp: admit_worker_def worker_budget_def g_def granted_def split: sum.splits)
  have "budgets = map g (pl_workers p)"
  proof -
    have "worker_budget lib (fp_external_llm (pl_policy p)) (fp_max_calls (pl_policy p)) w = Inr (g w)" if "w \<in> set (pl_workers p)" for w
      using each(2)[OF that] by (auto simp: worker_budget_def g_def granted_def split: sum.splits)
    then have "map (worker_budget lib (fp_external_llm (pl_policy p)) (fp_max_calls (pl_policy p))) (pl_workers p) =
        map Inr (map g (pl_workers p))" by simp
    with budgets have "map Inr (map g (pl_workers p)) = (map Inr budgets :: (refusal + _) list)" by simp
    then show ?thesis by (metis inj_Inr map_injective)
  qed
  then show "sum_list (map (bv_calls \<circ> g) (pl_workers p)) \<le> fp_max_calls (pl_policy p)"
    "sum_list (map (bv_tokens \<circ> g) (pl_workers p)) \<le> fp_tokens (pl_policy p)"
    "\<not> lib_less lib (fp_cost (pl_policy p)) (float_sum lib (map (bv_cost \<circ> g) (pl_workers p)))"
    using sums by simp_all
qed

subsection \<open>The workers of the waves\<close>

definition worker_of :: "'f plan \<Rightarrow> string \<Rightarrow> 'f worker" where
  "worker_of p i = the (find (\<lambda>w. worker_id w = i) (rev (pl_workers p)))"

lemma worker_of:
  assumes "i \<in> set (plan_ids p)"
  shows "find (\<lambda>w. worker_id w = i) (rev (pl_workers p)) = Some (worker_of p i) \<and>
     worker_of p i \<in> set (pl_workers p) \<and> worker_id (worker_of p i) = i"
proof -
  obtain w where w: "find (\<lambda>w. worker_id w = i) (rev (pl_workers p)) = Some w"
    using assms by (cases "find (\<lambda>w. worker_id w = i) (rev (pl_workers p))") (auto simp: find_None_iff plan_ids_def)
  then show ?thesis using find_SomeD[OF w] by (simp add: worker_of_def)
qed

lemma worker_of_id: "i \<in> set (plan_ids p) \<Longrightarrow> worker_id (worker_of p i) = i"
  using worker_of by blast

lemma wave_workers_eq:
  "set (wv_ids wv) \<subseteq> set (plan_ids p) \<Longrightarrow> wave_workers p wv = Inr (map (worker_of p) (wv_ids wv))"
  using worker_of unfolding wave_workers_def by (fastforce simp: try_map_Inr split: option.splits)

lemma worker_of_own: "distinct (plan_ids p) \<Longrightarrow> w \<in> set (pl_workers p) \<Longrightarrow> worker_of p (worker_id w) = w"
  using worker_of[of "worker_id w" p] by (auto simp: plan_ids_def distinct_map inj_on_def)

lemma all_workers:
  assumes "distinct (plan_ids p)" and "mset ids = mset (plan_ids p)"
  shows "mset (map (worker_of p) ids) = mset (pl_workers p)"
proof -
  have "mset (map (worker_of p) ids) = mset (map (worker_of p) (plan_ids p))" using assms(2) by simp
  also have "map (worker_of p) (plan_ids p) = pl_workers p"
    using worker_of_own[OF assms(1)] by (simp add: plan_ids_def map_idI)
  finally show ?thesis .
qed

lemma mset_sum_list: "mset xs = mset ys \<Longrightarrow> sum_list (map f xs) = (sum_list (map f ys) :: int)"
  by (metis mset_map sum_mset_sum_list)

lemma plan_room:
  assumes "validate_execution_plan lib pn p = Inr q"
  shows "room lib (fp_external_llm (pl_policy p)) (fp_max_calls (pl_policy p)) (fanout_allocator p) []
     (map (worker_of p) (wave_tasks (pl_waves p)))"
proof -
  note plan = validated_plan[OF assms]
  have ids: "mset (wave_tasks (pl_waves p)) = mset (plan_ids p)"
    using waves_schedule_every_task[OF plan(4)] by simp
  have all: "mset (map (worker_of p) (wave_tasks (pl_waves p))) = mset (pl_workers p)"
    by (rule all_workers[OF plan(2) ids])
  have "map worker_id (map (worker_of p) (wave_tasks (pl_waves p))) = wave_tasks (pl_waves p)"
    using mset_eq_setD[OF ids] by (auto intro!: map_idI simp: worker_of_id)
  then have "distinct (map worker_id (map (worker_of p) (wave_tasks (pl_waves p))))"
    using ids plan(2) by (metis mset_eq_imp_distinct_iff)
  moreover have "set (map (worker_of p) (wave_tasks (pl_waves p))) = set (pl_workers p)"
    using all by (metis mset_eq_setD)
  moreover have "length (map (worker_of p) (wave_tasks (pl_waves p))) = length (pl_workers p)"
    using all by (metis mset_eq_length)
  ultimately show ?thesis
    using plan(3,5-7) mset_sum_list[OF all]
    by (simp add: room_def fanout_allocator_def new_allocator_def granted_to_def)
qed

section \<open>What a worker answers\<close>

text \<open>A worker that holds its allocation leaves the allocator as it is.\<close>

definition keeps_grant :: "string \<Rightarrow> ('w, 'f) fan_state \<Rightarrow> ('w, 'f) fan_state \<Rightarrow> bool" where
  "keeps_grant i s t \<longleftrightarrow> (map_of (al_allocations (fs_allocator s)) i \<noteq> None \<longrightarrow> fs_allocator t = fs_allocator s)"

interpretation granting: evolution "keeps_grant i" for i
  by unfold_locales (auto simp: keeps_grant_def)

lemma granting_pure: "evolves (keeps_grant i) (pure f m)"
  by (simp add: pure_def granting.lift)

lemma granting_world: "evolves (keeps_grant i) (on_world f)"
  by (rule evolvesI) (auto simp: on_world_def keeps_grant_def split: prod.splits)

lemma granting_audit: "evolves (keeps_grant i) (audit_worker env a)"
  by (rule evolvesI) (auto simp: audit_worker_def keeps_grant_def split: prod.splits option.splits)

lemma granting_reserve: "evolves (keeps_grant (worker_id w)) (reserve_planned lib external calls w)"
proof (cases "effective_fanout_worker_budget lib (wk_task w) external calls")
  case (Inr v)
  then show ?thesis
    by (auto intro!: evolvesI simp: reserve_planned_run keeps_grant_def on_allocator_def reserve_existing)
qed (auto intro!: evolvesI simp: reserve_planned_def bnd_def keeps_grant_def)

lemma granting_process: "evolves (keeps_grant i) (invoke_isolated_agent_worker lib env external calls w)"
  unfolding invoke_isolated_agent_worker_def
  by (intro granting.rules granting_world granting_pure; split process_end.split)
    (intro conjI allI impI granting.rules granting_pure)

lemma granting_executor: "evolves (keeps_grant i) (run_executor lib env external calls w allocation)"
  unfolding run_executor_def
  by (split option.split) (intro conjI allI impI granting.rules granting_world granting_pure granting_process)

lemma granting_client: "evolves (keeps_grant i) (client_call f)"
  by (rule evolvesI) (auto simp: client_call_def keeps_grant_def split: prod.splits option.splits)

lemma granting_finally: "evolves (keeps_grant i) m \<Longrightarrow> evolves (keeps_grant i) c \<Longrightarrow> evolves (keeps_grant i) (run_finally m c)"
  unfolding evolves_def run_finally_def
  by (auto split: prod.splits sum.splits) (metis snd_conv granting.trans)+

lemma granting_attempt: "evolves (keeps_grant (worker_id w)) (attempt_worker lib env external calls w started)"
  unfolding attempt_worker_def
  by (intro granting.rules granting_world granting_pure granting_audit granting_reserve granting_executor)

lemma granting_execute: "evolves (keeps_grant (worker_id w)) (execute_planned_worker lib env external calls w)"
  unfolding execute_planned_worker_def
  by (intro granting.bnd granting_world granting_client granting_finally granting_attempt)

definition answers :: "'f pylib \<Rightarrow> bool \<Rightarrow> int \<Rightarrow> 'f worker \<Rightarrow> 'f result \<Rightarrow> bool" where
  "answers lib external calls w r \<longleftrightarrow>
     rs_task_id r = worker_id w \<and> rs_model_calls r \<le> bv_calls (granted lib external calls w) \<and>
     rs_tokens r \<le> bv_tokens (granted lib external calls w) \<and> 0 \<le> rs_model_calls r \<and> 0 \<le> rs_tokens r \<and>
     (usable r \<longrightarrow> (\<exists>raw. enforce_result_contract lib (wk_task w) raw = Inr r))"

lemma usage_Inr:
  "validate_worker_usage lib w r (Some v) = Inr u \<longleftrightarrow>
     rs_model_calls r \<le> bv_calls v \<and> rs_tokens r \<le> bv_tokens v \<and> \<not> lib_less lib (bv_cost v) (rs_cost r) \<and>
     rs_duration r \<le> tk_timeout (wk_task w) * 1000"
  by (auto simp: validate_worker_usage_def)

lemma contract_counts:
  "enforce_result_contract lib t raw = Inr r \<Longrightarrow> rs_task_id r = tk_task_id t \<and> 0 \<le> rs_model_calls r \<and> 0 \<le> rs_tokens r"
  by (auto simp: enforce_result_contract_def validate_result_def Let_def ranged_def)

lemma process_Inr:
  assumes "invoke_isolated_agent_worker lib env external calls w s = (Inr r, t)"
  shows "\<exists>raw v. enforce_result_contract lib (wk_task w) raw = Inr r \<and>
     effective_fanout_worker_budget lib (wk_task w) external calls = Inr v \<and> validate_worker_usage lib w r (Some v) = Inr ()"
proof -
  obtain ended u where "(case ended of
       Not_Run e \<Rightarrow> throw (World_Error e)
     | Timed_Out \<Rightarrow> throw (Process_Error ''timeout'')
     | Exited code parsed \<Rightarrow>
         bnd (require (code = 0) (Process_Error ''exit code'')) (\<lambda>_.
         bnd (pure (\<lambda>e. e) (case parsed of None \<Rightarrow> Inl (Process_Error ''no result'')
                | Some (Inl e) \<Rightarrow> Inl (Contract_Error e) | Some (Inr r) \<Rightarrow> Inr r)) (\<lambda>r.
         bnd (pure Contract_Error (enforce_result_contract lib (wk_task w) r)) (\<lambda>validated.
         bnd (pure Budget_Error (effective_fanout_worker_budget lib (wk_task w) external calls)) (\<lambda>effective.
         bnd (pure (\<lambda>e. e) (validate_worker_usage lib w validated (Some effective))) (\<lambda>_.
         ret validated)))))) u = (Inr r, t)"
    using assms unfolding invoke_isolated_agent_worker_def bnd_Inr by blast
  then show ?thesis
    by (cases ended) (auto simp: bnd_Inr pure_Inr split: sum.splits)
qed

lemma answers_executed:
  assumes "run_executor lib env external calls w (granted lib external calls w) s = (Inr r, t)"
    and eff: "effective_fanout_worker_budget lib (wk_task w) external calls = Inr (granted lib external calls w)"
  shows "answers lib external calls w r"
proof -
  obtain raw where "enforce_result_contract lib (wk_task w) raw = Inr r"
    and "validate_worker_usage lib w r (Some (granted lib external calls w)) = Inr ()"
  proof (cases "fe_executor env")
    case None
    then show ?thesis using that process_Inr[of lib env external calls w s r t] assms by (auto simp: run_executor_def)
  next
    case (Some executor)
    then show ?thesis using that assms(1) by (auto simp: run_executor_def bnd_Inr pure_Inr)
  qed
  then show ?thesis by (auto simp: answers_def usage_Inr dest: contract_counts)
qed

lemma empty_result_counts:
  assumes "validate_result lib (empty_result lib w st d e n at) = Inr r"
  shows "rs_task_id r = worker_id w \<and> rs_model_calls r = 0 \<and> rs_tokens r = 0 \<and> rs_status r = st"
  using validate_result_Inr[OF assms] by (auto simp: empty_result_def)

lemma answers_empty:
  assumes "validate_result lib (empty_result lib w st d e n at) = Inr r" and "st = Task_Failed \<or> st = Task_Blocked"
    and "effective_fanout_worker_budget lib (wk_task w) external calls = Inr (granted lib external calls w)"
  shows "answers lib external calls w r \<and> \<not> usable r"
  using empty_result_counts[OF assms(1)] assms(2) budget_valid[OF assms(3)]
  by (auto simp: answers_def usable_def valid_vector_def)

lemma handle_Inr: "handle m h s = (Inr x, t) \<longleftrightarrow> m s = (Inr x, t) \<or> (\<exists>e u. m s = (Inl e, u) \<and> h e u = (Inr x, t))"
  by (auto simp: handle_def split: prod.splits sum.splits)

lemma handle_Inl: "handle m h s = (Inl e', t) \<longleftrightarrow> (\<exists>e u. m s = (Inl e, u) \<and> h e u = (Inl e', t))"
  by (auto simp: handle_def split: prod.splits sum.splits)

lemma on_world_run: "on_world f s = (Inr (fst (f (fs_world s))), s\<lparr>fs_world := snd (f (fs_world s))\<rparr>)"
  by (simp add: on_world_def split: prod.splits)

definition holds_grant :: "'f pylib \<Rightarrow> bool \<Rightarrow> int \<Rightarrow> 'f worker \<Rightarrow> ('w, 'f) fan_state \<Rightarrow> bool" where
  "holds_grant lib external calls w s \<longleftrightarrow>
     map_of (al_allocations (fs_allocator s)) (worker_id w) = Some (granted lib external calls w) \<and>
     effective_fanout_worker_budget lib (wk_task w) external calls = Inr (granted lib external calls w)"

lemma reserve_held:
  "holds_grant lib external calls w s \<Longrightarrow> reserve_planned lib external calls w s = (Inr (granted lib external calls w), s)"
  by (simp add: holds_grant_def reserve_planned_run on_allocator_def reserve_existing)

lemma attempt_answers:
  assumes "holds_grant lib external calls w s" and "attempt_worker lib env external calls w started s = (Inr r, t)"
  shows "answers lib external calls w r"
proof -
  have eff: "effective_fanout_worker_budget lib (wk_task w) external calls = Inr (granted lib external calls w)"
    using assms(1) by (simp add: holds_grant_def)
  show ?thesis
    using assms(2) unfolding attempt_worker_def handle_Inr
    by (auto simp: bnd_Inr reserve_held[OF assms(1)] pure_Inr build_failed_worker_result_def
        dest: answers_executed[OF _ eff] answers_empty[OF _ _ eff])
qed

lemma client_call_frame: "client_call f s = (out, t) \<Longrightarrow> fs_allocator t = fs_allocator s"
  by (auto simp: client_call_def split: prod.splits option.splits)

lemma client_call_Inl: "client_call f s = (Inl e, t) \<Longrightarrow>
    \<exists>x. e = World_Error x \<and> f (fs_world s) = (Some x, fs_world t)"
  by (auto simp: client_call_def split: prod.splits option.splits)

lemma client_call_Inr: "client_call f s = (Inr x, t) \<Longrightarrow> f (fs_world s) = (None, fs_world t)"
  by (auto simp: client_call_def split: prod.splits option.splits)

lemma run_finally_Inr: "run_finally m c s = (Inr x, t) \<longleftrightarrow> (\<exists>u. m s = (Inr x, u) \<and> c u = (Inr (), t))"
  by (auto simp: run_finally_def split: prod.splits sum.splits)

lemma run_finally_Inl: "run_finally m c s = (Inl e, t) \<longleftrightarrow>
    (\<exists>out u. m s = (out, u) \<and> (c u = (Inl e, t) \<or> out = Inl e \<and> c u = (Inr (), t)))"
  by (auto simp: run_finally_def split: prod.splits sum.splits)

lemma execute_answers:
  assumes "holds_grant lib external calls w s" and "execute_planned_worker lib env external calls w s = (Inr r, t)"
  shows "answers lib external calls w r"
proof -
  obtain u v where opened: "client_call (fe_client env) (s\<lparr>fs_world := snd (fe_monotonic env (fs_world s))\<rparr>) = (Inr (), u)"
    and attempt: "attempt_worker lib env external calls w (fst (fe_monotonic env (fs_world s))) u = (Inr r, v)"
    using assms(2) unfolding execute_planned_worker_def by (auto simp: bnd_Inr on_world_run run_finally_Inr)
  have "holds_grant lib external calls w u"
    using assms(1) client_call_frame[OF opened] by (simp add: holds_grant_def)
  then show ?thesis using attempt by (rule attempt_answers)
qed

lemma pure_Inl: "pure raise m s = (Inl e, t) \<longleftrightarrow> (\<exists>e'. m = Inl e' \<and> e = raise e' \<and> t = s)"
  by (cases m) auto

lemma audit_worker_Inl: "audit_worker env a s = (Inl e, t) \<Longrightarrow>
    \<exists>x. e = World_Error x \<and> fe_audit env a (fs_world s) = (Some x, fs_world t)"
  by (auto simp: audit_worker_def split: prod.splits option.splits)

lemma attempt_errors:
  assumes "attempt_worker lib env external calls w started s = (Inl e, t)"
  shows "e \<noteq> Budget_Error b"
  using assms unfolding attempt_worker_def handle_Inl
  by (auto simp: bnd_Inl pure_Inl gets_def on_world_run dest!: audit_worker_Inl)

lemma execute_errors:
  assumes "execute_planned_worker lib env external calls w s = (Inl e, t)"
  shows "e \<noteq> Budget_Error b"
  using assms unfolding execute_planned_worker_def
  by (auto simp: bnd_Inl on_world_run run_finally_Inl dest: attempt_errors client_call_Inl)

section \<open>A wave\<close>

lemma granting_node: "evolves (keeps_grant (worker_id w)) (run_worker_node lib env order external calls p prior w)"
  unfolding run_worker_node_def
  by (intro granting.rules granting_pure granting_execute)

text \<open>An answer that claims usable evidence comes from a worker none of whose upstream tasks failed.\<close>

definition sound_answer ::
    "'f pylib \<Rightarrow> (string list \<Rightarrow> string list) \<Rightarrow> bool \<Rightarrow> int \<Rightarrow> 'f plan \<Rightarrow> (string \<times> 'f result) list \<Rightarrow> 'f worker \<Rightarrow> 'f result \<Rightarrow> bool" where
  "sound_answer lib order external calls p prior w r \<longleftrightarrow>
     answers lib external calls w r \<and> (usable r \<longrightarrow> failed_upstream order p prior w = [])"

lemma node_Inr:
  assumes "holds_grant lib external calls w s" and "run_worker_node lib env order external calls p prior w s = (Inr r, t)"
  shows "sound_answer lib order external calls p prior w r"
proof -
  obtain at blocked where b: "dependency_blocked_result lib order w prior p at = Inr blocked"
    and run: "(case blocked of Some r \<Rightarrow> ret r | None \<Rightarrow> execute_planned_worker lib env external calls w) s = (Inr r, t)"
    using assms(2) unfolding run_worker_node_def by (auto simp: bnd_Inr pure_Inr gets_def)
  have eff: "effective_fanout_worker_budget lib (wk_task w) external calls = Inr (granted lib external calls w)"
    using assms(1) by (simp add: holds_grant_def)
  show ?thesis
  proof (cases blocked)
    case None
    then have "failed_upstream order p prior w = []"
      using b by (auto simp: dependency_blocked_result_def split: if_splits)
    then show ?thesis using None run execute_answers[OF assms(1)] by (auto simp: sound_answer_def)
  next
    case (Some r')
    then have "validate_result lib (empty_result lib w Task_Blocked 0
        (''Worker dependency did not return usable evidence: '' @ join '', '' (failed_upstream order p prior w))
        ''Resolve the failed upstream worker before retrying this task.'' at) = Inr r'"
      using b by (auto simp: dependency_blocked_result_def split: if_splits)
    then show ?thesis using answers_empty[OF _ _ eff] Some run by (auto simp: sound_answer_def)
  qed
qed

lemma node_errors: "run_worker_node lib env order external calls p prior w s = (Inl e, t) \<Longrightarrow> e \<noteq> Budget_Error b"
  unfolding run_worker_node_def
  by (auto simp: bnd_Inl pure_Inl pure_Inr gets_def dest: execute_errors split: option.splits)

lemma nodes_run:
  assumes "\<forall>w \<in> set ws. holds_grant lib external calls w s"
    and "for_each (run_worker_node lib env order external calls p prior) ws s = (out, t)"
  shows "fs_allocator t = fs_allocator s \<or> (\<exists>e. out = Inl e)"
    and "out = Inr rs \<Longrightarrow> list_all2 (sound_answer lib order external calls p prior) ws rs"
    and "out = Inl e \<Longrightarrow> e \<noteq> Budget_Error b"
proof -
  have "(fs_allocator t = fs_allocator s \<or> (\<exists>e. out = Inl e)) \<and>
      (\<forall>rs. out = Inr rs \<longrightarrow> list_all2 (sound_answer lib order external calls p prior) ws rs) \<and>
      (\<forall>e. out = Inl e \<longrightarrow> e \<noteq> Budget_Error b)"
    using assms
  proof (induction ws arbitrary: s out t)
    case Nil
    then show ?case by (auto simp: ret_def)
  next
    case (Cons w ws)
    have grant: "holds_grant lib external calls w s" using Cons.prems by simp
    show ?case
    proof (cases "run_worker_node lib env order external calls p prior w s")
      case (Pair r u)
      show ?thesis
      proof (cases r)
        case (Inl e)
        then show ?thesis using Pair Cons.prems(2) node_errors[of lib env order external calls p prior w s e u] by (auto simp: bnd_def)
      next
        case (Inr x)
        have al: "fs_allocator u = fs_allocator s"
          using evolvesD[OF granting_node Pair] grant by (simp add: keeps_grant_def holds_grant_def)
        then have "\<forall>w \<in> set ws. holds_grant lib external calls w u"
          using Cons.prems(1) by (simp add: holds_grant_def)
        from Cons.IH[OF this prod.collapse[symmetric]] show ?thesis
          using Pair Inr Cons.prems(2) node_Inr[OF grant] al
          by (auto simp: bnd_def ret_def split: prod.splits sum.splits)
      qed
    qed
  qed
  then show "fs_allocator t = fs_allocator s \<or> (\<exists>e. out = Inl e)"
    and "out = Inr rs \<Longrightarrow> list_all2 (sound_answer lib order external calls p prior) ws rs"
    and "out = Inl e \<Longrightarrow> e \<noteq> Budget_Error b"
    by blast+
qed

lemma results_in_order:
  assumes "list_all2 P us rs" and "\<And>w r. P w r \<Longrightarrow> rs_task_id r = worker_id w" and "distinct (map worker_id us)"
    and "set ws \<subseteq> set us"
  shows "list_all2 P ws (List.map_filter (\<lambda>w. map_of (results_by_id rs) (worker_id w)) ws)"
  using assms(4)
proof (induction ws)
  case (Cons w ws)
  obtain i where i: "i < length us" "us ! i = w" using Cons.prems by (metis in_set_conv_nth insert_subset list.set(2))
  then have r: "i < length rs" "P w (rs ! i)" using assms(1) by (auto simp: list_all2_conv_all_nth)
  have "map rs_task_id rs = map worker_id us"
    using assms(1,2) by (auto simp: list_all2_conv_all_nth list_eq_iff_nth_eq)
  then have "distinct (map fst (results_by_id rs))" using assms(3) by (simp add: results_by_id_def rev_map[symmetric] comp_def)
  then have "map_of (results_by_id rs) (worker_id w) = Some (rs ! i)"
    using r assms(2)[OF r(2)] by (intro map_of_is_SomeI) (auto simp: results_by_id_def intro!: image_eqI[of _ _ "rs ! i"])
  then show ?case using Cons r by (simp add: List.map_filter_def)
qed (simp add: List.map_filter_def)

section \<open>All waves\<close>

lemma wave_run:
  assumes room: "room lib external calls (fs_allocator s) held (ws @ rest)" and ws: "wave_workers p wv = Inr ws"
    and sched: "mset (sched ws) = mset ws"
    and run: "execute_agent_wave lib env order sched external calls p prior wv s = (out, t)"
  shows "out = Inr rs \<Longrightarrow> list_all2 (sound_answer lib order external calls p prior) ws rs \<and>
       room lib external calls (fs_allocator t) (held @ ws) rest \<and> al_cost_budget (fs_allocator t) = al_cost_budget (fs_allocator s)"
    and "out = Inl (Budget_Error b) \<Longrightarrow> b = Cost_Exceeded \<and>
       \<not> cost_fits lib (al_cost_budget (fs_allocator s)) (map (bv_cost \<circ> granted lib external calls) (held @ ws))"
proof -
  let ?g = "granted lib external calls"
  let ?al = "(fs_allocator s)\<lparr>al_allocations := granted_to lib external calls (held @ ws)\<rparr>"
  have "(\<forall>rs. out = Inr rs \<longrightarrow> list_all2 (sound_answer lib order external calls p prior) ws rs \<and> fs_allocator t = ?al) \<and>
      (\<forall>b. out = Inl (Budget_Error b) \<longrightarrow> b = Cost_Exceeded \<and> \<not> cost_fits lib (al_cost_budget (fs_allocator s)) (map (bv_cost \<circ> ?g) (held @ ws)))"
    using reserve_list[OF room_append(1)[OF room]]
  proof
    assume "\<exists>u. for_each (reserve_planned lib external calls) ws s = (Inl (Budget_Error Cost_Exceeded), u) \<and>
       \<not> cost_fits lib (al_cost_budget (fs_allocator s)) (map (bv_cost \<circ> ?g) (held @ ws))"
    then show ?thesis using run ws by (auto simp: execute_agent_wave_def bnd_def)
  next
    assume "\<exists>u. for_each (reserve_planned lib external calls) ws s = (Inr (map ?g ws), u) \<and> fs_allocator u = ?al"
    then obtain u where u: "for_each (reserve_planned lib external calls) ws s = (Inr (map ?g ws), u)" "fs_allocator u = ?al" by blast
    have dist: "distinct (map worker_id (held @ ws))" using room by (auto simp: room_def)
    have set: "set (sched ws) = set ws" using sched by (metis mset_eq_setD)
    have grant: "holds_grant lib external calls w u" if "w \<in> set ws" for w
    proof -
      have "map_of (granted_to lib external calls (held @ ws)) (worker_id w) = Some (?g w)"
        using that dist by (intro map_of_is_SomeI) (auto simp: granted_to_def comp_def)
      then show ?thesis using that room u(2) by (simp add: holds_grant_def room_def)
    qed
    obtain got v where nodes: "for_each (run_worker_node lib env order external calls p prior) (sched ws) u = (got, v)" by fastforce
    have grants: "\<forall>w \<in> set (sched ws). holds_grant lib external calls w u" using grant set by simp
    note ran = nodes_run[OF grants nodes]
    show ?thesis
    proof (cases got)
      case (Inl e)
      then show ?thesis using run ws u nodes ran(3)[OF Inl] by (auto simp: execute_agent_wave_def bnd_def)
    next
      case (Inr rs)
      have "distinct (map worker_id (sched ws))"
        using dist sched by (metis distinct_append map_append mset_eq_imp_distinct_iff mset_map)
      from results_in_order[OF ran(2)[OF Inr] _ this, of ws]
      have "list_all2 (sound_answer lib order external calls p prior) ws
          (List.map_filter (\<lambda>w. map_of (results_by_id rs) (worker_id w)) ws)"
        using set by (simp add: sound_answer_def answers_def)
      moreover have "fs_allocator v = ?al" using ran(1) Inr u(2) by simp
      ultimately show ?thesis using run ws u nodes Inr by (auto simp: execute_agent_wave_def bnd_def ret_def)
    qed
  qed
  then show "out = Inr rs \<Longrightarrow> list_all2 (sound_answer lib order external calls p prior) ws rs \<and>
       room lib external calls (fs_allocator t) (held @ ws) rest \<and> al_cost_budget (fs_allocator t) = al_cost_budget (fs_allocator s)"
    and "out = Inl (Budget_Error b) \<Longrightarrow> b = Cost_Exceeded \<and>
       \<not> cost_fits lib (al_cost_budget (fs_allocator s)) (map (bv_cost \<circ> ?g) (held @ ws))"
    using room_append(2)[OF room] by auto
qed

text \<open>Usable answers rest on usable answers of all their upstream tasks.\<close>

definition upstream_usable :: "'f plan \<Rightarrow> 'f result list \<Rightarrow> 'f result \<Rightarrow> bool" where
  "upstream_usable p results r \<longleftrightarrow> (usable r \<longrightarrow> (\<forall>d \<in> set (pl_dependencies p). dp_downstream d = rs_task_id r \<longrightarrow>
     (\<exists>r' \<in> set results. rs_task_id r' = dp_upstream d \<and> usable r')))"

lemma upstream_usable_mono: "upstream_usable p results r \<Longrightarrow> set results \<subseteq> set results' \<Longrightarrow> upstream_usable p results' r"
  unfolding upstream_usable_def by blast

lemma sound_upstream:
  assumes "sound_answer lib order external calls p (results_by_id results) w r" and "\<And>xs. set (order xs) = set xs"
  shows "upstream_usable p results r"
proof -
  have "\<exists>r' \<in> set results. rs_task_id r' = dp_upstream d \<and> usable r'"
    if u: "usable r" and d: "d \<in> set (pl_dependencies p)" "dp_downstream d = rs_task_id r" for d
  proof -
    have "dp_upstream d \<in> set (order (remdups (incoming (pl_dependencies p) (worker_id w))))"
      using d assms by (force simp: incoming_def sound_answer_def answers_def)
    then obtain r' where "map_of (results_by_id results) (dp_upstream d) = Some r'" "usable r'"
      using assms(1) u by (auto simp: sound_answer_def failed_upstream_def filter_empty_conv split: option.splits)
    moreover have "r' \<in> set results \<and> rs_task_id r' = dp_upstream d"
      using map_of_SomeD[OF calculation(1)] by (auto simp: results_by_id_def)
    ultimately show ?thesis by blast
  qed
  then show ?thesis by (simp add: upstream_usable_def)
qed

lemma waves_run:
  assumes "room lib external calls (fs_allocator s) held (map (worker_of p) (wave_tasks wvs))"
    and "set (wave_tasks wvs) \<subseteq> set (plan_ids p)" and "\<And>ws. mset (sched ws) = mset ws" and "\<And>xs. set (order xs) = set xs"
    and "list_all2 (answers lib external calls) held results" and "\<forall>r \<in> set results. upstream_usable p results r"
    and "run_waves lib env order sched external calls p results wvs s = (out, t)"
  shows "(\<forall>rs. out = Inr rs \<longrightarrow> list_all2 (answers lib external calls) (held @ map (worker_of p) (wave_tasks wvs)) rs \<and>
       (\<forall>r \<in> set rs. upstream_usable p rs r)) \<and>
     (\<forall>b. out = Inl (Budget_Error b) \<longrightarrow> b = Cost_Exceeded \<and> \<not> cost_fits lib (al_cost_budget (fs_allocator s))
        (map (bv_cost \<circ> granted lib external calls) (held @ map (worker_of p) (wave_tasks wvs))))"
  using assms(1,2,5-7)
proof (induction wvs arbitrary: s held results)
  case Nil
  then show ?case by (auto simp: ret_def)
next
  case (Cons wv wvs)
  let ?ws = "map (worker_of p) (wv_ids wv)" and ?rest = "map (worker_of p) (wave_tasks wvs)"
  let ?g = "granted lib external calls"
  obtain a s1 where s1: "audit_worker env ''supervisor_execution_wave_started'' s = (a, s1)" by fastforce
  have al1: "fs_allocator s1 = fs_allocator s" using s1 by (auto simp: audit_worker_def split: prod.splits option.splits)
  obtain got s2 where s2: "execute_agent_wave lib env order sched external calls p (results_by_id results) wv s1 = (got, s2)" by fastforce
  obtain c s3 where s3: "audit_worker env ''supervisor_execution_wave_completed'' s2 = (c, s3)" by fastforce
  have al3: "fs_allocator s3 = fs_allocator s2" using s3 by (auto simp: audit_worker_def split: prod.splits option.splits)
  have room: "room lib external calls (fs_allocator s1) held (?ws @ ?rest)" using Cons.prems(1) al1 by simp
  have ws: "wave_workers p wv = Inr ?ws" using Cons.prems(2) by (intro wave_workers_eq) simp
  note wave = wave_run[OF room ws assms(3) s2]
  have fits: "\<not> cost_fits lib B (map (bv_cost \<circ> ?g) (held @ ?ws @ ?rest))"
    if "\<not> cost_fits lib B (map (bv_cost \<circ> ?g) (held @ ?ws))" for B
    using that cost_fits_prefix[of lib B "map (bv_cost \<circ> ?g) (held @ ?ws)" "map (bv_cost \<circ> ?g) ?rest"]
    by (metis append_assoc map_append)
  show ?case
  proof (cases "a = Inr () \<and> (\<exists>rs. got = Inr rs) \<and> c = Inr ()")
    case True
    then obtain rs where rs: "got = Inr rs" by blast
    have sound: "list_all2 (sound_answer lib order external calls p (results_by_id results)) ?ws rs"
      and room2: "room lib external calls (fs_allocator s3) (held @ ?ws) ?rest"
      and budget: "al_cost_budget (fs_allocator s3) = al_cost_budget (fs_allocator s)"
      using wave(1)[OF rs] al1 al3 by simp_all
    have held: "list_all2 (answers lib external calls) (held @ ?ws) (results @ rs)"
      using sound by (intro list_all2_appendI[OF Cons.prems(3)]) (auto simp: sound_answer_def elim: list_all2_mono)
    have up: "\<forall>r \<in> set (results @ rs). upstream_usable p (results @ rs) r"
    proof
      fix r assume "r \<in> set (results @ rs)"
      then consider "r \<in> set results" | "r \<in> set rs" by auto
      then have "upstream_usable p results r"
      proof cases
        case 2
        then obtain w where "sound_answer lib order external calls p (results_by_id results) w r"
          using sound by (metis in_set_conv_nth list_all2_conv_all_nth)
        then show ?thesis using sound_upstream assms(4) by blast
      qed (use Cons.prems(4) in blast)
      then show "upstream_usable p (results @ rs) r" by (rule upstream_usable_mono) simp
    qed
    have run: "run_waves lib env order sched external calls p (results @ rs) wvs s3 = (out, t)"
      using Cons.prems(5) True rs s1 s2 s3 by (simp add: bnd_def)
    show ?thesis using Cons.IH[OF room2 _ held up run] Cons.prems(2) budget by simp
  next
    case False
    then have "\<exists>e. out = Inl e \<and> (\<forall>b. e = Budget_Error b \<longrightarrow> got = Inl e)"
      using Cons.prems(5) s1 s2 s3 by (auto simp: bnd_def audit_worker_def split: sum.splits prod.splits option.splits)
    then show ?thesis using wave(2) fits al1 by (auto simp: comp_def)
  qed
qed


section \<open>Properties of a fan-out\<close>

lemma fanout_run:
  assumes plan: "validate_execution_plan lib pn p = Inr q" and start: "fs_allocator s = fanout_allocator p"
    and sched: "\<And>ws. mset (sched ws) = mset ws" and order: "\<And>xs. set (order xs) = set xs"
    and run: "run_waves lib env order sched (fp_external_llm (pl_policy p)) (fp_max_calls (pl_policy p)) p [] (pl_waves p) s = (out, t)"
  shows "out = Inr rs \<Longrightarrow>
      list_all2 (answers lib (fp_external_llm (pl_policy p)) (fp_max_calls (pl_policy p))) (map (worker_of p) (wave_tasks (pl_waves p))) rs \<and>
      (\<forall>r \<in> set rs. upstream_usable p rs r)"
    and "out = Inl (Budget_Error b) \<Longrightarrow> b = Cost_Exceeded \<and> \<not> cost_fits lib (fp_cost (pl_policy p))
        (map (bv_cost \<circ> granted lib (fp_external_llm (pl_policy p)) (fp_max_calls (pl_policy p))) (map (worker_of p) (wave_tasks (pl_waves p))))"
proof -
  note facts = validated_plan[OF plan]
  have ids: "mset (wave_tasks (pl_waves p)) = mset (plan_ids p)" using waves_schedule_every_task[OF facts(4)] by simp
  have room: "room lib (fp_external_llm (pl_policy p)) (fp_max_calls (pl_policy p)) (fs_allocator s) []
      (map (worker_of p) (wave_tasks (pl_waves p)))"
    using plan_room[OF plan] start by simp
  have sub: "set (wave_tasks (pl_waves p)) \<subseteq> set (plan_ids p)" using mset_eq_setD[OF ids] by (rule equalityD1)
  have budget: "al_cost_budget (fs_allocator s) = fp_cost (pl_policy p)"
    by (simp add: start fanout_allocator_def new_allocator_def)
  have "list_all2 (answers lib (fp_external_llm (pl_policy p)) (fp_max_calls (pl_policy p))) [] []"
    and "\<forall>r \<in> set ([] :: 'a result list). upstream_usable p [] r" by simp_all
  from waves_run[OF room sub sched order this run] show "out = Inr rs \<Longrightarrow>
      list_all2 (answers lib (fp_external_llm (pl_policy p)) (fp_max_calls (pl_policy p))) (map (worker_of p) (wave_tasks (pl_waves p))) rs \<and>
      (\<forall>r \<in> set rs. upstream_usable p rs r)"
    and "out = Inl (Budget_Error b) \<Longrightarrow> b = Cost_Exceeded \<and> \<not> cost_fits lib (fp_cost (pl_policy p))
        (map (bv_cost \<circ> granted lib (fp_external_llm (pl_policy p)) (fp_max_calls (pl_policy p))) (map (worker_of p) (wave_tasks (pl_waves p))))"
    unfolding budget by simp_all
qed

lemma sum_list_all2_le: "list_all2 (\<lambda>x y. g y \<le> f x) xs ys \<Longrightarrow> sum_list (map g ys) \<le> (sum_list (map f xs) :: int)"
  by (induction rule: list_all2_induct) auto

text \<open>
  C36. What a fan-out returns: whatever the workers, their processes and the schedule did, a run
  that ends has one result for every worker of the validated plan; together they used no more
  calls and tokens than the plan's budgets; a result that claims usable evidence passed the
  contract of its own task; and it was produced only when every task it depends on had delivered
  usable evidence too.
\<close>

theorem fanout_answers_every_worker:
  assumes "validate_execution_plan lib pn p = Inr q" and "fs_allocator s = fanout_allocator p"
    and "\<And>ws. mset (sched ws) = mset ws" and "\<And>xs. set (order xs) = set xs"
    and "run_waves lib env order sched (fp_external_llm (pl_policy p)) (fp_max_calls (pl_policy p)) p [] (pl_waves p) s =
       (Inr results, t)"
  shows "mset (map rs_task_id results) = mset (plan_ids p) \<and>
     sum_list (map rs_model_calls results) \<le> fp_max_calls (pl_policy p) \<and>
     sum_list (map rs_tokens results) \<le> fp_tokens (pl_policy p) \<and>
     (\<forall>r \<in> set results. usable r \<longrightarrow>
        (\<exists>w \<in> set (pl_workers p). \<exists>raw. enforce_result_contract lib (wk_task w) raw = Inr r) \<and>
        (\<forall>d \<in> set (pl_dependencies p). dp_downstream d = rs_task_id r \<longrightarrow>
           (\<exists>r' \<in> set results. rs_task_id r' = dp_upstream d \<and> usable r')))"
proof -
  let ?g = "granted lib (fp_external_llm (pl_policy p)) (fp_max_calls (pl_policy p))"
  let ?ws = "map (worker_of p) (wave_tasks (pl_waves p))"
  note facts = validated_plan[OF assms(1)]
  have ans: "list_all2 (answers lib (fp_external_llm (pl_policy p)) (fp_max_calls (pl_policy p))) ?ws results"
    and up: "\<forall>r \<in> set results. upstream_usable p results r"
    using fanout_run(1)[OF assms refl] by blast+
  have ids: "mset (wave_tasks (pl_waves p)) = mset (plan_ids p)" using waves_schedule_every_task[OF facts(4)] by simp
  have all: "mset ?ws = mset (pl_workers p)" by (rule all_workers[OF facts(2) ids])
  have "map rs_task_id results = map worker_id ?ws"
    using ans by (auto simp: list_all2_conv_all_nth list_eq_iff_nth_eq answers_def)
  then have "mset (map rs_task_id results) = mset (map worker_id ?ws)" by simp
  also have "\<dots> = image_mset worker_id (mset ?ws)" by (simp only: mset_map)
  also have "\<dots> = mset (plan_ids p)" unfolding all plan_ids_def by (simp add: comp_def)
  finally have "mset (map rs_task_id results) = mset (plan_ids p)" .
  moreover have "sum_list (map rs_model_calls results) \<le> fp_max_calls (pl_policy p)"
    "sum_list (map rs_tokens results) \<le> fp_tokens (pl_policy p)"
  proof -
    have "list_all2 (\<lambda>w r. rs_model_calls r \<le> (bv_calls \<circ> ?g) w) ?ws results"
      "list_all2 (\<lambda>w r. rs_tokens r \<le> (bv_tokens \<circ> ?g) w) ?ws results"
      using ans by (auto elim!: list_all2_mono simp: answers_def)
    then show "sum_list (map rs_model_calls results) \<le> fp_max_calls (pl_policy p)"
      "sum_list (map rs_tokens results) \<le> fp_tokens (pl_policy p)"
      using sum_list_all2_le facts(6,7) mset_sum_list[OF all] by (metis order_trans)+
  qed
  moreover have "\<exists>w \<in> set (pl_workers p). \<exists>raw. enforce_result_contract lib (wk_task w) raw = Inr r"
    if r: "r \<in> set results" "usable r" for r
  proof -
    obtain i where i: "i < length results" "results ! i = r" using r(1) by (metis in_set_conv_nth)
    then have "i < length ?ws" and a: "answers lib (fp_external_llm (pl_policy p)) (fp_max_calls (pl_policy p)) (?ws ! i) r"
      using ans by (auto simp: list_all2_conv_all_nth simp del: nth_map length_map)
    then have "?ws ! i \<in> set (pl_workers p)" using mset_eq_setD[OF all] nth_mem by blast
    then show ?thesis using a r(2) by (auto simp: answers_def)
  qed
  ultimately show ?thesis using up unfolding upstream_usable_def by blast
qed

lemma waves_without_dependencies:
  assumes "build_execution_waves ids [] = Inr ws" and "ids \<noteq> []"
  shows "wave_tasks ws = ids"
proof -
  have "incoming [] i = []" for i by (simp add: incoming_def)
  then have ready: "ready_tasks ids [] ids [] = ids" by (simp add: ready_tasks_def)
  have "wave_loop ids [] ids [] [] = Inr ws" using assms(1) by (simp add: build_execution_waves_def)
  then show ?thesis
    using assms(2) ready
    by (subst (asm) wave_loop.simps) (auto simp: Let_def make_wave_Inr wave_loop.simps[of ids "[]" "[]"])
qed

lemma cost_fits_total:
  assumes "\<And>x y. lib_le lib (lib_zero lib) y \<Longrightarrow> \<not> lib_less lib budget (lib_add lib x y) \<Longrightarrow> \<not> lib_less lib budget x"
    and "\<forall>x \<in> set xs. lib_le lib (lib_zero lib) x" and "\<not> lib_less lib budget (float_sum lib xs)"
  shows "cost_fits lib budget xs"
  using assms(2,3)
proof (induction xs rule: rev_induct)
  case Nil
  then show ?case by (simp add: cost_fits_def)
next
  case (snoc x xs)
  then have "\<not> lib_less lib budget (float_sum lib xs)" using assms(1)[of x "float_sum lib xs"] by (simp add: float_sum_snoc)
  then have "cost_fits lib budget xs" using snoc by simp
  then show ?case using snoc.prems(2) by (auto simp: cost_fits_def le_Suc_eq take_Cons')
qed

definition within_plan :: "'f plan \<Rightarrow> bool \<Rightarrow> int \<Rightarrow> bool" where
  "within_plan p external calls \<longleftrightarrow>
     (external \<and> calls \<noteq> 0 \<longrightarrow> fp_external_llm (pl_policy p) \<and> fp_max_calls (pl_policy p) \<noteq> 0)"

lemma sum_list_zero: "(\<And>x. x \<in> set xs \<Longrightarrow> f x = 0) \<Longrightarrow> sum_list (map f xs) = (0 :: int)"
  by (induction xs) auto

lemma room_within:
  assumes plan: "validate_execution_plan lib pn p = Inr q" and within: "within_plan p external calls"
    and zero: "lib_le lib (lib_zero lib) (lib_zero lib)"
  shows "room lib external calls (fanout_allocator p) [] (map (worker_of p) (wave_tasks (pl_waves p)))"
proof (cases "external \<and> calls \<noteq> 0")
  case True
  then have "effective_fanout_worker_budget lib t external calls =
      effective_fanout_worker_budget lib t (fp_external_llm (pl_policy p)) (fp_max_calls (pl_policy p))" for t
    using within by (simp add: effective_fanout_worker_budget_def within_plan_def)
  moreover from this have "granted lib external calls = granted lib (fp_external_llm (pl_policy p)) (fp_max_calls (pl_policy p))"
    by (simp add: granted_def fun_eq_iff)
  ultimately have "room lib external calls = room lib (fp_external_llm (pl_policy p)) (fp_max_calls (pl_policy p))"
    by (intro ext) (simp add: room_def granted_to_def)
  then show ?thesis using plan_room[OF plan] by simp
next
  case False
  let ?ws = "map (worker_of p) (wave_tasks (pl_waves p))"
  let ?g = "granted lib (fp_external_llm (pl_policy p)) (fp_max_calls (pl_policy p))"
  have none: "effective_fanout_worker_budget lib t external calls = Inr (no_budget lib)" for t
    using False zero by (auto simp: effective_fanout_worker_budget_def vector_def valid_vector_def no_budget_def)
  note room = plan_room[OF plan]
  have "0 \<le> sum_list (map (bv_calls \<circ> ?g) ?ws)" "0 \<le> sum_list (map (bv_tokens \<circ> ?g) ?ws)"
    by (intro sum_list_nonneg; use room_nonneg[OF room] in fastforce)+
  then have limits: "0 \<le> al_max_calls (fanout_allocator p)" "0 \<le> al_token_budget (fanout_allocator p)"
    using room by (simp_all add: room_def)
  have "sum_list (map (bv_calls \<circ> granted lib external calls) ?ws) = 0"
    "sum_list (map (bv_tokens \<circ> granted lib external calls) ?ws) = 0"
    by (intro sum_list_zero; simp add: granted_def none no_budget_def)+
  then show ?thesis
    using room limits none by (simp add: room_def granted_to_def granted_def comp_def)
qed


lemma affordable_run:
  assumes plan: "validate_execution_plan lib pn p = Inr q" and within: "within_plan p external calls"
    and zero: "lib_le lib (lib_zero lib) (lib_zero lib)" and start: "fs_allocator s = fanout_allocator p"
    and sched: "\<And>ws. mset (sched ws) = mset ws" and order: "\<And>xs. set (order xs) = set xs"
    and refused: "fst (run_waves lib env order sched external calls p [] (pl_waves p) s) = Inl (Budget_Error b)"
  shows "b = Cost_Exceeded \<and> \<not> cost_fits lib (fp_cost (pl_policy p))
      (map (bv_cost \<circ> granted lib external calls) (map (worker_of p) (wave_tasks (pl_waves p))))"
proof -
  note facts = validated_plan[OF plan]
  have ids: "mset (wave_tasks (pl_waves p)) = mset (plan_ids p)" using waves_schedule_every_task[OF facts(4)] by simp
  have sub: "set (wave_tasks (pl_waves p)) \<subseteq> set (plan_ids p)" using mset_eq_setD[OF ids] by (rule equalityD1)
  have budget: "al_cost_budget (fs_allocator s) = fp_cost (pl_policy p)"
    by (simp add: start fanout_allocator_def new_allocator_def)
  have "list_all2 (answers lib external calls) [] []" and "\<forall>r \<in> set ([] :: 'a result list). upstream_usable p [] r" by simp_all
  from waves_run[OF room_within[OF plan within zero, folded start] sub sched order this prod.collapse[symmetric]] refused
  show ?thesis unfolding budget by simp
qed

text \<open>What the workers are granted, in the order of the waves and in the order of the plan.\<close>

definition wave_costs :: "'f pylib \<Rightarrow> bool \<Rightarrow> int \<Rightarrow> 'f plan \<Rightarrow> 'f list" where
  "wave_costs lib external calls p = map (bv_cost \<circ> granted lib external calls) (map (worker_of p) (wave_tasks (pl_waves p)))"

definition plan_costs :: "'f pylib \<Rightarrow> bool \<Rightarrow> int \<Rightarrow> 'f plan \<Rightarrow> 'f list" where
  "plan_costs lib external calls p = map (bv_cost \<circ> granted lib external calls) (pl_workers p)"

text \<open>
  C37. A validated plan can be afforded: when the request permits no more than the plan does, the budgets
  that the workers reserve wave by wave, from the run's allocator and under whatever concurrency, are
  never refused for their calls, their tokens or the number of workers. The cost is refused only when
  the costs granted to the workers, added up in the order of the waves, exceed the plan's budget at
  some point. So it is never refused when that sum is what the validation computed in the order of the
  plan, as it is without dependencies, if adding a cost that is not negative never brings a sum back
  under the budget and the request and the plan have the same permission.
\<close>

theorem validated_plan_is_affordable:
  assumes "validate_execution_plan lib pn p = Inr q" and "within_plan p external calls"
    and "lib_le lib (lib_zero lib) (lib_zero lib)" and "fs_allocator s = fanout_allocator p"
    and "\<And>ws. mset (sched ws) = mset ws" and "\<And>xs. set (order xs) = set xs"
  shows "\<forall>b. fst (run_waves lib env order sched external calls p [] (pl_waves p) s) = Inl (Budget_Error b) \<longrightarrow>
     b = Cost_Exceeded \<and> \<not> cost_fits lib (fp_cost (pl_policy p)) (wave_costs lib external calls p) \<and>
    \<not> ((external \<and> calls \<noteq> 0 \<longleftrightarrow> fp_external_llm (pl_policy p) \<and> fp_max_calls (pl_policy p) \<noteq> 0) \<and>
       (\<forall>x y. lib_le lib (lib_zero lib) y \<longrightarrow> \<not> lib_less lib (fp_cost (pl_policy p)) (lib_add lib x y) \<longrightarrow>
          \<not> lib_less lib (fp_cost (pl_policy p)) x) \<and>
       (float_sum lib (wave_costs lib external calls p) = float_sum lib (plan_costs lib external calls p) \<or>
        pl_dependencies p = [] \<and> pl_workers p \<noteq> []))"
proof -
  note facts = validated_plan[OF assms(1)]
  have refused: "b = Cost_Exceeded \<and> \<not> cost_fits lib (fp_cost (pl_policy p)) (wave_costs lib external calls p)"
    if "fst (run_waves lib env order sched external calls p [] (pl_waves p) s) = Inl (Budget_Error b)" for b
    unfolding wave_costs_def by (rule affordable_run[OF assms that])
  have "cost_fits lib (fp_cost (pl_policy p)) (wave_costs lib external calls p)"
    if same: "external \<and> calls \<noteq> 0 \<longleftrightarrow> fp_external_llm (pl_policy p) \<and> fp_max_calls (pl_policy p) \<noteq> 0"
      and mono: "\<forall>x y. lib_le lib (lib_zero lib) y \<longrightarrow> \<not> lib_less lib (fp_cost (pl_policy p)) (lib_add lib x y) \<longrightarrow>
          \<not> lib_less lib (fp_cost (pl_policy p)) x"
      and sums: "float_sum lib (wave_costs lib external calls p) = float_sum lib (plan_costs lib external calls p) \<or>
        pl_dependencies p = [] \<and> pl_workers p \<noteq> []"
  proof -
    have "granted lib external calls = granted lib (fp_external_llm (pl_policy p)) (fp_max_calls (pl_policy p))"
      using same unfolding granted_def effective_fanout_worker_budget_def fun_eq_iff
      by (cases "external \<and> calls \<noteq> 0") auto
    then have total: "\<not> lib_less lib (fp_cost (pl_policy p)) (float_sum lib (plan_costs lib external calls p))"
      using facts(8) by (simp add: plan_costs_def)
    have "wave_costs lib external calls p = plan_costs lib external calls p" if "pl_dependencies p = []" "pl_workers p \<noteq> []"
    proof -
      have "wave_tasks (pl_waves p) = plan_ids p"
        using waves_without_dependencies[of "plan_ids p" "pl_waves p"] facts(4) that by (simp add: plan_ids_def)
      then have "map (worker_of p) (wave_tasks (pl_waves p)) = pl_workers p"
        using worker_of_own[OF facts(2)] by (simp add: plan_ids_def map_idI)
      then show ?thesis by (simp only: wave_costs_def plan_costs_def)
    qed
    then have "\<not> lib_less lib (fp_cost (pl_policy p)) (float_sum lib (wave_costs lib external calls p))"
      using sums total by metis
    moreover have "\<forall>x \<in> set (wave_costs lib external calls p). lib_le lib (lib_zero lib) x"
      using room_within[OF assms(1-3)] budget_valid by (fastforce simp: room_def valid_vector_def wave_costs_def)
    ultimately show ?thesis using mono by (intro cost_fits_total) auto
  qed
  then show ?thesis using refused by blast
qed

section \<open>The tally of a fan-out\<close>

definition delivered :: "(string \<times> 'f result) list \<Rightarrow> 'f worker \<Rightarrow> bool" where
  "delivered found w \<longleftrightarrow> (case map_of found (worker_id w) of None \<Rightarrow> False | Some r \<Rightarrow> usable r)"

lemma collect_Inr:
  "collect_results ids found rs = Inr out \<Longrightarrow> distinct (map fst found) \<Longrightarrow>
     out = found @ map (\<lambda>r. (rs_task_id r, r)) rs \<and> distinct (map fst out) \<and> set (map rs_task_id rs) \<subseteq> set ids"
proof (induction ids found rs rule: collect_results.induct)
  case (2 ids found r rs)
  then have "collect_results ids (found @ [(rs_task_id r, r)]) rs = Inr out" and "rs_task_id r \<in> set ids"
    and "distinct (map fst (found @ [(rs_task_id r, r)]))"
    by (simp_all split: if_splits)
  moreover have "rs_task_id r \<notin> set (map fst found)" using "2.prems"(1) by (simp split: if_splits)
  ultimately have ih: "out = (found @ [(rs_task_id r, r)]) @ map (\<lambda>r. (rs_task_id r, r)) rs" "distinct (map fst out)"
    "set (map rs_task_id rs) \<subseteq> set ids" "rs_task_id r \<in> set ids"
    using "2.IH" by blast+
  show ?case by (intro conjI) (use ih in \<open>simp_all only: list.map append_assoc append_Cons append_Nil list.set insert_subset\<close>)
qed simp

definition evidence_of :: "(string \<times> 'f result) list \<Rightarrow> 'f worker \<Rightarrow> evidence_reference list" where
  "evidence_of found w = (case map_of found (worker_id w) of None \<Rightarrow> [] | Some r \<Rightarrow> if usable r then rs_evidence r else [])"

lemma setdefault_keys:
  "distinct (map evidence_key known) \<Longrightarrow>
     distinct (map evidence_key (foldl setdefault_evidence known es)) \<and>
     evidence_key ` set (foldl setdefault_evidence known es) = evidence_key ` (set known \<union> set es) \<and>
     set (foldl setdefault_evidence known es) \<subseteq> set known \<union> set es"
proof (induction es arbitrary: known)
  case (Cons e es)
  have "distinct (map evidence_key (setdefault_evidence known e))"
    using Cons.prems by (auto simp: setdefault_evidence_def)
  from Cons.IH[OF this] show ?case by (auto simp: setdefault_evidence_def image_Un split: if_splits)
qed simp

text \<open>What the tally holds after the workers \<open>ws\<close>.\<close>

definition tallied :: "(string \<times> 'f result) list \<Rightarrow> 'f worker list \<Rightarrow> 'f tally \<Rightarrow> bool" where
  "tallied found ws y \<longleftrightarrow>
     ty_completed y = map worker_id (filter (delivered found) ws) \<and>
     ty_optional y = map worker_id (filter (\<lambda>w. \<not> delivered found w \<and> wk_requirement w \<noteq> Required_Worker) ws) \<and>
     ty_required y = map worker_id (filter (\<lambda>w. \<not> delivered found w \<and> wk_requirement w = Required_Worker) ws) \<and>
     ty_confidence y = map (\<lambda>w. rs_confidence (the (map_of found (worker_id w)))) (filter (delivered found) ws) \<and>
     distinct (map evidence_key (ty_evidence y)) \<and>
     evidence_key ` set (ty_evidence y) = evidence_key ` (\<Union>w \<in> set ws. set (evidence_of found w)) \<and>
     set (ty_evidence y) \<subseteq> (\<Union>w \<in> set ws. set (evidence_of found w)) \<and>
     (ty_missing y = [] \<longleftrightarrow> (\<forall>w \<in> set ws. \<exists>r. map_of found (worker_id w) = Some r \<and>
        (rs_status r = Task_Success \<or> rs_status r = Task_Partial \<and> rs_errors r = [])))"

lemma tallied_step:
  assumes "tallied found ws y" and own: "\<And>i r. map_of found i = Some r \<Longrightarrow> rs_task_id r = i"
  shows "tallied found (ws @ [w]) (tally_worker found w y)"
proof (cases "map_of found (worker_id w)")
  case None
  then show ?thesis
    using assms(1) by (auto simp: tallied_def tally_worker_def tally_failure_def delivered_def evidence_of_def Let_def)
next
  case (Some r)
  show ?thesis
  proof (cases "usable r")
    case True
    have keys: "distinct (map evidence_key (ty_evidence y))" using assms(1) by (simp add: tallied_def)
    have "tally_worker found w y = y\<lparr>ty_completed := ty_completed y @ [worker_id w],
        ty_confidence := ty_confidence y @ [rs_confidence r],
        ty_evidence := foldl setdefault_evidence (ty_evidence y) (rs_evidence r),
        ty_missing := (if rs_status r = Task_Partial then ty_missing y @ rs_errors r else ty_missing y)\<rparr>"
      using True Some own[OF Some] by (simp add: tally_worker_def usable_def)
    then show ?thesis
      using assms(1) True Some setdefault_keys[OF keys, of "rs_evidence r"]
      by (auto simp: tallied_def delivered_def evidence_of_def usable_def image_Un)
  next
    case False
    then show ?thesis
      using assms(1) Some
      by (auto simp: tallied_def tally_worker_def tally_failure_def delivered_def evidence_of_def usable_def Let_def)
  qed
qed

lemma tallied_all:
  assumes "\<And>i r. map_of found i = Some r \<Longrightarrow> rs_task_id r = i"
  shows "tallied found ws (fold (tally_worker found) ws empty_tally)"
proof (induction ws rule: rev_induct)
  case Nil
  then show ?case by (simp add: tallied_def empty_tally_def)
next
  case (snoc w ws)
  then show ?case using tallied_step[OF _ assms] by simp
qed

lemma validate_aggregation_Inr: "validate_aggregation lib a = Inr b \<Longrightarrow> b = a \<and> length (ag_evidence a) \<le> 250"
  by (auto simp: validate_aggregation_def sized_def split: if_splits)

lemma aggregation_facts:
  assumes "aggregate_agent_results lib pn p results duration_ms = Inr a" and "\<forall>r \<in> set results. terminal_result lib r"
  shows "ag_completed a = filter (\<lambda>i. \<exists>r \<in> set results. rs_task_id r = i \<and> usable r) (plan_ids p) \<and>
     mset (ag_completed a @ ag_optional_failed a @ ag_required_failed a) = mset (plan_ids p) \<and>
     (\<forall>w \<in> set (pl_workers p). worker_id w \<in> set (ag_required_failed a) \<longleftrightarrow>
        wk_requirement w = Required_Worker \<and> \<not> (\<exists>r \<in> set results. rs_task_id r = worker_id w \<and> usable r)) \<and>
     (ag_status a = Task_Blocked \<longleftrightarrow> ag_required_failed a \<noteq> []) \<and>
     (ag_status a = Task_Success \<longleftrightarrow>
        (\<forall>w \<in> set (pl_workers p). \<exists>r \<in> set results. rs_task_id r = worker_id w \<and> rs_status r = Task_Success)) \<and>
     distinct (map evidence_key (ag_evidence a)) \<and>
     evidence_key ` set (ag_evidence a) = evidence_key ` (\<Union>r \<in> {r \<in> set results. usable r}. set (rs_evidence r))"
proof -
  obtain found q where found: "collect_results (plan_ids p) [] results = Inr found" and q: "validate_execution_plan lib pn p = Inr q"
    using assms(1) unfolding aggregate_agent_results_def by auto
  define y where "y = fold (tally_worker found) (pl_workers p) empty_tally"
  have f: "found = map (\<lambda>r. (rs_task_id r, r)) results" "distinct (map fst found)" "set (map rs_task_id results) \<subseteq> set (plan_ids p)"
    using collect_Inr[OF found] by auto
  have look: "map_of found i = Some r \<longleftrightarrow> r \<in> set results \<and> rs_task_id r = i" for i r
    using map_of_eq_Some_iff[OF f(2)] f(1) by auto
  have tally: "tallied found (pl_workers p) y" unfolding y_def by (rule tallied_all) (simp add: look)
  have deliv: "delivered found w \<longleftrightarrow> (\<exists>r \<in> set results. rs_task_id r = worker_id w \<and> usable r)" for w
  proof (cases "map_of found (worker_id w)")
    case None
    then show ?thesis using look[of "worker_id w"] by (auto simp: delivered_def)
  next
    case (Some r)
    then have "r' = r" if "r' \<in> set results" "rs_task_id r' = worker_id w" for r'
      using that look[of "worker_id w" r'] by simp
    then show ?thesis using Some look[of "worker_id w" r] by (auto simp: delivered_def)
  qed
  obtain st conf summ where c: "conclude lib y = (st, conf, summ)" by (cases "conclude lib y") auto
  have a: "ag_status a = st" "ag_completed a = ty_completed y" "ag_optional_failed a = ty_optional y"
    "ag_required_failed a = ty_required y" "ag_evidence a = ty_evidence y"
    using assms(1) q found c by (auto simp: aggregate_agent_results_def aggregation_of_def y_def[symmetric] dest!: validate_aggregation_Inr)
  have completed: "ty_completed y = filter (\<lambda>i. \<exists>r \<in> set results. rs_task_id r = i \<and> usable r) (plan_ids p)"
    using tally ext[of "delivered found", OF deliv] by (simp add: tallied_def plan_ids_def filter_map comp_def)
  have "mset (map worker_id (filter (delivered found) ws)) +
      mset (map worker_id (filter (\<lambda>w. \<not> delivered found w \<and> wk_requirement w \<noteq> Required_Worker) ws)) +
      mset (map worker_id (filter (\<lambda>w. \<not> delivered found w \<and> wk_requirement w = Required_Worker) ws)) = mset (map worker_id ws)" for ws
    by (induction ws) auto
  then have parts: "mset (ty_completed y @ ty_optional y @ ty_required y) = mset (plan_ids p)"
    using tally by (simp add: tallied_def plan_ids_def comp_def add.assoc)
  have inj: "inj_on worker_id (set (pl_workers p))"
    using validated_plan(2)[OF q] by (simp add: plan_ids_def distinct_map comp_def)
  have required: "worker_id w \<in> set (ty_required y) \<longleftrightarrow> wk_requirement w = Required_Worker \<and> \<not> delivered found w"
    if "w \<in> set (pl_workers p)" for w
    using tally that inj by (auto simp: tallied_def inj_on_def)
  have blocked: "st = Task_Blocked \<longleftrightarrow> ty_required y \<noteq> []" using c by (auto simp: conclude_def split: if_splits)
  have success: "st = Task_Success \<longleftrightarrow>
      (\<forall>w \<in> set (pl_workers p). \<exists>r \<in> set results. rs_task_id r = worker_id w \<and> rs_status r = Task_Success)" (is "_ = ?all")
  proof
    assume "st = Task_Success"
    then have "ty_missing y = []" using c by (auto simp: conclude_def split: if_splits)
    then have "\<forall>w \<in> set (pl_workers p). \<exists>r. r \<in> set results \<and> rs_task_id r = worker_id w \<and>
        (rs_status r = Task_Success \<or> rs_status r = Task_Partial \<and> rs_errors r = [])"
      using tally by (simp add: tallied_def look)
    then show ?all using assms(2) by (fastforce simp: terminal_result_def)
  next
    assume ?all
    then have m: "ty_missing y = []" using tally by (fastforce simp: tallied_def look)
    have "delivered found w" if "w \<in> set (pl_workers p)" for w
      using \<open>?all\<close> that by (auto simp: deliv usable_def)
    then have "ty_required y = []" "ty_optional y = []" using tally by (auto simp: tallied_def filter_empty_conv)
    then show "st = Task_Success" using c m by (simp add: conclude_def)
  qed
  have "(\<Union>w \<in> set (pl_workers p). set (evidence_of found w)) = (\<Union>r \<in> {r \<in> set results. usable r}. set (rs_evidence r))"
  proof (intro equalityI subsetI)
    fix e assume "e \<in> (\<Union>w \<in> set (pl_workers p). set (evidence_of found w))"
    then obtain w where "w \<in> set (pl_workers p)" "e \<in> set (evidence_of found w)" by blast
    then show "e \<in> (\<Union>r \<in> {r \<in> set results. usable r}. set (rs_evidence r))"
      using look[of "worker_id w"] by (cases "map_of found (worker_id w)") (auto simp: evidence_of_def split: if_splits)
  next
    fix e assume "e \<in> (\<Union>r \<in> {r \<in> set results. usable r}. set (rs_evidence r))"
    then obtain r where r: "r \<in> set results" "usable r" "e \<in> set (rs_evidence r)" by blast
    then obtain w where w: "w \<in> set (pl_workers p)" "worker_id w = rs_task_id r" using f(3) by (auto simp: plan_ids_def)
    then have "map_of found (worker_id w) = Some r" using r look by simp
    then have "e \<in> set (evidence_of found w)" using r by (simp add: evidence_of_def)
    then show "e \<in> (\<Union>w \<in> set (pl_workers p). set (evidence_of found w))" using w by blast
  qed
  then have evidence: "evidence_key ` set (ty_evidence y) = evidence_key ` (\<Union>r \<in> {r \<in> set results. usable r}. set (rs_evidence r))"
    and "distinct (map evidence_key (ty_evidence y))"
    using tally unfolding tallied_def by simp_all
  then show ?thesis
    unfolding a using completed parts required blocked success by (simp add: deliv)
qed

text \<open>
  C38. Nothing a worker failed to deliver is hidden by the aggregation: the completed, the optional
  and the required failures divide the plan's workers by whether their result is usable and
  whether they are required. The run is blocked exactly when a required worker delivered nothing
  usable, and succeeds exactly when every worker succeeded. The evidence is what the usable
  results cite, each reference once.
\<close>

theorem aggregation_accounts_for_every_worker:
  assumes "aggregate_agent_results lib pn p results duration_ms = Inr a" and "\<forall>r \<in> set results. terminal_result lib r"
  shows "ag_completed a = filter (\<lambda>i. \<exists>r \<in> set results. rs_task_id r = i \<and> usable r) (plan_ids p) \<and>
     mset (ag_completed a @ ag_optional_failed a @ ag_required_failed a) = mset (plan_ids p) \<and>
     (\<forall>w \<in> set (pl_workers p). worker_id w \<in> set (ag_required_failed a) \<longleftrightarrow>
        wk_requirement w = Required_Worker \<and> \<not> (\<exists>r \<in> set results. rs_task_id r = worker_id w \<and> usable r)) \<and>
     (ag_status a = Task_Blocked \<longleftrightarrow> ag_required_failed a \<noteq> []) \<and>
     (ag_status a = Task_Success \<longleftrightarrow>
        (\<forall>w \<in> set (pl_workers p). \<exists>r \<in> set results. rs_task_id r = worker_id w \<and> rs_status r = Task_Success)) \<and>
     distinct (map evidence_key (ag_evidence a)) \<and>
     evidence_key ` set (ag_evidence a) = evidence_key ` (\<Union>r \<in> {r \<in> set results. usable r}. set (rs_evidence r))"
  by (rule aggregation_facts[OF assms])

text \<open>
  A limit the code does not foresee: each result may cite a hundred references, but the aggregate of
  ten holds only 250, and unlike the missing evidence it is not cut to that length. So a fan-out
  whose workers all succeeded with more evidence is refused, and its run ends as blocked.
\<close>

lemma too_much_evidence_is_refused:
  assumes "250 < card (evidence_key ` (\<Union>r \<in> {r \<in> set results. usable r}. set (rs_evidence r)))"
    and "\<forall>r \<in> set results. terminal_result lib r"
  shows "aggregate_agent_results lib pn p results duration_ms \<noteq> Inr a"
proof
  assume a: "aggregate_agent_results lib pn p results duration_ms = Inr a"
  have keys: "distinct (map evidence_key (ag_evidence a))"
    "evidence_key ` set (ag_evidence a) = evidence_key ` (\<Union>r \<in> {r \<in> set results. usable r}. set (rs_evidence r))"
    using aggregation_facts[OF a assms(2)] by blast+
  then have "card (evidence_key ` set (ag_evidence a)) = length (ag_evidence a)"
    by (metis distinct_card length_map list.set_map)
  moreover have "length (ag_evidence a) \<le> 250"
    using a by (auto simp: aggregate_agent_results_def dest!: validate_aggregation_Inr)
  ultimately show False using assms(1) keys(2) by simp
qed


section \<open>Isolation of a worker's failure\<close>

lemma word_chars: "s' \<in> set (split_words s) \<Longrightarrow> \<forall>c \<in> set s'. \<not> py_space c"
proof (induction s rule: split_words.induct)
  case (1 s)
  let ?rest = "dropWhile py_space s"
  have "?rest \<noteq> []" and "s' = takeWhile (\<lambda>c. \<not> py_space c) ?rest \<or> s' \<in> set (split_words (dropWhile (\<lambda>c. \<not> py_space c) ?rest))"
    using "1.prems" by (subst (asm) split_words.simps, simp add: Let_def split: if_splits)+
  then show ?case using "1.IH"[OF refl] set_takeWhileD by metis
qed

lemma join_chars: "set (join sep ss) \<subseteq> set sep \<union> \<Union> (set ` set ss)"
  by (induction sep ss rule: join.induct) auto

lemma py_space_newlines: "py_space (CHR 0x0A)" "py_space (CHR 0x0D)"
  by code_simp+

lemma strip_subset: "set (strip s) \<subseteq> set s"
  unfolding strip_def by (auto dest!: set_dropWhileD)

lemma length_strip_le: "length (strip s) \<le> length s"
  unfolding strip_def by (metis length_dropWhile_le length_rev le_trans)

lemma strip_nonempty: "s \<noteq> [] \<Longrightarrow> \<not> py_space (hd s) \<Longrightarrow> strip s \<noteq> []"
  by (cases s) (auto simp: strip_def dropWhile_eq_Nil_conv)

text \<open>The name of an exception class: no blanks, and short.\<close>

definition class_name :: "string \<Rightarrow> bool" where
  "class_name s \<longleftrightarrow> s \<noteq> [] \<and> length s \<le> 400 \<and> (\<forall>c \<in> set s. \<not> py_space c)"

lemma sanitized_error:
  assumes "class_name (fst (fe_describe env e))"
  shows "validate_result_errors [] [sanitize_supervisor_error env e] = Inr [strip (sanitize_supervisor_error env e)]"
proof -
  obtain ty msg where d: "fe_describe env e = (ty, msg)" by fastforce
  let ?s = "sanitize_supervisor_error env e"
  have s: "?s = ty @ '': '' @ take 1500 (join '' '' (split_words msg))" by (simp add: sanitize_supervisor_error_def d)
  have "c \<noteq> CHR 0x0A \<and> c \<noteq> CHR 0x0D" if "c \<in> set ?s" for c
  proof -
    have "c \<in> set ty \<or> c = CHR '':'' \<or> c = CHR '' '' \<or> c \<in> set (join '' '' (split_words msg))"
      using that s by (auto dest: in_set_takeD)
    moreover have "c = CHR '' '' \<or> \<not> py_space c" if "c \<in> set (join '' '' (split_words msg))"
      using that join_chars[of "'' ''" "split_words msg"] word_chars by fastforce
    ultimately show ?thesis using assms py_space_newlines by (auto simp: d class_name_def)
  qed
  then have "single_line (strip ?s)" using strip_subset[of ?s] by (auto simp: single_line_def)
  moreover have "length (strip ?s) \<le> 2000"
  proof -
    have "length ?s \<le> 1902" using assms by (auto simp: s d class_name_def min_def)
    then show ?thesis using length_strip_le[of ?s] by linarith
  qed
  moreover have "strip ?s \<noteq> []"
    using assms by (intro strip_nonempty) (auto simp: s d class_name_def)
  ultimately show ?thesis by (simp add: Let_def)
qed

lemma contract_name_field: "validate_contract_name s f = Inr n \<Longrightarrow> validate_contract_name s g = Inr n"
  by (auto simp: validate_contract_name_def sized_def Let_def split: if_splits)

lemma task_names_valid:
  assumes "validate_task lib t = Inr t"
  shows "validate_contract_name (tk_specialist t) f = Inr (tk_specialist t)" "validate_contract_name (tk_type t) f = Inr (tk_type t)"
proof -
  obtain sp ty tools cx where sp: "validate_contract_name (tk_specialist t) ''specialist_name'' = Inr sp"
    and ty: "validate_contract_name (tk_type t) ''task_type'' = Inr ty"
    and up: "t\<lparr>tk_specialist := sp, tk_type := ty, tk_tools := tools, tk_context := cx,
       tk_requester := strip (tk_requester t), tk_alert_key := strip (tk_alert_key t)\<rparr> = t"
    using assms unfolding validate_task_def and_then_Inr Let_def sum.inject by blast
  have "sp = tk_specialist t" "ty = tk_type t"
    using arg_cong[OF up, of tk_specialist] arg_cong[OF up, of tk_type] by simp_all
  with sp ty show "validate_contract_name (tk_specialist t) f = Inr (tk_specialist t)" "validate_contract_name (tk_type t) f = Inr (tk_type t)"
    using contract_name_field by blast+
qed

text \<open>What a float library must get right about zero.\<close>

definition zero_in_bounds :: "'f pylib \<Rightarrow> bool" where
  "zero_in_bounds lib \<longleftrightarrow> lib_le lib (lib_zero lib) (lib_zero lib) \<and> lib_le lib (lib_zero lib) (lib_literal lib ''1.0'')"

lemma failed_result_is_valid:
  assumes "validate_task lib (wk_task w) = Inr (wk_task w)" and "zero_in_bounds lib" and "class_name (fst (fe_describe env e))"
  shows "build_failed_worker_result lib env w e d at = Inr
     ((empty_result lib w Task_Failed (max 0 d) (sanitize_supervisor_error env e) FAILED_NEXT_STEP at)
        \<lparr>rs_errors := [strip (sanitize_supervisor_error env e)]\<rparr>)"
  using task_names_valid[OF assms(1)] sanitized_error[OF assms(3)] assms(2)
  by (simp add: build_failed_worker_result_def validate_result_def empty_result_def sized_def ranged_def within_def zero_in_bounds_def
      terminal_result_def terminal_status_def nonzero_def validate_bounded_payload_def FORBIDDEN_CONTEXT_KEYS_def
      FAILED_NEXT_STEP_def MAX_CONTEXT_PAYLOAD_BYTES_def and_then_def check_def Let_def)

lemma executor_Inr:
  assumes "run_executor lib env external calls w allocation s = (Inr r, t)"
  shows "\<exists>raw. enforce_result_contract lib (wk_task w) raw = Inr r"
proof (cases "fe_executor env")
  case None
  then show ?thesis using process_Inr[of lib env external calls w s r t] assms by (auto simp: run_executor_def)
next
  case (Some executor)
  then show ?thesis using assms by (auto simp: run_executor_def bnd_Inr pure_Inr)
qed

definition own_result :: "'f pylib \<Rightarrow> 'f worker \<Rightarrow> 'f result \<Rightarrow> bool" where
  "own_result lib w r \<longleftrightarrow> rs_task_id r = worker_id w \<and> rs_parent r = tk_parent (wk_task w) \<and>
     rs_specialist r = tk_specialist (wk_task w) \<and> rs_type r = tk_type (wk_task w) \<and> terminal_result lib r"

lemma own_contract: "enforce_result_contract lib (wk_task w) raw = Inr r \<Longrightarrow> own_result lib w r"
  by (auto simp: enforce_result_contract_def own_result_def dest: validate_result_Inr)

lemma own_failed:
  assumes "validate_task lib (wk_task w) = Inr (wk_task w)" and "build_failed_worker_result lib env w e d at = Inr r"
  shows "own_result lib w r"
  using validate_result_Inr[OF assms(2)[unfolded build_failed_worker_result_def]] task_names_valid[OF assms(1)]
  by (auto simp: own_result_def empty_result_def)

definition own_terminal :: "'f pylib \<Rightarrow> 'f worker \<Rightarrow> 'f result \<Rightarrow> bool" where
  "own_terminal lib w r \<longleftrightarrow>
     rs_task_id r = tk_task_id (wk_task w) \<and> rs_parent r = tk_parent (wk_task w) \<and>
     rs_specialist r = tk_specialist (wk_task w) \<and> rs_type r = tk_type (wk_task w) \<and> terminal_status (rs_status r) \<and>
     (rs_status r \<in> {Task_Failed, Task_Blocked, Task_Partial} \<longrightarrow> rs_errors r \<noteq> []) \<and>
     (rs_status r \<in> {Task_Failed, Task_Blocked} \<longrightarrow> \<not> nonzero lib (rs_confidence r))"

lemma own_terminal: "own_result lib w r \<Longrightarrow> own_terminal lib w r"
  by (auto simp: own_result_def own_terminal_def terminal_result_def)

text \<open>The attempt answers for its own task, or the audit write of its failure raised as its last step.\<close>

lemma attempt_ends:
  assumes "validate_task lib (wk_task w) = Inr (wk_task w)" and "zero_in_bounds lib"
    and "\<And>e. class_name (fst (fe_describe env e))" and "attempt_worker lib env external calls w started s = (out, v)"
  shows "(\<exists>r. out = Inr r \<and> own_terminal lib w r) \<or>
     (\<exists>x y. out = Inl (World_Error x) \<and> fe_audit env ''supervisor_handoff_failed'' y = (Some x, fs_world v))"
proof (cases out)
  case (Inr r)
  have "(\<exists>allocation s' t'. run_executor lib env external calls w allocation s' = (Inr r, t')) \<or>
      (\<exists>e d at. build_failed_worker_result lib env w e d at = Inr r)"
    using assms(4) unfolding Inr attempt_worker_def handle_Inr by (auto simp: bnd_Inr pure_Inr)
  then have "own_result lib w r"
    using executor_Inr own_contract own_failed[OF assms(1)] by blast
  then show ?thesis using Inr own_terminal by blast
next
  case (Inl e)
  have valid: "\<exists>r. build_failed_worker_result lib env w e' d at = Inr r" for e' d at
    using failed_result_is_valid[OF assms(1,2) assms(3)] by blast
  obtain y where "audit_worker env ''supervisor_handoff_failed'' y = (Inl e, v)"
    using assms(4) valid unfolding Inl attempt_worker_def handle_Inl
    by (auto simp: bnd_Inl pure_Inl gets_def on_world_run ret_def) (metis Inl_Inr_False)+
  then show ?thesis using Inl audit_worker_Inl by blast
qed

text \<open>
  C39. A worker's failure stays its own: whatever goes wrong in its attempt (a refused budget, a
  circuit that is open or cannot be read, a failed audit write, a process that cannot be run, times
  out, exits with an error or writes no or an invalid result, a result that breaks the contract or
  overspends), the caller gets a result contract for exactly this worker's task, in a terminal
  status with its errors disclosed. An error reaches the caller only from three steps around the
  attempt: the audit client could not be created, and then nothing was attempted; closing it
  raised, after the attempt; or the audit write that records the failure itself raised, and then the
  client was closed all the same.
\<close>

theorem worker_failure_is_isolated:
  assumes "validate_task lib (wk_task w) = Inr (wk_task w)" and "zero_in_bounds lib"
    and "\<And>e. class_name (fst (fe_describe env e))"
  shows "(\<exists>r t. execute_planned_worker lib env external calls w s = (Inr r, t) \<and>
       rs_task_id r = tk_task_id (wk_task w) \<and> rs_parent r = tk_parent (wk_task w) \<and>
       rs_specialist r = tk_specialist (wk_task w) \<and> rs_type r = tk_type (wk_task w) \<and> terminal_status (rs_status r) \<and>
       (rs_status r \<in> {Task_Failed, Task_Blocked, Task_Partial} \<longrightarrow> rs_errors r \<noteq> []) \<and>
       (rs_status r \<in> {Task_Failed, Task_Blocked} \<longrightarrow> \<not> nonzero lib (rs_confidence r))) \<or>
     (\<exists>x t. execute_planned_worker lib env external calls w s = (Inl (World_Error x), t) \<and>
       (case fe_monotonic env (fs_world s) of (started, w1) \<Rightarrow> case fe_client env w1 of
          (Some e, w2) \<Rightarrow> x = e \<and> t = s\<lparr>fs_world := w2\<rparr>
        | (None, w2) \<Rightarrow> (case attempt_worker lib env external calls w started (s\<lparr>fs_world := w2\<rparr>) of (out, v) \<Rightarrow>
            fe_close env (fs_world v) = (Some x, fs_world t) \<or>
            fe_close env (fs_world v) = (None, fs_world t) \<and> out = Inl (World_Error x) \<and>
              (\<exists>y. fe_audit env ''supervisor_handoff_failed'' y = (Some x, fs_world v)))))"
proof -
  obtain started w1 where clock: "fe_monotonic env (fs_world s) = (started, w1)" by fastforce
  obtain opened w2 where opened: "fe_client env w1 = (opened, w2)" by fastforce
  show ?thesis
  proof (cases opened)
    case (Some e)
    then show ?thesis
      using clock opened by (simp add: execute_planned_worker_def bnd_def on_world_def client_call_def)
  next
    case None
    obtain out v where attempt: "attempt_worker lib env external calls w started (s\<lparr>fs_world := w2\<rparr>) = (out, v)" by fastforce
    obtain closed w3 where closed: "fe_close env (fs_world v) = (closed, w3)" by fastforce
    have run: "execute_planned_worker lib env external calls w s =
        (case closed of None \<Rightarrow> (out, v\<lparr>fs_world := w3\<rparr>) | Some e \<Rightarrow> (Inl (World_Error e), v\<lparr>fs_world := w3\<rparr>))"
      using clock opened None attempt closed
      by (simp add: execute_planned_worker_def bnd_def on_world_def client_call_def run_finally_def split: option.splits)
    show ?thesis
    proof (cases closed)
      case (Some e)
      then show ?thesis using run clock opened None attempt closed by simp
    next
      case quiet: None
      show ?thesis
        using attempt_ends[OF assms attempt]
      proof (elim disjE exE conjE)
        fix r assume "out = Inr r" "own_terminal lib w r"
        then show ?thesis using run quiet by (simp add: own_terminal_def)
      next
        fix x y assume "out = Inl (World_Error x)" "fe_audit env ''supervisor_handoff_failed'' y = (Some x, fs_world v)"
        then show ?thesis using run quiet clock opened None attempt closed by auto
      qed
    qed
  qed
qed

end
