(* ===== verification/Fanout_Instance.thy ===== *)
theory Fanout_Instance
  imports Fanout Supervisor_Instance
begin

text \<open>
  A concrete plan of two workers, the second of which depends on the first, and runs of it, at
  which the theorems' hypotheses hold. Floats are integers in units of 1/100, as before.
\<close>

section \<open>Waves\<close>

definition trial_deps :: "dependency list" where
  "trial_deps = [\<lparr>dp_upstream = ''a'', dp_downstream = ''c''\<rparr>, \<lparr>dp_upstream = ''b'', dp_downstream = ''c''\<rparr>]"

lemma trial_waves: "build_execution_waves [''c'', ''a'', ''b''] trial_deps =
     Inr [\<lparr>wv_index = 0, wv_ids = [''a'', ''b'']\<rparr>, \<lparr>wv_index = 1, wv_ids = [''c'']\<rparr>]"
  by code_simp

lemma waves_schedule_every_task_witness:
  "\<exists>ws. build_execution_waves [''c'', ''a'', ''b''] trial_deps = Inr ws \<and> mset (concat (map wv_ids ws)) = mset [''c'', ''a'', ''b'']"
  using waves_schedule_every_task[OF trial_waves] trial_waves by blast

lemma waves_exist_iff_acyclic_witness:
  "acyclic {(''a'', ''c''), (''b'', ''c'')}"
proof -
  have "acyclic ((\<lambda>d. (dp_upstream d, dp_downstream d)) ` set trial_deps)"
    using waves_exist_iff_acyclic[of "[''c'', ''a'', ''b'']" trial_deps] trial_waves
    by (auto simp: MAX_AGENT_WORKERS_def trial_deps_def)
  then show ?thesis by (simp add: trial_deps_def)
qed

lemma canonical_text_identifies_witness:
  "canonical_json (\<lambda>_. []) (JObj [(''b'', JInt 1), (''a'', JStr ''x'')]) = canonical_json (\<lambda>_. []) (JObj [(''a'', JStr ''x''), (''b'', JInt 1)])"
proof -
  have "json_eq (JObj [(''b'', JInt 1), (''a'', JStr ''x'')]) (JObj [(''a'', JStr ''x''), (''b'', JInt 1)])" by code_simp
  then show ?thesis by (subst canonical_text_identifies) simp_all
qed

section \<open>A plan\<close>

definition trial_planner :: "int planner" where
  "trial_planner = \<lparr>pn_sha256 = (\<lambda>s. s), pn_uuid5 = (\<lambda>a b. b), pn_real = (\<lambda>i. JReal (int_str i @ ''.0''))\<rparr>"

definition context_task :: "int task" where
  "context_task = lineage_task\<lparr>tk_task_id := ''t2'', tk_type := ''asset_context'',
     tk_tools := [''metadata_catalog'', ''dbt_lineage'', ''dbt_blast_radius'', ''agent_audit_log'']\<rparr>"

definition trial_worker :: "int task \<Rightarrow> requirement \<Rightarrow> int worker" where
  "trial_worker t need = \<lparr>wk_task = t, wk_intent = Blast_Radius, wk_requirement = need, wk_retry_budget = 0,
     wk_namespace = ''n'', wk_rationale = []\<rparr>"

definition draft_plan :: "int plan" where
  "draft_plan = \<lparr>pl_parent = ''p'', pl_workers = [trial_worker lineage_task Required_Worker, trial_worker context_task Optional_Worker],
     pl_dependencies = [\<lparr>dp_upstream = ''t1'', dp_downstream = ''t2''\<rparr>],
     pl_policy = \<lparr>fp_max_workers = 10, fp_max_concurrency = 3, fp_max_calls = 3, fp_tokens = 32000, fp_cost = 5, fp_latency = 300000,
       fp_external_llm = False, fp_mutation = False\<rparr>,
     pl_waves = [\<lparr>wv_index = 0, wv_ids = [''t1'']\<rparr>, \<lparr>wv_index = 1, wv_ids = [''t2'']\<rparr>],
     pl_strategy = Evidence_First, pl_source = Deterministic, pl_hash = [], pl_created_at = 0\<rparr>"

lemma draft_checks:
  "distinct (plan_ids draft_plan)"
  "list_all (\<lambda>w. case admit_worker draft_plan w of Inl _ \<Rightarrow> False | Inr _ \<Rightarrow> True) (pl_workers draft_plan)"
  "build_execution_waves (plan_ids draft_plan) (pl_dependencies draft_plan) = Inr (pl_waves draft_plan)"
  "try_map (worker_budget trial_lib False 3) (pl_workers draft_plan) = Inr [no_budget trial_lib, no_budget trial_lib]"
  by code_simp+

lemma draft_signatures: "distinct (map (task_signature trial_lib trial_planner \<circ> wk_task) (pl_workers draft_plan))"
  by code_simp

lemma plan_ignores_hash:
  "plan_ids (p\<lparr>pl_hash := h, pl_created_at := i\<rparr>) = plan_ids p"
  "admit_worker (p\<lparr>pl_hash := h, pl_created_at := i\<rparr>) = admit_worker p"
  "calculate_plan_hash lib pn (p\<lparr>pl_hash := h, pl_created_at := i\<rparr>) = calculate_plan_hash lib pn p"
  by (simp_all add: plan_ids_def fun_eq_iff admit_worker_def calculate_plan_hash_def plan_hash_payload_def)

definition stamped_plan :: "int \<Rightarrow> int plan" where
  "stamped_plan at = draft_plan\<lparr>pl_hash := calculate_plan_hash trial_lib trial_planner draft_plan, pl_created_at := at\<rparr>"

lemma stamped_plan_valid: "validate_execution_plan trial_lib trial_planner (stamped_plan at) = Inr (stamped_plan at)"
proof -
  obtain us where us: "try_map (admit_worker draft_plan) (pl_workers draft_plan) = Inr us"
  proof -
    have "(case try_map (admit_worker draft_plan) (pl_workers draft_plan) of Inl _ \<Rightarrow> False | Inr _ \<Rightarrow> True)" by code_simp
    then show ?thesis using that by (auto split: sum.splits)
  qed
  have fields: "pl_workers (stamped_plan at) = pl_workers draft_plan" "pl_policy (stamped_plan at) = pl_policy draft_plan"
    "pl_dependencies (stamped_plan at) = pl_dependencies draft_plan" "pl_waves (stamped_plan at) = pl_waves draft_plan"
    "pl_hash (stamped_plan at) = calculate_plan_hash trial_lib trial_planner draft_plan"
    "plan_ids (stamped_plan at) = plan_ids draft_plan" "admit_worker (stamped_plan at) = admit_worker draft_plan"
    "calculate_plan_hash trial_lib trial_planner (stamped_plan at) = calculate_plan_hash trial_lib trial_planner draft_plan"
    by (simp_all add: stamped_plan_def plan_ignores_hash)
  have policy: "fp_external_llm (pl_policy draft_plan) = False" "fp_max_calls (pl_policy draft_plan) = 3"
    "fp_tokens (pl_policy draft_plan) = 32000" "fp_cost (pl_policy draft_plan) = 5" "fp_max_workers (pl_policy draft_plan) = 10"
    by (simp_all add: draft_plan_def)
  have "int (length (pl_workers draft_plan)) \<le> 10" "sum_list (map wk_retry_budget (pl_workers draft_plan)) \<le> 20"
    "\<not> lib_less trial_lib 5 (float_sum trial_lib [lib_zero trial_lib, lib_zero trial_lib])"
    by code_simp+
  then show ?thesis
    using draft_checks(1,3,4) draft_signatures us
    unfolding validate_execution_plan_def fields policy
    by (simp add: MAX_AGENT_WORKERS_def no_budget_def)
qed

section \<open>Runs\<close>

text \<open>The first worker delivers; \<open>broken\<close> says whether the second one's process fails.\<close>

definition delivered_result :: "int task \<Rightarrow> int result" where
  "delivered_result t = trial_result\<lparr>rs_task_id := tk_task_id t, rs_specialist := tk_specialist t, rs_type := tk_type t,
     rs_status := Task_Success, rs_errors := []\<rparr>"

definition trial_env :: "bool \<Rightarrow> (nat, int) fan_env" where
  "trial_env broken = \<lparr>fe_client = \<lambda>w. (None, w), fe_close = \<lambda>w. (None, w),
     fe_audit = (\<lambda>a w. (None, w)),
     fe_circuit = (\<lambda>n w. (Inr \<lparr>sn_specialist = n, sn_state = Circuit_Closed, sn_allowed = True, sn_failures = 0,
        sn_threshold = 3, sn_retry_after = 0, sn_last_failure = None\<rparr>, w)),
     fe_executor = None,
     fe_process = (\<lambda>w x. (if broken \<and> worker_id w = ''t2'' then Timed_Out
        else Exited 0 (Some (Inr (delivered_result (wk_task w)))), x + 1)),
     fe_monotonic = (\<lambda>x. (0, x)), fe_now = (\<lambda>x. int x),
     fe_describe = (\<lambda>e. (''TimeoutError'', ''Isolated worker exceeded timeout''))\<rparr>"

definition trial_fan_state :: "(nat, int) fan_state" where
  "trial_fan_state = \<lparr>fs_allocator = fanout_allocator draft_plan, fs_world = 0\<rparr>"

definition first_worker :: "int worker" where
  "first_worker = trial_worker lineage_task Required_Worker"

definition second_worker :: "int worker" where
  "second_worker = trial_worker context_task Optional_Worker"

lemma trial_names: "list_all safe_contract_name [''metadata_lineage_agent'', ''metadata_catalog'', ''dbt_blast_radius'',
     ''agent_audit_log'', ''dbt_lineage'', ''blast_radius'', ''asset_context'']"
  by (simp add: safe_contract_name_def contract_char_def lower_letter_def Let_def)

lemma trial_contract_names:
  "validate_contract_name ''metadata_lineage_agent'' f = Inr ''metadata_lineage_agent''"
  "validate_contract_name ''blast_radius'' f = Inr ''blast_radius''"
  "validate_contract_name ''asset_context'' f = Inr ''asset_context''"
  "validate_allowed_tools [''metadata_catalog'', ''dbt_blast_radius'', ''agent_audit_log''] =
     Inr [''metadata_catalog'', ''dbt_blast_radius'', ''agent_audit_log'']"
  "validate_allowed_tools [''metadata_catalog'', ''dbt_lineage'', ''dbt_blast_radius'', ''agent_audit_log''] =
     Inr [''metadata_catalog'', ''dbt_lineage'', ''dbt_blast_radius'', ''agent_audit_log'']"
  using trial_names by (simp_all add: validate_contract_name_def validate_allowed_tools_def sized_def Let_def safe_name_fixed)

lemma trial_payload: "validate_bounded_payload lib [] f = Inr []"
  by (simp add: validate_bounded_payload_def MAX_CONTEXT_PAYLOAD_BYTES_def)

lemmas trial_tasks = lineage_task_def context_task_def trial_task_def first_worker_def second_worker_def trial_worker_def

lemma trial_strings: "strip ''ana'' = ''ana''" "strip ''k'' = ''k''"
  by code_simp+

lemma trial_task_valid:
  "validate_task trial_lib lineage_task = Inr lineage_task" "validate_task trial_lib context_task = Inr context_task"
  by (simp_all add: validate_task_def trial_tasks trial_contract_names trial_payload sized_def ranged_def within_def trial_lib_def
      lib_zero_def route_policy_def nonzero_def trial_strings check_def[of True] Let_def)

lemma trial_admitted: "(case enforce_task_capability lineage_task of Inl _ \<Rightarrow> False | Inr _ \<Rightarrow> True)"
  by code_simp

lemma trial_contract: "\<exists>r. enforce_result_contract trial_lib lineage_task (delivered_result lineage_task) = Inr r"
proof -
  obtain c where "enforce_task_capability lineage_task = Inr c" using trial_admitted by (auto split: sum.splits)
  then show ?thesis
    by (simp add: enforce_result_contract_def validate_result_def delivered_result_def trial_result_def trial_tasks trial_contract_names
        trial_payload sized_def ranged_def within_def trial_lib_def lib_zero_def validate_evidence_reference_def terminal_result_def
        terminal_status_def nonzero_def Let_def)
qed

lemma trial_budgets:
  "effective_fanout_worker_budget trial_lib lineage_task False 3 = Inr (no_budget trial_lib)"
  "effective_fanout_worker_budget trial_lib context_task False 3 = Inr (no_budget trial_lib)"
  by code_simp+

text \<open>A worker whose process delivers a result, and one whose process times out.\<close>

lemma trial_delivers:
  assumes "holds_grant trial_lib False 3 first_worker s"
  shows "\<exists>r. rs_status r = Task_Success \<and> execute_planned_worker trial_lib (trial_env broken) False 3 first_worker s =
     (Inr r, s\<lparr>fs_world := fs_world s + 1\<rparr>)"
proof -
  have id: "worker_id first_worker \<noteq> ''t2''" "wk_task first_worker = lineage_task"
    by (simp_all add: first_worker_def trial_worker_def lineage_task_def trial_task_def)
  obtain r where contract: "enforce_result_contract trial_lib lineage_task (delivered_result lineage_task) = Inr r"
    using trial_contract by blast
  then have "validate_result trial_lib (delivered_result lineage_task) = Inr r"
    by (auto simp: enforce_result_contract_def)
  then have r: "rs_status r = Task_Success" "rs_model_calls r = 0" "rs_tokens r = 0" "rs_cost r = 0" "rs_duration r = 10"
    using validate_result_Inr by (force simp: delivered_result_def trial_result_def)+
  have usage: "validate_worker_usage trial_lib first_worker r (Some (no_budget trial_lib)) = Inr ()"
    using r by (simp add: usage_Inr no_budget_def id lineage_task_def trial_task_def trial_lib_def lib_zero_def)
  have grant: "granted trial_lib False 3 first_worker = no_budget trial_lib"
    using trial_budgets(1) by (simp add: granted_def id)
  have "holds_grant trial_lib False 3 first_worker (s\<lparr>fs_world := fs_world s\<rparr>)" using assms by simp
  from reserve_held[OF this] show ?thesis
    using contract usage trial_budgets(1) id grant r(1)
    by (simp add: execute_planned_worker_def attempt_worker_def client_call_def run_finally_def trial_env_def handle_def bnd_def on_world_def audit_worker_def run_executor_def
        invoke_isolated_agent_worker_def require_circuit_allows_def ret_def require_def)
qed

lemma trial_fails:
  assumes "holds_grant trial_lib False 3 second_worker s"
  shows "\<exists>r. rs_status r = Task_Failed \<and> execute_planned_worker trial_lib (trial_env True) False 3 second_worker s =
     (Inr r, s\<lparr>fs_world := fs_world s + 1\<rparr>)"
proof -
  have id: "worker_id second_worker = ''t2''" "wk_task second_worker = context_task"
    by (simp_all add: second_worker_def trial_worker_def context_task_def)
  have valid: "validate_task trial_lib (wk_task second_worker) = Inr (wk_task second_worker)"
    using trial_task_valid(2) id by simp
  have "zero_in_bounds trial_lib" and "class_name (fst (fe_describe (trial_env True) e))" for e
    by (simp_all add: zero_in_bounds_def trial_lib_def lib_zero_def class_name_def trial_env_def py_space_def)
  from failed_result_is_valid[OF valid this] obtain r where r: "rs_status r = Task_Failed"
    "build_failed_worker_result trial_lib (trial_env True) second_worker (Process_Error ''timeout'') 0 (1 + int (fs_world s)) = Inr r"
    by (metis result.select_convs(5) result.update_convs(14) empty_result_def)
  have "holds_grant trial_lib False 3 second_worker (s\<lparr>fs_world := fs_world s\<rparr>)" using assms by simp
  from reserve_held[OF this] show ?thesis
    using r id
    by (simp add: execute_planned_worker_def attempt_worker_def client_call_def run_finally_def trial_env_def handle_def bnd_def on_world_def audit_worker_def run_executor_def
        invoke_isolated_agent_worker_def require_circuit_allows_def ret_def throw_def require_def gets_def elapsed_def trial_lib_def)
qed

lemma plan_workers_draft:
  "wave_workers draft_plan \<lparr>wv_index = 0, wv_ids = [''t1'']\<rparr> = Inr [first_worker]"
  "wave_workers draft_plan \<lparr>wv_index = Suc 0, wv_ids = [''t2'']\<rparr> = Inr [second_worker]"
  by (simp_all add: wave_workers_def draft_plan_def trial_tasks)

lemma trial_grants:
  "granted trial_lib False 3 first_worker = no_budget trial_lib" "granted trial_lib False 3 second_worker = no_budget trial_lib"
  "effective_fanout_worker_budget trial_lib (wk_task first_worker) False 3 = Inr (no_budget trial_lib)"
  "effective_fanout_worker_budget trial_lib (wk_task second_worker) False 3 = Inr (no_budget trial_lib)"
  using trial_budgets by (simp_all add: granted_def first_worker_def second_worker_def trial_worker_def)

lemma trial_room: "room trial_lib False 3 (fs_allocator trial_fan_state) [] [first_worker, second_worker]"
  by (simp add: room_def trial_grants trial_fan_state_def fanout_allocator_def new_allocator_def granted_to_def draft_plan_def
      no_budget_def) (simp add: trial_tasks)

lemma trial_cost: "cost_fits trial_lib 5 [lib_zero trial_lib, lib_zero trial_lib]"
  by (auto simp: cost_fits_def trial_lib_def lib_zero_def float_sum_def take_Cons' less_Suc_eq le_Suc_eq)

lemma trial_reserves:
  assumes "room trial_lib False 3 (fs_allocator s) held [w]" and "al_cost_budget (fs_allocator s) = 5"
    and "map (granted trial_lib False 3) (held @ [w]) = [no_budget trial_lib] \<or>
         map (granted trial_lib False 3) (held @ [w]) = [no_budget trial_lib, no_budget trial_lib]"
  shows "\<exists>t. for_each (reserve_planned trial_lib False 3) [w] s = (Inr (map (granted trial_lib False 3) [w]), t) \<and>
     fs_allocator t = (fs_allocator s)\<lparr>al_allocations := granted_to trial_lib False 3 (held @ [w])\<rparr>"
proof -
  have "cost_fits trial_lib 5 (map bv_cost (map (granted trial_lib False 3) (held @ [w])))"
    using assms(3) trial_cost cost_fits_prefix[of trial_lib 5 "[lib_zero trial_lib]" "[lib_zero trial_lib]"]
    by (auto simp: no_budget_def)
  then have "cost_fits trial_lib (al_cost_budget (fs_allocator s)) (map (bv_cost \<circ> granted trial_lib False 3) (held @ [w]))"
    unfolding assms(2) by (simp only: map_map)
  then show ?thesis using reserve_list[OF assms(1)] by blast
qed

lemma trial_run_ends:
  "\<exists>r1 r2 t. run_waves trial_lib (trial_env True) (\<lambda>xs. xs) rev False 3 draft_plan [] (pl_waves draft_plan) trial_fan_state =
     (Inr [r1, r2], t) \<and> rs_status r1 = Task_Success \<and> rs_status r2 = Task_Failed"
proof -
  have room1: "room trial_lib False 3 (fs_allocator trial_fan_state) [] ([first_worker] @ [second_worker])"
    using trial_room by simp
  have budget: "al_cost_budget (fs_allocator trial_fan_state) = 5"
    by (simp add: trial_fan_state_def fanout_allocator_def new_allocator_def draft_plan_def)
  obtain s1 where s1: "for_each (reserve_planned trial_lib False 3) [first_worker] trial_fan_state = (Inr [no_budget trial_lib], s1)"
    and al1: "fs_allocator s1 = (fs_allocator trial_fan_state)\<lparr>al_allocations := granted_to trial_lib False 3 [first_worker]\<rparr>"
    using trial_reserves[OF room_append(1)[OF room1] budget] by (auto simp: trial_grants)
  have "holds_grant trial_lib False 3 first_worker s1"
    by (simp add: holds_grant_def al1 granted_to_def trial_grants)
  from trial_delivers[OF this, of True] obtain r1 where r1: "rs_status r1 = Task_Success"
    "execute_planned_worker trial_lib (trial_env True) False 3 first_worker s1 = (Inr r1, s1\<lparr>fs_world := fs_world s1 + 1\<rparr>)" by blast
  have g1: "holds_grant trial_lib False 3 first_worker s1" by fact
  have id1: "rs_task_id r1 = ''t1''" using execute_answers[OF g1 r1(2)] by (simp add: answers_def trial_tasks)
  define s2 where "s2 = s1\<lparr>fs_world := fs_world s1 + 1\<rparr>"
  have "room trial_lib False 3 (fs_allocator s2) [first_worker] [second_worker]"
    using room_append(2)[OF room1] by (simp add: s2_def al1)
  moreover have "al_cost_budget (fs_allocator s2) = 5" using budget by (simp add: s2_def al1)
  ultimately obtain s3 where s3: "for_each (reserve_planned trial_lib False 3) [second_worker] s2 = (Inr [no_budget trial_lib], s3)"
    and al3: "fs_allocator s3 = (fs_allocator s2)\<lparr>al_allocations := granted_to trial_lib False 3 [first_worker, second_worker]\<rparr>"
    using trial_reserves[of s2 "[first_worker]" second_worker] by (auto simp: trial_grants)
  have g3: "holds_grant trial_lib False 3 second_worker s3"
    by (simp add: holds_grant_def al3 granted_to_def trial_grants)
  obtain r2 where r2: "rs_status r2 = Task_Failed"
    "execute_planned_worker trial_lib (trial_env True) False 3 second_worker s3 = (Inr r2, s3\<lparr>fs_world := fs_world s3 + 1\<rparr>)"
    using trial_fails[OF g3] by blast
  have id2: "rs_task_id r2 = ''t2''" using execute_answers[OF g3 r2(2)] by (simp add: answers_def trial_tasks)
  have audit: "audit_worker (trial_env True) a s = (Inr (), s)" for a s
    by (simp add: audit_worker_def trial_env_def)
  have open1: "dependency_blocked_result trial_lib (\<lambda>xs. xs) first_worker prior draft_plan at = Inr None" for prior at
    by (simp add: dependency_blocked_result_def failed_upstream_def incoming_def draft_plan_def trial_tasks)
  have open2: "dependency_blocked_result trial_lib (\<lambda>xs. xs) second_worker (results_by_id [r1]) draft_plan at = Inr None" for at
    using r1(1) id1 by (simp add: dependency_blocked_result_def failed_upstream_def incoming_def draft_plan_def trial_tasks results_by_id_def usable_def)
  have node1: "run_worker_node trial_lib (trial_env True) (\<lambda>xs. xs) False 3 draft_plan prior first_worker s1 = (Inr r1, s2)" for prior
    by (simp add: run_worker_node_def bnd_def gets_def open1 r1(2) s2_def)
  have wave1: "execute_agent_wave trial_lib (trial_env True) (\<lambda>xs. xs) rev False 3 draft_plan (results_by_id [])
      \<lparr>wv_index = 0, wv_ids = [''t1'']\<rparr> trial_fan_state = (Inr [r1], s2)"
    using s1 node1 id1 by (simp add: execute_agent_wave_def plan_workers_draft bnd_def ret_def results_by_id_def List.map_filter_def trial_tasks
        split: prod.splits sum.splits)
  have node2: "run_worker_node trial_lib (trial_env True) (\<lambda>xs. xs) False 3 draft_plan (results_by_id [r1]) second_worker s3 =
      (Inr r2, s3\<lparr>fs_world := fs_world s3 + 1\<rparr>)"
    by (simp add: run_worker_node_def bnd_def gets_def open2 r2(2))
  have wave2: "execute_agent_wave trial_lib (trial_env True) (\<lambda>xs. xs) rev False 3 draft_plan (results_by_id [r1])
      \<lparr>wv_index = Suc 0, wv_ids = [''t2'']\<rparr> s2 = (Inr [r2], s3\<lparr>fs_world := fs_world s3 + 1\<rparr>)"
    using s3 node2 id2 by (simp add: execute_agent_wave_def plan_workers_draft bnd_def ret_def results_by_id_def List.map_filter_def trial_tasks
        split: prod.splits sum.splits)
  show ?thesis
    using r1(1) r2(1) wave1 wave2 by (auto simp: draft_plan_def bnd_def audit ret_def)
qed

text \<open>The run does not depend on the hash and the creation time of the plan.\<close>

lemma run_ignores_hash:
  "run_waves lib env order sched ext calls (p\<lparr>pl_hash := h, pl_created_at := i\<rparr>) rs wvs = run_waves lib env order sched ext calls p rs wvs"
proof (induction wvs arbitrary: rs)
  case (Cons wv wvs)
  have "failed_upstream order (p\<lparr>pl_hash := h, pl_created_at := i\<rparr>) = failed_upstream order p"
    by (simp add: fun_eq_iff failed_upstream_def)
  then have "run_worker_node lib env order ext calls (p\<lparr>pl_hash := h, pl_created_at := i\<rparr>) prior =
      run_worker_node lib env order ext calls p prior" for prior
    by (simp add: fun_eq_iff run_worker_node_def dependency_blocked_result_def)
  then have "execute_agent_wave lib env order sched ext calls (p\<lparr>pl_hash := h, pl_created_at := i\<rparr>) prior wv =
      execute_agent_wave lib env order sched ext calls p prior wv" for prior
    by (simp add: execute_agent_wave_def wave_workers_def)
  then show ?case using Cons by simp
qed simp

lemma stamped_fields: "fp_external_llm (pl_policy (stamped_plan i)) = False" "fp_max_calls (pl_policy (stamped_plan i)) = 3"
  "pl_waves (stamped_plan i) = pl_waves draft_plan" "fanout_allocator (stamped_plan i) = fanout_allocator draft_plan"
  "plan_ids (stamped_plan i) = [''t1'', ''t2'']" "pl_workers (stamped_plan i) = [first_worker, second_worker]"
  by (simp_all add: stamped_plan_def draft_plan_def fanout_allocator_def plan_ids_def first_worker_def second_worker_def)
    (simp_all add: trial_tasks)

lemma trial_rev: "mset (rev ws) = mset ws" "set ((\<lambda>xs. xs) xs) = set xs"
  by simp_all

lemma fanout_answers_every_worker_witness:
  "\<exists>results t. run_waves trial_lib (trial_env True) (\<lambda>xs. xs) rev False 3 (stamped_plan 0) [] (pl_waves (stamped_plan 0)) trial_fan_state =
       (Inr results, t) \<and> map rs_status results = [Task_Success, Task_Failed] \<and>
     mset (map rs_task_id results) = mset [''t1'', ''t2'']"
proof -
  obtain r1 r2 t where run: "run_waves trial_lib (trial_env True) (\<lambda>xs. xs) rev False 3 draft_plan [] (pl_waves draft_plan) trial_fan_state =
     (Inr [r1, r2], t)" and st: "rs_status r1 = Task_Success" "rs_status r2 = Task_Failed"
    using trial_run_ends by blast
  have run': "run_waves trial_lib (trial_env True) (\<lambda>xs. xs) rev (fp_external_llm (pl_policy (stamped_plan 0)))
      (fp_max_calls (pl_policy (stamped_plan 0))) (stamped_plan 0) [] (pl_waves (stamped_plan 0)) trial_fan_state = (Inr [r1, r2], t)"
    using run unfolding stamped_fields unfolding stamped_plan_def run_ignores_hash .
  have start: "fs_allocator trial_fan_state = fanout_allocator (stamped_plan 0)"
    by (simp add: trial_fan_state_def stamped_fields)
  have "mset (map rs_task_id [r1, r2]) = mset (plan_ids (stamped_plan 0))"
    using fanout_answers_every_worker[OF stamped_plan_valid start trial_rev run'] by blast
  then show ?thesis
    using run' st unfolding stamped_fields by (intro exI[of _ "[r1, r2]"] exI[of _ t]) simp
qed

lemma validated_plan_is_affordable_witness:
  "fst (run_waves trial_lib (trial_env False) (\<lambda>xs. xs) rev False 3 (stamped_plan 0) [] (pl_waves (stamped_plan 0)) trial_fan_state)
     \<noteq> Inl (Budget_Error Tokens_Exceeded)"
proof -
  have start: "fs_allocator trial_fan_state = fanout_allocator (stamped_plan 0)"
    by (simp add: trial_fan_state_def stamped_fields)
  have within: "within_plan (stamped_plan 0) False 3" and zero: "lib_le trial_lib (lib_zero trial_lib) (lib_zero trial_lib)"
    by (simp_all add: within_plan_def trial_lib_def)
  show ?thesis
    using validated_plan_is_affordable[OF stamped_plan_valid within zero start trial_rev, of "trial_env False"] by blast
qed

lemma worker_failure_is_isolated_witness:
  "\<exists>r t. execute_planned_worker trial_lib (trial_env True) False 3 second_worker trial_fan_state = (Inr r, t) \<and> rs_task_id r = ''t2''"
proof -
  have valid: "validate_task trial_lib (wk_task second_worker) = Inr (wk_task second_worker)"
    using trial_task_valid(2) by (simp add: second_worker_def trial_worker_def)
  have zero: "zero_in_bounds trial_lib" and described: "class_name (fst (fe_describe (trial_env True) e))" for e
    by (simp_all add: zero_in_bounds_def trial_lib_def lib_zero_def class_name_def trial_env_def py_space_def)
  have "fe_client (trial_env True) x = (None, x)" and "fe_close (trial_env True) x = (None, x)"
    and "fe_audit (trial_env True) a x = (None, x)" for a x
    by (simp_all add: trial_env_def)
  then obtain r t where "execute_planned_worker trial_lib (trial_env True) False 3 second_worker trial_fan_state = (Inr r, t)"
    and "rs_task_id r = tk_task_id (wk_task second_worker)"
    using worker_failure_is_isolated[of trial_lib second_worker "trial_env True" False 3 trial_fan_state, OF valid zero described]
    by (auto split: prod.splits)
  then show ?thesis by (simp add: trial_tasks)
qed

lemma real_text_int: "real_text (int_str i @ ''.0'')"
proof -
  have "list_all number_char ''.0''" by code_simp
  then show ?thesis using int_str_number[of i] by (simp add: real_text_def)
qed

lemma draft_plain: "plain (JObj (plan_hash_payload trial_planner draft_plan))"
  by (simp add: plan_hash_payload_def draft_plan_def worker_json_def task_json_def policy_json_def dependency_json_def wave_json_def
      trial_planner_def real_text_int trial_tasks)

lemma plan_hash_commits_to_content_witness: "same_plan trial_planner (stamped_plan 0) (stamped_plan 1)"
proof -
  have payload: "plan_hash_payload trial_planner (stamped_plan i) = plan_hash_payload trial_planner draft_plan" for i
    by (simp add: plan_hash_payload_def stamped_plan_def)
  have "pl_hash (stamped_plan 0) = pl_hash (stamped_plan 1)" by (simp add: stamped_plan_def)
  then show ?thesis
    by (rule plan_hash_commits_to_content[OF stamped_plan_valid stamped_plan_valid]) (simp_all add: payload draft_plain del: plain.simps)
qed

text \<open>The aggregate of a run whose optional second worker returned nothing.\<close>

lemma trial_evidence: "terminal_result trial_lib (delivered_result lineage_task)"
  by (simp add: terminal_result_def terminal_status_def delivered_result_def trial_result_def nonzero_def trial_lib_def lib_zero_def)

lemma trial_aggregates:
  "\<exists>a. aggregate_agent_results trial_lib trial_planner (stamped_plan 0) [delivered_result lineage_task] 20 = Inr a \<and> ag_status a = Task_Partial"
  by (simp add: aggregate_agent_results_def stamped_plan_valid stamped_fields)
    (simp add: trial_tasks delivered_result_def trial_result_def tally_worker_def empty_tally_def setdefault_evidence_def tally_failure_def
      aggregation_of_def conclude_def validate_aggregation_def MAX_AGENT_WORKERS_def sized_def ranged_def within_def min_float_def
      trial_lib_def lib_zero_def float_sum_def PARTIAL_SUMMARY_def)

lemma aggregation_accounts_for_every_worker_witness:
  "\<exists>a. aggregate_agent_results trial_lib trial_planner (stamped_plan 0) [delivered_result lineage_task] 20 = Inr a \<and>
     ag_status a = Task_Partial \<and> mset (ag_completed a @ ag_optional_failed a @ ag_required_failed a) = mset [''t1'', ''t2'']"
proof -
  obtain a where a: "aggregate_agent_results trial_lib trial_planner (stamped_plan 0) [delivered_result lineage_task] 20 = Inr a"
    "ag_status a = Task_Partial"
    using trial_aggregates by blast
  have "\<forall>r \<in> set [delivered_result lineage_task]. terminal_result trial_lib r" by (simp add: trial_evidence)
  from aggregation_accounts_for_every_worker[OF a(1) this, THEN conjunct2, THEN conjunct1]
  have "mset (ag_completed a @ ag_optional_failed a @ ag_required_failed a) = mset [''t1'', ''t2'']" unfolding stamped_fields .
  with a show ?thesis by blast
qed

end
