(* ===== verification/Processes.thy ===== *)
theory Processes
  imports Prelude "HOL-Library.Multiset"
begin

text \<open>
  Programs that several workers of the platform run at the same time. A process either has its
  result or takes a step that no other process can interrupt (a database transaction under the
  platform's lock, or one call of an external service) and continues with the rest of the program.

  \<^item> \<open>then_do\<close>, \<open>seq\<close>, \<open>catch\<close> and \<open>atom\<close> build processes from the programs of \<open>Prelude\<close>;
    \<open>run_process\<close> runs one alone, \<open>moves\<close> lets any of several take the next step, and
    \<open>interleave\<close> is the executable form of \<open>moves\<close> for a given order.
  \<^item> \<open>guarded R p\<close>: every step of \<open>p\<close> relates the worlds before and after by \<open>R\<close>; the locale
    \<open>guarded_system\<close> lifts this to any interleaving of any operations.
  \<^item> \<open>affords\<close> and the locale \<open>tokens\<close>: an effect that a process may only cause with a token that
    it took out of the shared state is caused at most once per token, whatever the interleaving.
\<close>

datatype ('w, 'a) process = Finished 'a | Step "'w \<Rightarrow> ('w, 'a) process \<times> 'w"

primrec then_do :: "('w, 'a) process \<Rightarrow> ('a \<Rightarrow> ('w, 'b) process) \<Rightarrow> ('w, 'b) process" where
  "then_do (Finished x) k = k x"
| "then_do (Step f) k = Step (\<lambda>w. map_prod (\<lambda>p. p k) id (map_prod then_do id (f w)))"

definition atom :: "('w \<Rightarrow> 'a \<times> 'w) \<Rightarrow> ('w, 'a) process" where
  "atom m = Step (\<lambda>w. map_prod Finished id (m w))"

primrec run_process :: "('w, 'a) process \<Rightarrow> 'w \<Rightarrow> 'a \<times> 'w" where
  "run_process (Finished x) = (\<lambda>w. (x, w))"
| "run_process (Step f) = (\<lambda>w. (\<lambda>(r, w'). r w') (map_prod run_process id (f w)))"

text \<open>Sequencing and \<open>try .. except\<close> for processes whose result may be an exception.\<close>

definition seq :: "('w, 'e + 'a) process \<Rightarrow> ('a \<Rightarrow> ('w, 'e + 'b) process) \<Rightarrow> ('w, 'e + 'b) process" where
  "seq p k = then_do p (\<lambda>r. case r of Inl e \<Rightarrow> Finished (Inl e) | Inr x \<Rightarrow> k x)"

definition catch :: "('w, 'e + 'a) process \<Rightarrow> ('e \<Rightarrow> ('w, 'e + 'a) process) \<Rightarrow> ('w, 'e + 'a) process" where
  "catch p h = then_do p (\<lambda>r. case r of Inl e \<Rightarrow> h e | Inr x \<Rightarrow> Finished (Inr x))"

fun each :: "('x \<Rightarrow> ('w, 'e + 'a) process) \<Rightarrow> 'x list \<Rightarrow> ('w, 'e + 'a list) process" where
  "each f [] = Finished (Inr [])"
| "each f (x # xs) = seq (f x) (\<lambda>y. seq (each f xs) (\<lambda>ys. Finished (Inr (y # ys))))"

lemma process_induct [case_names Finished Step, induct type]:
  assumes "\<And>x. P (Finished x)" and "\<And>f. (\<And>w. P (fst (f w))) \<Longrightarrow> P (Step f)"
  shows "P p"
proof (induction p)
  case (Step f)
  show ?case by (rule assms(2), rule Step) (auto intro: fsts.intros)
qed (rule assms(1))

lemma then_do_Step [simp]: "then_do (Step f) k = Step (\<lambda>w. (then_do (fst (f w)) k, snd (f w)))"
  by (simp add: map_prod_def case_prod_beta)

lemma run_process_Step [simp]: "run_process (Step f) w = run_process (fst (f w)) (snd (f w))"
  by (simp add: map_prod_def case_prod_beta)

declare then_do.simps(2) [simp del] run_process.simps(2) [simp del]

lemma run_atom [simp]: "run_process (atom m) w = m w"
  by (simp add: atom_def)

lemma run_then_do [simp]: "run_process (then_do p k) w = (case run_process p w of (x, v) \<Rightarrow> run_process (k x) v)"
  by (induction p arbitrary: w) simp_all

section \<open>Interleavings\<close>

inductive moves :: "'w \<times> ('w, 'a) process list \<Rightarrow> 'w \<times> ('w, 'a) process list \<Rightarrow> bool" where
  move: "i < length ps \<Longrightarrow> ps ! i = Step f \<Longrightarrow> f w = (p, v) \<Longrightarrow> moves (w, ps) (v, ps[i := p])"

inductive_cases moves_cases: "moves (w, ps) (v, qs)"

fun interleave :: "nat list \<Rightarrow> 'w \<times> ('w, 'a) process list \<Rightarrow> 'w \<times> ('w, 'a) process list" where
  "interleave [] c = c"
| "interleave (i # is) (w, ps) =
     (if i < length ps
      then case ps ! i of Finished x \<Rightarrow> interleave is (w, ps)
                        | Step f \<Rightarrow> (case f w of (p, v) \<Rightarrow> interleave is (v, ps[i := p]))
      else interleave is (w, ps))"

lemma interleave_moves: "moves\<^sup>*\<^sup>* c (interleave is c)"
proof (induction "is" c rule: interleave.induct)
  case (2 i "is" w ps)
  show ?case
  proof (cases "i < length ps")
    case True
    show ?thesis
    proof (cases "ps ! i")
      case (Step f)
      obtain p v where f: "f w = (p, v)" by fastforce
      have "moves (w, ps) (v, ps[i := p])" using True Step f by (rule move)
      moreover have "moves\<^sup>*\<^sup>* (v, ps[i := p]) (interleave is (v, ps[i := p]))"
        using 2(2)[OF True Step] f by simp
      ultimately show ?thesis using True Step f by simp
    qed (use 2(1) True in simp)
  qed (use 2(3) in simp)
qed simp

text \<open>Running the processes one after the other is one of the interleavings.\<close>

lemma moves_run: "i < length ps \<Longrightarrow> ps ! i = p \<Longrightarrow>
    moves\<^sup>*\<^sup>* (w, ps) (snd (run_process p w), ps[i := Finished (fst (run_process p w))])"
proof (induction p arbitrary: w ps)
  case (Finished x)
  then have "ps[i := Finished x] = ps" by (metis list_update_id)
  then show ?case by simp
next
  case (Step f)
  have "moves (w, ps) (snd (f w), ps[i := fst (f w)])"
    using Step.prems by (intro move[of i ps f]) simp_all
  moreover have "moves\<^sup>*\<^sup>* (snd (f w), ps[i := fst (f w)]) (snd (run_process (Step f) w), ps[i := Finished (fst (run_process (Step f) w))])"
    using Step.IH[where ps = "ps[i := fst (f w)]"] Step.prems(1) by simp
  ultimately show ?case by simp
qed

section \<open>What every step keeps\<close>

context evolution begin

lemma case_sum: "(\<And>e. evolves R (f e)) \<Longrightarrow> (\<And>x. evolves R (g x)) \<Longrightarrow> evolves R (case z of Inl e \<Rightarrow> f e | Inr x \<Rightarrow> g x)"
  by (cases z) simp_all

lemma case_prod: "(\<And>x y. evolves R (f x y)) \<Longrightarrow> evolves R (case z of (x, y) \<Rightarrow> f x y)"
  by (cases z) simp

end

inductive guarded :: "('w \<Rightarrow> 'w \<Rightarrow> bool) \<Rightarrow> ('w, 'a) process \<Rightarrow> bool" for R where
  guarded_Finished: "guarded R (Finished x)"
| guarded_Step: "(\<And>w. R w (snd (f w))) \<Longrightarrow> (\<And>w. guarded R (fst (f w))) \<Longrightarrow> guarded R (Step f)"

inductive_simps guarded_simps [simp]: "guarded R (Finished x)" "guarded R (Step f)"

lemma guarded_then_do: "guarded R p \<Longrightarrow> (\<And>x. guarded R (k x)) \<Longrightarrow> guarded R (then_do p k)"
  by (induction rule: guarded.induct) simp_all

lemma guarded_atom: "evolves R m \<Longrightarrow> guarded R (atom m)"
  by (simp add: atom_def evolves_def map_prod_def case_prod_beta)

lemma guarded_seq: "guarded R p \<Longrightarrow> (\<And>x. guarded R (k x)) \<Longrightarrow> guarded R (seq p k)"
  unfolding seq_def by (rule guarded_then_do) (auto split: sum.split)

lemma guarded_catch: "guarded R p \<Longrightarrow> (\<And>e. guarded R (h e)) \<Longrightarrow> guarded R (catch p h)"
  unfolding catch_def by (rule guarded_then_do) (auto split: sum.split)

lemma guarded_each: "(\<And>x. x \<in> set xs \<Longrightarrow> guarded R (f x)) \<Longrightarrow> guarded R (each f xs)"
  by (induction xs) (auto intro!: guarded_seq)

lemmas guarded_rules = guarded_Finished guarded_seq guarded_catch guarded_each guarded_atom

locale guarded_system = evolution R for R :: "'w \<Rightarrow> 'w \<Rightarrow> bool" +
  fixes operation :: "'o \<Rightarrow> ('w, 'a) process" and allowed :: "'o \<Rightarrow> bool"
  assumes operation: "allowed c \<Longrightarrow> guarded R (operation c)"
begin

lemma moves_guarded:
  assumes "moves (w, ps) (v, qs)" and "\<forall>p \<in> set ps. guarded R p"
  shows "R w v \<and> (\<forall>p \<in> set qs. guarded R p)"
proof -
  from assms(1) obtain i f p where i: "i < length ps" "ps ! i = Step f" "f w = (p, v)" "qs = ps[i := p]"
    by (auto elim: moves_cases)
  have "guarded R (Step f)" using assms(2) i(1,2) by (metis nth_mem)
  then have "R w v" and "guarded R p" using i(3) by (auto dest!: spec[of _ w])
  then show ?thesis using assms(2) i(4) set_update_subset_insert[of ps i p] by auto
qed

lemma interleaved:
  assumes "moves\<^sup>*\<^sup>* (w, map operation cs) (v, qs)" and "\<And>c. c \<in> set cs \<Longrightarrow> allowed c"
  shows "R w v"
proof -
  have "R w (fst c) \<and> (\<forall>p \<in> set (snd c). guarded R p)" if "moves\<^sup>*\<^sup>* (w, map operation cs) c" for c
    using that
  proof (induction rule: rtranclp_induct)
    case (step c d)
    then show ?case using moves_guarded[of "fst c" "snd c" "fst d" "snd d"] trans by auto
  qed (auto simp: refl operation assms(2))
  from this[OF assms(1)] show ?thesis by simp
qed

end

section \<open>Effects paid with tokens\<close>

text \<open>
  \<open>free w\<close> are the tokens that the shared state of \<open>w\<close> still holds and \<open>spent w\<close> the effects caused
  so far. A process that holds the tokens \<open>S\<close> may take a step that moves tokens out of the shared
  state, into its own hands or into an effect; nobody ever puts a token back.
\<close>

definition settles ::
    "('w \<Rightarrow> bool) \<Rightarrow> ('w \<Rightarrow> 'k set) \<Rightarrow> ('w \<Rightarrow> 'k multiset) \<Rightarrow> 'k set \<Rightarrow> 'w \<Rightarrow> 'w \<Rightarrow> 'k set \<Rightarrow> bool" where
  "settles ok free spent S w v T \<longleftrightarrow> ok v \<and> free v \<subseteq> free w \<and>
     (\<exists>new. spent v = spent w + mset new \<and> distinct new \<and> set new \<subseteq> S \<union> (free w - free v) \<and>
        T \<subseteq> S \<union> (free w - free v) - set new)"

inductive affords ::
    "('w \<Rightarrow> bool) \<Rightarrow> ('w \<Rightarrow> 'k set) \<Rightarrow> ('w \<Rightarrow> 'k multiset) \<Rightarrow> 'k set \<Rightarrow> ('w, 'a) process \<Rightarrow> bool"
  for ok free spent where
  affords_Finished: "affords ok free spent S (Finished x)"
| affords_Step:
    "(\<And>w. ok w \<Longrightarrow> S \<inter> (free w \<union> set_mset (spent w)) = {} \<Longrightarrow>
        \<exists>T. settles ok free spent S w (snd (f w)) T \<and> affords ok free spent T (fst (f w))) \<Longrightarrow>
     affords ok free spent S (Step f)"

inductive_cases affords_StepE: "affords ok free spent S (Step f)"

definition paid ::
    "('w \<Rightarrow> bool) \<Rightarrow> ('w \<Rightarrow> 'k set) \<Rightarrow> ('w \<Rightarrow> 'k multiset) \<Rightarrow> 'w \<times> ('w, 'a) process list \<Rightarrow> bool" where
  "paid ok free spent c \<longleftrightarrow> ok (fst c) \<and> (\<forall>k. count (spent (fst c)) k \<le> 1) \<and>
     set_mset (spent (fst c)) \<inter> free (fst c) = {} \<and>
     (\<exists>Ss. length Ss = length (snd c) \<and>
        (\<forall>i < length Ss. affords ok free spent (Ss ! i) (snd c ! i) \<and>
           Ss ! i \<inter> (free (fst c) \<union> set_mset (spent (fst c))) = {}) \<and>
        (\<forall>i < length Ss. \<forall>j < length Ss. i \<noteq> j \<longrightarrow> Ss ! i \<inter> Ss ! j = {}))"

lemma spent_apart:
  assumes "\<forall>k. count M k \<le> 1" and "distinct new" and "set new \<inter> set_mset M = {}"
  shows "count (M + mset new) k \<le> 1"
proof (cases "k \<in> set new")
  case True
  then have "count M k = 0" using assms(3) by (auto simp: count_eq_zero_iff)
  then show ?thesis using assms(2) by (simp add: distinct_count_atmost_1)
next
  case False
  then have "count (mset new) k = 0" by (simp add: count_mset_0_iff)
  then show ?thesis using assms(1) by (metis add.right_neutral count_union)
qed

lemma paid_moves:
  assumes "moves c d" and "paid ok free spent c"
  shows "paid ok free spent d"
proof -
  from assms(1) obtain w ps i f p v where c: "c = (w, ps)" and i: "i < length ps" "ps ! i = Step f" "f w = (p, v)"
    and d: "d = (v, ps[i := p])"
    by (cases rule: moves.cases) blast
  from assms(2) obtain Ss where w: "ok w" "\<forall>k. count (spent w) k \<le> 1" "set_mset (spent w) \<inter> free w = {}"
    and len: "length Ss = length ps"
    and own: "\<And>j. j < length Ss \<Longrightarrow> affords ok free spent (Ss ! j) (ps ! j)"
      "\<And>j. j < length Ss \<Longrightarrow> Ss ! j \<inter> (free w \<union> set_mset (spent w)) = {}"
    and apart: "\<And>j k. j < length Ss \<Longrightarrow> k < length Ss \<Longrightarrow> j \<noteq> k \<Longrightarrow> Ss ! j \<inter> Ss ! k = {}"
    by (auto simp: paid_def c)
  have i': "i < length Ss" using i(1) len by simp
  have "affords ok free spent (Ss ! i) (Step f)" using own(1)[OF i'] i(2) by simp
  then obtain T where "settles ok free spent (Ss ! i) w v T" and p: "affords ok free spent T p"
    using w(1) own(2)[OF i'] i(3) by (auto elim!: affords_StepE dest!: meta_spec[of _ w])
  then obtain new where v: "ok v" "free v \<subseteq> free w" "spent v = spent w + mset new"
    and new: "distinct new" "set new \<subseteq> Ss ! i \<union> (free w - free v)"
    and T: "T \<subseteq> Ss ! i \<union> (free w - free v) - set new"
    by (auto simp: settles_def)
  have "set new \<inter> set_mset (spent w) = {}" using new(2) w(3) own(2)[OF i'] by blast
  then have "\<forall>k. count (spent v) k \<le> 1" using spent_apart[OF w(2) new(1)] v(3) by simp
  moreover have "set_mset (spent v) \<inter> free v = {}" using w(3) v new own(2)[OF i'] by auto
  moreover have "affords ok free spent (Ss[i := T] ! j) (ps[i := p] ! j) \<and>
      Ss[i := T] ! j \<inter> (free v \<union> set_mset (spent v)) = {}" if "j < length Ss" for j
  proof (cases "j = i")
    case True
    then show ?thesis using that len w v new(2) T p own(2)[OF i'] by auto
  next
    case False
    then show ?thesis using that v new(2) own[OF that] apart[OF that i' False] own(2)[OF i'] by auto
  qed
  moreover have "Ss[i := T] ! j \<inter> Ss[i := T] ! k = {}" if jk: "j < length Ss" "k < length Ss" "j \<noteq> k" for j k
  proof -
    have other: "T \<inter> Ss ! k = {}" if "k < length Ss" "k \<noteq> i" for k
      using T apart[OF i' that(1)] own(2)[OF that(1)] that(2) by blast
    have "j = i \<Longrightarrow> ?thesis" "k = i \<Longrightarrow> ?thesis"
      using jk other[of k] other[of j] by (simp_all add: Int_commute)
    then show ?thesis using apart[OF jk] by (cases "j = i"; cases "k = i") simp_all
  qed
  ultimately show ?thesis
    using v(1) len unfolding paid_def d by (intro conjI exI[of _ "Ss[i := T]"]) simp_all
qed

locale tokens =
  fixes ok :: "'w \<Rightarrow> bool" and free :: "'w \<Rightarrow> 'k set" and spent :: "'w \<Rightarrow> 'k multiset"
    and operation :: "'o \<Rightarrow> ('w, 'a) process"
  assumes affordable: "affords ok free spent {} (operation c)"
begin

text \<open>Whatever the interleaving, no token is spent twice, and none that is still free.\<close>

lemma spent_once:
  assumes "moves\<^sup>*\<^sup>* (w, map operation cs) (v, qs)"
    and "ok w" and "\<forall>k. count (spent w) k \<le> 1" and "set_mset (spent w) \<inter> free w = {}"
  shows "ok v \<and> (\<forall>k. count (spent v) k \<le> 1) \<and> set_mset (spent v) \<inter> free v = {}"
proof -
  have "paid ok free spent (w, map operation cs)"
    unfolding paid_def using assms(2-4) affordable by (auto intro!: exI[of _ "map (\<lambda>_. {}) cs"])
  with assms(1) have "paid ok free spent (v, qs)"
    by (induction rule: rtranclp_induct) (auto intro: paid_moves)
  then show ?thesis by (simp add: paid_def)
qed

end

lemma affords_then_do:
  "affords ok free spent S p \<Longrightarrow> (\<And>x T. affords ok free spent T (k x)) \<Longrightarrow> affords ok free spent S (then_do p k)"
proof (induction rule: affords.induct)
  case (affords_Step f S)
  show ?case
    unfolding then_do_Step
  proof (rule affords.affords_Step, goal_cases)
    case (1 w)
    from affords_Step(1)[OF this] affords_Step(2) show ?case unfolding fst_conv snd_conv by blast
  qed
qed simp

lemma affords_less:
  assumes "affords ok free spent S p" and "S \<subseteq> S'"
  shows "affords ok free spent S' p"
proof (cases p)
  case (Step f)
  show ?thesis
    unfolding Step
  proof (rule affords_Step, goal_cases)
    case (1 w)
    then have "S \<inter> (free w \<union> set_mset (spent w)) = {}" using assms(2) by blast
    with 1 assms(1) obtain T where T: "settles ok free spent S w (snd (f w)) T" "affords ok free spent T (fst (f w))"
      unfolding Step by (auto elim!: affords_StepE dest!: meta_spec[of _ w])
    have "settles ok free spent S' w (snd (f w)) T"
      using T(1) assms(2) unfolding settles_def by blast
    with T(2) show ?case by blast
  qed
qed (simp add: affords_Finished)

text \<open>One step whose result decides how the process goes on.\<close>

lemma affords_atom_then:
  assumes "\<And>w r v. ok w \<Longrightarrow> S \<inter> (free w \<union> set_mset (spent w)) = {} \<Longrightarrow> m w = (r, v) \<Longrightarrow>
      \<exists>T. settles ok free spent S w v T \<and> affords ok free spent T (k r)"
  shows "affords ok free spent S (then_do (atom m) k)"
  unfolding atom_def then_do_Step
proof (rule affords_Step, goal_cases)
  case (1 w)
  then show ?case using assms[of w "fst (m w)" "snd (m w)"] by simp
qed

lemma then_do_Finished: "then_do p Finished = p"
  by (induction p) simp_all

lemma affords_atom:
  assumes "\<And>w r v. ok w \<Longrightarrow> S \<inter> (free w \<union> set_mset (spent w)) = {} \<Longrightarrow> m w = (r, v) \<Longrightarrow>
      settles ok free spent S w v {}"
  shows "affords ok free spent S (atom m)"
proof -
  have "affords ok free spent S (then_do (atom m) Finished)"
    by (rule affords_atom_then) (use assms affords_Finished[of ok free spent "{}"] in fast)
  then show ?thesis by (simp only: then_do_Finished)
qed

lemma affords_seq:
  "affords ok free spent S p \<Longrightarrow> (\<And>x T. affords ok free spent T (k x)) \<Longrightarrow> affords ok free spent S (seq p k)"
  unfolding seq_def by (rule affords_then_do) (auto intro: affords_Finished split: sum.split)

lemma affords_each: "(\<And>x T. affords ok free spent T (f x)) \<Longrightarrow> affords ok free spent S (each f xs)"
  by (induction xs arbitrary: S) (auto intro!: affords_seq affords_Finished)

text \<open>A step that neither takes a token nor causes an effect is always affordable.\<close>

definition modest :: "('w \<Rightarrow> bool) \<Rightarrow> ('w \<Rightarrow> 'k set) \<Rightarrow> ('w \<Rightarrow> 'k multiset) \<Rightarrow> 'w \<Rightarrow> 'w \<Rightarrow> bool" where
  "modest ok free spent w v \<longleftrightarrow> (ok w \<longrightarrow> ok v \<and> free v \<subseteq> free w \<and> spent v = spent w)"

interpretation modesty: evolution "modest ok free spent" for ok free spent
  by unfold_locales (auto simp: modest_def)

lemma modest_settles: "modest ok free spent w v \<Longrightarrow> ok w \<Longrightarrow> settles ok free spent S w v S"
  unfolding modest_def settles_def by (intro conjI exI[of _ "[]"]) auto

lemma affords_guarded: "guarded (modest ok free spent) p \<Longrightarrow> affords ok free spent S p"
proof (induction arbitrary: S rule: guarded.induct)
  case (guarded_Step f)
  show ?case
  proof (rule affords_Step, rule exI, rule conjI)
    fix w assume "ok w"
    with guarded_Step(1) show "settles ok free spent S w (snd (f w)) S" by (rule modest_settles)
  qed (rule guarded_Step(3))
qed (rule affords_Finished)

end
