(* ===== verification/Resolution.thy ===== *)
theory Resolution
  imports Approval_Control Processes
begin

text \<open>
  Evidence-gated incident closure: \<open>agent/tools/incident_resolution.py\<close>,
  \<open>agent/tools/incident_resolution_store.py\<close>, the request bodies of \<open>agent/resolution_contracts.py\<close>,
  the Airflow client of \<open>apps/common/airflow_api.py\<close> and the tables of
  \<open>infra/init/postgres/03_incident_resolution.sql\<close>.

  \<^item> The state is the five tables and the approval requests (\<open>resolution_db\<close>), inside a world with
    the coming transactions (as in \<open>Approval_Control\<close>: start time and fate of the commit), the
    identifiers drawn so far, the logs of the calls that matter, and an arbitrary outside \<open>'w\<close>.
  \<^item> Every transaction holds the platform's advisory lock, so it is one step of a process; the code
    between two transactions, and every call outside of one, are steps of their own. An operation
    of the file is a process (\<open>Processes\<close>), and \<open>operation\<close> lists them.
  \<^item> Dictionaries with fixed keys are records, an ISO timestamp is its instant in microseconds, and
    \<open>details_json\<close> is kept decoded, with the two times of an alert producer's details that the code
    reads beside the rest. The warehouse, the clock, Airflow's HTTP answers, the audit log, Discord
    and the evidence capture of \<open>pipelines/dq/incident_revalidation.py\<close> are the record \<open>env\<close>.
\<close>

section \<open>Data\<close>

datatype closure_conflict =
    Already_Resolved | Incident_Changed | Foreign_Evidence | Not_Passed | Wrong_Date | Wrong_Rule
  | Evidence_Expired | Validity_Invalid | Times_Invalid | Capture_Window | Contract_Changed
  | Data_Changed | Blocked "string list" | Key_Of_Other_Operator | Key_Of_Other_Decision
  | Not_Latest | Queue_Deadline | Already_Started

datatype resolution_error =
    Lookup_Error | Resolution_Conflict closure_conflict | Resolution_Unavailable | Value_Error
  | Key_Error | Attribute_Error | Type_Error | Runtime_Error | Db_Failure | External string

text \<open>\<open>type(exc).__name__\<close>; the driver's and the services' own names come with the exception.\<close>

fun error_name :: "resolution_error \<Rightarrow> string" where
  "error_name Lookup_Error = ''LookupError''"
| "error_name (Resolution_Conflict _) = ''ResolutionConflict''"
| "error_name Resolution_Unavailable = ''ResolutionUnavailable''"
| "error_name Value_Error = ''ValueError''"
| "error_name Key_Error = ''KeyError''"
| "error_name Attribute_Error = ''AttributeError''"
| "error_name Type_Error = ''TypeError''"
| "error_name Runtime_Error = ''RuntimeError''"
| "error_name Db_Failure = ''DatabaseError''"
| "error_name (External name) = name"

datatype request_status = Queued | Running | Pass | Blocked_Result | Error | Expired

text \<open>\<open>RevalidationResult.status\<close>, which pydantic restricts to these two.\<close>

datatype verdict = Verdict_Pass | Verdict_Blocked

fun verdict_status :: "verdict \<Rightarrow> request_status" where
  "verdict_status Verdict_Pass = Pass"
| "verdict_status Verdict_Blocked = Blocked_Result"

datatype trigger_state = Trigger_Pending | Trigger_Claimed | Trigger_Unknown | Trigger_Confirmed | Trigger_Rejected | Trigger_Absent

record scope =
  sc_kind :: string
  sc_table_name :: string
  sc_dt :: string
  sc_metric :: string
  sc_dimension :: string

text \<open>One entry of \<open>checks\<close>; \<open>None\<close> is an absent key.\<close>

record check_entry =
  ck_status :: "string option"
  ck_table_name :: "string option"
  ck_dt :: "string option"
  ck_metric :: "string option"
  ck_dimension :: "string option"
  ck_run_at :: "int option"
  ck_observed_at :: "int option"

record check_result =
  re_status :: verdict
  re_expected :: json
  re_observed :: json
  re_summary :: string
  re_references :: "string list"
  re_contract_hash :: string
  re_data_watermark :: string
  re_schema_hash :: string
  re_observed_at :: "int option"
  re_checks :: "check_entry list"

record revalidation =
  rv_request_id :: string
  rv_alert_ref :: string
  rv_alert_key :: string
  rv_incident_revision :: int
  rv_status :: request_status
  rv_created_at :: int
  rv_deadline_at :: int
  rv_finished_at :: "int option"
  rv_expires_at :: "int option"
  rv_dag_run_id :: string
  rv_scope :: scope
  rv_contract_hash :: string
  rv_actor :: string
  rv_result :: "check_result option"
  rv_error_code :: string
  rv_check_claimed :: bool
  rv_trigger_state :: trigger_state
  rv_check_started_at :: "int option"

record decision =
  rd_alert_ref :: string
  rd_resolved_by :: string
  rd_resolved_at :: int
  rd_reason :: string
  rd_request_id :: string
  rd_dag_run_id :: string
  rd_references :: "string list"
  rd_contract_hash :: string
  rd_incident_revision :: int
  rd_expected :: json
  rd_observed :: json
  rd_summary :: string
  rd_synchronization_pending :: bool

record details =
  de_producer :: fields
  de_resolution :: "decision option"
  de_history :: "decision option list"

text \<open>One version of an alert: \<open>ALERT_VERSION_COLUMNS\<close>.\<close>

record snapshot =
  sn_alert_id :: string
  sn_alert_key :: string
  sn_display_id :: string
  sn_created_at :: int
  sn_updated_at :: int
  sn_status :: string
  sn_alert_type :: string
  sn_severity :: string
  sn_table_name :: string
  sn_metric :: string
  sn_dt :: "date option"
  sn_dimension :: string
  sn_observed_value :: json
  sn_expected_value :: json
  sn_threshold_value :: json
  sn_source_check_run_id :: "string option"
  sn_details :: details
  sn_report_s3_uri :: string
  sn_acknowledged_by :: string
  sn_resolved_at :: "int option"

record candidate =
  ca_alert_key :: string
  ca_display_id :: string
  ca_status :: string
  ca_alert_type :: string
  ca_severity :: string
  ca_table_name :: string
  ca_metric :: string
  ca_dt :: "date option"
  ca_dimension :: string
  ca_observed_value :: json
  ca_expected_value :: json
  ca_threshold_value :: json
  ca_source_check_run_id :: "string option"
  ca_details :: fields
  ca_source_run_at :: "int option"
  ca_detected_at :: "int option"

record incident =
  in_alert_key :: string
  in_alert_ref :: string
  in_revision :: int
  in_episode :: int
  in_status :: string
  in_snapshot :: snapshot

datatype event_payload =
    Actor_Payload string
  | Requested_Payload string string
  | Completed_Payload string string request_status "string list"
  | Resolved_Payload decision string

record event_row =
  ev_id :: string
  ev_alert_key :: string
  ev_revision :: int
  ev_kind :: string
  ev_payload :: event_payload
  ev_projected :: bool
  ev_audited :: bool
  ev_delivered :: bool
  ev_error :: string
  ev_created :: int

record request_row =
  qr_request :: revalidation
  qr_hash :: string
  qr_created :: int

record key_row =
  kr_hash :: string
  kr_request_id :: string
  kr_actor :: string

record decision_row =
  dr_hash :: string
  dr_alert_key :: string
  dr_request_id :: string
  dr_record :: decision

record resolution_db =
  db_incidents :: "incident list"
  db_requests :: "request_row list"
  db_keys :: "key_row list"
  db_decisions :: "decision_row list"
  db_events :: "event_row list"
  db_approvals :: "control_row list"

record 'w world =
  rw_db :: resolution_db
  rw_now :: int
  rw_schedule :: "(int \<times> commit) list"
  rw_drawn :: nat
  rw_posted :: "string list"
  rw_captured :: "string list"
  rw_ext :: 'w

type_synonym ('w, 'a) rprog = "('w world, resolution_error, 'a) prog"
type_synonym ('w, 'a) rprocess = "('w world, resolution_error + 'a) process"
type_synonym ('w, 'a) service = "'w \<Rightarrow> (resolution_error + 'a) \<times> 'w"

datatype http = Answer int "json option" | Timed_Out | Connection_Failed | Request_Failed

record 'w env =
  en_database_url :: string
  en_airflow :: "string \<Rightarrow> string"
  en_airflow_url_ok :: "string \<Rightarrow> bool"
  en_uuid :: "nat \<Rightarrow> string"
  en_parse_uuid :: "string \<Rightarrow> string option"
  en_str :: "json \<Rightarrow> string"
  en_sha :: "string \<Rightarrow> nat list"
  en_now :: "'w \<Rightarrow> int \<times> 'w"
  en_client :: "('w, unit) service"
  en_find_alert :: "string \<Rightarrow> ('w, string option) service"
  en_source_row :: "string \<Rightarrow> ('w, snapshot option) service"
  en_contract_hash :: "scope \<Rightarrow> ('w, string) service"
  en_schema_hash :: "scope \<Rightarrow> ('w, string) service"
  en_data_watermark :: "scope \<Rightarrow> ('w, string) service"
  en_newer_failures :: "scope \<Rightarrow> int \<Rightarrow> ('w, int) service"
  en_capture :: "scope \<Rightarrow> ('w, check_result) service"
  en_insert_alert :: "snapshot \<Rightarrow> ('w, unit) service"
  en_audit :: "event_row \<Rightarrow> string \<Rightarrow> ('w, unit) service"
  en_post_result :: "revalidation \<Rightarrow> ('w, unit) service"
  en_sync_message :: "string \<Rightarrow> ('w, json) service"
  en_auth :: "'w \<Rightarrow> http \<times> 'w"
  en_get_run :: "string \<Rightarrow> 'w \<Rightarrow> http \<times> 'w"
  en_post_run :: "string \<Rightarrow> 'w \<Rightarrow> http \<times> 'w"

type_synonym 'w before_delivery = "(incident \<Rightarrow> string \<Rightarrow> string \<Rightarrow> event_payload \<Rightarrow> ('w, unit) service) option"

definition minutes :: "int \<Rightarrow> int" where
  "minutes n = n * 60000000"

definition milliseconds :: "int \<Rightarrow> int" where
  "milliseconds n = n * 1000"

section \<open>Statements and transactions\<close>

definition db_gets :: "(resolution_db \<Rightarrow> 'a) \<Rightarrow> ('w, 'a) rprog" where
  "db_gets f = gets (\<lambda>w. f (rw_db w))"

definition db_modify :: "(resolution_db \<Rightarrow> resolution_db) \<Rightarrow> ('w, unit) rprog" where
  "db_modify f = modify (\<lambda>w. w\<lparr>rw_db := f (rw_db w)\<rparr>)"

definition service :: "('w, 'a) service \<Rightarrow> ('w, 'a) rprog" where
  "service c = (\<lambda>w. case c (rw_ext w) of (r, x) \<Rightarrow> (r, w\<lparr>rw_ext := x\<rparr>))"

definition outside :: "('w \<Rightarrow> 'a \<times> 'w) \<Rightarrow> ('w, 'a) rprog" where
  "outside c = (\<lambda>w. case c (rw_ext w) of (r, x) \<Rightarrow> (Inr r, w\<lparr>rw_ext := x\<rparr>))"

definition now :: "'w env \<Rightarrow> ('w, int) rprog" where
  "now env = outside (en_now env)"

text \<open>\<open>str(uuid4())\<close>: the n-th identifier ever drawn.\<close>

definition uuid4 :: "'w env \<Rightarrow> ('w, string) rprog" where
  "uuid4 env = (\<lambda>w. (Inr (en_uuid env (rw_drawn w)), w\<lparr>rw_drawn := Suc (rw_drawn w)\<rparr>))"

definition begin_transaction :: "'w world \<Rightarrow> 'w world \<times> commit" where
  "begin_transaction w = (case rw_schedule w of
      [] \<Rightarrow> (w, Commit_Ok)
    | (t, c) # rest \<Rightarrow> (w\<lparr>rw_now := t, rw_schedule := rest\<rparr>, c))"

definition control_transaction :: "'w env \<Rightarrow> ('w, 'a) rprog \<Rightarrow> ('w, 'a) rprog" where
  "control_transaction env body = (\<lambda>w.
     if strip (en_database_url env) = [] then (Inl Resolution_Unavailable, w)
     else case begin_transaction w of (w0, c) \<Rightarrow>
       (case body w0 of
          (Inl e, v) \<Rightarrow> (Inl e, v\<lparr>rw_db := rw_db w0\<rparr>)
        | (Inr x, v) \<Rightarrow> (case c of
              Commit_Ok \<Rightarrow> (Inr x, v)
            | Commit_Fails \<Rightarrow> (Inl Db_Failure, v\<lparr>rw_db := rw_db w0\<rparr>)
            | Commit_Ack_Lost \<Rightarrow> (Inl Db_Failure, v))))"

definition read_incident :: "string \<Rightarrow> ('w, incident option) rprog" where
  "read_incident alert_key = db_gets (\<lambda>d. find (\<lambda>i. in_alert_key i = alert_key) (db_incidents d))"

definition INCIDENT_STATUSES :: "string list" where
  "INCIDENT_STATUSES = [''open'', ''acknowledged'', ''triaged'', ''resolved'']"

definition incident_checks :: "incident \<Rightarrow> bool" where
  "incident_checks i \<longleftrightarrow> 0 < in_revision i \<and> 0 < in_episode i \<and> in_status i \<in> set INCIDENT_STATUSES"

definition save_incident :: "incident \<Rightarrow> ('w, unit) rprog" where
  "save_incident i =
     bnd (db_gets db_incidents) (\<lambda>rows.
     bnd (require (incident_checks i) Db_Failure) (\<lambda>_.
     if sql_any (\<lambda>r. in_alert_key r = in_alert_key i) rows
     then db_modify (\<lambda>d. d\<lparr>db_incidents := sql_update (\<lambda>r. in_alert_key r = in_alert_key i)
            (\<lambda>r. i\<lparr>in_alert_ref := in_alert_ref r\<rparr>) rows\<rparr>)
     else bnd (require (\<not> sql_any (\<lambda>r. in_alert_ref r = in_alert_ref i) rows) Db_Failure) (\<lambda>_.
          db_modify (\<lambda>d. d\<lparr>db_incidents := rows @ [i]\<rparr>))))"

definition request_by_id :: "string \<Rightarrow> request_row list \<Rightarrow> request_row option" where
  "request_by_id request_id rows = find (\<lambda>r. rv_request_id (qr_request r) = request_id) rows"

definition read_request :: "string \<Rightarrow> ('w, revalidation) rprog" where
  "read_request request_id =
     bnd (db_gets (\<lambda>d. request_by_id request_id (db_requests d))) (\<lambda>row.
     case row of None \<Rightarrow> throw Lookup_Error | Some r \<Rightarrow> ret (qr_request r))"

definition save_request :: "revalidation \<Rightarrow> string \<Rightarrow> ('w, unit) rprog" where
  "save_request r idempotency_hash =
     bnd (db_gets id) (\<lambda>d.
     if request_by_id (rv_request_id r) (db_requests d) \<noteq> None
     then db_modify (\<lambda>d. d\<lparr>db_requests := sql_update (\<lambda>q. rv_request_id (qr_request q) = rv_request_id r)
            (\<lambda>q. q\<lparr>qr_request := r\<rparr>) (db_requests d)\<rparr>)
     else bnd (require (\<not> sql_any (\<lambda>q. qr_hash q = idempotency_hash) (db_requests d) \<and>
                 sql_any (\<lambda>i. in_alert_key i = rv_alert_key r) (db_incidents d)) Db_Failure) (\<lambda>_.
          bnd (gets rw_now) (\<lambda>at.
          db_modify (\<lambda>d. d\<lparr>db_requests := db_requests d @
            [\<lparr>qr_request = r, qr_hash = idempotency_hash, qr_created = at\<rparr>]\<rparr>))))"

definition event :: "'w env \<Rightarrow> incident \<Rightarrow> string \<Rightarrow> event_payload \<Rightarrow> ('w, string) rprog" where
  "event env i kind payload =
     bnd (uuid4 env) (\<lambda>event_id.
     bnd (gets rw_now) (\<lambda>at.
     bnd (db_modify (\<lambda>d.
            if sql_any (\<lambda>e. ev_alert_key e = in_alert_key i \<and> ev_revision e = in_revision i \<and> ev_kind e = kind) (db_events d)
            then d
            else d\<lparr>db_events := db_events d @
              [\<lparr>ev_id = event_id, ev_alert_key = in_alert_key i, ev_revision = in_revision i, ev_kind = kind,
                ev_payload = payload, ev_projected = False, ev_audited = False, ev_delivered = False,
                ev_error = [], ev_created = at\<rparr>]\<rparr>)) (\<lambda>_.
     ret event_id)))"

section \<open>Incidents\<close>

definition dt_text :: "snapshot \<Rightarrow> string" where
  "dt_text s = (case sn_dt s of None \<Rightarrow> [] | Some d \<Rightarrow> isoformat d)"

definition scope_for :: "snapshot \<Rightarrow> scope" where
  "scope_for s = \<lparr>sc_kind = sn_alert_type s, sc_table_name = sn_table_name s, sc_dt = dt_text s,
     sc_metric = sn_metric s, sc_dimension = sn_dimension s\<rparr>"

text \<open>\<open>json.dumps([action, ref, key])\<close> under SHA-256.\<close>

definition operation_hash :: "'w env \<Rightarrow> string \<Rightarrow> string \<Rightarrow> string \<Rightarrow> string" where
  "operation_hash env action ref key =
     sha_hex (en_sha env) (''['' @ json_string action @ '', '' @ json_string ref @ '', '' @ json_string key @ '']'')"

text \<open>\<open>_source\<close>: \<open>None\<close> is the empty dictionary of a row that vanished between the two queries.\<close>

definition source :: "'w env \<Rightarrow> string \<Rightarrow> ('w, snapshot option) rprog" where
  "source env reference =
     bnd (service (en_find_alert env reference)) (\<lambda>found.
     case found of None \<Rightarrow> throw Lookup_Error | Some alert_key \<Rightarrow> service (en_source_row env alert_key))"

definition new_incident :: "snapshot \<Rightarrow> incident" where
  "new_incident s = \<lparr>in_alert_key = sn_alert_key s, in_alert_ref = sn_display_id s, in_revision = 1,
     in_episode = 1, in_status = sn_status s, in_snapshot = s\<rparr>"

definition initialize :: "snapshot option \<Rightarrow> ('w, incident) rprog" where
  "initialize source_row =
     (case source_row of
        None \<Rightarrow> throw Key_Error
      | Some s \<Rightarrow>
          bnd (read_incident (sn_alert_key s)) (\<lambda>found.
          case found of
            Some i \<Rightarrow> ret i
          | None \<Rightarrow> bnd (save_incident (new_incident s)) (\<lambda>_. ret (new_incident s))))"

definition next_version :: "'w env \<Rightarrow> incident \<Rightarrow> string \<Rightarrow> ('w, incident) rprog" where
  "next_version env i status =
     bnd (now env) (\<lambda>t.
     ret (i\<lparr>in_revision := in_revision i + 1, in_status := status,
       in_snapshot := (in_snapshot i)\<lparr>sn_status := status,
         sn_updated_at := max t (sn_updated_at (in_snapshot i) + milliseconds 1)\<rparr>\<rparr>))"

subsection \<open>New failures\<close>

text \<open>The columns of \<open>ALERT_COLUMNS\<close> but for the key and the reference.\<close>

definition apply_candidate :: "candidate \<Rightarrow> details \<Rightarrow> snapshot \<Rightarrow> snapshot" where
  "apply_candidate c detail s = s\<lparr>sn_status := ca_status c, sn_alert_type := ca_alert_type c,
     sn_severity := ca_severity c, sn_table_name := ca_table_name c, sn_metric := ca_metric c,
     sn_dt := ca_dt c, sn_dimension := ca_dimension c, sn_observed_value := ca_observed_value c,
     sn_expected_value := ca_expected_value c, sn_threshold_value := ca_threshold_value c,
     sn_source_check_run_id := ca_source_check_run_id c, sn_details := detail\<rparr>"

definition detected_at :: "candidate \<Rightarrow> int option" where
  "detected_at c = (case ca_source_run_at c of Some t \<Rightarrow> Some t | None \<Rightarrow> ca_detected_at c)"

definition resolved_time :: "incident \<Rightarrow> int" where
  "resolved_time i = (case de_resolution (sn_details (in_snapshot i)) of
      Some d \<Rightarrow> rd_resolved_at d | None \<Rightarrow> sn_updated_at (in_snapshot i))"

definition or_empty :: "string option \<Rightarrow> string" where
  "or_empty x = (case x of None \<Rightarrow> [] | Some s \<Rightarrow> s)"

text \<open>A failure that was detected after the closure and is not the run that is already recorded.\<close>

definition reopens :: "candidate \<Rightarrow> incident \<Rightarrow> bool" where
  "reopens c i \<longleftrightarrow> in_status i = ''resolved'' \<and>
     (case detected_at c of None \<Rightarrow> False | Some t \<Rightarrow> resolved_time i < t) \<and>
     \<not> (or_empty (ca_source_check_run_id c) = or_empty (sn_source_check_run_id (in_snapshot i)) \<and>
        ca_alert_type c \<noteq> ''schema_drift'')"

definition reopen :: "'w env \<Rightarrow> candidate \<Rightarrow> incident \<Rightarrow> ('w, incident option) rprog" where
  "reopen env c i =
     (if \<not> reopens c i then ret None
      else
        let prior = sn_details (in_snapshot i);
            detail = \<lparr>de_producer = ca_details c, de_resolution = None,
                      de_history = de_history prior @ [de_resolution prior]\<rparr>
        in bnd (next_version env (i\<lparr>in_episode := in_episode i + 1\<rparr>) ''open'') (\<lambda>j.
           ret (Some (j\<lparr>in_snapshot := (apply_candidate c detail (in_snapshot j))\<lparr>sn_resolved_at := None\<rparr>\<rparr>))))"

definition open_new :: "'w env \<Rightarrow> candidate \<Rightarrow> ('w, incident option) rprog" where
  "open_new env c =
     bnd (uuid4 env) (\<lambda>alert_id.
     bnd (now env) (\<lambda>created.
     bnd (now env) (\<lambda>updated.
     bnd (initialize (Some
       \<lparr>sn_alert_id = alert_id, sn_alert_key = ca_alert_key c, sn_display_id = ca_display_id c,
        sn_created_at = created, sn_updated_at = updated, sn_status = ca_status c,
        sn_alert_type = ca_alert_type c, sn_severity = ca_severity c, sn_table_name = ca_table_name c,
        sn_metric = ca_metric c, sn_dt = ca_dt c, sn_dimension = ca_dimension c,
        sn_observed_value = ca_observed_value c, sn_expected_value = ca_expected_value c,
        sn_threshold_value = ca_threshold_value c, sn_source_check_run_id = ca_source_check_run_id c,
        sn_details = \<lparr>de_producer = ca_details c, de_resolution = None, de_history = []\<rparr>,
        sn_report_s3_uri = [], sn_acknowledged_by = [], sn_resolved_at = None\<rparr>)) (\<lambda>i.
     ret (Some i)))))"

definition candidate_transaction :: "'w env \<Rightarrow> candidate \<Rightarrow> ('w, incident option) rprog" where
  "candidate_transaction env c = control_transaction env (
     bnd (read_incident (ca_alert_key c)) (\<lambda>known.
     bnd (case known of
            Some i \<Rightarrow> ret (Some i)
          | None \<Rightarrow>
              bnd (handle (source env (ca_alert_key c)) (\<lambda>e. if e = Lookup_Error then ret None else throw e)) (\<lambda>previous.
              case previous of
                None \<Rightarrow> ret None
              | Some s \<Rightarrow> bnd (initialize (Some s)) (\<lambda>i. ret (Some i)))) (\<lambda>found.
     bnd (case found of Some i \<Rightarrow> reopen env c i | None \<Rightarrow> open_new env c) (\<lambda>changed.
     case changed of
       None \<Rightarrow> ret None
     | Some i \<Rightarrow>
         bnd (save_incident i) (\<lambda>_.
         bnd (event env i ''incident_detected'' (Actor_Payload ''alert_producer'')) (\<lambda>_.
         ret (Some i)))))))"

definition triage_transaction :: "'w env \<Rightarrow> snapshot \<Rightarrow> string \<Rightarrow> ('w, incident \<times> string) rprog" where
  "triage_transaction env source_row report_uri = control_transaction env (
     bnd (initialize (Some source_row)) (\<lambda>i.
     let status = (if in_status i = ''resolved'' then ''resolved'' else ''triaged'')
     in if sn_report_s3_uri (in_snapshot i) \<noteq> report_uri \<or> in_status i \<noteq> status
        then bnd (next_version env i status) (\<lambda>j.
             let k = j\<lparr>in_snapshot := (in_snapshot j)\<lparr>sn_report_s3_uri := report_uri\<rparr>\<rparr>
             in bnd (save_incident k) (\<lambda>_.
                bnd (event env k ''incident_triaged'' (Actor_Payload ''triage_workflow'')) (\<lambda>_.
                ret (k, status))))
        else ret (i, status)))"

section \<open>Delivery of recorded events\<close>

fun payload_actor :: "event_payload \<Rightarrow> string" where
  "payload_actor (Actor_Payload a) = a"
| "payload_actor (Requested_Payload a _) = a"
| "payload_actor (Completed_Payload a _ _ _) = a"
| "payload_actor (Resolved_Payload _ a) = a"

fun payload_request :: "event_payload \<Rightarrow> string option" where
  "payload_request (Requested_Payload _ r) = Some r"
| "payload_request (Completed_Payload _ r _ _) = Some r"
| "payload_request _ = None"

definition COMPLETED :: string where
  "COMPLETED = ''incident_revalidation_completed_''"

definition REQUESTED :: string where
  "REQUESTED = ''incident_revalidation_requested_''"

definition event_done :: "event_row \<Rightarrow> bool" where
  "event_done e \<longleftrightarrow> ev_projected e \<and> ev_audited e \<and> ev_delivered e"

definition pending_events :: "string \<Rightarrow> resolution_db \<Rightarrow> event_row list" where
  "pending_events alert_key d =
     sort_key ev_created (filter (\<lambda>e. ev_alert_key e = alert_key \<and> \<not> event_done e) (db_events d))"

definition update_event :: "string \<Rightarrow> (event_row \<Rightarrow> event_row) \<Rightarrow> ('w, unit) rprog" where
  "update_event event_id f = db_modify (\<lambda>d. d\<lparr>db_events := sql_update (\<lambda>e. ev_id e = event_id) f (db_events d)\<rparr>)"

definition message_pending :: "json \<Rightarrow> bool" where
  "message_pending outcome = (case outcome of
      JObj kvs \<Rightarrow> \<not> (json_truthy (get_json kvs ''message_id'' JNull) \<and> get_json kvs ''status'' JNull \<noteq> JStr ''failed'')
    | _ \<Rightarrow> False)"

definition notify_event :: "'w env \<Rightarrow> event_row \<Rightarrow> ('w, unit) rprog" where
  "notify_event env e =
     (if has_prefix COMPLETED (ev_kind e)
      then case payload_request (ev_payload e) of
             None \<Rightarrow> throw Key_Error
           | Some request_id \<Rightarrow> bnd (read_request request_id) (\<lambda>r. service (en_post_result env r))
      else if has_prefix REQUESTED (ev_kind e) then ret ()
      else bnd (service (en_sync_message env (ev_alert_key e))) (\<lambda>outcome.
           require (\<not> message_pending outcome) Runtime_Error))"

definition deliver_event ::
    "'w env \<Rightarrow> bool \<Rightarrow> 'w before_delivery \<Rightarrow> incident \<Rightarrow> event_row \<Rightarrow> ('w, unit) rprog" where
  "deliver_event env deliver before_delivery i e =
     bnd (if ev_projected e then ret ()
          else bnd (service (en_insert_alert env (in_snapshot i))) (\<lambda>_.
               update_event (ev_id e) (\<lambda>q. q\<lparr>ev_projected := True\<rparr>))) (\<lambda>_.
     bnd (if ev_audited e then ret ()
          else bnd (service (en_audit env e (operation_hash env ''audit'' (ev_alert_key e) (ev_id e)))) (\<lambda>_.
               update_event (ev_id e) (\<lambda>q. q\<lparr>ev_audited := True\<rparr>))) (\<lambda>_.
     if \<not> deliver \<or> ev_delivered e then ret ()
     else bnd (case before_delivery of None \<Rightarrow> ret () | Some f \<Rightarrow> service (f i (ev_id e) (ev_kind e) (ev_payload e))) (\<lambda>_.
          bnd (notify_event env e) (\<lambda>_.
          update_event (ev_id e) (\<lambda>q. q\<lparr>ev_delivered := True, ev_error := []\<rparr>)))))"

text \<open>A failure is recorded with the event and ends the loop.\<close>

fun deliver_events ::
    "'w env \<Rightarrow> bool \<Rightarrow> 'w before_delivery \<Rightarrow> incident \<Rightarrow> event_row list \<Rightarrow> ('w, unit) rprog" where
  "deliver_events env deliver before_delivery i [] = ret ()"
| "deliver_events env deliver before_delivery i (e # es) =
     bnd (handle (bnd (deliver_event env deliver before_delivery i e) (\<lambda>_. ret True))
            (\<lambda>err. bnd (update_event (ev_id e) (\<lambda>q. q\<lparr>ev_error := error_name err\<rparr>)) (\<lambda>_. ret False))) (\<lambda>ok.
     if ok then deliver_events env deliver before_delivery i es else ret ())"

definition synchronize_transaction :: "'w env \<Rightarrow> string \<Rightarrow> bool \<Rightarrow> 'w before_delivery \<Rightarrow> ('w, bool) rprog" where
  "synchronize_transaction env alert_key deliver before_delivery = control_transaction env (
     bnd (read_incident alert_key) (\<lambda>found.
     case found of
       None \<Rightarrow> throw Lookup_Error
     | Some i \<Rightarrow>
         bnd (db_gets (pending_events alert_key)) (\<lambda>events.
         bnd (deliver_events env deliver before_delivery i events) (\<lambda>_.
         db_gets (\<lambda>d. pending_events alert_key d = [])))))"

definition synchronize_with :: "'w env \<Rightarrow> string \<Rightarrow> bool \<Rightarrow> 'w before_delivery \<Rightarrow> ('w, bool) rprocess" where
  "synchronize_with env alert_key deliver before_delivery = atom (synchronize_transaction env alert_key deliver before_delivery)"

definition synchronize_incident :: "'w env \<Rightarrow> string \<Rightarrow> bool \<Rightarrow> 'w before_delivery \<Rightarrow> ('w, bool) rprocess" where
  "synchronize_incident env alert_key deliver before_delivery =
     seq (atom (service (en_client env))) (\<lambda>_. synchronize_with env alert_key deliver before_delivery)"

definition publish_candidate :: "'w env \<Rightarrow> candidate \<Rightarrow> ('w, int) rprocess" where
  "publish_candidate env c =
     seq (atom (candidate_transaction env c)) (\<lambda>changed.
     case changed of
       None \<Rightarrow> Finished (Inr 0)
     | Some i \<Rightarrow> seq (synchronize_with env (in_alert_key i) False None) (\<lambda>_. Finished (Inr 1)))"

definition publish_candidates :: "'w env \<Rightarrow> candidate list \<Rightarrow> ('w, int) rprocess" where
  "publish_candidates env candidates =
     seq (each (publish_candidate env) candidates) (\<lambda>counts. Finished (Inr (sum_list counts)))"

definition transition_triaged :: "'w env \<Rightarrow> snapshot \<Rightarrow> string \<Rightarrow> ('w, string) rprocess" where
  "transition_triaged env source_row report_uri =
     seq (atom (triage_transaction env source_row report_uri)) (\<lambda>(i, status).
     seq (synchronize_with env (in_alert_key i) False None) (\<lambda>_. Finished (Inr status)))"

section \<open>Remediation that blocks a closure\<close>

text \<open>\<open>str(x)\<close> of a decoded JSON value; the text of a container is a parameter.\<close>

definition py_str :: "'w env \<Rightarrow> json \<Rightarrow> string" where
  "py_str env j = (case j of JNull \<Rightarrow> ''None'' | JBool b \<Rightarrow> (if b then ''True'' else ''False'')
     | JInt i \<Rightarrow> int_str i | JReal r \<Rightarrow> r | JStr s \<Rightarrow> s | _ \<Rightarrow> en_str env j)"

text \<open>\<open>{**payload.get("_approval_request", {}), **payload}\<close>, \<open>None\<close> where it raises TypeError.\<close>

definition remediation_scope :: "fields \<Rightarrow> (string \<Rightarrow> json) option" where
  "remediation_scope payload = (case get_json payload ''_approval_request'' (JObj []) of
      JObj inner \<Rightarrow> Some (\<lambda>k. get_json payload k (get_json inner k JNull))
    | _ \<Rightarrow> None)"

definition linked :: "'w env \<Rightarrow> incident \<Rightarrow> (string \<Rightarrow> json) \<Rightarrow> bool" where
  "linked env i get =
     (let dt = sc_dt (scope_for (in_snapshot i))
      in get ''alert_ref'' = JStr (in_alert_ref i) \<or> get ''alert_key'' = JStr (in_alert_key i) \<or>
         (json_truthy (get ''dt'') \<and> py_str env (get ''dt'') = dt) \<or>
         (json_truthy (get ''start_date'') \<and> json_truthy (get ''end_date'') \<and> dt \<noteq> [] \<and>
          py_str env (get ''start_date'') \<le> dt \<and> dt \<le> py_str env (get ''end_date'')))"

definition REMEDIATION_ACTIONS :: "string list" where
  "REMEDIATION_ACTIONS = [''backfill'', ''rerun_dbt'', ''recover_partition'']"

definition unfinished :: "control_row \<Rightarrow> bool" where
  "unfinished r \<longleftrightarrow> cr_execution r \<in> {Dispatching, Dispatched, Execution_Unknown} \<or>
     (cr_status r \<in> {Pending, Approved} \<and> cr_execution r = Not_Started)"

definition blocker_of :: "'w env \<Rightarrow> incident \<Rightarrow> int option \<Rightarrow> control_row \<Rightarrow> resolution_error + string list" where
  "blocker_of env i finished_at r =
     (case remediation_scope (cr_scope r) of
        None \<Rightarrow> Inl Type_Error
      | Some get \<Rightarrow> Inr
          (if \<not> linked env i get then []
           else if unfinished r
           then [''Remediation '' @ cr_request_id r @ '' belum selesai atau belum dibatalkan.'']
           else if (case finished_at of None \<Rightarrow> False | Some t \<Rightarrow> t < cr_updated_at r) \<and>
                   cr_execution r \<in> {Succeeded, Failed}
           then [''Periksa lagi setelah pekerjaan remediation selesai.'']
           else []))"

fun collect_blockers :: "'w env \<Rightarrow> incident \<Rightarrow> int option \<Rightarrow> control_row list \<Rightarrow> resolution_error + string list" where
  "collect_blockers env i finished_at [] = Inr []"
| "collect_blockers env i finished_at (r # rs) =
     (case blocker_of env i finished_at r of
        Inl e \<Rightarrow> Inl e
      | Inr bs \<Rightarrow> (case collect_blockers env i finished_at rs of Inl e \<Rightarrow> Inl e | Inr cs \<Rightarrow> Inr (bs @ cs)))"

definition remediation_blockers :: "'w env \<Rightarrow> incident \<Rightarrow> int option \<Rightarrow> ('w, string list) rprog" where
  "remediation_blockers env i finished_at =
     bnd (lift (\<lambda>w. collect_blockers env i finished_at
            (filter (\<lambda>r. cr_action_type r \<in> set REMEDIATION_ACTIONS) (db_approvals (rw_db w))))) (\<lambda>blockers.
     ret (sort (remdups blockers)))"

section \<open>Revalidation requests\<close>

definition awaits_deadline :: "revalidation \<Rightarrow> bool" where
  "awaits_deadline r \<longleftrightarrow> rv_status r = Running \<or>
     (rv_status r = Queued \<and> rv_trigger_state r \<notin> {Trigger_Claimed, Trigger_Unknown})"

definition expire_if_due :: "'w env \<Rightarrow> revalidation \<Rightarrow> ('w, revalidation) rprog" where
  "expire_if_due env r =
     (if \<not> awaits_deadline r then ret r
      else bnd (now env) (\<lambda>t.
           if t < rv_deadline_at r then ret r
           else let x = r\<lparr>rv_status := Expired, rv_error_code := ''RequestDeadlineExceeded''\<rparr>
                in bnd (save_request x []) (\<lambda>_. ret x)))"

definition latest_row :: "string \<Rightarrow> resolution_db \<Rightarrow> request_row option" where
  "latest_row alert_key d =
     (case filter (\<lambda>q. rv_alert_key (qr_request q) = alert_key) (db_requests d) of
        [] \<Rightarrow> None | q # qs \<Rightarrow> Some (last (sort_key qr_created (q # qs))))"

definition latest_request :: "'w env \<Rightarrow> incident \<Rightarrow> ('w, revalidation option) rprog" where
  "latest_request env i =
     bnd (db_gets (latest_row (in_alert_key i))) (\<lambda>row.
     case row of None \<Rightarrow> ret None | Some q \<Rightarrow> bnd (expire_if_due env (qr_request q)) (\<lambda>r. ret (Some r)))"

subsection \<open>Request bodies\<close>

record revalidation_create =
  rc_actor :: string
  rc_idempotency_key :: string

record incident_resolve = revalidation_create +
  ir_request_id :: string
  ir_expected_revision :: int
  ir_reason :: string

definition not_blank :: "nat \<Rightarrow> string \<Rightarrow> string option" where
  "not_blank max_length value =
     (if 1 \<le> length value \<and> length value \<le> max_length \<and> strip value \<noteq> [] then Some (strip value) else None)"

definition validate_create :: "string \<Rightarrow> string \<Rightarrow> revalidation_create option" where
  "validate_create actor key = (case (not_blank 200 actor, not_blank 100 key) of
      (Some a, Some k) \<Rightarrow> Some \<lparr>rc_actor = a, rc_idempotency_key = k\<rparr> | _ \<Rightarrow> None)"

definition validate_reason :: "string \<Rightarrow> string option" where
  "validate_reason value =
     (if 5 \<le> length value \<and> length value \<le> 1000 \<and> 5 \<le> length (strip value) \<and> length (strip value) \<le> 1000
      then Some (strip value) else None)"

definition validate_resolve ::
    "'w env \<Rightarrow> string \<Rightarrow> string \<Rightarrow> string \<Rightarrow> int \<Rightarrow> string \<Rightarrow> incident_resolve option" where
  "validate_resolve env actor key request_id expected_revision reason =
     (case (not_blank 200 actor, not_blank 100 key, en_parse_uuid env request_id, validate_reason reason) of
        (Some a, Some k, Some u, Some t) \<Rightarrow>
          if 1 \<le> expected_revision
          then Some \<lparr>rc_actor = a, rc_idempotency_key = k, ir_request_id = u,
                     ir_expected_revision = expected_revision, ir_reason = t\<rparr>
          else None
      | _ \<Rightarrow> None)"

subsection \<open>The Airflow client\<close>

definition configured :: "'w env \<Rightarrow> bool" where
  "configured env = list_all (\<lambda>k. strip (en_airflow env k) \<noteq> [])
     [''AIRFLOW_API_BASE_URL'', ''AIRFLOW_API_USERNAME'', ''AIRFLOW_API_PASSWORD'']"

definition airflow_client :: "'w env \<Rightarrow> ('w, unit) rprog" where
  "airflow_client env = require (configured env \<and>
     en_airflow_url_ok env (rev (dropWhile (\<lambda>c. c = CHR ''/'') (rev (en_airflow env ''AIRFLOW_API_BASE_URL'')))))
     Resolution_Unavailable"

text \<open>\<open>response.json().get(key, default)\<close>.\<close>

definition body_get :: "json option \<Rightarrow> string \<Rightarrow> json \<Rightarrow> resolution_error + json" where
  "body_get body k dflt = (case body of
      None \<Rightarrow> Inl Value_Error | Some (JObj kvs) \<Rightarrow> Inr (get_json kvs k dflt) | Some _ \<Rightarrow> Inl Attribute_Error)"

definition airflow_token :: "json option \<Rightarrow> resolution_error + unit" where
  "airflow_token body = (case body_get body ''access_token'' JNull of
      Inl e \<Rightarrow> Inl e
    | Inr (JStr (c # cs)) \<Rightarrow> Inr ()
    | Inr _ \<Rightarrow> Inl Resolution_Unavailable)"

text \<open>The POST that creates the Airflow run; \<open>rw_posted\<close> records that it was sent.\<close>

definition post_dag_run :: "'w env \<Rightarrow> string \<Rightarrow> ('w, http) rprog" where
  "post_dag_run env request_id =
     bnd (modify (\<lambda>w. w\<lparr>rw_posted := rw_posted w @ [request_id]\<rparr>)) (\<lambda>_. outside (en_post_run env request_id))"

definition uncertain :: json where
  "uncertain = JStr ''unknown''"

text \<open>The read that follows a POST whose fate is not known; \<open>None\<close> is an uncertain delivery.\<close>

definition look_again :: "'w env \<Rightarrow> string \<Rightarrow> ('w, (int \<times> json option) option) rprog" where
  "look_again env request_id =
     bnd (outside (en_get_run env request_id)) (\<lambda>answer.
     ret (case answer of Answer n body \<Rightarrow> (if n = 200 then Some (n, body) else None) | _ \<Rightarrow> None))"

definition after_post :: "'w env \<Rightarrow> string \<Rightarrow> (int \<times> json option) option \<Rightarrow> ('w, json) rprog" where
  "after_post env request_id found = (case found of
      None \<Rightarrow> ret uncertain
    | Some (n, body) \<Rightarrow>
        bnd (if n = 409 then look_again env request_id else ret (Some (n, body))) (\<lambda>again.
        case again of
          None \<Rightarrow> ret uncertain
        | Some (m, text_body) \<Rightarrow>
            if 500 \<le> m then ret uncertain
            else if m \<noteq> 200 \<and> m \<noteq> 201 then throw Resolution_Unavailable
            else (case body_get text_body ''state'' (JStr ''queued'') of
                    Inl e \<Rightarrow> if e = Value_Error then ret uncertain else throw e
                  | Inr state \<Rightarrow> ret state)))"

definition trigger_post :: "'w env \<Rightarrow> string \<Rightarrow> ('w, json) rprog" where
  "trigger_post env request_id =
     bnd (post_dag_run env request_id) (\<lambda>answer.
     case answer of
       Answer n body \<Rightarrow> after_post env request_id (Some (n, body))
     | Request_Failed \<Rightarrow> ret uncertain
     | _ \<Rightarrow> bnd (look_again env request_id) (after_post env request_id))"

text \<open>\<open>except (requests.RequestException, ValueError, KeyError)\<close> before a POST was attempted.\<close>

definition unavailable_value :: "resolution_error \<Rightarrow> resolution_error" where
  "unavailable_value e = (if e = Value_Error then Resolution_Unavailable else e)"

definition trigger :: "'w env \<Rightarrow> string \<Rightarrow> bool \<Rightarrow> ('w, json) rprog" where
  "trigger env request_id reconcile_only = (case en_parse_uuid env request_id of
      None \<Rightarrow> throw Value_Error
    | Some uid \<Rightarrow>
        bnd (outside (en_auth env)) (\<lambda>auth.
        bnd (case auth of
               Answer n body \<Rightarrow>
                 if n \<noteq> 201 \<and> n \<noteq> 200 then throw Resolution_Unavailable
                 else (case airflow_token body of Inl e \<Rightarrow> throw (unavailable_value e) | Inr u \<Rightarrow> ret u)
             | _ \<Rightarrow> throw Resolution_Unavailable) (\<lambda>_.
        bnd (outside (en_get_run env uid)) (\<lambda>existing.
        case existing of
          Answer n body \<Rightarrow>
            if n = 200
            then (case body_get body ''state'' (JStr ''queued'') of
                    Inl e \<Rightarrow> throw (unavailable_value e) | Inr state \<Rightarrow> ret state)
            else if n \<noteq> 404 then throw Resolution_Unavailable
            else if reconcile_only then ret (JStr ''not_found'')
            else trigger_post env uid
        | _ \<Rightarrow> throw Resolution_Unavailable))))"

subsection \<open>Creating, dispatching and reading a request\<close>

definition new_revalidation :: "string \<Rightarrow> incident \<Rightarrow> int \<Rightarrow> string \<Rightarrow> string \<Rightarrow> revalidation" where
  "new_revalidation request_id i created contract actor =
     \<lparr>rv_request_id = request_id, rv_alert_ref = in_alert_ref i, rv_alert_key = in_alert_key i,
      rv_incident_revision = in_revision i, rv_status = Queued, rv_created_at = created,
      rv_deadline_at = created + minutes 15, rv_finished_at = None, rv_expires_at = None,
      rv_dag_run_id = ''manual__incident_revalidation_'' @ request_id, rv_scope = scope_for (in_snapshot i),
      rv_contract_hash = contract, rv_actor = actor, rv_result = None, rv_error_code = [],
      rv_check_claimed = False, rv_trigger_state = Trigger_Pending, rv_check_started_at = None\<rparr>"

definition insert_key :: "key_row \<Rightarrow> ('w, unit) rprog" where
  "insert_key k = db_modify (\<lambda>d. if sql_any (\<lambda>r. kr_hash r = kr_hash k) (db_keys d) then d
     else d\<lparr>db_keys := db_keys d @ [k]\<rparr>)"

definition replayed :: "string \<Rightarrow> resolution_db \<Rightarrow> (revalidation \<times> string) option" where
  "replayed digest d = (case find (\<lambda>k. kr_hash k = digest) (db_keys d) of
      None \<Rightarrow> None
    | Some k \<Rightarrow> map_option (\<lambda>q. (qr_request q, kr_actor k)) (request_by_id (kr_request_id k) (db_requests d)))"

definition open_request :: "'w env \<Rightarrow> incident \<Rightarrow> string \<Rightarrow> string \<Rightarrow> ('w, revalidation) rprog" where
  "open_request env i digest actor =
     bnd (now env) (\<lambda>created.
     bnd (uuid4 env) (\<lambda>request_id.
     bnd (service (en_contract_hash env (scope_for (in_snapshot i)))) (\<lambda>contract.
     let r = new_revalidation request_id i created contract actor
     in bnd (save_request r digest) (\<lambda>_.
        bnd (event env i (REQUESTED @ request_id) (Requested_Payload actor request_id)) (\<lambda>_.
        ret r)))))"

definition create_transaction ::
    "'w env \<Rightarrow> string \<Rightarrow> revalidation_create \<Rightarrow> ('w, revalidation) rprog" where
  "create_transaction env reference body = control_transaction env (
     bnd (source env reference) (\<lambda>row.
     bnd (initialize row) (\<lambda>i.
     let digest = operation_hash env ''revalidate'' (in_alert_ref i) (rc_idempotency_key body)
     in bnd (db_gets (replayed digest)) (\<lambda>replay.
        bnd (case replay of
               Some (r, actor) \<Rightarrow>
                 bnd (require (actor = rc_actor body) (Resolution_Conflict Key_Of_Other_Operator)) (\<lambda>_. ret r)
             | None \<Rightarrow>
                 bnd (latest_request env i) (\<lambda>recent.
                 bnd (require (in_status i \<noteq> ''resolved'') (Resolution_Conflict Already_Resolved)) (\<lambda>_.
                 bnd (remediation_blockers env i None) (\<lambda>blockers.
                 bnd (require (blockers = []) (Resolution_Conflict (Blocked blockers))) (\<lambda>_.
                 case recent of
                   Some r \<Rightarrow> if rv_status r \<in> {Queued, Running} then ret r
                             else open_request env i digest (rc_actor body)
                 | None \<Rightarrow> open_request env i digest (rc_actor body)))))) (\<lambda>r.
        bnd (insert_key \<lparr>kr_hash = digest, kr_request_id = rv_request_id r, kr_actor = rc_actor body\<rparr>) (\<lambda>_.
        ret r))))))"

definition claim_trigger :: "'w env \<Rightarrow> string \<Rightarrow> ('w, revalidation \<times> trigger_state option) rprog" where
  "claim_trigger env request_id = control_transaction env (
     bnd (read_request request_id) (\<lambda>r.
     if rv_status r \<noteq> Queued \<or> rv_trigger_state r = Trigger_Confirmed then ret (r, None)
     else bnd (save_request (r\<lparr>rv_trigger_state := Trigger_Claimed\<rparr>) []) (\<lambda>_.
          ret (r\<lparr>rv_trigger_state := Trigger_Claimed\<rparr>, Some (rv_trigger_state r)))))"

definition was_claimed :: "trigger_state \<Rightarrow> bool" where
  "was_claimed previous \<longleftrightarrow> previous \<in> {Trigger_Claimed, Trigger_Unknown}"

definition trigger_failed :: "'w env \<Rightarrow> string \<Rightarrow> trigger_state \<Rightarrow> ('w, revalidation \<times> bool) rprog" where
  "trigger_failed env request_id previous = control_transaction env (
     bnd (read_request request_id) (\<lambda>r.
     if rv_trigger_state r = Trigger_Confirmed then ret (r, True)
     else
       let x = (if was_claimed previous
                then r\<lparr>rv_trigger_state := Trigger_Unknown, rv_error_code := ''TriggerDeliveryUnknown''\<rparr>
                else r\<lparr>rv_status := Error, rv_error_code := ''AirflowTriggerUnavailable'', rv_trigger_state := Trigger_Rejected\<rparr>)
       in bnd (save_request x []) (\<lambda>_. ret (x, was_claimed previous))))"

text \<open>\<open>state in {...}\<close>: a list or a dictionary cannot be looked up in a set.\<close>

definition hashable :: "json \<Rightarrow> bool" where
  "hashable j = (case j of JArr _ \<Rightarrow> False | JObj _ \<Rightarrow> False | _ \<Rightarrow> True)"

definition trigger_answered :: "'w env \<Rightarrow> string \<Rightarrow> json \<Rightarrow> ('w, revalidation) rprog" where
  "trigger_answered env request_id state = control_transaction env (
     bnd (read_request request_id) (\<lambda>r.
     bnd (require (hashable state) Type_Error) (\<lambda>_.
     let unsure = state \<in> {JStr ''unknown'', JStr ''not_found''}
     in if rv_trigger_state r = Trigger_Confirmed \<and> unsure then ret r
        else bnd (if \<not> unsure then ret (r\<lparr>rv_trigger_state := Trigger_Confirmed, rv_error_code := []\<rparr>)
                  else
                    let x = r\<lparr>rv_trigger_state := Trigger_Unknown, rv_error_code := ''TriggerDeliveryUnknown''\<rparr>
                    in if state \<noteq> JStr ''not_found'' then ret x
                       else bnd (now env) (\<lambda>t.
                            ret (if rv_deadline_at r < t
                                 then x\<lparr>rv_status := Expired, rv_trigger_state := Trigger_Absent,
                                        rv_error_code := ''RequestDeadlineExceeded''\<rparr>
                                 else x))) (\<lambda>x.
             bnd (save_request x []) (\<lambda>_. ret x)))))"

definition dispatch_revalidation :: "'w env \<Rightarrow> string \<Rightarrow> ('w, revalidation) rprocess" where
  "dispatch_revalidation env request_id =
     seq (atom (airflow_client env)) (\<lambda>_.
     seq (atom (claim_trigger env request_id)) (\<lambda>(r, claimed).
     case claimed of
       None \<Rightarrow> Finished (Inr r)
     | Some previous \<Rightarrow>
         then_do (atom (trigger env request_id (was_claimed previous))) (\<lambda>answer.
         case answer of
           Inr state \<Rightarrow> atom (trigger_answered env request_id state)
         | Inl e \<Rightarrow>
             if e \<noteq> Resolution_Unavailable then Finished (Inl e)
             else seq (atom (trigger_failed env request_id previous)) (\<lambda>(x, quiet).
                  Finished (if quiet then Inr x else Inl Resolution_Unavailable)))))"

definition create_revalidation :: "'w env \<Rightarrow> string \<Rightarrow> revalidation_create \<Rightarrow> ('w, revalidation) rprocess" where
  "create_revalidation env reference body =
     seq (atom (airflow_client env)) (\<lambda>_.
     seq (atom (service (en_client env))) (\<lambda>_.
     seq (atom (create_transaction env reference body)) (\<lambda>r.
     dispatch_revalidation env (rv_request_id r))))"

definition read_transaction :: "'w env \<Rightarrow> string \<Rightarrow> ('w, revalidation) rprog" where
  "read_transaction env request_id = control_transaction env (bnd (read_request request_id) (expire_if_due env))"

definition get_revalidation :: "'w env \<Rightarrow> string \<Rightarrow> ('w, revalidation) rprocess" where
  "get_revalidation env request_id = (case en_parse_uuid env request_id of
      None \<Rightarrow> Finished (Inl Value_Error)
    | Some uid \<Rightarrow>
        seq (atom (read_transaction env uid)) (\<lambda>r.
        if rv_status r = Queued \<and> was_claimed (rv_trigger_state r) then dispatch_revalidation env uid
        else Finished (Inr r)))"

record preview =
  pv_incident :: incident
  pv_scope :: scope
  pv_blockers :: "string list"
  pv_available :: bool
  pv_request :: "revalidation option"
  pv_resolution :: "decision option"
  pv_synchronization_pending :: bool

definition preview_transaction :: "'w env \<Rightarrow> string \<Rightarrow> ('w, preview) rprog" where
  "preview_transaction env reference = control_transaction env (
     bnd (source env reference) (\<lambda>row.
     bnd (initialize row) (\<lambda>i.
     bnd (remediation_blockers env i None) (\<lambda>blockers.
     bnd (latest_request env i) (\<lambda>r.
     bnd (db_gets (\<lambda>d. pending_events (in_alert_key i) d \<noteq> [])) (\<lambda>pending.
     ret \<lparr>pv_incident = i, pv_scope = scope_for (in_snapshot i),
          pv_blockers = blockers @ (if configured env then []
             else [''Pemeriksaan belum tersedia: koneksi Airflow belum diatur.'']),
          pv_available = configured env, pv_request = r,
          pv_resolution = de_resolution (sn_details (in_snapshot i)), pv_synchronization_pending = pending\<rparr>))))))"

definition resolution_preview :: "'w env \<Rightarrow> string \<Rightarrow> ('w, preview) rprocess" where
  "resolution_preview env reference =
     seq (atom (service (en_client env))) (\<lambda>_. atom (preview_transaction env reference))"

section \<open>Closing an incident\<close>

definition known_check :: "scope \<Rightarrow> check_entry \<Rightarrow> bool" where
  "known_check sc x \<longleftrightarrow> ck_status x = Some ''pass'' \<and> ck_table_name x = Some (sc_table_name sc)"

definition targets_rule :: "scope \<Rightarrow> check_entry \<Rightarrow> bool" where
  "targets_rule sc x \<longleftrightarrow> ck_metric x = Some (sc_metric sc) \<and> or_empty (ck_dimension x) = sc_dimension sc \<and>
     ck_dt x = Some (sc_dt sc)"

definition evidence_time :: "check_entry \<Rightarrow> int option" where
  "evidence_time x = (case ck_run_at x of Some t \<Rightarrow> Some t | None \<Rightarrow> ck_observed_at x)"

definition within :: "int \<Rightarrow> int option \<Rightarrow> int \<Rightarrow> bool" where
  "within a x b \<longleftrightarrow> (case x of None \<Rightarrow> False | Some t \<Rightarrow> a \<le> t \<and> t \<le> b)"

definition capture_start :: "revalidation \<Rightarrow> int" where
  "capture_start r = max (rv_created_at r) (case rv_check_started_at r of None \<Rightarrow> rv_created_at r | Some t \<Rightarrow> t)"

fun first_failure :: "(bool \<times> closure_conflict) list \<Rightarrow> resolution_error + unit" where
  "first_failure [] = Inr ()"
| "first_failure ((b, c) # rest) = (if b then first_failure rest else Inl (Resolution_Conflict c))"

text \<open>
  The gate, in the order of the code. Without a result the references are no list; without the
  times of the evidence or of the observation the capture window is not checked but refused.
\<close>

definition validate_closure ::
    "incident \<Rightarrow> revalidation \<Rightarrow> int \<Rightarrow> int \<Rightarrow> string \<Rightarrow> string \<Rightarrow> string \<Rightarrow> string list \<Rightarrow> resolution_error + unit" where
  "validate_closure i r expected_revision current contract_hash schema_hash watermark blockers =
     (let sc = rv_scope r; dq = (sc_kind sc = ''dq_failure'')
      in first_failure
       ([(in_status i \<noteq> ''resolved'', Already_Resolved),
         (in_revision i = expected_revision \<and> rv_incident_revision r = in_revision i, Incident_Changed),
         (rv_alert_key r = in_alert_key i \<and> sc = scope_for (in_snapshot i), Foreign_Evidence)] @
        (case rv_result r of
           None \<Rightarrow> [(False, Not_Passed)]
         | Some res \<Rightarrow>
             [(rv_status r = Pass \<and> re_status res = Verdict_Pass \<and> re_references res \<noteq> [] \<and>
               list_all (\<lambda>x. strip x \<noteq> []) (re_references res) \<and> re_checks res \<noteq> [] \<and>
               list_all (known_check sc) (re_checks res), Not_Passed),
              (dq \<longrightarrow> list_all (\<lambda>x. ck_dt x = Some (sc_dt sc)) (re_checks res), Wrong_Date),
              (dq \<longrightarrow> list_ex (targets_rule sc) (re_checks res), Wrong_Rule)] @
             (case (rv_finished_at r, rv_expires_at r) of
                (Some finished, Some expires) \<Rightarrow>
                  [(current < expires, Evidence_Expired),
                   (expires \<le> finished + minutes 10, Validity_Invalid),
                   (rv_created_at r \<le> finished \<and> finished \<le> current, Times_Invalid),
                   (finished \<le> rv_deadline_at r \<and> within (capture_start r) (re_observed_at res) finished \<and>
                    list_all (\<lambda>x. within (capture_start r) (evidence_time x) finished) (re_checks res), Capture_Window),
                   (contract_hash = rv_contract_hash r \<and> contract_hash = re_contract_hash res, Contract_Changed),
                   (schema_hash = re_schema_hash res \<and> watermark = re_data_watermark res, Data_Changed),
                   (blockers = [], Blocked blockers)]
              | _ \<Rightarrow> [(False, Evidence_Expired)]))))"

text \<open>The time from which newer results count: of the observation, else of the oldest evidence.\<close>

definition observation_time :: "revalidation \<Rightarrow> int option" where
  "observation_time r = (case rv_result r of
      None \<Rightarrow> rv_finished_at r
    | Some res \<Rightarrow> (case re_observed_at res of
        Some t \<Rightarrow> Some t
      | None \<Rightarrow> (case List.map_filter evidence_time (re_checks res) of
          [] \<Rightarrow> rv_finished_at r | t # ts \<Rightarrow> Some (fold min ts t))))"

definition NEWER_RESULT :: string where
  "NEWER_RESULT = ''Ada hasil pemeriksaan baru yang belum lolos. Periksa lagi.''"

definition NEWER_SCHEMA :: string where
  "NEWER_SCHEMA = ''Ada pemeriksaan schema baru yang belum lolos. Periksa lagi.''"

definition newer_blockers :: "'w env \<Rightarrow> revalidation \<Rightarrow> ('w, string list) rprog" where
  "newer_blockers env r =
     (let kind = sc_kind (rv_scope r)
      in case (rv_finished_at r, observation_time r) of
           (Some _, Some t) \<Rightarrow>
             if kind = ''dq_failure''
             then bnd (service (en_newer_failures env (rv_scope r) t)) (\<lambda>n. ret (if n \<noteq> 0 then [NEWER_RESULT] else []))
             else if kind = ''schema_drift''
             then bnd (service (en_newer_failures env (rv_scope r) t)) (\<lambda>n. ret (if n \<noteq> 0 then [NEWER_SCHEMA] else []))
             else ret []
         | _ \<Rightarrow> ret [])"

definition decision_of :: "incident \<Rightarrow> revalidation \<Rightarrow> check_result \<Rightarrow> incident_resolve \<Rightarrow> int \<Rightarrow> decision" where
  "decision_of i r res body resolved_at =
     \<lparr>rd_alert_ref = in_alert_ref i, rd_resolved_by = rc_actor body, rd_resolved_at = resolved_at,
      rd_reason = ir_reason body, rd_request_id = rv_request_id r, rd_dag_run_id = rv_dag_run_id r,
      rd_references = re_references res, rd_contract_hash = rv_contract_hash r,
      rd_incident_revision = in_revision i, rd_expected = re_expected res, rd_observed = re_observed res,
      rd_summary = re_summary res, rd_synchronization_pending = True\<rparr>"

definition insert_decision :: "decision_row \<Rightarrow> ('w, unit) rprog" where
  "insert_decision row =
     bnd (db_gets db_decisions) (\<lambda>rows.
     bnd (require (\<not> sql_any (\<lambda>q. dr_hash q = dr_hash row) rows) Db_Failure) (\<lambda>_.
     db_modify (\<lambda>d. d\<lparr>db_decisions := rows @ [row]\<rparr>)))"

text \<open>The gate with the facts it reads, and the decision it admits.\<close>

definition close_incident ::
    "'w env \<Rightarrow> incident \<Rightarrow> revalidation \<Rightarrow> incident_resolve \<Rightarrow> string \<Rightarrow> ('w, decision) rprog" where
  "close_incident env i r body digest =
     bnd (remediation_blockers env i (observation_time r)) (\<lambda>remediation.
     bnd (newer_blockers env r) (\<lambda>newer.
     bnd (now env) (\<lambda>current.
     bnd (service (en_contract_hash env (rv_scope r))) (\<lambda>contract.
     bnd (service (en_schema_hash env (rv_scope r))) (\<lambda>schema.
     bnd (service (en_data_watermark env (rv_scope r))) (\<lambda>watermark.
     bnd (lift (\<lambda>_. validate_closure i r (ir_expected_revision body) current contract schema watermark
            (remediation @ newer))) (\<lambda>_.
     bnd (next_version env i ''resolved'') (\<lambda>j.
     bnd (now env) (\<lambda>resolved_at.
     case rv_result r of
       None \<Rightarrow> throw Type_Error
     | Some res \<Rightarrow>
         let d = decision_of j r res body resolved_at;
             k = j\<lparr>in_snapshot := (in_snapshot j)\<lparr>
                   sn_details := (sn_details (in_snapshot j))\<lparr>de_resolution := Some d\<rparr>,
                   sn_resolved_at := Some resolved_at\<rparr>\<rparr>
         in bnd (save_incident k) (\<lambda>_.
            bnd (insert_decision \<lparr>dr_hash = digest, dr_alert_key = in_alert_key i,
                   dr_request_id = rv_request_id r, dr_record = d\<rparr>) (\<lambda>_.
            bnd (event env k ''incident_resolved'' (Resolved_Payload d (rc_actor body))) (\<lambda>_.
            ret d))))))))))))"

text \<open>The transaction of \<open>confirm_resolution\<close>; \<open>None\<close> beside a replayed decision.\<close>

definition confirm_transaction ::
    "'w env \<Rightarrow> string \<Rightarrow> incident_resolve \<Rightarrow> ('w, decision \<times> string option) rprog" where
  "confirm_transaction env reference body = control_transaction env (
     bnd (source env reference) (\<lambda>row.
     bnd (initialize row) (\<lambda>i.
     let digest = operation_hash env ''resolve'' (in_alert_ref i) (rc_idempotency_key body)
     in bnd (db_gets (\<lambda>d. find (\<lambda>q. dr_hash q = digest) (db_decisions d))) (\<lambda>replay.
        case replay of
          Some q \<Rightarrow>
            let d = dr_record q
            in bnd (require (rd_request_id d = ir_request_id body \<and> rd_resolved_by d = rc_actor body \<and>
                      rd_reason d = ir_reason body) (Resolution_Conflict Key_Of_Other_Decision)) (\<lambda>_.
               bnd (db_gets (\<lambda>db. pending_events (in_alert_key i) db \<noteq> [])) (\<lambda>pending.
               ret (d\<lparr>rd_synchronization_pending := pending\<rparr>, None)))
        | None \<Rightarrow>
            bnd (read_request (ir_request_id body)) (\<lambda>r.
            bnd (latest_request env i) (\<lambda>recent.
            bnd (require (case recent of None \<Rightarrow> True | Some l \<Rightarrow> rv_request_id l = rv_request_id r)
                   (Resolution_Conflict Not_Latest)) (\<lambda>_.
            bnd (close_incident env i r body digest) (\<lambda>d.
            ret (d, Some (in_alert_key i))))))))))"

definition confirm_resolution ::
    "'w env \<Rightarrow> string \<Rightarrow> incident_resolve \<Rightarrow> 'w before_delivery \<Rightarrow> ('w, decision) rprocess" where
  "confirm_resolution env reference body before_delivery =
     seq (atom (service (en_client env))) (\<lambda>_.
     seq (atom (confirm_transaction env reference body)) (\<lambda>(d, fresh).
     case fresh of
       None \<Rightarrow> Finished (Inr d)
     | Some alert_key \<Rightarrow>
         seq (synchronize_with env alert_key True before_delivery) (\<lambda>synchronized.
         Finished (Inr (d\<lparr>rd_synchronization_pending := \<not> synchronized\<rparr>)))))"

section \<open>Stages of the revalidation workflow\<close>

definition read_incident_row :: "string \<Rightarrow> ('w, incident) rprog" where
  "read_incident_row alert_key =
     bnd (read_incident alert_key) (\<lambda>found. case found of None \<Rightarrow> throw Type_Error | Some i \<Rightarrow> ret i)"

datatype claim = Nothing_To_Do request_status | Claim_Expired | Claimed revalidation

definition claim_check :: "'w env \<Rightarrow> string \<Rightarrow> ('w, claim) rprog" where
  "claim_check env request_id = control_transaction env (
     bnd (read_request request_id) (\<lambda>r.
     if rv_status r \<in> {Pass, Blocked_Result} \<or> rv_result r \<noteq> None then ret (Nothing_To_Do (rv_status r))
     else
       bnd (require (\<not> rv_check_claimed r \<and> rv_status r = Queued) (Resolution_Conflict Already_Started)) (\<lambda>_.
       bnd (read_incident_row (rv_alert_key r)) (\<lambda>i.
       bnd (if in_revision i \<noteq> rv_incident_revision r then ret True
            else bnd (now env) (\<lambda>t. ret (rv_deadline_at r < t))) (\<lambda>stale.
       if stale
       then bnd (save_request (r\<lparr>rv_status := Expired, rv_error_code := ''IncidentChangedOrExpired''\<rparr>) []) (\<lambda>_.
            ret Claim_Expired)
       else bnd (now env) (\<lambda>t.
            let x = r\<lparr>rv_status := Running, rv_check_claimed := True, rv_check_started_at := Some t\<rparr>
            in bnd (save_request x []) (\<lambda>_. ret (Claimed x))))))))"

definition capture :: "'w env \<Rightarrow> string \<Rightarrow> scope \<Rightarrow> ('w, check_result) rprog" where
  "capture env request_id sc =
     bnd (service (en_client env)) (\<lambda>_.
     bnd (modify (\<lambda>w. w\<lparr>rw_captured := rw_captured w @ [request_id]\<rparr>)) (\<lambda>_.
     service (en_capture env sc)))"

definition record_capture :: "'w env \<Rightarrow> string \<Rightarrow> check_result \<Rightarrow> int \<Rightarrow> ('w, unit) rprog" where
  "record_capture env request_id res finished = control_transaction env (
     bnd (read_request request_id) (\<lambda>r.
     let x = r\<lparr>rv_result := Some res, rv_finished_at := Some finished, rv_expires_at := Some (finished + minutes 10)\<rparr>
     in save_request
          (if rv_deadline_at r < finished
           then x\<lparr>rv_status := Expired, rv_error_code := ''RequestDeadlineExceeded''\<rparr> else x) []))"

definition completed_event :: "'w env \<Rightarrow> revalidation \<Rightarrow> string list \<Rightarrow> ('w, unit) rprog" where
  "completed_event env r references =
     bnd (read_incident_row (rv_alert_key r)) (\<lambda>i.
     bnd (event env i (COMPLETED @ rv_request_id r)
            (Completed_Payload (rv_actor r) (rv_request_id r) (rv_status r) references)) (\<lambda>_. ret ()))"

definition record_failure :: "'w env \<Rightarrow> string \<Rightarrow> resolution_error \<Rightarrow> ('w, unit) rprog" where
  "record_failure env request_id e = control_transaction env (
     bnd (read_request request_id) (\<lambda>r.
     bnd (now env) (\<lambda>t.
     let x = r\<lparr>rv_status := Error, rv_error_code := error_name e, rv_finished_at := Some t\<rparr>
     in bnd (save_request x []) (\<lambda>_. completed_event env x []))))"

definition result_references :: "revalidation \<Rightarrow> string list" where
  "result_references r = (case rv_result r of None \<Rightarrow> [] | Some res \<Rightarrow> re_references res)"

definition persist_transaction :: "'w env \<Rightarrow> string \<Rightarrow> ('w, revalidation) rprog" where
  "persist_transaction env request_id = control_transaction env (
     bnd (read_request request_id) (\<lambda>r.
     bnd (case (rv_status r, rv_result r) of
            (Running, Some res) \<Rightarrow>
              let x = r\<lparr>rv_status := verdict_status (re_status res)\<rparr> in bnd (save_request x []) (\<lambda>_. ret x)
          | _ \<Rightarrow> ret r) (\<lambda>x.
     bnd (completed_event env x (result_references x)) (\<lambda>_. ret x))))"

definition notify_transaction :: "'w env \<Rightarrow> string \<Rightarrow> ('w, revalidation) rprog" where
  "notify_transaction env request_id = control_transaction env (
     bnd (read_request request_id) (\<lambda>r.
     bnd (if rv_status r \<in> {Running, Queued} \<and> rv_result r = None
          then bnd (now env) (\<lambda>t.
               let x = r\<lparr>rv_status := Error, rv_error_code := ''WorkflowInterrupted'', rv_finished_at := Some t\<rparr>
               in bnd (save_request x []) (\<lambda>_. ret x))
          else ret r) (\<lambda>x.
     bnd (completed_event env x (result_references x)) (\<lambda>_. ret x))))"

text \<open>The status a stage reports, and whether the notification is still pending.\<close>

type_synonym stage_result = "request_status \<times> bool"

definition final_status :: "'w env \<Rightarrow> string \<Rightarrow> ('w, stage_result) rprocess" where
  "final_status env request_id = seq (get_revalidation env request_id) (\<lambda>r. Finished (Inr (rv_status r, False)))"

definition run_checks :: "'w env \<Rightarrow> string \<Rightarrow> ('w, stage_result) rprocess" where
  "run_checks env request_id =
     seq (atom (claim_check env request_id)) (\<lambda>claimed.
     case claimed of
       Nothing_To_Do status \<Rightarrow> Finished (Inr (status, False))
     | Claim_Expired \<Rightarrow> Finished (Inr (Expired, False))
     | Claimed r \<Rightarrow>
         seq (catch
           (seq (atom (capture env request_id (rv_scope r))) (\<lambda>res.
            seq (atom (now env)) (\<lambda>finished. atom (record_capture env request_id res finished))))
           (\<lambda>e. seq (atom (record_failure env request_id e)) (\<lambda>_. Finished (Inl Runtime_Error)))) (\<lambda>_.
         final_status env request_id))"

definition run_stage :: "'w env \<Rightarrow> string \<Rightarrow> string \<Rightarrow> revalidation \<Rightarrow> ('w, stage_result) rprocess" where
  "run_stage env request_id stage r =
     (if stage = ''load''
      then Finished (if rv_status r = Expired then Inl (Resolution_Conflict Queue_Deadline)
                     else Inr (rv_status r, False))
      else if stage = ''checks'' then run_checks env request_id
      else if stage = ''persist''
      then seq (atom (persist_transaction env request_id)) (\<lambda>_. final_status env request_id)
      else if stage = ''notify''
      then seq (atom (notify_transaction env request_id)) (\<lambda>x.
           seq (synchronize_incident env (rv_alert_key x) True None) (\<lambda>synchronized.
           if synchronized then final_status env request_id else Finished (Inr (rv_status x, True))))
      else Finished (Inl Value_Error))"

definition run_request_stage :: "'w env \<Rightarrow> string \<Rightarrow> string \<Rightarrow> ('w, stage_result) rprocess" where
  "run_request_stage env request_id stage = (case en_parse_uuid env request_id of
      None \<Rightarrow> Finished (Inl Value_Error)
    | Some uid \<Rightarrow> seq (get_revalidation env uid) (run_stage env uid stage))"

section \<open>All operations\<close>

datatype 'w resolution_op =
    Publish "candidate list"
  | Triage snapshot string
  | Synchronize string bool "'w before_delivery"
  | Preview string
  | Create string revalidation_create
  | Dispatch string
  | Get string
  | Confirm string incident_resolve "'w before_delivery"
  | Stage string string

definition forget :: "('w, 'a) rprocess \<Rightarrow> ('w, unit) rprocess" where
  "forget p = seq p (\<lambda>_. Finished (Inr ()))"

fun operation :: "'w env \<Rightarrow> 'w resolution_op \<Rightarrow> ('w, unit) rprocess" where
  "operation env (Publish cs) = forget (publish_candidates env cs)"
| "operation env (Triage s uri) = forget (transition_triaged env s uri)"
| "operation env (Synchronize k deliver before_delivery) = forget (synchronize_incident env k deliver before_delivery)"
| "operation env (Preview reference) = forget (resolution_preview env reference)"
| "operation env (Create reference body) = forget (create_revalidation env reference body)"
| "operation env (Dispatch request_id) = forget (dispatch_revalidation env request_id)"
| "operation env (Get request_id) = forget (get_revalidation env request_id)"
| "operation env (Confirm reference body before_delivery) = forget (confirm_resolution env reference body before_delivery)"
| "operation env (Stage request_id stage) = forget (run_request_stage env request_id stage)"

end
