(* ===== verification/Revalidation.thy ===== *)
theory Revalidation
  imports Resolution
begin

text \<open>
  The life of a revalidation request while any number of API calls, workflow stages and alert
  producers interleave.

  \<^item> \<open>requests_ok\<close>: what every stored request satisfies.
  \<^item> Tokens: the POST that creates an Airflow run, the capture of evidence and the recording of its
    result are each paid with a token of the request. A token is in the shared state as long as the
    request is unclaimed, and the transaction that claims the request takes it out.
\<close>

section \<open>Stored requests\<close>

definition request_ok :: "revalidation \<Rightarrow> bool" where
  "request_ok r \<longleftrightarrow>
     rv_deadline_at r = rv_created_at r + minutes 15 \<and>
     rv_dag_run_id r = ''manual__incident_revalidation_'' @ rv_request_id r \<and>
     (rv_status r = Queued \<longrightarrow> rv_trigger_state r \<notin> {Trigger_Rejected, Trigger_Absent}) \<and>
     (rv_status r \<in> {Running, Pass, Blocked_Result} \<longrightarrow> rv_check_claimed r \<and> rv_check_started_at r \<noteq> None) \<and>
     (case rv_result r of
        None \<Rightarrow> rv_status r \<notin> {Pass, Blocked_Result}
      | Some res \<Rightarrow> rv_check_claimed r \<and>
          (rv_status r \<in> {Pass, Blocked_Result} \<longrightarrow> rv_status r = verdict_status (re_status res)) \<and>
          (rv_status r \<in> {Running, Pass, Blocked_Result} \<longrightarrow>
             (\<exists>finished. rv_finished_at r = Some finished \<and> rv_expires_at r = Some (finished + minutes 10))))"

definition request_ids :: "resolution_db \<Rightarrow> string list" where
  "request_ids d = map (\<lambda>q. rv_request_id (qr_request q)) (db_requests d)"

definition requests_ok :: "'w env \<Rightarrow> 'w world \<Rightarrow> bool" where
  "requests_ok env w \<longleftrightarrow> distinct (request_ids (rw_db w)) \<and>
     set (request_ids (rw_db w)) \<subseteq> en_uuid env ` {..< rw_drawn w} \<and>
     (\<forall>q \<in> set (db_requests (rw_db w)). request_ok (qr_request q))"

datatype token = Post_Token string | Capture_Token string | Record_Token string

definition unclaimed :: "(revalidation \<Rightarrow> bool) \<Rightarrow> 'w world \<Rightarrow> string \<Rightarrow> bool" where
  "unclaimed P w k \<longleftrightarrow> (\<forall>q \<in> set (db_requests (rw_db w)). rv_request_id (qr_request q) = k \<longrightarrow> P (qr_request q))"

definition free_tokens :: "'w world \<Rightarrow> token set" where
  "free_tokens w = {t. case t of
      Post_Token k \<Rightarrow> unclaimed (\<lambda>r. rv_trigger_state r = Trigger_Pending) w k
    | Capture_Token k \<Rightarrow> unclaimed (\<lambda>r. \<not> rv_check_claimed r) w k
    | Record_Token k \<Rightarrow> unclaimed (\<lambda>r. \<not> rv_check_claimed r) w k}"

lemma free_token_iff [simp]:
  "Post_Token k \<in> free_tokens w \<longleftrightarrow> unclaimed (\<lambda>r. rv_trigger_state r = Trigger_Pending) w k"
  "Capture_Token k \<in> free_tokens w \<longleftrightarrow> unclaimed (\<lambda>r. \<not> rv_check_claimed r) w k"
  "Record_Token k \<in> free_tokens w \<longleftrightarrow> unclaimed (\<lambda>r. \<not> rv_check_claimed r) w k"
  by (simp_all add: free_tokens_def)

definition recorded :: "resolution_db \<Rightarrow> string list" where
  "recorded d = map (\<lambda>q. rv_request_id (qr_request q)) (filter (\<lambda>q. rv_result (qr_request q) \<noteq> None) (db_requests d))"

definition spent_tokens :: "'w world \<Rightarrow> token multiset" where
  "spent_tokens w = mset (map Post_Token (rw_posted w)) + mset (map Capture_Token (rw_captured w)) +
     mset (map Record_Token (recorded (rw_db w)))"

abbreviation pays :: "'w env \<Rightarrow> token set \<Rightarrow> ('w, 'a) rprocess \<Rightarrow> bool" where
  "pays env \<equiv> affords (requests_ok env) free_tokens spent_tokens"

section \<open>Steps that leave the tokens alone\<close>

text \<open>\<open>calm\<close>: a step of a transaction that claims nothing and records nothing.\<close>

definition steady :: "'w world \<Rightarrow> 'w world \<Rightarrow> bool" where
  "steady w v \<longleftrightarrow> rw_posted v = rw_posted w \<and> rw_captured v = rw_captured w \<and> rw_drawn w \<le> rw_drawn v"

definition calm :: "'w env \<Rightarrow> 'w world \<Rightarrow> 'w world \<Rightarrow> bool" where
  "calm env w v \<longleftrightarrow>
     (requests_ok env w \<longrightarrow> steady w v \<and> modest (requests_ok env) free_tokens spent_tokens w v)"

definition quiet :: "'w world \<Rightarrow> 'w world \<Rightarrow> bool" where
  "quiet w v \<longleftrightarrow> steady w v \<and> db_requests (rw_db v) = db_requests (rw_db w)"

interpretation steadiness: evolution steady
  by unfold_locales (auto simp: steady_def)

interpretation calming: evolution "calm env" for env
  by unfold_locales (auto simp: calm_def steady_def modest_def)

interpretation quieting: evolution quiet
  by unfold_locales (auto simp: quiet_def steady_def)

lemma tokens_by_requests:
  assumes "db_requests (rw_db v) = db_requests (rw_db w)"
  shows "free_tokens v = free_tokens w" and "recorded (rw_db v) = recorded (rw_db w)"
proof -
  have same: "unclaimed P v = unclaimed P w" for P using assms by (simp add: unclaimed_def fun_eq_iff)
  show "free_tokens v = free_tokens w" by (simp only: free_tokens_def same)
qed (use assms in \<open>simp add: recorded_def\<close>)

lemma drawn_more: "m \<le> n \<Longrightarrow> X \<subseteq> f ` {..< (m :: nat)} \<Longrightarrow> X \<subseteq> f ` {..< n}"
  by (meson image_mono lessThan_subset_iff order_trans)

lemma quiet_calm:
  assumes "quiet w v"
  shows "calm env w v"
proof -
  have same: "db_requests (rw_db v) = db_requests (rw_db w)" and "steady w v"
    using assms by (auto simp: quiet_def)
  then have "requests_ok env w \<Longrightarrow> requests_ok env v"
    unfolding requests_ok_def request_ids_def steady_def by (auto intro: drawn_more)
  then show ?thesis
    using \<open>steady w v\<close> same tokens_by_requests[OF same]
    by (simp add: calm_def modest_def spent_tokens_def steady_def)
qed

lemma evolves_mono: "evolves R m \<Longrightarrow> (\<And>w v. R w v \<Longrightarrow> Q w v) \<Longrightarrow> evolves Q m"
  by (simp add: evolves_def)

lemma calm_quiet: "evolves quiet m \<Longrightarrow> evolves (calm env) m"
  by (erule evolves_mono) (rule quiet_calm)

subsection \<open>Statements that do not touch the requests\<close>

lemma quiet_service: "evolves quiet (service c)"
  by (simp add: evolves_def service_def quiet_def steady_def split: prod.split)

lemma quiet_outside: "evolves quiet (outside c)"
  by (simp add: evolves_def outside_def quiet_def steady_def split: prod.split)

lemma quiet_now: "evolves quiet (now env)"
  unfolding now_def by (rule quiet_outside)

lemma quiet_uuid4: "evolves quiet (uuid4 env)"
  by (simp add: evolves_def uuid4_def quiet_def steady_def)

lemma quiet_db_gets: "evolves quiet (db_gets f)"
  unfolding db_gets_def by (rule quieting.gets)

lemma quiet_db_modify: "(\<And>d. db_requests (f d) = db_requests d) \<Longrightarrow> evolves quiet (db_modify f)"
  by (simp add: evolves_def db_modify_def quiet_def steady_def)

lemmas quiet_rules = quieting.rules quiet_service quiet_now quiet_uuid4 quiet_db_gets

lemma quiet_save_incident: "evolves quiet (save_incident i)"
  unfolding save_incident_def by (intro quiet_rules quiet_db_modify) simp_all

lemma quiet_event: "evolves quiet (event env i kind payload)"
  unfolding event_def by (intro quiet_rules quiet_db_modify) simp

lemma quiet_insert_key: "evolves quiet (insert_key k)"
  unfolding insert_key_def by (intro quiet_db_modify) simp

lemma quiet_insert_decision: "evolves quiet (insert_decision r)"
  unfolding insert_decision_def by (intro quiet_rules quiet_db_modify) simp

lemma quiet_update_event: "evolves quiet (update_event k f)"
  unfolding update_event_def by (intro quiet_db_modify) simp

lemma quiet_initialize: "evolves quiet (initialize row)"
  unfolding initialize_def read_incident_def by (intro quiet_rules quiet_save_incident)

lemma quiet_source: "evolves quiet (source env reference)"
  unfolding source_def by (intro quiet_rules)

lemma quiet_read_request: "evolves quiet (read_request k)"
  unfolding read_request_def by (intro quiet_rules)

lemma quiet_next_version: "evolves quiet (next_version env i status)"
  unfolding next_version_def by (intro quiet_rules)

lemma quiet_read_incident_row: "evolves quiet (read_incident_row k)"
  unfolding read_incident_row_def read_incident_def by (intro quiet_rules)

lemma quiet_blockers: "evolves quiet (remediation_blockers env i t)"
  unfolding remediation_blockers_def by (intro quiet_rules)

lemmas quiet_statements = quiet_rules quiet_save_incident quiet_event quiet_insert_key quiet_insert_decision
  quiet_update_event quiet_initialize quiet_source quiet_read_request quiet_next_version
  quiet_read_incident_row quiet_blockers

lemma quiet_completed_event: "evolves quiet (completed_event env r refs)"
  unfolding completed_event_def by (intro quiet_statements)

lemma quiet_newer: "evolves quiet (newer_blockers env r)"
  unfolding newer_blockers_def Let_def by (auto intro!: quiet_statements split: option.split)

lemma quiet_closing: "evolves quiet (close_incident env i r body digest)"
  unfolding close_incident_def Let_def by (intro quiet_statements quiet_newer)

lemma quiet_notify: "evolves quiet (notify_event env e)"
  unfolding notify_event_def by (intro quiet_statements)

lemma quiet_deliver: "evolves quiet (deliver_event env deliver before i e)"
  unfolding deliver_event_def by (intro quiet_statements quiet_notify)

lemma quiet_deliver_all: "evolves quiet (deliver_events env deliver before i es)"
  by (induction es) (simp_all only: deliver_events.simps, (intro quiet_statements quiet_deliver)+)

lemma quiet_reopen: "evolves quiet (reopen env c i)"
  unfolding reopen_def Let_def by (intro quiet_statements)

lemma quiet_open_new: "evolves quiet (open_new env c)"
  unfolding open_new_def by (intro quiet_statements)

subsection \<open>Transactions\<close>

lemma begin_transaction_parts:
  "begin_transaction w = (w0, c) \<Longrightarrow> rw_db w0 = rw_db w \<and> rw_drawn w0 = rw_drawn w \<and> rw_posted w0 = rw_posted w \<and>
     rw_captured w0 = rw_captured w"
  by (auto simp: begin_transaction_def split: list.splits)

text \<open>A transaction has the effect of its body or leaves the tables as they were.\<close>

lemma control_transaction_cases:
  assumes "control_transaction env body w = (r, v)"
  obtains (unavailable) "r = Inl Resolution_Unavailable" "v = w"
  | (committed) w0 x c where "begin_transaction w = (w0, c)" "body w0 = (Inr x, v)" "r = Inr x \<or> r = Inl Db_Failure"
  | (rolled_back) w0 c s u e where "begin_transaction w = (w0, c)" "body w0 = (s, u)" "v = u\<lparr>rw_db := rw_db w0\<rparr>"
      "r = Inl e" "s = Inl e \<or> e = Db_Failure"
  using assms unfolding control_transaction_def
  by (auto split: if_splits prod.splits sum.splits commit.splits)

lemma quiet_begin: "begin_transaction w = (w0, c) \<Longrightarrow> quiet w w0"
  by (drule begin_transaction_parts) (simp add: quiet_def steady_def)

lemma steady_rollback:
  assumes "begin_transaction w = (w0, c)" and "steady w0 u"
  shows "quiet w (u\<lparr>rw_db := rw_db w0\<rparr>)"
  using begin_transaction_parts[OF assms(1)] assms(2) by (simp add: quiet_def steady_def)

lemma calm_transaction:
  assumes "evolves (calm env) body"
  shows "evolves (calm env) (control_transaction env body)"
proof (rule evolvesI)
  fix w
  obtain r v where run: "control_transaction env body w = (r, v)" by fastforce
  then have "calm env w v"
  proof (cases rule: control_transaction_cases)
    case (committed w0 x c)
    then have "calm env w0 v" using assms by (metis evolvesD)
    with quiet_calm[OF quiet_begin[OF committed(1)]] show ?thesis by (rule calming.trans)
  next
    case (rolled_back w0 c s u e)
    note before = quiet_calm[OF quiet_begin[OF rolled_back(1)], of env]
    show ?thesis
    proof (cases "requests_ok env w")
      case True
      then have "requests_ok env w0" using before by (simp add: calm_def modest_def)
      then have "steady w0 u" using evolvesD[OF assms rolled_back(2)] by (simp add: calm_def)
      then show ?thesis using steady_rollback[OF rolled_back(1)] rolled_back(3) quiet_calm by metis
    qed (simp add: calm_def)
  qed (simp add: calming.refl)
  then show "calm env w (snd (control_transaction env body w))" by (simp add: run)
qed

subsection \<open>Writing a request that was read in the same transaction\<close>

text \<open>What a write may do without a token: the identity stays, and nothing becomes unclaimed again.\<close>

definition request_moves :: "revalidation \<Rightarrow> revalidation \<Rightarrow> bool" where
  "request_moves r x \<longleftrightarrow> rv_request_id x = rv_request_id r \<and>
     (rv_trigger_state x = Trigger_Pending \<longrightarrow> rv_trigger_state r = Trigger_Pending) \<and>
     (rv_check_claimed r \<longrightarrow> rv_check_claimed x) \<and> (rv_result x = None \<longleftrightarrow> rv_result r = None) \<and>
     (request_ok r \<longrightarrow> request_ok x)"

definition stored :: "'w env \<Rightarrow> revalidation \<Rightarrow> 'w world \<Rightarrow> bool" where
  "stored env r w \<longleftrightarrow> requests_ok env w \<and>
     (\<exists>q \<in> set (db_requests (rw_db w)). qr_request q = r)"

definition write_request :: "revalidation \<Rightarrow> 'w world \<Rightarrow> 'w world" where
  "write_request x w = w\<lparr>rw_db := (rw_db w)\<lparr>db_requests :=
     sql_update (\<lambda>q. rv_request_id (qr_request q) = rv_request_id x) (\<lambda>q. q\<lparr>qr_request := x\<rparr>) (db_requests (rw_db w))\<rparr>\<rparr>"

lemma request_by_id_stored:
  "q \<in> set rows \<Longrightarrow> distinct (map (\<lambda>q. rv_request_id (qr_request q)) rows) \<Longrightarrow>
     request_by_id (rv_request_id (qr_request q)) rows = Some q"
  unfolding request_by_id_def by (rule find_distinct_key) simp_all

lemma only_request:
  assumes "stored env r w" and "q \<in> set (db_requests (rw_db w))" and "rv_request_id (qr_request q) = rv_request_id r"
  shows "qr_request q = r"
proof -
  obtain p where p: "p \<in> set (db_requests (rw_db w))" "qr_request p = r"
    and d: "distinct (map (\<lambda>q. rv_request_id (qr_request q)) (db_requests (rw_db w)))"
    using assms(1) by (auto simp: stored_def requests_ok_def request_ids_def)
  from request_by_id_stored[OF p(1) d] request_by_id_stored[OF assms(2) d] show ?thesis
    using p(2) assms(3) by simp
qed

lemma save_stored:
  assumes "stored env r w" and "rv_request_id x = rv_request_id r"
  shows "save_request x h w = (Inr (), write_request x w)"
proof -
  obtain q where "request_by_id (rv_request_id x) (db_requests (rw_db w)) = Some q"
    using assms request_by_id_stored by (auto simp: stored_def requests_ok_def request_ids_def)
  then show ?thesis by (simp add: save_request_def db_gets_def db_modify_def bnd_def write_request_def)
qed

lemma write_rest [simp]:
  "rw_drawn (write_request x w) = rw_drawn w" "rw_posted (write_request x w) = rw_posted w"
  "rw_captured (write_request x w) = rw_captured w"
  by (simp_all add: write_request_def)

lemma write_ids: "request_ids (rw_db (write_request x w)) = request_ids (rw_db w)"
  unfolding request_ids_def write_request_def by (simp add: map_sql_update)

lemma set_write:
  "set (db_requests (rw_db (write_request x w))) =
     (\<lambda>q. if rv_request_id (qr_request q) = rv_request_id x then q\<lparr>qr_request := x\<rparr> else q) ` set (db_requests (rw_db w))"
  by (simp add: write_request_def set_sql_update)

lemma write_ok:
  assumes "requests_ok env w" and "request_ok x"
  shows "requests_ok env (write_request x w)"
  using assms unfolding requests_ok_def write_ids set_write write_rest by auto

lemma unclaimed_write:
  assumes "stored env r w" and "rv_request_id x = rv_request_id r"
  shows "unclaimed P (write_request x w) k \<longleftrightarrow> (if k = rv_request_id r then P x else unclaimed P w k)"
proof -
  obtain p where p: "p \<in> set (db_requests (rw_db w))" "qr_request p = r"
    using assms(1) by (auto simp: stored_def)
  show ?thesis
  proof (cases "k = rv_request_id r")
    case True
    have "p\<lparr>qr_request := x\<rparr> \<in> set (db_requests (rw_db (write_request x w)))"
      unfolding set_write using p assms(2) by (auto intro!: image_eqI[of _ _ p])
    then have "unclaimed P (write_request x w) k \<Longrightarrow> P x"
      using True assms(2) unfolding unclaimed_def by fastforce
    then show ?thesis using True assms(2) unfolding unclaimed_def set_write by auto
  qed (use assms(2) in \<open>auto simp: unclaimed_def set_write\<close>)
qed

lemma unclaimed_stored:
  assumes "stored env r w"
  shows "unclaimed P w (rv_request_id r) \<longleftrightarrow> P r"
  using assms only_request[OF assms] unfolding unclaimed_def stored_def by metis

lemma recorded_write:
  assumes "stored env r w" and "rv_request_id x = rv_request_id r" and "rv_result x = None \<longleftrightarrow> rv_result r = None"
  shows "recorded (rw_db (write_request x w)) = recorded (rw_db w)"
proof -
  have gen: "map (\<lambda>q. rv_request_id (qr_request q)) (filter (\<lambda>q. rv_result (qr_request q) \<noteq> None)
        (sql_update (\<lambda>q. rv_request_id (qr_request q) = rv_request_id x) (\<lambda>q. q\<lparr>qr_request := x\<rparr>) rows)) =
      map (\<lambda>q. rv_request_id (qr_request q)) (filter (\<lambda>q. rv_result (qr_request q) \<noteq> None) rows)"
    if "\<forall>q \<in> set rows. rv_request_id (qr_request q) = rv_request_id x \<longrightarrow> (rv_result (qr_request q) = None \<longleftrightarrow> rv_result x = None)"
    for rows
    using that by (induction rows) (auto simp: sql_update_def)
  have rows: "db_requests (rw_db (write_request x w)) = sql_update (\<lambda>q. rv_request_id (qr_request q) = rv_request_id x)
      (\<lambda>q. q\<lparr>qr_request := x\<rparr>) (db_requests (rw_db w))"
    by (simp add: write_request_def)
  show ?thesis
    unfolding recorded_def rows by (rule gen) (use only_request[OF assms(1)] assms(2,3) in metis)
qed

lemma write_moves:
  assumes "stored env r w" and "request_moves r x"
  shows "calm env w (write_request x w)"
proof -
  have same: "rv_request_id x = rv_request_id r" and ok: "requests_ok env w"
    using assms by (auto simp: request_moves_def stored_def)
  have "request_ok r" using assms(1) by (auto simp: stored_def requests_ok_def)
  then have "request_ok x" using assms(2) by (simp add: request_moves_def)
  with ok have "requests_ok env (write_request x w)" by (rule write_ok)
  moreover have less: "unclaimed P (write_request x w) k \<Longrightarrow> unclaimed P w k" if "P x \<Longrightarrow> P r" for P k
    using that unclaimed_write[OF assms(1) same, of P k] unclaimed_stored[OF assms(1), of P] by (simp split: if_splits)
  have "unclaimed (\<lambda>r. rv_trigger_state r = Trigger_Pending) (write_request x w) k \<Longrightarrow>
      unclaimed (\<lambda>r. rv_trigger_state r = Trigger_Pending) w k"
    and "unclaimed (\<lambda>r. \<not> rv_check_claimed r) (write_request x w) k \<Longrightarrow> unclaimed (\<lambda>r. \<not> rv_check_claimed r) w k" for k
    by (erule less[rotated], use assms(2) in \<open>simp add: request_moves_def\<close>)+
  then have "free_tokens (write_request x w) \<subseteq> free_tokens w"
    unfolding free_tokens_def by (auto split: token.splits)
  moreover have "spent_tokens (write_request x w) = spent_tokens w"
    using recorded_write[OF assms(1) same] assms(2) by (simp add: spent_tokens_def request_moves_def)
  ultimately show ?thesis by (simp add: calm_def modest_def steady_def)
qed

lemma stored_quiet: "stored env r w \<Longrightarrow> quiet w v \<Longrightarrow> stored env r v"
  using quiet_calm[of w v env] by (auto simp: stored_def calm_def modest_def quiet_def)

definition under :: "('s \<Rightarrow> bool) \<Rightarrow> ('s \<Rightarrow> 's \<Rightarrow> bool) \<Rightarrow> ('s, 'e, 'a) prog \<Rightarrow> bool" where
  "under P R m \<longleftrightarrow> (\<forall>s. P s \<longrightarrow> R s (snd (m s)))"

lemma under_calm: "evolves (calm env) m \<Longrightarrow> under (stored env r) (calm env) m"
  by (simp add: under_def evolves_def)

lemma under_quiet: "evolves quiet m \<Longrightarrow> under (stored env r) (calm env) m"
  by (intro under_calm calm_quiet)

lemma under_yield_bnd:
  assumes "evolves quiet m" and "\<And>s x t. m s = (Inr x, t) \<Longrightarrow> G x"
    and "\<And>x. G x \<Longrightarrow> under (stored env r) (calm env) (f x)"
  shows "under (stored env r) (calm env) (bnd m f)"
  unfolding under_def
proof (intro allI impI)
  fix s assume s: "stored env r s"
  obtain a t where m: "m s = (a, t)" by fastforce
  then have q: "quiet s t" using assms(1) by (rule evolvesD[rotated])
  show "calm env s (snd (bnd m f s))"
  proof (cases a)
    case (Inr x)
    then show ?thesis
      using m calming.trans[OF quiet_calm[OF q]] assms(3)[OF assms(2)] stored_quiet[OF s q] by (simp add: under_def)
  qed (use m q quiet_calm in simp)
qed

lemma under_quiet_bnd:
  assumes "evolves quiet m" and "\<And>x. under (stored env r) (calm env) (f x)"
  shows "under (stored env r) (calm env) (bnd m f)"
  by (rule under_yield_bnd[where G = "\<lambda>_. True", OF assms(1)]) (simp_all add: assms(2))

lemma under_save_bnd:
  assumes "request_moves r x" and "\<And>u. evolves (calm env) (f u)"
  shows "under (stored env r) (calm env) (bnd (save_request x h) f)"
  unfolding under_def
proof (intro allI impI)
  fix s assume s: "stored env r s"
  have "save_request x h s = (Inr (), write_request x s)"
    using save_stored[OF s] assms(1) by (simp add: request_moves_def)
  then show "calm env s (snd (bnd (save_request x h) f s))"
    using calming.trans[OF write_moves[OF s assms(1)]] assms(2) by (simp add: evolves_def)
qed

lemma under_save: "request_moves r x \<Longrightarrow> under (stored env r) (calm env) (save_request x h)"
  using save_stored write_moves by (fastforce simp: under_def request_moves_def)

lemma under_if: "(b \<Longrightarrow> under P R m) \<Longrightarrow> (\<not> b \<Longrightarrow> under P R n) \<Longrightarrow> under P R (if b then m else n)"
  by simp

lemma calm_bnd_stored:
  assumes "evolves quiet m" and "\<And>s r t. requests_ok env s \<Longrightarrow> m s = (Inr r, t) \<Longrightarrow> stored env (g r) t"
    and "\<And>r. under (stored env (g r)) (calm env) (f r)"
  shows "evolves (calm env) (bnd m f)"
proof (rule evolvesI)
  fix s
  obtain a t where m: "m s = (a, t)" by fastforce
  then have q: "calm env s t" using assms(1) quiet_calm by (metis evolvesD)
  show "calm env s (snd (bnd m f s))"
  proof (cases "requests_ok env s")
    case True
    show ?thesis
    proof (cases a)
      case (Inr r)
      then show ?thesis
        using m calming.trans[OF q] assms(2)[OF True] assms(3) by (simp add: under_def)
    qed (use m q in simp)
  qed (simp add: calm_def)
qed

lemma read_request_stored:
  assumes "requests_ok env s" and "read_request k s = (Inr r, t)"
  shows "stored env r t \<and> rv_request_id r = k \<and> t = s"
  using assms unfolding read_request_def db_gets_def request_by_id_def stored_def
  by (auto simp: bnd_Inr split: option.splits dest: find_SomeD)

lemma calm_read_request:
  assumes "\<And>r. under (stored env r) (calm env) (f r)"
  shows "evolves (calm env) (bnd (read_request k) f)"
  by (rule calm_bnd_stored[where g = "\<lambda>r. r", OF quiet_read_request])
     (use read_request_stored in blast, rule assms)

lemma request_moves_refl [simp]: "request_moves r r"
  by (simp add: request_moves_def)

lemma moves_status:
  "s \<in> {Error, Expired} \<Longrightarrow> request_moves r (r\<lparr>rv_status := s, rv_error_code := e\<rparr>)"
  by (auto simp: request_moves_def request_ok_def split: option.splits)

lemmas under_rules = under_if under_quiet_bnd[OF quiet_now] under_quiet[OF quieting.ret] under_save_bnd
  calming.ret under_quiet[OF quiet_completed_event] calm_quiet[OF quiet_completed_event]

lemma calm_expire: "under (stored env r) (calm env) (expire_if_due env r)"
  unfolding expire_if_due_def Let_def by (intro under_rules moves_status) simp

lemma latest_row_stored:
  assumes "latest_row k d = Some q"
  shows "q \<in> set (db_requests d)" and "rv_alert_key (qr_request q) = k"
proof -
  let ?rows = "filter (\<lambda>q. rv_alert_key (qr_request q) = k) (db_requests d)"
  have "?rows \<noteq> []" and q: "q = last (sort_key qr_created ?rows)"
    using assms unfolding latest_row_def by (auto split: list.splits)
  then have "sort_key qr_created ?rows \<noteq> []" by (metis set_empty set_sort)
  then have "q \<in> set ?rows" using q last_in_set[of "sort_key qr_created ?rows"] by simp
  then show "q \<in> set (db_requests d)" and "rv_alert_key (qr_request q) = k" by auto
qed

lemma calm_latest: "evolves (calm env) (latest_request env i)"
proof (rule evolvesI)
  fix s
  show "calm env s (snd (latest_request env i s))"
  proof (cases "latest_row (in_alert_key i) (rw_db s)")
    case (Some q)
    show ?thesis
    proof (cases "requests_ok env s")
      case True
      then have "stored env (qr_request q) s" using latest_row_stored(1)[OF Some] by (auto simp: stored_def)
      then have "calm env s (snd (expire_if_due env (qr_request q) s))" using calm_expire by (auto simp: under_def)
      then show ?thesis using Some by (auto simp: latest_request_def db_gets_def bnd_def split: prod.split sum.split)
    qed (simp add: calm_def)
  qed (simp add: latest_request_def db_gets_def bnd_def calming.refl)
qed

definition uuid_ok :: "'w env \<Rightarrow> bool" where
  "uuid_ok env \<longleftrightarrow> inj (en_uuid env) \<and> (\<forall>n. en_parse_uuid env (en_uuid env n) = Some (en_uuid env n))"

definition fresh :: "'w env \<Rightarrow> string \<Rightarrow> 'w world \<Rightarrow> bool" where
  "fresh env k w \<longleftrightarrow> requests_ok env w \<and> k \<notin> set (request_ids (rw_db w)) \<and> k \<in> en_uuid env ` {..< rw_drawn w}"

lemma save_fresh:
  assumes "fresh env (rv_request_id r) w" and "request_ok r" and "rv_trigger_state r = Trigger_Pending"
    and "\<not> rv_check_claimed r" and "rv_result r = None"
  shows "calm env w (snd (save_request r h w))"
proof -
  have new: "rv_request_id r \<notin> set (request_ids (rw_db w))" and ok: "requests_ok env w"
    and range: "rv_request_id r \<in> en_uuid env ` {..< rw_drawn w}"
    using assms(1) by (auto simp: fresh_def)
  then have none: "request_by_id (rv_request_id r) (db_requests (rw_db w)) = None"
    by (force simp: request_by_id_def request_ids_def find_None_iff)
  define v where "v = w\<lparr>rw_db := (rw_db w)\<lparr>db_requests := db_requests (rw_db w) @
      [\<lparr>qr_request = r, qr_hash = h, qr_created = rw_now w\<rparr>]\<rparr>\<rparr>"
  have cases: "snd (save_request r h w) = w \<or> snd (save_request r h w) = v"
    using none by (auto simp: save_request_def db_gets_def db_modify_def bnd_def v_def)
  have ids: "request_ids (rw_db v) = request_ids (rw_db w) @ [rv_request_id r]"
    by (simp add: request_ids_def v_def)
  have rest: "rw_drawn v = rw_drawn w" "rw_posted v = rw_posted w" "rw_captured v = rw_captured w"
    "recorded (rw_db v) = recorded (rw_db w)"
    using assms(5) by (simp_all add: v_def recorded_def)
  have "requests_ok env v"
    using ok new range assms(2) unfolding requests_ok_def ids rest by (auto simp: v_def)
  moreover have "unclaimed P v k \<Longrightarrow> unclaimed P w k" for P k by (simp add: unclaimed_def v_def)
  then have "free_tokens v \<subseteq> free_tokens w" unfolding free_tokens_def by (auto split: token.splits)
  ultimately have "calm env w v" using rest by (simp add: calm_def modest_def steady_def spent_tokens_def)
  with cases show ?thesis using calming.refl[of env w] by auto
qed

lemma fresh_quiet: "fresh env k w \<Longrightarrow> quiet w v \<Longrightarrow> fresh env k v"
  using quiet_calm[of w v env]
  by (auto simp: fresh_def calm_def modest_def quiet_def request_ids_def steady_def)

lemma new_revalidation_ok: "request_ok (new_revalidation k i created contract actor)"
  by (simp add: request_ok_def new_revalidation_def)

lemma calm_open_request:
  assumes "uuid_ok (env :: 'w env)"
  shows "evolves (calm env) (open_request env i digest actor)"
proof -
  define save where "save k created contract =
      bnd (save_request (new_revalidation k i created contract actor) digest) (\<lambda>_.
      bnd (event env i (REQUESTED @ k) (Requested_Payload actor k)) (\<lambda>_.
      ret (new_revalidation k i created contract actor)))" for k created contract
  have fresh_save: "calm env s (snd (save k created contract s))" if "fresh env k s" for k created contract s
    unfolding save_def
  proof (rule calming.bnd_at)
    show "calm env s (snd (save_request (new_revalidation k i created contract actor) digest s))"
      using that by (intro save_fresh new_revalidation_ok) (simp_all add: new_revalidation_def)
  qed (intro calming.rules calm_quiet[OF quiet_event])
  have drawn: "calm env s (snd (bnd (uuid4 env) (\<lambda>k. bnd (service c) (\<lambda>contract. save k created contract)) s))"
    for created s and c :: "('w, string) service"
  proof (cases "requests_ok env s")
    case True
    define u where "u = s\<lparr>rw_drawn := Suc (rw_drawn s)\<rparr>"
    have q: "quiet s u" by (simp add: u_def quiet_def steady_def)
    have "en_uuid env (rw_drawn s) \<notin> set (request_ids (rw_db s))"
      using True assms by (auto simp: requests_ok_def uuid_ok_def inj_eq)
    then have f: "fresh env (en_uuid env (rw_drawn s)) u"
      using True q quiet_calm[OF q, of env] by (auto simp: fresh_def calm_def modest_def u_def)
    have "calm env u (snd (bnd (service c) (\<lambda>contract. save (en_uuid env (rw_drawn s)) created contract) u))"
    proof (cases "service c u")
      case (Pair r v)
      then have qv: "quiet u v" using quiet_service by (metis evolvesD)
      show ?thesis
      proof (cases r)
        case (Inr contract)
        then show ?thesis
          using Pair calming.trans[OF quiet_calm[OF qv] fresh_save[OF fresh_quiet[OF f qv]]] by simp
      qed (use Pair quiet_calm[OF qv] in simp)
    qed
    then show ?thesis
      using calming.trans[OF quiet_calm[OF q]] by (simp add: uuid4_def bnd_def u_def)
  qed (simp add: calm_def)
  have "open_request env i digest actor =
      bnd (now env) (\<lambda>created. bnd (uuid4 env) (\<lambda>k. bnd (service (en_contract_hash env (scope_for (in_snapshot i))))
        (\<lambda>contract. save k created contract)))"
    by (simp add: open_request_def save_def Let_def)
  moreover have "evolves (calm env) (bnd (now env) (\<lambda>created. bnd (uuid4 env)
      (\<lambda>k. bnd (service c) (\<lambda>contract. save k created contract))))" for c :: "('w, string) service"
    by (intro calming.bnd calm_quiet[OF quiet_now] evolvesI drawn)
  ultimately show ?thesis by metis
qed

section \<open>Transactions and processes that need no token\<close>

lemma calm_source: "evolves (calm env) (source env reference)"
  by (rule calm_quiet[OF quiet_source])

lemma calm_initialize: "evolves (calm env) (initialize row)"
  by (rule calm_quiet[OF quiet_initialize])

lemmas calm_statements = calming.rules calm_quiet[OF quiet_service] calm_quiet[OF quiet_now]
  calm_quiet[OF quiet_db_gets] calm_source calm_initialize calm_quiet[OF quiet_save_incident]
  calm_quiet[OF quiet_event] calm_quiet[OF quiet_insert_key] calm_quiet[OF quiet_next_version]
  calm_quiet[OF quiet_blockers] calm_quiet[OF quiet_closing] calm_quiet[OF quiet_deliver_all]
  calm_quiet[OF quiet_reopen] calm_quiet[OF quiet_open_new] calm_quiet[OF quiet_read_request] calm_latest

lemma calm_candidate: "evolves (calm env) (candidate_transaction env c)"
  unfolding candidate_transaction_def read_incident_def by (intro calm_transaction calm_statements)

lemma calm_triage: "evolves (calm env) (triage_transaction env s uri)"
  unfolding triage_transaction_def Let_def by (intro calm_transaction calm_statements)

lemma calm_synchronize: "evolves (calm env) (synchronize_transaction env k deliver before)"
  unfolding synchronize_transaction_def read_incident_def by (intro calm_transaction calm_statements)

lemma calm_confirm: "evolves (calm env) (confirm_transaction env reference body)"
  unfolding confirm_transaction_def Let_def by (intro calm_transaction calm_statements)

lemma calm_create:
  assumes "uuid_ok env"
  shows "evolves (calm env) (create_transaction env reference body)"
  unfolding create_transaction_def Let_def
  by (intro calm_transaction calm_statements) (auto intro!: calm_statements calm_open_request[OF assms] split: prod.split option.split)

lemma calm_read: "evolves (calm env) (read_transaction env k)"
  unfolding read_transaction_def by (intro calm_transaction calm_read_request calm_expire)

lemma calm_airflow: "evolves (calm env) (airflow_client env)"
  unfolding airflow_client_def by (rule calming.require)

lemma moves_trigger:
  "t \<notin> {Trigger_Pending, Trigger_Rejected, Trigger_Absent} \<Longrightarrow>
     request_moves r (r\<lparr>rv_trigger_state := t, rv_error_code := e\<rparr>)"
  by (auto simp: request_moves_def request_ok_def split: option.splits)

lemma moves_ended:
  assumes "s \<in> {Error, Expired}" and "t \<noteq> Trigger_Pending"
  shows "request_moves r (r\<lparr>rv_status := s, rv_trigger_state := t, rv_error_code := e\<rparr>)"
    and "request_moves r (r\<lparr>rv_status := s, rv_error_code := e, rv_trigger_state := t\<rparr>)"
  using assms by (auto simp: request_moves_def request_ok_def split: option.splits)

lemma save_and_return: "request_moves r x \<Longrightarrow> under (stored env r) (calm env) (bnd (save_request x []) (\<lambda>_. ret y))"
  by (intro under_save_bnd calming.ret)

lemma calm_trigger_failed: "evolves (calm env) (trigger_failed env k previous)"
  unfolding trigger_failed_def Let_def
  by (intro calm_transaction calm_read_request under_if under_quiet[OF quieting.ret] save_and_return)
     (simp add: moves_trigger moves_ended)

lemma calm_trigger_answered: "evolves (calm env) (trigger_answered env k state)"
  unfolding trigger_answered_def Let_def
  by (intro calm_transaction calm_read_request under_quiet_bnd[OF quieting.require] under_if
      under_quiet[OF quieting.ret] under_yield_bnd[where G = "request_moves r" for r] save_and_return
      quieting.if_prog quieting.ret quieting.bnd quiet_now)
    (auto simp: bnd_Inr moves_trigger moves_ended split: if_splits)

lemma calm_preview: "evolves (calm env) (preview_transaction env reference)"
  unfolding preview_transaction_def by (intro calm_transaction calm_statements)

lemma moves_failed:
  "request_moves r (r\<lparr>rv_status := Error, rv_error_code := e, rv_finished_at := f\<rparr>)"
  by (auto simp: request_moves_def request_ok_def split: option.splits)

lemma calm_record_failure: "evolves (calm env) (record_failure env k e)"
  unfolding record_failure_def Let_def
  by (intro calm_transaction calm_read_request under_rules moves_failed)

lemma moves_persist:
  "rv_status r = Running \<Longrightarrow> rv_result r = Some res \<Longrightarrow> request_moves r (r\<lparr>rv_status := verdict_status (re_status res)\<rparr>)"
  by (cases "re_status res") (auto simp: request_moves_def request_ok_def)

lemma under_save_then:
  "request_moves r x \<Longrightarrow> evolves (calm env) (f y) \<Longrightarrow>
     under (stored env r) (calm env) (bnd (bnd (save_request x []) (\<lambda>_. ret y)) f)"
proof -
  assume "request_moves r x" and "evolves (calm env) (f y)"
  moreover have "bnd (bnd (save_request x []) (\<lambda>_. ret y)) f = bnd (save_request x []) (\<lambda>_. f y)"
    by (auto simp: bnd_def fun_eq_iff split: prod.split sum.split)
  ultimately show ?thesis by (simp add: under_save_bnd)
qed

lemma bnd_assoc: "bnd (bnd m f) g = bnd m (\<lambda>x. bnd (f x) g)"
  by (auto simp: bnd_def fun_eq_iff split: prod.split sum.split)

text \<open>The end of a stage: the event of the request as it is now stored.\<close>

definition conclude_stage :: "'w env \<Rightarrow> revalidation \<Rightarrow> ('w, revalidation) rprog" where
  "conclude_stage env x = bnd (completed_event env x (result_references x)) (\<lambda>_. ret x)"

lemma calm_conclude: "evolves (calm env) (conclude_stage env x)"
  unfolding conclude_stage_def by (intro calm_statements calm_quiet[OF quiet_completed_event])

lemma under_unchanged: "m = ret r \<Longrightarrow> under (stored env r) (calm env) (bnd m (conclude_stage env))"
  by (simp only:) (intro under_quiet_bnd under_calm quieting.ret calm_conclude)

lemma under_changed:
  "m = bnd (save_request x []) (\<lambda>_. ret x) \<Longrightarrow> request_moves r x \<Longrightarrow>
     under (stored env r) (calm env) (bnd m (conclude_stage env))"
  by (simp only:) (intro under_save_then calm_conclude)

lemma calm_persist: "evolves (calm env) (persist_transaction env k)"
proof -
  have "under (stored env r) (calm env) (bnd (case (rv_status r, rv_result r) of
            (Running, Some res) \<Rightarrow>
              let x = r\<lparr>rv_status := verdict_status (re_status res)\<rparr> in bnd (save_request x []) (\<lambda>_. ret x)
          | _ \<Rightarrow> ret r) (conclude_stage env))" (is "under _ _ (bnd ?m _)") for r
  proof (cases "\<exists>res. rv_status r = Running \<and> rv_result r = Some res")
    case True
    then obtain res where "rv_status r = Running" "rv_result r = Some res" by blast
    then show ?thesis
      by (intro under_changed[where x = "r\<lparr>rv_status := verdict_status (re_status res)\<rparr>"] moves_persist)
         (simp_all add: Let_def)
  next
    case False
    then have "?m = ret r" by (auto split: option.splits request_status.splits)
    then show ?thesis by (rule under_unchanged)
  qed
  then show ?thesis
    unfolding persist_transaction_def conclude_stage_def by (intro calm_transaction calm_read_request)
qed

lemma calm_notify: "evolves (calm env) (notify_transaction env k)"
proof -
  let ?x = "\<lambda>r t. r\<lparr>rv_status := Error, rv_error_code := ''WorkflowInterrupted'', rv_finished_at := Some t\<rparr>"
  have "under (stored env r) (calm env) (bnd (if rv_status r \<in> {Running, Queued} \<and> rv_result r = None
          then bnd (now env) (\<lambda>t. bnd (save_request (?x r t) []) (\<lambda>_. ret (?x r t)))
          else ret r) (conclude_stage env))" (is "under _ _ (bnd (if ?interrupted then ?m else _) _)") for r
  proof (cases ?interrupted)
    case True
    have "under (stored env r) (calm env) (bnd ?m (conclude_stage env))"
      unfolding bnd_assoc[of "now env"]
      by (rule under_quiet_bnd[OF quiet_now], rule under_changed[OF refl moves_failed])
    with True show ?thesis by simp
  qed (rule under_unchanged, auto)
  then show ?thesis
    unfolding notify_transaction_def conclude_stage_def Let_def by (intro calm_transaction calm_read_request)
qed

lemma calm_modest: "calm env w v \<Longrightarrow> modest (requests_ok env) free_tokens spent_tokens w v"
  by (simp add: calm_def modest_def)

lemma calm_pays: "guarded (calm env) p \<Longrightarrow> pays env S p"
proof (rule affords_guarded)
  assume "guarded (calm env) p"
  then show "guarded (modest (requests_ok env) free_tokens spent_tokens) p"
    by (induction rule: guarded.induct) (auto intro: calm_modest)
qed

section \<open>Steps that take tokens\<close>

lemma settles_calm:
  assumes "calm env w v" and "requests_ok env w" and "T \<subseteq> S \<union> (free_tokens w - free_tokens v)"
  shows "settles (requests_ok env) free_tokens spent_tokens S w v T"
  using assms unfolding calm_def modest_def settles_def by (intro conjI exI[of _ "[]"]) auto

lemma moves_claim:
  "rv_status r = Queued \<Longrightarrow> request_moves r (r\<lparr>rv_trigger_state := Trigger_Claimed\<rparr>)"
  by (auto simp: request_moves_def request_ok_def split: option.splits)

lemma calm_claim_trigger: "evolves (calm env) (claim_trigger env k)"
  unfolding claim_trigger_def
  by (intro calm_transaction calm_read_request under_if under_quiet[OF quieting.ret] under_save_bnd calming.ret moves_claim) simp

text \<open>The transaction that finds the trigger pending takes the token of the POST.\<close>

lemma claim_trigger_takes:
  assumes "requests_ok env w" and "claim_trigger env k w = (Inr (x, Some previous), v)" and "uuid_ok env"
  shows "en_parse_uuid env k = Some k \<and> (was_claimed previous \<or> Post_Token k \<in> free_tokens w - free_tokens v)"
proof -
  from assms(2) obtain w0 c where b: "begin_transaction w = (w0, c)" and
    run: "bnd (read_request k) (\<lambda>r.
       if rv_status r \<noteq> Queued \<or> rv_trigger_state r = Trigger_Confirmed then ret (r, None)
       else bnd (save_request (r\<lparr>rv_trigger_state := Trigger_Claimed\<rparr>) []) (\<lambda>_.
          ret (r\<lparr>rv_trigger_state := Trigger_Claimed\<rparr>, Some (rv_trigger_state r)))) w0 = (Inr (x, Some previous), v)"
    unfolding claim_trigger_def by (cases rule: control_transaction_cases) auto
  have ok: "requests_ok env w0"
    using quiet_calm[OF quiet_begin[OF b], of env] assms(1) by (simp add: calm_def modest_def)
  from run obtain r where read: "read_request k w0 = (Inr r, w0)" and q: "rv_status r = Queued"
    "rv_trigger_state r \<noteq> Trigger_Confirmed" "previous = rv_trigger_state r"
    and save: "save_request (r\<lparr>rv_trigger_state := Trigger_Claimed\<rparr>) [] w0 = (Inr (), v)"
    using read_request_stored[OF ok] by (fastforce simp: bnd_Inr split: if_splits)
  have st: "stored env r w0" and k: "rv_request_id r = k" using read_request_stored[OF ok read] by auto
  then have "k \<in> range (en_uuid env)" by (auto simp: stored_def requests_ok_def request_ids_def)
  then have parse: "en_parse_uuid env k = Some k" using assms(3) by (auto simp: uuid_ok_def)
  from st have "request_ok r" using ok by (auto simp: stored_def requests_ok_def)
  then have "was_claimed previous \<or> previous = Trigger_Pending"
    using q by (cases previous) (auto simp: request_ok_def was_claimed_def)
  moreover have v: "v = write_request (r\<lparr>rv_trigger_state := Trigger_Claimed\<rparr>) w0"
    using save save_stored[OF st, of "r\<lparr>rv_trigger_state := Trigger_Claimed\<rparr>" "[]"] by simp
  then have "Post_Token k \<notin> free_tokens v"
    using unclaimed_write[OF st, of "r\<lparr>rv_trigger_state := Trigger_Claimed\<rparr>"] k by (simp add: free_tokens_def)
  moreover have "Post_Token k \<in> free_tokens w" if "previous = Trigger_Pending"
    using that unclaimed_stored[OF st] k q(3) tokens_by_requests(1)[of w w0] begin_transaction_parts[OF b]
    by (simp add: free_tokens_def)
  ultimately show ?thesis using parse by auto
qed

lemma moves_claim_check:
  "rv_result r = None \<Longrightarrow> request_moves r (r\<lparr>rv_status := Running, rv_check_claimed := True, rv_check_started_at := Some t\<rparr>)"
  by (simp add: request_moves_def request_ok_def)

lemma calm_claim_check: "evolves (calm env) (claim_check env k)"
proof -
  have main: "under (stored env r) (calm env) (bnd (if in_revision i \<noteq> rv_incident_revision r then ret True
            else bnd (now env) (\<lambda>t. ret (rv_deadline_at r < t))) (\<lambda>stale.
       if stale
       then bnd (save_request (r\<lparr>rv_status := Expired, rv_error_code := ''IncidentChangedOrExpired''\<rparr>) []) (\<lambda>_.
            ret Claim_Expired)
       else bnd (now env) (\<lambda>t. bnd (save_request
              (r\<lparr>rv_status := Running, rv_check_claimed := True, rv_check_started_at := Some t\<rparr>) []) (\<lambda>_.
            ret (Claimed (r\<lparr>rv_status := Running, rv_check_claimed := True, rv_check_started_at := Some t\<rparr>))))))"
    if "rv_result r = None" for r i
    by (rule under_quiet_bnd, (intro quieting.if_prog quieting.ret quieting.bnd quiet_now)[1], rule under_if)
       (intro under_save_bnd moves_status moves_claim_check calming.ret that under_quiet_bnd[OF quiet_now], simp?)+
  then show ?thesis
    unfolding claim_check_def Let_def
    by (intro calm_transaction calm_read_request under_if under_quiet[OF quieting.ret]
        under_quiet_bnd[OF quieting.require] under_quiet_bnd[OF quiet_read_incident_row] main) auto
qed

lemma ok_begin: "begin_transaction w = (w0, c) \<Longrightarrow> requests_ok env w \<Longrightarrow> requests_ok env w0"
  using quiet_calm[OF quiet_begin, of w w0 c env] by (simp add: calm_def modest_def)

lemma tokens_begin: "begin_transaction w = (w0, c) \<Longrightarrow> free_tokens w0 = free_tokens w \<and> spent_tokens w0 = spent_tokens w"
  using begin_transaction_parts[of w w0 c] tokens_by_requests[of w0 w] by (simp add: spent_tokens_def)

text \<open>The transaction that claims the check takes the tokens of the capture and of its record.\<close>

lemma claim_check_takes:
  assumes "requests_ok env w" and "claim_check env k w = (Inr (Claimed x), v)"
  shows "{Capture_Token k, Record_Token k} \<subseteq> free_tokens w - free_tokens v"
proof -
  from assms(2) obtain w0 c where b: "begin_transaction w = (w0, c)" and
    run: "bnd (read_request k) (\<lambda>r.
     if rv_status r \<in> {Pass, Blocked_Result} \<or> rv_result r \<noteq> None then ret (Nothing_To_Do (rv_status r))
     else
       bnd (require (\<not> rv_check_claimed r \<and> rv_status r = Queued) (Resolution_Conflict Already_Started)) (\<lambda>_.
       bnd (read_incident_row (rv_alert_key r)) (\<lambda>i.
       bnd (if in_revision i \<noteq> rv_incident_revision r then ret True
            else bnd (now env) (\<lambda>t. ret (rv_deadline_at r < t))) (\<lambda>stale.
       if stale
       then bnd (save_request (r\<lparr>rv_status := Expired, rv_error_code := ''IncidentChangedOrExpired''\<rparr>) []) (\<lambda>_.
            ret Claim_Expired)
       else bnd (now env) (\<lambda>t.
            let x = r\<lparr>rv_status := Running, rv_check_claimed := True, rv_check_started_at := Some t\<rparr>
            in bnd (save_request x []) (\<lambda>_. ret (Claimed x))))))) w0 = (Inr (Claimed x), v)"
    unfolding claim_check_def by (cases rule: control_transaction_cases) auto
  note ok = ok_begin[OF b assms(1)]
  from run obtain r i stale w1 w2 w3 t where read: "read_request k w0 = (Inr r, w0)"
    and r: "\<not> rv_check_claimed r" "rv_result r = None"
    and steps: "read_incident_row (rv_alert_key r) w0 = (Inr i, w1)"
      "(if in_revision i \<noteq> rv_incident_revision r then ret True
            else bnd (now env) (\<lambda>t. ret (rv_deadline_at r < t))) w1 = (Inr stale, w2)" "now env w2 = (Inr t, w3)"
    and save: "save_request (r\<lparr>rv_status := Running, rv_check_claimed := True, rv_check_started_at := Some t\<rparr>) [] w3 = (Inr (), v)"
    using read_request_stored[OF ok] by (fastforce simp: bnd_Inr Let_def split: if_splits)
  have "quiet w0 w1" by (rule evolvesD[OF quiet_read_incident_row steps(1)])
  moreover have "evolves quiet (if in_revision i \<noteq> rv_incident_revision r then ret True
      else bnd (now env) (\<lambda>t. ret (rv_deadline_at r < t)))"
    by (intro quiet_rules)
  from evolvesD[OF this steps(2)] have "quiet w1 w2" .
  moreover have "quiet w2 w3" by (rule evolvesD[OF quiet_now steps(3)])
  ultimately have q: "quiet w0 w3" by (meson quieting.trans)
  have st: "stored env r w3" and k: "rv_request_id r = k"
    using read_request_stored[OF ok read] stored_quiet[OF _ q] by auto
  have v: "v = write_request (r\<lparr>rv_status := Running, rv_check_claimed := True, rv_check_started_at := Some t\<rparr>) w3"
    using save save_stored[OF st, of "r\<lparr>rv_status := Running, rv_check_claimed := True, rv_check_started_at := Some t\<rparr>" "[]"] by simp
  have same: "free_tokens w3 = free_tokens w"
    using q tokens_by_requests(1)[of w3 w0] tokens_begin[OF b] by (simp add: quiet_def)
  have "unclaimed (\<lambda>r. \<not> rv_check_claimed r) w3 k"
    using unclaimed_stored[OF st, of "\<lambda>r. \<not> rv_check_claimed r"] k r(1) by simp
  then have "Capture_Token k \<in> free_tokens w" "Record_Token k \<in> free_tokens w"
    using same free_token_iff(2,3)[of k w3] by auto
  moreover have "\<not> unclaimed (\<lambda>r. \<not> rv_check_claimed r) v k"
    using unclaimed_write[OF st, of "r\<lparr>rv_status := Running, rv_check_claimed := True, rv_check_started_at := Some t\<rparr>"] k
    by (simp add: v)
  ultimately show ?thesis by (simp del: free_token_iff(2,3) add: free_token_iff(2,3)[of k v])
qed

section \<open>Steps that spend tokens\<close>

lemma spent_db: "rw_db v = rw_db w \<Longrightarrow> free_tokens v = free_tokens w \<and> recorded (rw_db v) = recorded (rw_db w)"
  using tokens_by_requests[of v w] by simp

lemma settles_spend:
  assumes "requests_ok env w" and "rw_db v = rw_db w" and "rw_drawn v = rw_drawn w"
    and "spent_tokens v = spent_tokens w + mset new" and "set new \<subseteq> S" and "distinct new"
  shows "settles (requests_ok env) free_tokens spent_tokens S w v (S - set new)"
proof -
  have "requests_ok env v" using assms(1-3) by (simp add: requests_ok_def)
  moreover have "free_tokens v \<subseteq> free_tokens w" using spent_db[OF assms(2)] by simp
  moreover have "set new \<subseteq> S \<union> (free_tokens w - free_tokens v)"
    and "S - set new \<subseteq> S \<union> (free_tokens w - free_tokens v) - set new"
    using assms(5) by blast+
  ultimately show ?thesis
    unfolding settles_def using assms(4,6) by (intro conjI exI[of _ new])
qed

definition hushed :: "'w world \<Rightarrow> 'w world \<Rightarrow> bool" where
  "hushed w v \<longleftrightarrow> rw_db v = rw_db w \<and> rw_drawn v = rw_drawn w \<and> rw_captured v = rw_captured w \<and> rw_posted v = rw_posted w"

interpretation hushing: evolution hushed
  by unfold_locales (auto simp: hushed_def)

lemma hushed_outside: "evolves hushed (outside c)"
  by (simp add: evolves_def outside_def hushed_def split: prod.split)

lemma hushed_service: "evolves hushed (service c)"
  by (simp add: evolves_def service_def hushed_def split: prod.split)

text \<open>At most one entry of a log: the POST for an identifier, or the capture of a request.\<close>

definition logs :: "('w world \<Rightarrow> 'w world) \<Rightarrow> 'w world \<Rightarrow> 'w world \<Rightarrow> bool" where
  "logs f w v \<longleftrightarrow> hushed w v \<or> hushed (f w) v"

definition log_post :: "string \<Rightarrow> 'w world \<Rightarrow> 'w world" where
  "log_post k w = w\<lparr>rw_posted := rw_posted w @ [k]\<rparr>"

definition log_capture :: "string \<Rightarrow> 'w world \<Rightarrow> 'w world" where
  "log_capture k w = w\<lparr>rw_captured := rw_captured w @ [k]\<rparr>"

lemma logs_after_hushed:
  assumes "\<And>w v. hushed w v \<Longrightarrow> hushed (g w) (g v)"
    and "evolves hushed m" and "\<And>x. evolves (logs g) (f x)"
  shows "evolves (logs g) (bnd m f)"
proof (rule evolvesI)
  fix s
  obtain a t where m: "m s = (a, t)" by fastforce
  then have h: "hushed s t" using assms(2) by (rule evolvesD[rotated])
  show "logs g s (snd (bnd m f s))"
  proof (cases a)
    case (Inr x)
    have "logs g t (snd (f x t))" using assms(3) by (simp add: evolves_def)
    then show ?thesis using h m Inr assms(1)[OF h] hushing.trans by (auto simp: logs_def)
  qed (use m h in \<open>simp add: logs_def\<close>)
qed

lemma logs_step: "evolves hushed m \<Longrightarrow> logs f w (snd (m (f w)))"
  by (simp add: logs_def evolves_def)

lemma hushed_logs: "evolves hushed m \<Longrightarrow> evolves (logs f) m"
  by (erule evolves_mono) (simp add: logs_def)

lemma hushed_log_post: "hushed w v \<Longrightarrow> hushed (log_post k w) (log_post k v)"
  by (simp add: hushed_def log_post_def)

lemma hushed_log_capture: "hushed w v \<Longrightarrow> hushed (log_capture k w) (log_capture k v)"
  by (simp add: hushed_def log_capture_def)

lemma capture_logs: "evolves (logs (log_capture k)) (capture env k sc)"
  unfolding capture_def
proof (rule logs_after_hushed[OF hushed_log_capture hushed_service], assumption, rule evolvesI)
  fix s
  have "bnd (modify (\<lambda>w. w\<lparr>rw_captured := rw_captured w @ [k]\<rparr>)) (\<lambda>_. service (en_capture env sc)) s =
      service (en_capture env sc) (log_capture k s)"
    by (simp add: bnd_def log_capture_def)
  then show "logs (log_capture k) s (snd (bnd (modify (\<lambda>w. w\<lparr>rw_captured := rw_captured w @ [k]\<rparr>)) (\<lambda>_. service (en_capture env sc)) s))"
    using logs_step[OF hushed_service] by simp
qed

lemma settles_logs:
  assumes "requests_ok env w" and "logs f w v" and "t \<in> S"
    and "rw_db (f w) = rw_db w" and "rw_drawn (f w) = rw_drawn w" and "spent_tokens (f w) = spent_tokens w + {#t#}"
  shows "settles (requests_ok env) free_tokens spent_tokens S w v (S - {t})"
proof -
  have same: "spent_tokens v = spent_tokens u" if "hushed u v" for u
    using that by (simp add: hushed_def spent_tokens_def)
  obtain new where new: "spent_tokens v = spent_tokens w + mset new" "set new \<subseteq> {t}" "distinct new"
  proof (cases "hushed w v")
    case True
    then show ?thesis using same[OF True] by (intro that[of "[]"]) simp_all
  next
    case False
    then have "hushed (f w) v" using assms(2) by (simp add: logs_def)
    then show ?thesis using same[of "f w"] assms(6) by (intro that[of "[t]"]) simp_all
  qed
  have "rw_db v = rw_db w" "rw_drawn v = rw_drawn w" using assms(2,4,5) by (auto simp: logs_def hushed_def)
  then have "settles (requests_ok env) free_tokens spent_tokens S w v (S - set new)"
    using new assms(1,3) by (intro settles_spend) auto
  then show ?thesis using new(2) unfolding settles_def by fast
qed

lemma capture_settles:
  assumes "requests_ok env w" and "capture env k sc w = (r, v)" and "Capture_Token k \<in> S"
  shows "settles (requests_ok env) free_tokens spent_tokens S w v (S - {Capture_Token k})"
  using assms evolvesD[OF capture_logs assms(2)]
  by (intro settles_logs[where f = "log_capture k"]) (simp_all add: log_capture_def spent_tokens_def)

lemma hushed_look_again: "evolves hushed (look_again env uid)"
  unfolding look_again_def by (intro hushing.rules hushed_outside)

lemma hushed_after_post: "evolves hushed (after_post env uid found)"
  unfolding after_post_def by (intro hushing.rules hushing.case_prod hushing.case_sum hushed_look_again)

lemma posts_trigger_post: "evolves (logs (log_post uid)) (trigger_post env uid)"
proof (rule evolvesI)
  fix s
  let ?rest = "\<lambda>answer. case answer of
       Answer n body \<Rightarrow> after_post env uid (Some (n, body))
     | Request_Failed \<Rightarrow> ret uncertain
     | _ \<Rightarrow> bnd (look_again env uid) (after_post env uid)"
  have "evolves hushed (bnd (outside (en_post_run env uid)) ?rest)"
    by (intro hushing.bnd hushed_outside)
       (auto intro!: hushing.ret hushing.bnd hushed_after_post hushed_look_again split: http.split)
  moreover have "trigger_post env uid s = bnd (outside (en_post_run env uid)) ?rest (log_post uid s)"
    by (simp add: trigger_post_def post_dag_run_def bnd_def log_post_def split: prod.split)
  ultimately show "logs (log_post uid) s (snd (trigger_post env uid s))"
    by (simp add: logs_step)
qed

lemma evolves_http: "(\<And>n body. evolves R (f n body)) \<Longrightarrow> evolves R g \<Longrightarrow>
    evolves R (case answer of Answer n body \<Rightarrow> f n body | _ \<Rightarrow> g)"
  by (cases answer) simp_all

lemmas hushed_rules = hushing.rules hushing.case_sum hushed_outside evolves_http

lemma hushed_auth: "evolves hushed (case auth of
     Answer n body \<Rightarrow>
       if n \<noteq> 201 \<and> n \<noteq> 200 then throw Resolution_Unavailable
       else (case airflow_token body of Inl e \<Rightarrow> throw (unavailable_value e) | Inr u \<Rightarrow> ret u)
   | _ \<Rightarrow> throw Resolution_Unavailable)"
  by (intro hushed_rules)

lemma posts_trigger:
  assumes "en_parse_uuid env k = Some uid"
  shows "evolves (logs (log_post uid)) (trigger env k False)"
  unfolding trigger_def assms option.case
proof -
  let ?look = "\<lambda>existing. case existing of
      Answer n body \<Rightarrow>
        if n = 200
        then (case body_get body ''state'' (JStr ''queued'') of
                Inl e \<Rightarrow> throw (unavailable_value e) | Inr state \<Rightarrow> ret state)
        else if n \<noteq> 404 then throw Resolution_Unavailable
        else if False then ret (JStr ''not_found'')
        else trigger_post env uid
    | _ \<Rightarrow> throw Resolution_Unavailable"
  have look: "evolves (logs (log_post uid)) (?look existing)" for existing
    by (cases existing)
       (auto intro: hushed_logs hushing.throw hushing.case_sum hushing.ret posts_trigger_post)
  show "evolves (logs (log_post uid)) (bnd (outside (en_auth env)) (\<lambda>auth. bnd (case auth of
     Answer n body \<Rightarrow>
       if n \<noteq> 201 \<and> n \<noteq> 200 then throw Resolution_Unavailable
       else (case airflow_token body of Inl e \<Rightarrow> throw (unavailable_value e) | Inr u \<Rightarrow> ret u)
   | _ \<Rightarrow> throw Resolution_Unavailable) (\<lambda>_. bnd (outside (en_get_run env uid)) ?look)))"
    by (rule logs_after_hushed[OF hushed_log_post hushed_outside], assumption,
        rule logs_after_hushed[OF hushed_log_post hushed_auth], assumption,
        rule logs_after_hushed[OF hushed_log_post hushed_outside look])
qed

lemma hushed_trigger: "evolves hushed (trigger env k True)"
  unfolding trigger_def if_True by (intro hushed_rules hushed_auth)

lemma trigger_settles:
  assumes "requests_ok env w" and "trigger env k reconcile w = (r, v)" and "reconcile \<or> Post_Token k \<in> S"
    and "en_parse_uuid env k = None \<or> en_parse_uuid env k = Some k"
  shows "settles (requests_ok env) free_tokens spent_tokens S w v {}"
proof (cases "reconcile \<or> en_parse_uuid env k = None")
  case True
  have "evolves hushed (trigger env k reconcile)"
  proof (cases reconcile)
    case False
    with True show ?thesis by (simp add: trigger_def hushing.throw)
  qed (simp add: hushed_trigger)
  then have "hushed w v" using assms(2) by (metis evolvesD)
  then have "quiet w v" by (simp add: hushed_def quiet_def steady_def)
  then show ?thesis by (intro settles_calm quiet_calm assms(1)) auto
next
  case False
  then have "logs (log_post k) w v" using posts_trigger[of env k k] assms(2,4) by (auto dest: evolvesD)
  then have "settles (requests_ok env) free_tokens spent_tokens S w v (S - {Post_Token k})"
    using assms(1,3) False by (intro settles_logs[where f = "log_post k"]) (simp_all add: log_post_def spent_tokens_def)
  then show ?thesis unfolding settles_def by blast
qed

lemma steady_db_modify: "evolves steady (db_modify f)"
  by (simp add: evolves_def db_modify_def steady_def)

lemma steady_db_gets: "evolves steady (db_gets f)"
  unfolding db_gets_def by (rule steadiness.gets)

lemma steady_save_request: "evolves steady (save_request x h)"
  unfolding save_request_def by (intro steadiness.rules steady_db_modify steady_db_gets)

lemma steady_read_request: "evolves steady (read_request k)"
  unfolding read_request_def by (intro steadiness.rules steady_db_gets)

lemma recorded_new:
  assumes "distinct (map (\<lambda>q. rv_request_id (qr_request q)) rows)" and "q \<in> set rows"
    and "rv_request_id (qr_request q) = rv_request_id x" and "rv_result (qr_request q) = None" and "rv_result x \<noteq> None"
  shows "mset (map (\<lambda>q. rv_request_id (qr_request q)) (filter (\<lambda>q. rv_result (qr_request q) \<noteq> None)
        (sql_update (\<lambda>q. rv_request_id (qr_request q) = rv_request_id x) (\<lambda>q. q\<lparr>qr_request := x\<rparr>) rows))) =
      mset (map (\<lambda>q. rv_request_id (qr_request q)) (filter (\<lambda>q. rv_result (qr_request q) \<noteq> None) rows)) +
      {#rv_request_id x#}"
  using assms(1,2)
proof (induction rows)
  case (Cons p rows)
  show ?case
  proof (cases "p = q")
    case True
    then have "\<forall>r \<in> set rows. rv_request_id (qr_request r) \<noteq> rv_request_id x" using Cons.prems(1) assms(3) by force
    then have "sql_update (\<lambda>q. rv_request_id (qr_request q) = rv_request_id x) (\<lambda>q. q\<lparr>qr_request := x\<rparr>) rows = rows"
      by (intro sql_update_none) (auto simp: sql_any_iff)
    then show ?thesis using True assms(3-5) by (simp add: sql_update_def)
  next
    case False
    then have "rv_request_id (qr_request p) \<noteq> rv_request_id x" using Cons.prems assms(3) by force
    then show ?thesis using Cons False by (simp add: sql_update_def)
  qed
qed simp

lemma record_capture_settles:
  assumes "requests_ok env w" and "S \<inter> (free_tokens w \<union> set_mset (spent_tokens w)) = {}" and "Record_Token k \<in> S"
    and "record_capture env k res finished w = (a, v)"
  shows "settles (requests_ok env) free_tokens spent_tokens S w v {}"
  using assms(4) unfolding record_capture_def
proof (cases rule: control_transaction_cases)
  case unavailable
  then show ?thesis using assms(1) by (auto intro!: settles_calm calming.refl)
next
  case (rolled_back w0 c s u e)
  have "evolves steady (bnd (read_request k) (\<lambda>r. let x = r\<lparr>rv_result := Some res, rv_finished_at := Some finished,
      rv_expires_at := Some (finished + minutes 10)\<rparr> in save_request
          (if rv_deadline_at r < finished
           then x\<lparr>rv_status := Expired, rv_error_code := ''RequestDeadlineExceeded''\<rparr> else x) []))"
    unfolding Let_def by (intro steadiness.rules steady_read_request steady_save_request)
  from evolvesD[OF this rolled_back(2)] have "quiet w v"
    using steady_rollback[OF rolled_back(1)] rolled_back(3) by simp
  then show ?thesis using assms(1) by (intro settles_calm quiet_calm) auto
next
  case (committed w0 x c)
  note ok = ok_begin[OF committed(1) assms(1)] and tok = tokens_begin[OF committed(1)]
  from committed(2) obtain r where read: "read_request k w0 = (Inr r, w0)" and save:
      "save_request (if rv_deadline_at r < finished
         then r\<lparr>rv_result := Some res, rv_finished_at := Some finished, rv_expires_at := Some (finished + minutes 10),
                rv_status := Expired, rv_error_code := ''RequestDeadlineExceeded''\<rparr>
         else r\<lparr>rv_result := Some res, rv_finished_at := Some finished, rv_expires_at := Some (finished + minutes 10)\<rparr>) [] w0 = (Inr x, v)"
    (is "save_request ?x _ _ = _")
    using read_request_stored[OF ok] by (fastforce simp: bnd_Inr Let_def split: if_splits)
  have st: "stored env r w0" and k: "rv_request_id r = k" using read_request_stored[OF ok read] by auto
  define y where "y = ?x"
  have same: "rv_request_id y = rv_request_id r" by (simp add: y_def)
  have v: "v = write_request y w0" using save save_stored[OF st same] by (simp add: y_def)
  obtain q where q: "q \<in> set (db_requests (rw_db w0))" "qr_request q = r" using st by (auto simp: stored_def)
  have claimed: "rv_check_claimed r"
    using assms(2,3) tok unclaimed_stored[OF st, of "\<lambda>r. \<not> rv_check_claimed r"] k free_token_iff(3)[of k w0] by auto
  have none: "rv_result r = None"
  proof (rule ccontr)
    assume "rv_result r \<noteq> None"
    then have "k \<in> set (recorded (rw_db w0))" using q k by (auto simp: recorded_def image_iff)
    then have "Record_Token k \<in> set_mset (spent_tokens w0)" by (simp add: spent_tokens_def)
    then show False using assms(2,3) tok by auto
  qed
  have "request_ok r" using ok q by (auto simp: requests_ok_def)
  then have "request_ok y" using claimed none by (auto simp: request_ok_def y_def)
  then have fine: "requests_ok env v" unfolding v by (rule write_ok[OF ok])
  have keep: "unclaimed P v j \<longleftrightarrow> unclaimed P w0 j" if "P y \<longleftrightarrow> P r" for P j
    using that unclaimed_write[OF st same, of P j] unclaimed_stored[OF st, of P] v by auto
  have "unclaimed (\<lambda>r. rv_trigger_state r = Trigger_Pending) v = unclaimed (\<lambda>r. rv_trigger_state r = Trigger_Pending) w0"
    and "unclaimed (\<lambda>r. \<not> rv_check_claimed r) v = unclaimed (\<lambda>r. \<not> rv_check_claimed r) w0"
    by (rule ext, rule keep, simp add: y_def)+
  then have frees: "free_tokens v = free_tokens w" unfolding free_tokens_def using tok by (simp only: free_tokens_def)
  have rows: "db_requests (rw_db v) = sql_update (\<lambda>q. rv_request_id (qr_request q) = rv_request_id y)
      (\<lambda>q. q\<lparr>qr_request := y\<rparr>) (db_requests (rw_db w0))"
    by (simp add: v write_request_def)
  have "distinct (map (\<lambda>q. rv_request_id (qr_request q)) (db_requests (rw_db w0)))"
    using ok by (simp add: requests_ok_def request_ids_def)
  moreover have "rv_request_id (qr_request q) = rv_request_id y" "rv_result (qr_request q) = None"
    using q(2) same none by simp_all
  moreover have "rv_result y \<noteq> None" by (simp add: y_def)
  ultimately have "mset (recorded (rw_db v)) = mset (recorded (rw_db w0)) + {#rv_request_id y#}"
    unfolding recorded_def rows using q(1) by (intro recorded_new)
  then have "mset (recorded (rw_db v)) = mset (recorded (rw_db w0)) + {#k#}"
    unfolding same k .
  then have "spent_tokens v = spent_tokens w + mset [Record_Token k]"
    using tok unfolding v by (simp add: spent_tokens_def)
  with fine frees show ?thesis
    using assms(3) unfolding settles_def by (intro conjI exI[of _ "[Record_Token k]"]) simp_all
qed

section \<open>Every operation can be paid\<close>

lemma pays_atom_then:
  assumes "\<And>w r v. requests_ok env w \<Longrightarrow> S \<inter> (free_tokens w \<union> set_mset (spent_tokens w)) = {} \<Longrightarrow> m w = (r, v) \<Longrightarrow>
      \<exists>T. settles (requests_ok env) free_tokens spent_tokens S w v T \<and> pays env T (k r)"
  shows "pays env S (then_do (atom m) k)"
  using assms by (rule affords_atom_then)

lemma calm_atom_then:
  assumes "evolves (calm env) m" and "\<And>r. pays env S (k r)"
  shows "pays env S (then_do (atom m) k)"
  by (rule pays_atom_then) (use assms in \<open>blast intro: settles_calm dest: evolvesD\<close>)

lemma calm_atom_seq:
  assumes "evolves (calm env) m" and "\<And>r. pays env S (k r)"
  shows "pays env S (seq (atom m) k)"
  unfolding seq_def by (intro calm_atom_then assms(1)) (auto intro: affords_Finished assms(2) split: sum.split)

lemma calm_atom: "evolves (calm env) m \<Longrightarrow> pays env S (atom m)"
  by (intro calm_pays guarded_atom)

lemmas pays_rules = affords_Finished calm_atom_seq calm_atom affords_seq affords_each

lemma calm_service: "evolves (calm env) (service c)"
  by (rule calm_quiet[OF quiet_service])

lemma pays_dispatch:
  assumes "uuid_ok env"
  shows "pays env {} (dispatch_revalidation env k)"
  unfolding dispatch_revalidation_def
proof (rule calm_atom_seq[OF calm_airflow], unfold seq_def[of "atom (claim_trigger env k)"], rule pays_atom_then)
  fix w a v
  assume w: "requests_ok env w" and run: "claim_trigger env k w = (a, v)"
  have calm: "calm env w v" using calm_claim_trigger run by (rule evolvesD)
  let ?rest = "\<lambda>previous. then_do (atom (trigger env k (was_claimed previous))) (\<lambda>answer.
         case answer of
           Inr state \<Rightarrow> atom (trigger_answered env k state)
         | Inl e \<Rightarrow>
             if e \<noteq> Resolution_Unavailable then Finished (Inl e)
             else seq (atom (trigger_failed env k previous)) (\<lambda>(x, quiet).
                  Finished (if quiet then Inr x else Inl Resolution_Unavailable)))"
  have rest: "pays env T (?rest previous)"
    if "was_claimed previous \<or> Post_Token k \<in> T" and "en_parse_uuid env k = Some k" for T previous
  proof (rule pays_atom_then, rule exI, rule conjI)
    fix u b x assume "requests_ok env u" and "trigger env k (was_claimed previous) u = (b, x)"
    then show "settles (requests_ok env) free_tokens spent_tokens T u x {}"
      using that by (intro trigger_settles) auto
    show "pays env {} (case b of
           Inr state \<Rightarrow> atom (trigger_answered env k state)
         | Inl e \<Rightarrow>
             if e \<noteq> Resolution_Unavailable then Finished (Inl e)
             else seq (atom (trigger_failed env k previous)) (\<lambda>(x, quiet).
                  Finished (if quiet then Inr x else Inl Resolution_Unavailable)))"
      by (auto intro!: pays_rules calm_trigger_answered calm_trigger_failed split: sum.split)
  qed
  show "\<exists>T. settles (requests_ok env) free_tokens spent_tokens {} w v T \<and> pays env T (case a of
      Inl e \<Rightarrow> Finished (Inl e)
    | Inr p \<Rightarrow> case p of (r, claimed) \<Rightarrow> (case claimed of None \<Rightarrow> Finished (Inr r) | Some previous \<Rightarrow> ?rest previous))"
  proof (cases "\<exists>x previous. a = Inr (x, Some previous)")
    case True
    then obtain x previous where a: "a = Inr (x, Some previous)" by blast
    note takes = claim_trigger_takes[OF w run[unfolded a] assms]
    show ?thesis
    proof (cases "was_claimed previous")
      case True
      then show ?thesis using a takes rest[of previous "{}"] settles_calm[OF calm w, of "{}" "{}"] by auto
    next
      case False
      then have "Post_Token k \<in> free_tokens w - free_tokens v" using takes by auto
      then have "settles (requests_ok env) free_tokens spent_tokens {} w v {Post_Token k}"
        by (intro settles_calm[OF calm w]) auto
      then show ?thesis using a takes rest[of previous "{Post_Token k}"] by auto
    qed
  next
    case False
    then show ?thesis
      using settles_calm[OF calm w, of "{}" "{}"]
      by (intro exI[of _ "{}"]) (auto intro: affords_Finished split: sum.split prod.split option.split)
  qed
qed

lemma pays_less: "pays env {} p \<Longrightarrow> pays env S p"
  by (erule affords_less) simp

lemma pays_get: "uuid_ok env \<Longrightarrow> pays env S (get_revalidation env k)"
  unfolding get_revalidation_def
  by (auto intro!: pays_rules calm_read pays_less[OF pays_dispatch] split: option.split)

lemma pays_final: "uuid_ok env \<Longrightarrow> pays env S (final_status env k)"
  unfolding final_status_def by (intro pays_rules pays_get)

lemma pays_checks:
  assumes "uuid_ok env"
  shows "pays env {} (run_checks env k)"
  unfolding run_checks_def seq_def[of "atom (claim_check env k)"]
proof (rule pays_atom_then)
  fix w a v
  assume w: "requests_ok env w" and run: "claim_check env k w = (a, v)"
  have calm: "calm env w v" using calm_claim_check run by (rule evolvesD)
  let ?keep = "\<lambda>res. seq (atom (now env)) (\<lambda>finished. atom (record_capture env k res finished))"
  let ?rest = "\<lambda>r. seq (catch (seq (atom (capture env k (rv_scope r))) ?keep)
           (\<lambda>e. seq (atom (record_failure env k e)) (\<lambda>_. Finished (Inl Runtime_Error)))) (\<lambda>_. final_status env k)"
  have recording: "pays env T (?keep res)" if "Record_Token k \<in> T" for T res
  proof (rule calm_atom_seq[OF calm_quiet[OF quiet_now]])
    fix finished
    show "pays env T (atom (record_capture env k res finished))"
      by (rule affords_atom) (use that record_capture_settles in blast)
  qed
  have capture: "pays env T (seq (atom (capture env k sc)) ?keep)"
    if "Record_Token k \<in> T" "Capture_Token k \<in> T" for T sc
    unfolding seq_def[of "atom (capture env k sc)"]
  proof (rule pays_atom_then, rule exI, rule conjI)
    fix u b x assume "requests_ok env u" and "capture env k sc u = (b, x)"
    then show "settles (requests_ok env) free_tokens spent_tokens T u x (T - {Capture_Token k})"
      using that(2) by (intro capture_settles)
    show "pays env (T - {Capture_Token k}) (case b of Inl e \<Rightarrow> Finished (Inl e) | Inr res \<Rightarrow> ?keep res)"
      using recording[of "T - {Capture_Token k}"] that(1) by (auto intro: affords_Finished split: sum.split)
  qed
  have rest: "pays env {Capture_Token k, Record_Token k} (?rest r)" for r
    unfolding catch_def
    by (intro affords_seq affords_then_do capture pays_final assms)
       (auto intro!: pays_rules calm_record_failure split: sum.split)
  show "\<exists>T. settles (requests_ok env) free_tokens spent_tokens {} w v T \<and> pays env T (case a of
      Inl e \<Rightarrow> Finished (Inl e)
    | Inr claimed \<Rightarrow> (case claimed of
       Nothing_To_Do status \<Rightarrow> Finished (Inr (status, False))
     | Claim_Expired \<Rightarrow> Finished (Inr (Expired, False))
     | Claimed r \<Rightarrow> ?rest r))"
  proof (cases "\<exists>r. a = Inr (Claimed r)")
    case True
    then obtain r where a: "a = Inr (Claimed r)" by blast
    then have "{Capture_Token k, Record_Token k} \<subseteq> free_tokens w - free_tokens v"
      using claim_check_takes[OF w] run by blast
    then have "settles (requests_ok env) free_tokens spent_tokens {} w v {Capture_Token k, Record_Token k}"
      by (intro settles_calm[OF calm w]) auto
    then show ?thesis using rest a by auto
  next
    case False
    then show ?thesis
      using settles_calm[OF calm w, of "{}" "{}"]
      by (intro exI[of _ "{}"]) (auto intro: affords_Finished split: sum.split claim.split)
  qed
qed

lemma pays_synchronize: "pays env S (synchronize_with env k deliver before)"
  unfolding synchronize_with_def by (intro pays_rules calm_synchronize)

lemma pays_operation:
  assumes "uuid_ok env"
  shows "pays env {} (operation env c)"
proof (cases c)
  case (Publish cs)
  then show ?thesis
    by (auto simp: forget_def publish_candidates_def publish_candidate_def
        intro!: pays_rules calm_candidate pays_synchronize split: option.split)
next
  case (Triage s uri)
  then show ?thesis
    by (auto simp: forget_def transition_triaged_def intro!: pays_rules calm_triage pays_synchronize)
next
  case (Synchronize k deliver before)
  then show ?thesis
    by (auto simp: forget_def synchronize_incident_def intro!: pays_rules calm_service pays_synchronize)
next
  case (Preview reference)
  then show ?thesis
    by (auto simp: forget_def resolution_preview_def intro!: pays_rules calm_service calm_preview)
next
  case (Create reference body)
  then show ?thesis
    using assms by (auto simp: forget_def create_revalidation_def
        intro!: pays_rules calm_service calm_airflow calm_create pays_less[OF pays_dispatch])
next
  case (Dispatch k)
  then show ?thesis using assms by (auto simp: forget_def intro!: pays_rules pays_dispatch)
next
  case (Get k)
  then show ?thesis using assms by (auto simp: forget_def intro!: pays_rules pays_get)
next
  case (Confirm reference body before)
  then show ?thesis
    by (auto simp: forget_def confirm_resolution_def
        intro!: pays_rules calm_service calm_confirm pays_synchronize split: option.split)
next
  case (Stage k stage)
  then show ?thesis
    using assms by (auto simp: forget_def run_request_stage_def run_stage_def synchronize_incident_def
        intro!: pays_rules pays_get pays_less[OF pays_checks] calm_persist calm_notify calm_service pays_synchronize pays_final
        split: option.split)
qed

section \<open>Any interleaving of any operations\<close>

definition sound :: "'w env \<Rightarrow> 'w world \<Rightarrow> bool" where
  "sound env w \<longleftrightarrow> uuid_ok env \<and> requests_ok env w"

interpretation paid_work: tokens "sound env" free_tokens spent_tokens "operation env" for env
proof
  fix c
  show "affords (sound env) free_tokens spent_tokens {} (operation env c)"
  proof (cases "uuid_ok env")
    case True
    then have "sound env = requests_ok env" by (simp add: sound_def fun_eq_iff)
    then show ?thesis using pays_operation[OF True] by simp
  next
    case False
    then show ?thesis by (cases "operation env c") (auto intro: affords_Finished affords_Step simp: sound_def)
  qed
qed

text \<open>Before the first revalidation: identifiers may have been drawn, but no request exists.\<close>

definition no_requests :: "'w world \<Rightarrow> bool" where
  "no_requests w \<longleftrightarrow> db_requests (rw_db w) = [] \<and> rw_posted w = [] \<and> rw_captured w = []"

lemma no_requests_start:
  assumes "no_requests w" and "uuid_ok env"
  shows "sound env w" and "spent_tokens w = {#}"
  using assms by (simp_all add: no_requests_def sound_def requests_ok_def request_ids_def spent_tokens_def recorded_def)

lemma count_image_injective: "inj f \<Longrightarrow> count (mset (map f xs)) (f x) = count (mset xs) x"
  by (induction xs) (auto simp: inj_eq)

lemma distinct_by_count: "(\<And>x. count (mset xs) x \<le> 1) \<Longrightarrow> distinct xs"
  by (metis count_mset_0_iff distinct_count_atmost_1 le_antisym less_one linorder_not_less not_le_imp_less)

lemma requests_of_start:
  assumes "moves\<^sup>*\<^sup>* (w, map (operation env) ops) (v, ps)" and "no_requests w" and "uuid_ok env"
  shows "requests_ok env v" and "\<And>t. count (spent_tokens v) t \<le> 1" and "set_mset (spent_tokens v) \<inter> free_tokens v = {}"
  using paid_work.spent_once[OF assms(1) no_requests_start(1)[OF assms(2,3)]] no_requests_start(2)[OF assms(2,3)]
  by (simp_all add: sound_def)

text \<open>
  C8. Whatever API calls, workflow stages, alert producers and notifications run at the same time,
  and wherever one of them stops, an Airflow run is requested at most once for a revalidation
  request and its evidence is captured at most once, and only for a request whose trigger or whose
  check has been claimed in the database. A transaction whose acknowledgement is lost, a timeout
  of the POST and a retried API call are among the interleavings. The identifiers of \<open>uuid4\<close> do not
  repeat, and reading one back as a UUID gives it unchanged.
\<close>

theorem one_dispatch_and_one_capture:
  assumes "moves\<^sup>*\<^sup>* (w, map (operation env) ops) (v, ps)" and "no_requests w" and "uuid_ok env"
  shows "distinct (rw_posted v) \<and> distinct (rw_captured v) \<and>
    (\<forall>k \<in> set (rw_posted v). \<exists>q \<in> set (db_requests (rw_db v)).
       rv_request_id (qr_request q) = k \<and> rv_trigger_state (qr_request q) \<noteq> Trigger_Pending) \<and>
    (\<forall>k \<in> set (rw_captured v). \<exists>q \<in> set (db_requests (rw_db v)).
       rv_request_id (qr_request q) = k \<and> rv_check_claimed (qr_request q))"
proof (intro conjI ballI)
  note once = requests_of_start(2)[OF assms] and apart = requests_of_start(3)[OF assms]
  have inj: "inj Post_Token" "inj Capture_Token" by (simp_all add: inj_def)
  show "distinct (rw_posted v)"
    using once[of "Post_Token k" for k] count_image_injective[OF inj(1), of "rw_posted v"]
    by (intro distinct_by_count) (metis add_leD1 count_union spent_tokens_def)
  show "distinct (rw_captured v)"
    using once[of "Capture_Token k" for k] count_image_injective[OF inj(2), of "rw_captured v"]
    by (intro distinct_by_count) (metis add_leD1 add_leD2 count_union spent_tokens_def)
  fix k
  show "\<exists>q \<in> set (db_requests (rw_db v)). rv_request_id (qr_request q) = k \<and> rv_trigger_state (qr_request q) \<noteq> Trigger_Pending"
    if "k \<in> set (rw_posted v)"
  proof -
    have "Post_Token k \<notin> free_tokens v" using apart that by (auto simp: spent_tokens_def)
    then show ?thesis by (auto simp: unclaimed_def)
  qed
  show "\<exists>q \<in> set (db_requests (rw_db v)). rv_request_id (qr_request q) = k \<and> rv_check_claimed (qr_request q)"
    if "k \<in> set (rw_captured v)"
  proof -
    have "Capture_Token k \<notin> free_tokens v" using apart that by (auto simp: spent_tokens_def)
    then show ?thesis by (auto simp: unclaimed_def)
  qed
qed

text \<open>
  C22. Every stored revalidation request is well-formed at any time: its identifier is its own, its
  deadline is fifteen minutes after its creation, it reports \<open>pass\<close> or \<open>blocked\<close> only with a recorded
  result that says so, such a result expires ten minutes after the capture ended, a running or
  finished request was claimed by exactly the workflow that checks it, and a queued request
  has neither a rejected nor an absent trigger.
\<close>

theorem stored_requests_are_well_formed:
  assumes "moves\<^sup>*\<^sup>* (w, map (operation env) ops) (v, ps)" and "no_requests w" and "uuid_ok env"
  shows "distinct (map (\<lambda>q. rv_request_id (qr_request q)) (db_requests (rw_db v))) \<and>
    (\<forall>q \<in> set (db_requests (rw_db v)). request_ok (qr_request q))"
  using requests_of_start(1)[OF assms] by (simp add: requests_ok_def request_ids_def)

end
