(* ===== verification/Closure.thy ===== *)
theory Closure
  imports Revalidation
begin

text \<open>
  The life of an incident: how its versions follow each other under any interleaving, what a
  closure rests on, and what repeating one does.
\<close>

section \<open>From transactions to operations\<close>

text \<open>The failures that an operation publishes.\<close>

fun published :: "'w resolution_op \<Rightarrow> candidate set" where
  "published (Publish cs) = set cs"
| "published _ = {}"

text \<open>
  A relation that every transaction keeps, and that only looks at the database, holds along every
  operation: the steps between the transactions leave the database alone. Failures may be restricted
  to those in \<open>C\<close>.
\<close>

locale resolution_steps = evolution R for R :: "'w world \<Rightarrow> 'w world \<Rightarrow> bool" +
  fixes env :: "'w env" and C :: "candidate set"
  assumes same_db: "rw_db v = rw_db w \<Longrightarrow> R w v"
    and candidate: "c \<in> C \<Longrightarrow> evolves R (candidate_transaction env c)"
    and triage: "evolves R (triage_transaction env s uri)"
    and synchronize: "evolves R (synchronize_transaction env k deliver before)"
    and preview: "evolves R (preview_transaction env reference)"
    and create: "evolves R (create_transaction env reference cbody)"
    and confirm: "evolves R (confirm_transaction env reference rbody)"
    and requests: "evolves R (claim_trigger env k)" "evolves R (trigger_failed env k previous)"
      "evolves R (trigger_answered env k state)" "evolves R (read_transaction env k)"
      "evolves R (claim_check env k)" "evolves R (record_capture env k res finished)"
      "evolves R (record_failure env k e)" "evolves R (persist_transaction env k)"
      "evolves R (notify_transaction env k)"
begin

lemma outside_steps: "evolves R (service c)" "evolves R (now env)" "evolves R (airflow_client env)"
proof -
  show "evolves R (service c)" by (auto simp: evolves_def service_def same_db split: prod.split)
  show "evolves R (now env)" by (auto simp: evolves_def now_def outside_def same_db split: prod.split)
  show "evolves R (airflow_client env)" unfolding airflow_client_def by (rule require)
qed

lemma hushed_steps: "evolves hushed m \<Longrightarrow> evolves R m"
  by (erule evolves_mono) (simp add: hushed_def same_db)

lemma logged_steps:
  assumes "evolves (logs f) m" and "\<And>w. rw_db (f w) = rw_db w"
  shows "evolves R m"
  using assms(1) by (rule evolves_mono) (use assms(2) in \<open>auto simp: logs_def hushed_def intro: same_db\<close>)

lemma capture_steps: "evolves R (capture env k sc)"
  by (rule logged_steps[OF capture_logs]) (simp add: log_capture_def)

lemma trigger_steps: "evolves R (trigger env k reconcile)"
proof (cases "reconcile \<or> en_parse_uuid env k = None")
  case True
  then have "evolves hushed (trigger env k reconcile)"
    using hushed_trigger by (cases reconcile) (auto simp: trigger_def hushing.throw)
  then show ?thesis by (rule hushed_steps)
next
  case False
  then obtain uid where "en_parse_uuid env k = Some uid" by auto
  then have "evolves (logs (log_post uid)) (trigger env k reconcile)" using posts_trigger False by auto
  then show ?thesis by (rule logged_steps) (simp add: log_post_def)
qed

lemmas all_steps = outside_steps triage synchronize preview create confirm requests capture_steps trigger_steps

lemmas guarded_steps = guarded_Finished guarded_seq guarded_catch guarded_each guarded_then_do
  all_steps[THEN guarded_atom] candidate[THEN guarded_atom]

lemma dispatch: "guarded R (dispatch_revalidation env k)"
  unfolding dispatch_revalidation_def by (auto intro!: guarded_steps split: option.split sum.split)

lemma get: "guarded R (get_revalidation env k)"
  unfolding get_revalidation_def by (auto intro!: guarded_steps dispatch split: option.split)

lemma checks: "guarded R (run_checks env k)"
  unfolding run_checks_def final_status_def by (auto intro!: guarded_steps get split: claim.split)

lemma operation: "published c \<subseteq> C \<Longrightarrow> guarded R (operation env c)"
  by (cases c)
     (auto simp: forget_def publish_candidates_def publish_candidate_def transition_triaged_def
       synchronize_incident_def synchronize_with_def resolution_preview_def create_revalidation_def
       confirm_resolution_def run_request_stage_def run_stage_def final_status_def
      intro!: guarded_steps dispatch get checks split: option.split)

end

section \<open>Versions of an incident\<close>

definition keeps_identity :: "incident \<Rightarrow> incident \<Rightarrow> bool" where
  "keeps_identity i j \<longleftrightarrow> in_alert_key j = in_alert_key i \<and> in_alert_ref j = in_alert_ref i \<and>
     in_revision j = in_revision i + 1 \<and> sn_updated_at (in_snapshot i) < sn_updated_at (in_snapshot j)"

abbreviation resolution_of :: "incident \<Rightarrow> decision option" where
  "resolution_of i \<equiv> de_resolution (sn_details (in_snapshot i))"

text \<open>A failure after the closure: detected later, and another check run or a schema drift.\<close>

definition fails_again :: "candidate \<Rightarrow> incident \<Rightarrow> bool" where
  "fails_again c i \<longleftrightarrow> in_status i = ''resolved'' \<and>
     (\<exists>t. (ca_source_run_at c = Some t \<or> ca_source_run_at c = None \<and> ca_detected_at c = Some t) \<and>
        (case resolution_of i of Some d \<Rightarrow> rd_resolved_at d < t | None \<Rightarrow> sn_updated_at (in_snapshot i) < t)) \<and>
     (ca_alert_type c = ''schema_drift'' \<or>
        or_empty (ca_source_check_run_id c) \<noteq> or_empty (sn_source_check_run_id (in_snapshot i)))"

lemma reopens_fails_again: "reopens c i \<Longrightarrow> fails_again c i"
  by (auto simp: reopens_def fails_again_def detected_at_def resolved_time_def split: option.splits)

text \<open>\<open>C\<close> are the failures that were published meanwhile; only one of them can open an incident again.\<close>

inductive incident_step :: "candidate set \<Rightarrow> incident \<Rightarrow> incident \<Rightarrow> bool" for C where
  triaged: "keeps_identity i j \<Longrightarrow> in_status i \<noteq> ''resolved'' \<Longrightarrow> in_status j = ''triaged'' \<Longrightarrow>
     in_episode j = in_episode i \<Longrightarrow> sn_details (in_snapshot j) = sn_details (in_snapshot i) \<Longrightarrow> incident_step C i j"
| late_report: "keeps_identity i j \<Longrightarrow> in_status i = ''resolved'' \<Longrightarrow> in_status j = ''resolved'' \<Longrightarrow>
     in_episode j = in_episode i \<Longrightarrow> sn_details (in_snapshot j) = sn_details (in_snapshot i) \<Longrightarrow> incident_step C i j"
| closed: "keeps_identity i j \<Longrightarrow> in_status i \<noteq> ''resolved'' \<Longrightarrow> in_status j = ''resolved'' \<Longrightarrow>
     in_episode j = in_episode i \<Longrightarrow> resolution_of j = Some d \<Longrightarrow> rd_incident_revision d = in_revision j \<Longrightarrow>
     incident_step C i j"
| reopened: "keeps_identity i j \<Longrightarrow> c \<in> C \<Longrightarrow> fails_again c i \<Longrightarrow> in_status j = ''open'' \<Longrightarrow>
     in_episode j = in_episode i + 1 \<Longrightarrow>
     in_snapshot j = (apply_candidate c \<lparr>de_producer = ca_details c, de_resolution = None,
        de_history = de_history (sn_details (in_snapshot i)) @ [resolution_of i]\<rparr> (in_snapshot i))
        \<lparr>sn_updated_at := sn_updated_at (in_snapshot j), sn_resolved_at := None\<rparr> \<Longrightarrow> incident_step C i j"

definition first_version :: "incident \<Rightarrow> bool" where
  "first_version i \<longleftrightarrow> in_revision i = 1 \<and> in_episode i = 1"

definition one_per_key :: "resolution_db \<Rightarrow> bool" where
  "one_per_key d \<longleftrightarrow> distinct (map in_alert_key (db_incidents d))"

definition tracked :: "candidate set \<Rightarrow> 'w world \<Rightarrow> 'w world \<Rightarrow> bool" where
  "tracked C w v \<longleftrightarrow> (one_per_key (rw_db w) \<longrightarrow> one_per_key (rw_db v) \<and>
     rows_evolve (incident_step C) first_version (db_incidents (rw_db w)) (db_incidents (rw_db v)))"

definition idle :: "'w world \<Rightarrow> 'w world \<Rightarrow> bool" where
  "idle w v \<longleftrightarrow> db_incidents (rw_db v) = db_incidents (rw_db w)"

interpretation tracking: evolution "tracked C" for C
  by unfold_locales (auto simp: tracked_def intro: rows_evolve_trans)

interpretation idling: evolution idle
  by unfold_locales (auto simp: idle_def)

lemma idle_tracked: "idle w v \<Longrightarrow> tracked C w v"
  by (simp add: idle_def tracked_def one_per_key_def)

lemma tracked_idle: "evolves idle m \<Longrightarrow> evolves (tracked C) m"
  by (erule evolves_mono) (rule idle_tracked)

subsection \<open>Statements that do not touch the incidents\<close>

lemma idle_service: "evolves idle (service c)"
  by (simp add: evolves_def service_def idle_def split: prod.split)

lemma idle_outside: "evolves idle (outside c)"
  by (simp add: evolves_def outside_def idle_def split: prod.split)

lemma idle_now: "evolves idle (now env)"
  unfolding now_def by (rule idle_outside)

lemma idle_uuid4: "evolves idle (uuid4 env)"
  by (simp add: evolves_def uuid4_def idle_def)

lemma idle_db_gets: "evolves idle (db_gets f)"
  unfolding db_gets_def by (rule idling.gets)

lemma idle_db_modify: "(\<And>d. db_incidents (f d) = db_incidents d) \<Longrightarrow> evolves idle (db_modify f)"
  by (simp add: evolves_def db_modify_def idle_def)

lemmas idle_rules = idling.rules idling.case_prod idle_service idle_now idle_uuid4 idle_db_gets

lemma idle_save_request: "evolves idle (save_request r h)"
  unfolding save_request_def by (intro idle_rules idle_db_modify) simp_all

lemma idle_event: "evolves idle (event env i kind payload)"
  unfolding event_def by (intro idle_rules idle_db_modify) simp

lemma idle_insert_key: "evolves idle (insert_key k)"
  unfolding insert_key_def by (intro idle_db_modify) simp

lemma idle_insert_decision: "evolves idle (insert_decision r)"
  unfolding insert_decision_def by (intro idle_rules idle_db_modify) simp

lemma idle_update_event: "evolves idle (update_event k f)"
  unfolding update_event_def by (intro idle_db_modify) simp

lemma idle_source: "evolves idle (source env reference)"
  unfolding source_def by (intro idle_rules)

lemma idle_read_request: "evolves idle (read_request k)"
  unfolding read_request_def by (intro idle_rules)

lemma idle_read_incident: "evolves idle (read_incident k)"
  unfolding read_incident_def by (intro idle_rules)

lemma idle_read_incident_row: "evolves idle (read_incident_row k)"
  unfolding read_incident_row_def by (intro idle_rules idle_read_incident)

lemma idle_next_version: "evolves idle (next_version env i status)"
  unfolding next_version_def by (intro idle_rules)

lemma idle_blockers: "evolves idle (remediation_blockers env i t)"
  unfolding remediation_blockers_def by (intro idle_rules)

lemmas idle_statements = idle_rules idle_save_request idle_event idle_insert_key idle_insert_decision
  idle_update_event idle_source idle_read_request idle_read_incident idle_read_incident_row idle_next_version idle_blockers

lemma idle_newer: "evolves idle (newer_blockers env r)"
  unfolding newer_blockers_def Let_def by (auto intro!: idle_statements split: option.split)

lemma idle_expire: "evolves idle (expire_if_due env r)"
  unfolding expire_if_due_def Let_def by (intro idle_statements)

lemma idle_latest: "evolves idle (latest_request env i)"
  unfolding latest_request_def by (intro idle_statements idle_expire)

lemma idle_open_request: "evolves idle (open_request env i digest actor)"
  unfolding open_request_def Let_def by (intro idle_statements)

lemma idle_notify: "evolves idle (notify_event env e)"
  unfolding notify_event_def by (intro idle_statements)

lemma idle_deliver: "evolves idle (deliver_event env deliver before i e)"
  unfolding deliver_event_def by (intro idle_statements idle_notify)

lemma idle_deliver_all: "evolves idle (deliver_events env deliver before i es)"
  by (induction es) (simp_all only: deliver_events.simps, (intro idle_statements idle_deliver)+)

lemma idle_reopen: "evolves idle (reopen env c i)"
  unfolding reopen_def Let_def by (intro idle_statements)

lemma idle_completed: "evolves idle (completed_event env r refs)"
  unfolding completed_event_def by (intro idle_statements)

subsection \<open>Writing an incident that was read in the same transaction\<close>

definition held :: "incident \<Rightarrow> 'w world \<Rightarrow> bool" where
  "held i w \<longleftrightarrow> (one_per_key (rw_db w) \<longrightarrow> i \<in> set (db_incidents (rw_db w)))"

lemma held_idle: "held i w \<Longrightarrow> idle w v \<Longrightarrow> held i v"
  by (simp add: held_def idle_def one_per_key_def)

text \<open>\<open>successor C i k\<close>: the version that a transaction which read \<open>i\<close> may save.\<close>

definition successor :: "candidate set \<Rightarrow> incident \<Rightarrow> incident \<Rightarrow> bool" where
  "successor C i k \<longleftrightarrow> k = i \<or> incident_step C i k"

lemma step_identity: "incident_step C i j \<Longrightarrow> in_alert_key j = in_alert_key i \<and> in_alert_ref j = in_alert_ref i"
  by (auto elim!: incident_step.cases simp: keeps_identity_def)

lemma save_held:
  assumes "held i w" and "successor C i k"
  shows "tracked C w (snd (save_incident k w))"
proof -
  let ?rows = "db_incidents (rw_db w)" and ?P = "\<lambda>r. in_alert_key r = in_alert_key k"
  let ?new = "sql_update ?P (\<lambda>r. k\<lparr>in_alert_ref := in_alert_ref r\<rparr>) ?rows"
  have same: "in_alert_key k = in_alert_key i" "in_alert_ref k = in_alert_ref i"
    using assms(2) step_identity by (auto simp: successor_def)
  show ?thesis
  proof (cases "one_per_key (rw_db w)")
    case True
    then have i: "i \<in> set ?rows" using assms(1) by (simp add: held_def)
    have only: "r = i" if "r \<in> set ?rows" "?P r" for r
      using that i True same find_distinct_key[of in_alert_key ?rows] unfolding one_per_key_def
      by (metis option.inject)
    have any: "sql_any ?P ?rows" using i same by (auto simp: sql_any_iff)
    have updated: "rows_evolve (incident_step C) first_version ?rows ?new"
    proof (cases "k = i")
      case True
      have "i\<lparr>in_alert_ref := in_alert_ref i\<rparr> = i" by simp
      then have "(if ?P r then k\<lparr>in_alert_ref := in_alert_ref r\<rparr> else r) = r" if "r \<in> set ?rows" for r
        using only[OF that] True by metis
      then have "?new = ?rows" unfolding sql_update_def by (intro map_idI)
      then show ?thesis by simp
    next
      case False
      then have "incident_step C i (k\<lparr>in_alert_ref := in_alert_ref i\<rparr>)"
        using assms(2) same(2)[symmetric] by (simp add: successor_def)
      then show ?thesis using only by (intro rows_evolve_update) blast
    qed
    have "map in_alert_key ?new = map in_alert_key ?rows" by (intro map_sql_update) simp
    then have "one_per_key (rw_db w \<lparr>db_incidents := ?new\<rparr>)" using True by (simp add: one_per_key_def)
    with updated any show ?thesis
      by (simp add: save_incident_def bnd_def db_gets_def db_modify_def tracked_def)
  qed (simp add: tracked_def)
qed

lemma under_bnd:
  assumes "under P (tracked C) m" and "\<And>s x t. P s \<Longrightarrow> m s = (Inr x, t) \<Longrightarrow> G x t" and "\<And>x. under (G x) (tracked C) (f x)"
  shows "under P (tracked C) (bnd m f)"
  unfolding under_def
proof (intro allI impI)
  fix s assume s: "P s"
  obtain a t where m: "m s = (a, t)" by fastforce
  then have st: "tracked C s t" using assms(1) s by (metis under_def snd_conv)
  show "tracked C s (snd (bnd m f s))"
  proof (cases a)
    case (Inr x)
    then show ?thesis using m tracking.trans[OF st] assms(2)[OF s] assms(3) by (simp add: under_def)
  qed (use m st in simp)
qed

lemma under_evolves: "evolves R m \<Longrightarrow> under P R m"
  by (simp add: under_def evolves_def)

lemma evolves_under: "under (\<lambda>_. True) R m \<Longrightarrow> evolves R m"
  by (simp add: under_def evolves_def)

lemma under_idle_bnd:
  assumes "evolves idle m" and "\<And>x. under (held i) (tracked C) (f x)"
  shows "under (held i) (tracked C) (bnd m f)"
  by (rule under_bnd[where G = "\<lambda>_. held i", OF under_evolves[OF tracked_idle[OF assms(1)]]])
     (use assms held_idle in \<open>blast dest: evolvesD\<close>)+

lemma under_saved:
  "successor C i k \<Longrightarrow> (\<And>u. evolves (tracked C) (f u)) \<Longrightarrow> under (held i) (tracked C) (bnd (save_incident k) f)"
  by (rule under_bnd[where G = "\<lambda>_ _. True"]) (auto simp: under_def evolves_def save_held)

lemma read_incident_held: "read_incident k s = (Inr (Some i), t) \<Longrightarrow> held i t \<and> t = s"
  by (auto simp: read_incident_def db_gets_def held_def dest: find_SomeD)

lemma initialize_tracked: "evolves (tracked C) (initialize row)"
proof (rule evolvesI)
  fix s
  show "tracked C s (snd (initialize row s))"
  proof (cases row)
    case (Some r)
    show ?thesis
    proof (cases "find (\<lambda>i. in_alert_key i = sn_alert_key r) (db_incidents (rw_db s))")
      case None
      then have none: "\<not> sql_any (\<lambda>i. in_alert_key i = sn_alert_key r) (db_incidents (rw_db s))"
        by (simp add: find_None_iff_any)
      then have "one_per_key (rw_db s) \<Longrightarrow>
          one_per_key (rw_db s \<lparr>db_incidents := db_incidents (rw_db s) @ [new_incident r]\<rparr>)"
        by (auto simp: one_per_key_def sql_any_iff new_incident_def)
      then show ?thesis
        using None none rows_evolve_insert[of first_version "new_incident r" "incident_step C" "db_incidents (rw_db s)"]
        by (auto simp: initialize_def Some read_incident_def db_gets_def db_modify_def save_incident_def bnd_def
            tracked_def first_version_def new_incident_def split: prod.split sum.split)
    qed (simp add: initialize_def Some read_incident_def db_gets_def bnd_def tracking.refl)
  qed (simp add: initialize_def tracking.refl)
qed

lemma initialize_held:
  assumes "initialize row s = (Inr i, t)"
  shows "held i t"
proof (cases row)
  case None
  then show ?thesis using assms by (simp add: initialize_def)
next
  case (Some r)
  show ?thesis
  proof (cases "find (\<lambda>i. in_alert_key i = sn_alert_key r) (db_incidents (rw_db s))")
    case None
    then have "\<not> sql_any (\<lambda>i. in_alert_key i = sn_alert_key r) (db_incidents (rw_db s))"
      by (simp add: find_None_iff_any)
    then show ?thesis
      using assms None by (auto simp: initialize_def Some read_incident_def db_gets_def db_modify_def save_incident_def
          bnd_Inr held_def new_incident_def split: if_splits)
  next
    case (Some j)
    then show ?thesis
      using assms \<open>row = Some r\<close> by (auto simp: initialize_def read_incident_def db_gets_def bnd_def held_def dest: find_SomeD)
  qed
qed

lemma under_initialize_bnd:
  "(\<And>i. under (held i) (tracked C) (f i)) \<Longrightarrow> evolves (tracked C) (bnd (initialize row) f)"
  by (rule evolves_under, rule under_bnd[where G = held, OF under_evolves[OF initialize_tracked]])
     (auto intro: initialize_held)

lemma next_version_step:
  assumes "next_version env i status s = (Inr j, t)"
  shows "keeps_identity i j" and "in_status j = status" and "in_episode j = in_episode i"
    and "sn_details (in_snapshot j) = sn_details (in_snapshot i)"
  using assms by (auto simp: next_version_def bnd_Inr keeps_identity_def milliseconds_def)

lemma next_version_candidate:
  assumes "next_version env i status s = (Inr j, t)"
  shows "(apply_candidate c d (in_snapshot j))\<lparr>sn_resolved_at := None\<rparr> =
    (apply_candidate c d (in_snapshot i))\<lparr>sn_updated_at := sn_updated_at (in_snapshot j), sn_resolved_at := None\<rparr>"
proof -
  obtain u where "in_snapshot j = (in_snapshot i)\<lparr>sn_status := status, sn_updated_at := u\<rparr>"
    using assms by (auto simp: next_version_def bnd_Inr)
  then show ?thesis by (simp add: apply_candidate_def)
qed

lemma tracked_transaction:
  assumes "evolves (tracked C) body"
  shows "evolves (tracked C) (control_transaction env body)"
proof (rule evolvesI)
  fix w
  obtain r v where run: "control_transaction env body w = (r, v)" by fastforce
  then have "tracked C w v"
  proof (cases rule: control_transaction_cases)
    case (committed w0 x c)
    then have "tracked C w0 v" using assms by (metis evolvesD)
    then show ?thesis using begin_transaction_parts[OF committed(1)] by (simp add: tracked_def)
  next
    case (rolled_back w0 c s u e)
    then show ?thesis using begin_transaction_parts[OF rolled_back(1)] by (simp add: idle_tracked idle_def)
  qed (simp add: tracking.refl)
  then show "tracked C w (snd (control_transaction env body w))" by (simp add: run)
qed

subsection \<open>The transactions\<close>

lemma tracked_triage: "evolves (tracked C) (triage_transaction (env :: 'w env) s uri)"
proof -
  have step: "under (held i) (tracked C) (bnd (next_version env i status) (\<lambda>j.
       bnd (save_incident (j\<lparr>in_snapshot := (in_snapshot j)\<lparr>sn_report_s3_uri := uri\<rparr>\<rparr>)) (f j)))"
    if "status = (if in_status i = ''resolved'' then ''resolved'' else ''triaged'')" and "\<And>j u. evolves (tracked C) (f j u)"
    for i status and f :: "incident \<Rightarrow> unit \<Rightarrow> ('w, 'a) rprog"
  proof (rule under_bnd[where G = "\<lambda>j t. held i t \<and> incident_step C i (j\<lparr>in_snapshot := (in_snapshot j)\<lparr>sn_report_s3_uri := uri\<rparr>\<rparr>)"])
    show "under (held i) (tracked C) (next_version env i status)"
      by (intro under_evolves tracked_idle idle_next_version)
    fix s j t assume "held i s" and run: "next_version env i status s = (Inr j, t)"
    then have "held i t" using held_idle evolvesD[OF idle_next_version run] by blast
    moreover note next_version_step[OF run]
    ultimately show "held i t \<and> incident_step C i (j\<lparr>in_snapshot := (in_snapshot j)\<lparr>sn_report_s3_uri := uri\<rparr>\<rparr>)"
      using that(1) by (cases "in_status i = ''resolved''")
        (auto intro: incident_step.triaged incident_step.late_report simp: keeps_identity_def)
  next
    fix j
    show "under (\<lambda>t. held i t \<and> incident_step C i (j\<lparr>in_snapshot := (in_snapshot j)\<lparr>sn_report_s3_uri := uri\<rparr>\<rparr>)) (tracked C)
        (bnd (save_incident (j\<lparr>in_snapshot := (in_snapshot j)\<lparr>sn_report_s3_uri := uri\<rparr>\<rparr>)) (f j))"
      using under_saved[of C i "j\<lparr>in_snapshot := (in_snapshot j)\<lparr>sn_report_s3_uri := uri\<rparr>\<rparr>" "f j"] that(2)
      by (auto simp: under_def successor_def)
  qed
  show ?thesis
    unfolding triage_transaction_def Let_def
    by (intro tracked_transaction under_initialize_bnd under_if step under_evolves tracking.rules tracked_idle[OF idle_event])
       simp
qed

lemma tracked_candidate:
  assumes c: "c \<in> C"
  shows "evolves (tracked C) (candidate_transaction (env :: 'w env) c)"
proof -
  define good where "good found s = (case found of None \<Rightarrow> True | Some i \<Rightarrow> held i s)" for found and s :: "'w world"
  define ready where "ready changed s = (case changed of None \<Rightarrow> True | Some k \<Rightarrow> (\<exists>i. held i s \<and> successor C i k))"
    for changed and s :: "'w world"
  let ?lookup = "\<lambda>known. case known of
            Some i \<Rightarrow> ret (Some i)
          | None \<Rightarrow>
              bnd (handle (source env (ca_alert_key c)) (\<lambda>e. if e = Lookup_Error then ret None else throw e)) (\<lambda>previous.
              case previous of
                None \<Rightarrow> ret None
              | Some s \<Rightarrow> bnd (initialize (Some s)) (\<lambda>i. ret (Some i)))"
  let ?change = "\<lambda>found. case found of Some i \<Rightarrow> reopen env c i | None \<Rightarrow> open_new env c"
  let ?finish = "\<lambda>changed. case changed of
       None \<Rightarrow> ret None
     | Some i \<Rightarrow>
         bnd (save_incident i) (\<lambda>_.
         bnd (event env i ''incident_detected'' (Actor_Payload ''alert_producer'')) (\<lambda>_.
         ret (Some i)))"
  have found: "good known t" if "read_incident k s = (Inr known, t)" for k s known t
    using that read_incident_held by (cases known) (auto simp: good_def)
  have lookup: "under (good known) (tracked C) (?lookup known)" for known
    by (intro under_evolves) (auto intro!: tracking.rules tracked_idle[OF idle_source] initialize_tracked split: option.split)
  have looked: "good found t" if "good known s" and "?lookup known s = (Inr found, t)" for known found s t
    using that by (auto simp: good_def bnd_Inr split: option.splits dest: initialize_held)
  have new: "evolves (tracked C) (open_new env c)"
    unfolding open_new_def by (intro tracking.rules tracked_idle[OF idle_now] tracked_idle[OF idle_uuid4] initialize_tracked)
  have change: "under (good found) (tracked C) (?change found)" for found
    by (intro under_evolves) (auto intro: new tracked_idle[OF idle_reopen] split: option.split)
  have changed: "ready changed t" if "good found s" and "?change found s = (Inr changed, t)" for found changed s t
  proof (cases found)
    case None
    then show ?thesis
      using that(2) by (fastforce simp: open_new_def bnd_Inr ready_def successor_def dest: initialize_held)
  next
    case (Some i)
    then have "held i t" using that held_idle evolvesD[OF idle_reopen] by (fastforce simp: good_def)
    moreover have "successor C i k" if "changed = Some k" for k
    proof -
      from \<open>?change found s = (Inr changed, t)\<close> that Some obtain j u where r: "reopens c i"
        and n: "next_version env (i\<lparr>in_episode := in_episode i + 1\<rparr>) ''open'' s = (Inr j, u)"
        and k: "k = j\<lparr>in_snapshot := (apply_candidate c \<lparr>de_producer = ca_details c, de_resolution = None,
            de_history = de_history (sn_details (in_snapshot i)) @ [resolution_of i]\<rparr> (in_snapshot j))\<lparr>sn_resolved_at := None\<rparr>\<rparr>"
        by (auto simp: reopen_def bnd_Inr Let_def split: if_splits)
      let ?d = "\<lparr>de_producer = ca_details c, de_resolution = None,
        de_history = de_history (sn_details (in_snapshot i)) @ [resolution_of i]\<rparr>"
      have at: "sn_updated_at (in_snapshot k) = sn_updated_at (in_snapshot j)" by (simp add: k apply_candidate_def)
      have snap: "in_snapshot k = (apply_candidate c ?d (in_snapshot i))
          \<lparr>sn_updated_at := sn_updated_at (in_snapshot k), sn_resolved_at := None\<rparr>"
        unfolding at using next_version_candidate[OF n, of c ?d] by (simp add: k)
      have "incident_step C i k"
        by (rule incident_step.reopened[OF _ c reopens_fails_again[OF r] _ _ snap])
           (use next_version_step[OF n] in \<open>simp_all add: k keeps_identity_def apply_candidate_def\<close>)
      then show ?thesis by (simp add: successor_def)
    qed
    ultimately show ?thesis by (auto simp: ready_def split: option.split)
  qed
  have fin: "under (ready changed) (tracked C) (?finish changed)" for changed
  proof (cases changed)
    case (Some k)
    have "under (\<lambda>s. held i s \<and> successor C i k) (tracked C) (?finish changed)" for i
      using under_saved[of C i k "\<lambda>_. bnd (event env k ''incident_detected'' (Actor_Payload ''alert_producer'')) (\<lambda>_. ret (Some k))"]
      by (auto simp: under_def Some intro!: tracking.rules tracked_idle[OF idle_event])
    then show ?thesis by (auto simp: under_def ready_def Some)
  qed (intro under_evolves, simp add: tracking.ret)
  have "under (\<lambda>_. True) (tracked C) (bnd (read_incident (ca_alert_key c)) (\<lambda>known. bnd (?lookup known) (\<lambda>found.
      bnd (?change found) ?finish)))"
    by (rule under_bnd[where G = good, OF under_evolves[OF tracked_idle[OF idle_read_incident]]],
        erule found,
        rule under_bnd[where G = good, OF lookup], erule (1) looked,
        rule under_bnd[where G = ready, OF change], erule (1) changed, rule fin)
  then show ?thesis unfolding candidate_transaction_def by (intro tracked_transaction evolves_under)
qed

lemma first_failure_Inr: "first_failure cs = Inr u \<longleftrightarrow> list_all fst cs"
  by (induction cs rule: first_failure.induct) auto

text \<open>What the gate lets through, in one formula.\<close>

definition evidence_holds :: "scope \<Rightarrow> check_result \<Rightarrow> bool" where
  "evidence_holds sc res \<longleftrightarrow> re_status res = Verdict_Pass \<and>
     re_references res \<noteq> [] \<and> (\<forall>x \<in> set (re_references res). strip x \<noteq> []) \<and>
     re_checks res \<noteq> [] \<and>
     (\<forall>x \<in> set (re_checks res). ck_status x = Some ''pass'' \<and> ck_table_name x = Some (sc_table_name sc)) \<and>
     (sc_kind sc = ''dq_failure'' \<longrightarrow>
        (\<forall>x \<in> set (re_checks res). ck_dt x = Some (sc_dt sc)) \<and> (\<exists>x \<in> set (re_checks res). targets_rule sc x))"

definition captured_within :: "revalidation \<Rightarrow> check_result \<Rightarrow> int \<Rightarrow> int \<Rightarrow> bool" where
  "captured_within r res finished current \<longleftrightarrow>
     rv_finished_at r = Some finished \<and> rv_created_at r \<le> finished \<and> finished \<le> current \<and> finished \<le> rv_deadline_at r \<and>
     (\<exists>expires. rv_expires_at r = Some expires \<and> current < expires \<and> expires \<le> finished + minutes 10) \<and>
     within (capture_start r) (re_observed_at res) finished \<and>
     (\<forall>x \<in> set (re_checks res). within (capture_start r) (evidence_time x) finished)"

lemma validate_closure_iff:
  "validate_closure i r n current contract schema watermark blockers = Inr u \<longleftrightarrow>
     in_status i \<noteq> ''resolved'' \<and> in_revision i = n \<and> rv_incident_revision r = n \<and>
     rv_alert_key r = in_alert_key i \<and> rv_scope r = scope_for (in_snapshot i) \<and> rv_status r = Pass \<and>
     (\<exists>res finished. rv_result r = Some res \<and> evidence_holds (rv_scope r) res \<and>
        captured_within r res finished current \<and>
        contract = rv_contract_hash r \<and> contract = re_contract_hash res \<and>
        schema = re_schema_hash res \<and> watermark = re_data_watermark res) \<and> blockers = []"
  unfolding validate_closure_def Let_def first_failure_Inr
  by (auto simp: evidence_holds_def captured_within_def known_check_def list_all_iff list_ex_iff split: option.splits)

lemma validate_open: "validate_closure i r n t c h m bs = Inr u \<Longrightarrow> in_status i \<noteq> ''resolved''"
  by (simp add: validate_closure_iff)

definition closed_version :: "incident \<Rightarrow> revalidation \<Rightarrow> check_result \<Rightarrow> incident_resolve \<Rightarrow> int \<Rightarrow> incident" where
  "closed_version j r res body resolved_at = j\<lparr>in_snapshot := (in_snapshot j)\<lparr>
     sn_details := (sn_details (in_snapshot j))\<lparr>de_resolution := Some (decision_of j r res body resolved_at)\<rparr>,
     sn_resolved_at := Some resolved_at\<rparr>\<rparr>"

lemma closed_step:
  assumes "next_version env i ''resolved'' s = (Inr j, t)" and "in_status i \<noteq> ''resolved''"
  shows "incident_step C i (closed_version j r res body at)"
  using next_version_step[OF assms(1)] assms(2)
  by (intro incident_step.closed[where d = "decision_of j r res body at"])
     (simp_all add: closed_version_def keeps_identity_def decision_of_def)

lemma tracked_close: "under (held i) (tracked C) (close_incident env i r body digest)"
proof -
  let ?save = "\<lambda>j resolved_at. case rv_result r of
       None \<Rightarrow> throw Type_Error
     | Some res \<Rightarrow>
         let d = decision_of j r res body resolved_at;
             k = j\<lparr>in_snapshot := (in_snapshot j)\<lparr>
                   sn_details := (sn_details (in_snapshot j))\<lparr>de_resolution := Some d\<rparr>,
                   sn_resolved_at := Some resolved_at\<rparr>\<rparr>
         in bnd (save_incident k) (\<lambda>_.
            bnd (insert_decision \<lparr>dr_hash = digest, dr_alert_key = in_alert_key i,
                   dr_request_id = rv_request_id r, dr_record = d\<rparr>) (\<lambda>_.
            bnd (event env k ''incident_resolved'' (Resolved_Payload d (rc_actor body))) (\<lambda>_.
            ret d)))"
  let ?open = "\<lambda>_ t. held i t \<and> in_status i \<noteq> ''resolved''"
  let ?next = "\<lambda>j t. held i t \<and> (\<forall>res at. incident_step C i (closed_version j r res body at))"
  have save: "under (?next j) (tracked C) (?save j at)" for j at
  proof (cases "rv_result r")
    case (Some res)
    have tail: "evolves (tracked C) (bnd (insert_decision d) (\<lambda>_. bnd (event env k kind p) (\<lambda>_. ret y)))"
      for d k kind p and y :: decision
      by (intro tracking.rules tracked_idle[OF idle_insert_decision] tracked_idle[OF idle_event])
    show ?thesis
    proof (cases "incident_step C i (closed_version j r res body at)")
      case True
      then have "successor C i (closed_version j r res body at)" by (simp add: successor_def)
      then have "under (held i) (tracked C) (?save j at)"
        unfolding Some option.case Let_def by (intro under_saved[OF _ tail]) (simp add: closed_version_def)
      then show ?thesis by (simp add: under_def)
    qed (auto simp: under_def)
  qed (simp add: under_evolves tracking.throw)
  have close: "under (?open u) (tracked C) (bnd (next_version env i ''resolved'') (\<lambda>j. bnd (now env) (?save j)))" for u :: unit
  proof (rule under_bnd[where G = ?next])
    show "under (?open u) (tracked C) (next_version env i ''resolved'')"
      by (intro under_evolves tracked_idle idle_next_version)
    show "?next j t" if "?open u s" and "next_version env i ''resolved'' s = (Inr j, t)" for s j t
      using that closed_step[OF that(2)] held_idle evolvesD[OF idle_next_version that(2)] by blast
    show "under (?next j) (tracked C) (bnd (now env) (?save j))" for j
    proof (rule under_bnd[where G = "\<lambda>_. ?next j"])
      show "under (?next j) (tracked C) (now env)" by (intro under_evolves tracked_idle idle_now)
      show "?next j t" if "?next j s" and "now env s = (Inr x, t)" for s x t
        using that held_idle evolvesD[OF idle_now that(2)] by blast
    qed (rule save)
  qed
  have gate: "under (held i) (tracked C) (bnd (lift (\<lambda>_. validate_closure i r n current c h m bs)) (\<lambda>_.
      bnd (next_version env i ''resolved'') (\<lambda>j. bnd (now env) (?save j))))" for n current c h m bs
    by (rule under_bnd[where G = ?open, OF _ _ close])
       (auto intro: under_evolves tracking.lift dest: validate_open)
  show ?thesis
    unfolding close_incident_def
    by (intro under_idle_bnd idle_blockers idle_newer idle_now idle_service gate)
qed

lemma tracked_confirm: "evolves (tracked C) (confirm_transaction env reference body)"
proof -
  have close: "under (held i) (tracked C) (bnd (close_incident env i r body digest) (\<lambda>d. ret (d, Some k)))" for i r digest k
    by (rule under_bnd[where G = "\<lambda>_ _. True", OF tracked_close]) (auto intro: under_evolves tracking.ret)
  have fresh: "under (held i) (tracked C) (bnd (read_request k) (\<lambda>r. bnd (latest_request env i) (\<lambda>recent.
      bnd (require (b r recent) e) (\<lambda>_. bnd (close_incident env i r body digest) (\<lambda>d. ret (d, Some (in_alert_key i)))))))"
    for i k b e digest
    by (intro under_idle_bnd idle_read_request idle_latest idling.require close)
  have replay: "evolves (tracked C) (bnd (require b e) (\<lambda>_. bnd (db_gets f) (\<lambda>pending. ret (g pending))))" for b e f g
    by (intro tracking.rules tracked_idle[OF idle_db_gets])
  show ?thesis
    unfolding confirm_transaction_def Let_def
    by (intro tracked_transaction tracking.bnd tracked_idle[OF idle_source] under_initialize_bnd
        under_idle_bnd[OF idle_db_gets]) (auto intro: fresh under_evolves replay split: option.split)
qed

lemma tracked_create: "evolves (tracked C) (create_transaction env reference body)"
proof -
  have "evolves idle (bnd (case replay of
               Some (r, actor) \<Rightarrow>
                 bnd (require (actor = rc_actor body) (Resolution_Conflict Key_Of_Other_Operator)) (\<lambda>_. ret r)
             | None \<Rightarrow>
                 bnd (latest_request env i) (\<lambda>recent.
                 bnd (require (in_status i \<noteq> ''resolved'') (Resolution_Conflict Already_Resolved)) (\<lambda>_.
                 bnd (remediation_blockers env i None) (\<lambda>blockers.
                 bnd (require (blockers = []) (Resolution_Conflict (Blocked blockers))) (\<lambda>_.
                 case recent of
                   Some r \<Rightarrow> if rv_status r \<in> {Queued, Running} then ret r
                             else open_request env i digest (rc_actor body)
                 | None \<Rightarrow> open_request env i digest (rc_actor body)))))) (\<lambda>r.
        bnd (insert_key (f r)) (\<lambda>_. ret r)))" for replay i digest f
    by (intro idle_statements idle_latest idle_open_request)
  then show ?thesis
    unfolding create_transaction_def Let_def
    by (intro tracked_transaction tracking.bnd tracked_idle[OF idle_source] under_initialize_bnd
        under_idle_bnd[OF idle_db_gets] under_evolves[OF tracked_idle])
qed

lemma tracked_preview: "evolves (tracked C) (preview_transaction env reference)"
  unfolding preview_transaction_def
  by (intro tracked_transaction tracking.bnd tracked_idle[OF idle_source] initialize_tracked tracked_idle)
     (intro idle_statements idle_latest)

lemma idle_transaction: "evolves idle body \<Longrightarrow> evolves (tracked C) (control_transaction env body)"
  by (intro tracked_transaction tracked_idle)

lemma tracked_synchronize: "evolves (tracked C) (synchronize_transaction env k deliver before)"
  unfolding synchronize_transaction_def by (intro idle_transaction idle_statements idle_deliver_all)

lemma evolves_running:
  "evolves R m \<Longrightarrow> evolves R n \<Longrightarrow> evolves R (case s of Running \<Rightarrow> m | _ \<Rightarrow> n)"
  by (cases s) simp_all

lemma tracked_requests:
  "evolves (tracked C) (claim_trigger env k)" "evolves (tracked C) (trigger_failed env k previous)"
  "evolves (tracked C) (trigger_answered env k state)" "evolves (tracked C) (read_transaction env k)"
  "evolves (tracked C) (claim_check env k)" "evolves (tracked C) (record_capture env k res finished)"
  "evolves (tracked C) (record_failure env k e)" "evolves (tracked C) (persist_transaction env k)"
  "evolves (tracked C) (notify_transaction env k)"
  unfolding claim_trigger_def trigger_failed_def trigger_answered_def read_transaction_def claim_check_def
    record_capture_def record_failure_def persist_transaction_def notify_transaction_def Let_def
  by (intro idle_transaction idle_statements idle_expire idle_completed evolves_running)+

interpretation incident_steps: resolution_steps "tracked C" env C for C env
  by unfold_locales (intro idle_tracked tracked_candidate tracked_triage tracked_synchronize tracked_preview
      tracked_create tracked_confirm tracked_requests | simp add: idle_def)+

interpretation incident_histories: guarded_system "tracked C" "operation env" "\<lambda>c. published c \<subseteq> C" for C env
  by unfold_locales (rule incident_steps.operation)

text \<open>Later versions of an incident: a closure stays until the incident is opened again.\<close>

definition outlives :: "incident \<Rightarrow> incident \<Rightarrow> bool" where
  "outlives i j \<longleftrightarrow> in_alert_key j = in_alert_key i \<and> in_alert_ref j = in_alert_ref i \<and>
     in_revision i \<le> in_revision j \<and> in_episode i \<le> in_episode j \<and>
     (in_revision j = in_revision i \<longrightarrow> j = i) \<and>
     (in_status i = ''resolved'' \<and> in_episode j = in_episode i \<longrightarrow>
        in_status j = ''resolved'' \<and> resolution_of j = resolution_of i)"

lemma step_outlives: "incident_step C i j \<Longrightarrow> outlives i j"
  by (induction rule: incident_step.induct) (auto simp: outlives_def keeps_identity_def fails_again_def)

lemma steps_outlive: "(incident_step C)\<^sup>*\<^sup>* i j \<Longrightarrow> outlives i j"
proof (induction rule: rtranclp_induct)
  case (step j k)
  note step_outlives[OF step(2)]
  moreover have "in_revision j < in_revision k" using step(2) by (auto elim!: incident_step.cases simp: keeps_identity_def)
  ultimately show ?case using step(3) by (auto simp: outlives_def)
qed (simp add: outlives_def)

text \<open>
  C26. Whatever runs at the same time, every incident stays in the table under its key and reference,
  and its successive versions follow the life cycle: a triage report changes no closure, a closure carries
  its decision, and a resolved incident is opened again only by a failure published by one of these
  operations, which was detected after the closure and is another check run or a schema drift; the new
  version starts a new episode, shows that failure and keeps the old decision in its history. So within an episode a
  resolved incident stays resolved by the same decision, revisions count the versions, and two
  versions with the same revision are equal.
\<close>

theorem incident_versions_follow_each_other:
  assumes "moves\<^sup>*\<^sup>* (w, map (operation env) ops) (v, ps)" and "one_per_key (rw_db w)"
  shows "rows_evolve (incident_step (\<Union>c \<in> set ops. published c)) first_version (db_incidents (rw_db w)) (db_incidents (rw_db v)) \<and>
    (\<forall>i \<in> set (db_incidents (rw_db w)). \<exists>j \<in> set (db_incidents (rw_db v)).
       in_alert_key j = in_alert_key i \<and> in_alert_ref j = in_alert_ref i \<and>
       in_revision i \<le> in_revision j \<and> in_episode i \<le> in_episode j \<and>
       (in_revision j = in_revision i \<longrightarrow> j = i) \<and>
       (in_status i = ''resolved'' \<and> in_episode j = in_episode i \<longrightarrow>
          in_status j = ''resolved'' \<and> resolution_of j = resolution_of i))"
proof -
  have rows: "rows_evolve (incident_step (\<Union>c \<in> set ops. published c)) first_version (db_incidents (rw_db w)) (db_incidents (rw_db v))"
    using incident_histories.interleaved[OF assms(1), of "\<Union>c \<in> set ops. published c"] assms(2)
    by (auto simp: tracked_def)
  moreover have "\<exists>j \<in> set (db_incidents (rw_db v)). outlives i j" if i: "i \<in> set (db_incidents (rw_db w))" for i
  proof -
    obtain n where "n < length (db_incidents (rw_db w))" "db_incidents (rw_db w) ! n = i"
      using i by (metis in_set_conv_nth)
    then show ?thesis using rows_evolve_row[OF rows] steps_outlive by (metis nth_mem)
  qed
  ultimately show ?thesis by (simp add: outlives_def)
qed

section \<open>What a closure rests on\<close>

definition untouched :: "'w world \<Rightarrow> 'w world \<Rightarrow> bool" where
  "untouched w v \<longleftrightarrow> db_approvals (rw_db v) = db_approvals (rw_db w)"

interpretation untouching: evolution untouched
  by unfold_locales (auto simp: untouched_def)

lemma untouched_db_gets: "evolves untouched (db_gets f)"
  unfolding db_gets_def by (rule untouching.gets)

lemma untouched_db_modify: "(\<And>d. db_approvals (f d) = db_approvals d) \<Longrightarrow> evolves untouched (db_modify f)"
  by (simp add: evolves_def db_modify_def untouched_def)

lemma untouched_service: "evolves untouched (service c)"
  by (simp add: evolves_def service_def untouched_def split: prod.split)

lemma untouched_now: "evolves untouched (now env)"
  by (simp add: evolves_def now_def outside_def untouched_def split: prod.split)

lemmas untouched_rules = untouching.rules untouched_db_gets untouched_service untouched_now

lemma untouched_save_request: "evolves untouched (save_request r h)"
  unfolding save_request_def by (intro untouched_rules untouched_db_modify) simp_all

lemma untouched_save_incident: "evolves untouched (save_incident i)"
  unfolding save_incident_def by (intro untouched_rules untouched_db_modify) simp_all

lemma untouched_source: "evolves untouched (source env reference)"
  unfolding source_def by (intro untouched_rules)

lemma untouched_initialize: "evolves untouched (initialize row)"
  unfolding initialize_def read_incident_def by (intro untouched_rules untouched_save_incident)

lemma untouched_latest: "evolves untouched (latest_request env i)"
  unfolding latest_request_def expire_if_due_def Let_def by (intro untouched_rules untouched_save_request)

text \<open>No remediation of the incident's data is under way or waiting for its execution.\<close>

definition remediation_finished :: "'w env \<Rightarrow> incident \<Rightarrow> control_row list \<Rightarrow> bool" where
  "remediation_finished env i approvals \<longleftrightarrow>
     (\<forall>a \<in> set approvals. cr_action_type a \<in> set REMEDIATION_ACTIONS \<longrightarrow>
        (\<exists>get. remediation_scope (cr_scope a) = Some get \<and> (linked env i get \<longrightarrow> \<not> unfinished a)))"

lemma blockers_empty:
  "collect_blockers env i t rows = Inr [] \<Longrightarrow> a \<in> set rows \<Longrightarrow>
     \<exists>get. remediation_scope (cr_scope a) = Some get \<and> (linked env i get \<longrightarrow> \<not> unfinished a)"
  by (induction rows) (auto simp: blocker_of_def split: sum.splits option.splits if_splits)

lemma sort_remdups_empty: "sort (remdups xs) = [] \<longleftrightarrow> xs = []"
  by (metis remdups_eq_nil_iff set_empty set_sort)

lemma remediation_blockers_empty:
  "remediation_blockers env i t s = (Inr [], u) \<Longrightarrow> u = s \<and> remediation_finished env i (db_approvals (rw_db s))"
  by (auto simp: remediation_blockers_def bnd_Inr sort_remdups_empty remediation_finished_def dest!: blockers_empty)

lemma latest_request_Inr:
  assumes "latest_request env i s = (Inr recent, t)"
  shows "map_option rv_request_id recent = map_option (\<lambda>q. rv_request_id (qr_request q)) (latest_row (in_alert_key i) (rw_db s))"
  using assms unfolding latest_request_def db_gets_def expire_if_due_def Let_def
  by (auto simp: bnd_Inr split: option.splits if_splits)

lemma service_Inr: "service c s = (Inr x, t) \<Longrightarrow> fst (c (rw_ext s)) = Inr x \<and> rw_db t = rw_db s"
  by (auto simp: service_def split: prod.splits)

lemma now_Inr: "now env s = (Inr x, t) \<Longrightarrow> x = fst (en_now env (rw_ext s)) \<and> rw_db t = rw_db s"
  by (auto simp: now_def outside_def split: prod.splits)

lemma newer_blockers_db: "newer_blockers env r s = (Inr bs, t) \<Longrightarrow> rw_db t = rw_db s"
  unfolding newer_blockers_def Let_def by (auto simp: bnd_Inr split: option.splits if_splits dest: service_Inr)

text \<open>
  The facts that the gate of \<open>close_incident\<close> reads from outside, in the order in which it reads them:
  newer failures, the clock, then contract, schema and data.
\<close>

definition gate_facts :: "'w env \<Rightarrow> revalidation \<Rightarrow> ('w, string list \<times> int \<times> string \<times> string \<times> string) rprog" where
  "gate_facts env r =
     bnd (newer_blockers env r) (\<lambda>newer.
     bnd (now env) (\<lambda>current.
     bnd (service (en_contract_hash env (rv_scope r))) (\<lambda>contract.
     bnd (service (en_schema_hash env (rv_scope r))) (\<lambda>schema.
     bnd (service (en_data_watermark env (rv_scope r))) (\<lambda>watermark.
     ret (newer, current, contract, schema, watermark))))))"

text \<open>The run of \<open>confirm_resolution\<close> up to its gate: the incident, the request and those facts.\<close>

definition gate_reached ::
    "'w env \<Rightarrow> string \<Rightarrow> incident_resolve \<Rightarrow>
     ('w, incident \<times> revalidation \<times> string list \<times> int \<times> string \<times> string \<times> string) rprog" where
  "gate_reached env reference body =
     bnd (source env reference) (\<lambda>row.
     bnd (initialize row) (\<lambda>i.
     bnd (read_request (ir_request_id body)) (\<lambda>r.
     bnd (latest_request env i) (\<lambda>_.
     bnd (gate_facts env r) (\<lambda>facts.
     ret (i, r, facts))))))"

definition justifies :: "incident \<Rightarrow> revalidation \<Rightarrow> check_result \<Rightarrow> int \<Rightarrow> int \<Rightarrow> string \<Rightarrow> string \<Rightarrow> string \<Rightarrow> bool" where
  "justifies i r res finished current contract schema watermark \<longleftrightarrow>
     rv_incident_revision r = in_revision i \<and> rv_alert_key r = in_alert_key i \<and>
     rv_scope r = scope_for (in_snapshot i) \<and> rv_status r = Pass \<and> rv_result r = Some res \<and>
     evidence_holds (rv_scope r) res \<and> captured_within r res finished current \<and>
     contract = rv_contract_hash r \<and> contract = re_contract_hash res \<and>
     schema = re_schema_hash res \<and> watermark = re_data_watermark res"

lemma close_incident_Inr:
  assumes "close_incident env i r body digest s = (Inr d, v)"
  obtains res finished current contract schema watermark g j t at u where
    "in_status i \<noteq> ''resolved''" "in_revision i = ir_expected_revision body"
    "gate_facts env r s = (Inr ([], current, contract, schema, watermark), g)"
    "justifies i r res finished current contract schema watermark" "remediation_finished env i (db_approvals (rw_db s))"
    "next_version env i ''resolved'' t = (Inr j, u)" "d = decision_of j r res body at"
    "incident_step {} i (closed_version j r res body at)"
    "bnd (save_incident (closed_version j r res body at)) (\<lambda>_.
       bnd (insert_decision \<lparr>dr_hash = digest, dr_alert_key = in_alert_key i,
         dr_request_id = rv_request_id r, dr_record = d\<rparr>) (\<lambda>_.
       bnd (event env (closed_version j r res body at) ''incident_resolved'' (Resolved_Payload d (rc_actor body))) (\<lambda>_.
       ret d))) (snd (now env u)) = (Inr d, v)" "rw_db (snd (now env u)) = rw_db s"
proof -
  from assms obtain bs s1 newer s2 current s3 contract s4 schema s5 watermark s6 j s7 at s8 where
    b: "remediation_blockers env i (observation_time r) s = (Inr bs, s1)"
    and n: "newer_blockers env r s1 = (Inr newer, s2)"
    and c: "now env s2 = (Inr current, s3)" and h: "service (en_contract_hash env (rv_scope r)) s3 = (Inr contract, s4)"
    and m: "service (en_schema_hash env (rv_scope r)) s4 = (Inr schema, s5)"
    and w: "service (en_data_watermark env (rv_scope r)) s5 = (Inr watermark, s6)"
    and val: "validate_closure i r (ir_expected_revision body) current contract schema watermark (bs @ newer) = Inr ()"
    and nv: "next_version env i ''resolved'' s6 = (Inr j, s7)" and at: "now env s7 = (Inr at, s8)"
    and rest: "(case rv_result r of
       None \<Rightarrow> throw Type_Error
     | Some res \<Rightarrow>
         let d = decision_of j r res body at;
             k = j\<lparr>in_snapshot := (in_snapshot j)\<lparr>
                   sn_details := (sn_details (in_snapshot j))\<lparr>de_resolution := Some d\<rparr>,
                   sn_resolved_at := Some at\<rparr>\<rparr>
         in bnd (save_incident k) (\<lambda>_.
            bnd (insert_decision \<lparr>dr_hash = digest, dr_alert_key = in_alert_key i,
                   dr_request_id = rv_request_id r, dr_record = d\<rparr>) (\<lambda>_.
            bnd (event env k ''incident_resolved'' (Resolved_Payload d (rc_actor body))) (\<lambda>_.
            ret d)))) s8 = (Inr d, v)"
    unfolding close_incident_def by (auto simp: bnd_Inr simp del: run_lift) (auto simp: lift_def)
  from val obtain res finished where gate: "in_status i \<noteq> ''resolved''" "in_revision i = ir_expected_revision body"
    and just: "rv_incident_revision r = in_revision i" "rv_alert_key r = in_alert_key i" "rv_scope r = scope_for (in_snapshot i)"
      "rv_status r = Pass" "rv_result r = Some res" "evidence_holds (rv_scope r) res"
      "captured_within r res finished current" "contract = rv_contract_hash r" "contract = re_contract_hash res"
      "schema = re_schema_hash res" "watermark = re_data_watermark res" and none: "bs = []" "newer = []"
    by (auto simp: validate_closure_iff)
  have "justifies i r res finished current contract schema watermark"
    unfolding justifies_def using just by simp
  moreover have "remediation_finished env i (db_approvals (rw_db s))" and "s1 = s"
    using remediation_blockers_empty[OF b[unfolded none]] by simp_all
  moreover have "gate_facts env r s = (Inr ([], current, contract, schema, watermark), s6)"
    using n c h m w none(2) \<open>s1 = s\<close> by (simp add: gate_facts_def bnd_def)
  moreover have "d = decision_of j r res body at"
    using rest just(5) by (auto simp: Let_def bnd_Inr)
  moreover have "rw_db s7 = rw_db s6" using nv by (auto simp: next_version_def bnd_Inr dest: now_Inr)
  then have "rw_db s8 = rw_db s"
    using newer_blockers_db[OF n] now_Inr[OF c] service_Inr[OF h] service_Inr[OF m] service_Inr[OF w] now_Inr[OF at] \<open>s1 = s\<close>
    by simp
  moreover have "s8 = snd (now env s7)" by (simp add: at)
  moreover note rest[unfolded just(5) option.case Let_def]
  ultimately show ?thesis
    using that[of current contract schema watermark s6 res finished s6 j s7 at] gate nv closed_step[OF nv gate(1)] unfolding closed_version_def by simp
qed

lemma close_outcome:
  assumes "bnd (save_incident k) (\<lambda>_. bnd (insert_decision row) (\<lambda>_. bnd (event env k kind p) (\<lambda>_. ret d))) s = (Inr y, v)"
    and "i \<in> set (db_incidents (rw_db s))" and "incident_step {} i k"
  shows "k \<in> set (db_incidents (rw_db v))" and "row \<in> set (db_decisions (rw_db v))"
proof -
  from assms(1) obtain s1 s2 x where save: "save_incident k s = (Inr (), s1)" and ins: "insert_decision row s1 = (Inr (), s2)"
    and ev: "event env k kind p s2 = (Inr x, v)"
    by (auto simp: bnd_Inr)
  have same: "in_alert_key k = in_alert_key i" "in_alert_ref k = in_alert_ref i" using step_identity[OF assms(3)] by auto
  let ?rows = "sql_update (\<lambda>r. in_alert_key r = in_alert_key k) (\<lambda>r. k\<lparr>in_alert_ref := in_alert_ref r\<rparr>) (db_incidents (rw_db s))"
  have "sql_any (\<lambda>r. in_alert_key r = in_alert_key k) (db_incidents (rw_db s))"
    using assms(2) same by (auto simp: sql_any_iff)
  then have "db_incidents (rw_db s1) = ?rows"
    using save by (auto simp: save_incident_def bnd_Inr db_gets_def db_modify_def split: if_splits)
  moreover have "k\<lparr>in_alert_ref := in_alert_ref i\<rparr> \<in> set ?rows"
    unfolding set_sql_update using assms(2) same(1) by (auto intro!: image_eqI[of _ _ i])
  moreover have "k\<lparr>in_alert_ref := in_alert_ref i\<rparr> = k" using same(2)[symmetric] by simp
  ultimately have "k \<in> set (db_incidents (rw_db s1))" by simp
  then show "k \<in> set (db_incidents (rw_db v))"
    using evolvesD[OF idle_insert_decision ins] evolvesD[OF idle_event ev] by (simp add: idle_def)
  have "row \<in> set (db_decisions (rw_db s2))"
    using ins by (auto simp: insert_decision_def bnd_Inr db_gets_def db_modify_def split: if_splits)
  then show "row \<in> set (db_decisions (rw_db v))"
    using ev by (auto simp: event_def bnd_Inr db_modify_def uuid4_def split: if_splits)
qed

lemma initialize_cases:
  assumes "initialize row s = (Inr i, t)"
  shows "i \<in> set (db_incidents (rw_db s)) \<or>
     (first_version i \<and> (\<forall>j \<in> set (db_incidents (rw_db s)). in_alert_key j \<noteq> in_alert_key i))"
  using assms unfolding initialize_def read_incident_def db_gets_def
  by (fastforce simp: bnd_Inr first_version_def new_incident_def find_None_iff split: option.splits dest: find_SomeD)

lemma latest_row_requests: "db_requests d = db_requests e \<Longrightarrow> latest_row k d = latest_row k e"
  by (simp add: latest_row_def)

lemma confirm_fresh:
  assumes "confirm_transaction env reference body w = (Inr (d, Some k), v)"
  obtains w0 c row w1 i w2 r recent w3 digest where "begin_transaction w = (w0, c)" "source env reference w0 = (Inr row, w1)"
    "initialize row w1 = (Inr i, w2)" "k = in_alert_key i"
    "digest = operation_hash env ''resolve'' (in_alert_ref i) (rc_idempotency_key body)"
    "read_request (ir_request_id body) w2 = (Inr r, w2)" "latest_request env i w2 = (Inr recent, w3)"
    "case recent of None \<Rightarrow> True | Some l \<Rightarrow> rv_request_id l = rv_request_id r"
    "close_incident env i r body digest w3 = (Inr d, v)"
  using assms unfolding confirm_transaction_def
proof (cases rule: control_transaction_cases)
  case (committed w0 x c)
  then have x: "x = (d, Some k)" by auto
  let ?digest = "\<lambda>i. operation_hash env ''resolve'' (in_alert_ref i) (rc_idempotency_key body)"
  let ?rest = "\<lambda>i. bnd (db_gets (\<lambda>d. find (\<lambda>q. dr_hash q = ?digest i) (db_decisions d))) (\<lambda>replay. case replay of
          Some q \<Rightarrow>
            bnd (require (rd_request_id (dr_record q) = ir_request_id body \<and> rd_resolved_by (dr_record q) = rc_actor body \<and>
                      rd_reason (dr_record q) = ir_reason body) (Resolution_Conflict Key_Of_Other_Decision)) (\<lambda>_.
               bnd (db_gets (\<lambda>db. pending_events (in_alert_key i) db \<noteq> [])) (\<lambda>pending.
               ret ((dr_record q)\<lparr>rd_synchronization_pending := pending\<rparr>, None)))
        | None \<Rightarrow>
            bnd (read_request (ir_request_id body)) (\<lambda>r.
            bnd (latest_request env i) (\<lambda>recent.
            bnd (require (case recent of None \<Rightarrow> True | Some l \<Rightarrow> rv_request_id l = rv_request_id r)
                   (Resolution_Conflict Not_Latest)) (\<lambda>_.
            bnd (close_incident env i r body (?digest i)) (\<lambda>d.
            ret (d, Some (in_alert_key i)))))))"
  from committed(2)[unfolded Let_def] obtain row w1 where s: "source env reference w0 = (Inr row, w1)"
    and "bnd (initialize row) ?rest w1 = (Inr x, v)"
    unfolding bnd_Inr[of "source env reference"] by blast
  then obtain i w2 where n: "initialize row w1 = (Inr i, w2)" and rest: "?rest i w2 = (Inr x, v)"
    unfolding bnd_Inr[of "initialize row"] by blast
  from rest x obtain r w2' recent w3 where r: "read_request (ir_request_id body) w2 = (Inr r, w2')"
    and l: "latest_request env i w2' = (Inr recent, w3)"
    and eq: "case recent of None \<Rightarrow> True | Some l \<Rightarrow> rv_request_id l = rv_request_id r"
    and close: "close_incident env i r body (operation_hash env ''resolve'' (in_alert_ref i) (rc_idempotency_key body)) w3 = (Inr d, v)"
    and k: "k = in_alert_key i"
    unfolding db_gets_def
    by (cases "find (\<lambda>q. dr_hash q = operation_hash env ''resolve'' (in_alert_ref i) (rc_idempotency_key body)) (db_decisions (rw_db w2))")
       (auto simp: bnd_Inr Let_def split: if_splits)
  have "w2' = w2" using r by (auto simp: read_request_def db_gets_def bnd_Inr split: option.splits)
  with that[OF committed(1) s n k refl _ _ eq close] r l show ?thesis by simp
qed auto

lemma acknowledged_closure:
  assumes "confirm_transaction env reference body w = (Inr (d, Some k), v)"
    and "requests_ok env w" and "one_per_key (rw_db w)"
  obtains i r current contract schema watermark g res finished where
    "gate_reached env reference body (fst (begin_transaction w)) = (Inr (i, r, [], current, contract, schema, watermark), g)"
    "i \<in> set (db_incidents (rw_db w)) \<or>
       (first_version i \<and> (\<forall>j \<in> set (db_incidents (rw_db w)). in_alert_key j \<noteq> k))"
    "in_alert_key i = k" "in_status i \<noteq> ''resolved''" "in_revision i = ir_expected_revision body"
    "r \<in> qr_request ` set (db_requests (rw_db w))" "rv_request_id r = ir_request_id body"
    "map_option (\<lambda>q. rv_request_id (qr_request q)) (latest_row k (rw_db w)) = Some (rv_request_id r)"
    "rv_check_claimed r" "rv_expires_at r = Some (finished + minutes 10)"
    "justifies i r res finished current contract schema watermark"
    "remediation_finished env i (db_approvals (rw_db w))"
    "\<exists>j \<in> set (db_incidents (rw_db v)). incident_step {} i j \<and> in_status j = ''resolved'' \<and> resolution_of j = Some d"
    "rd_request_id d = ir_request_id body" "rd_resolved_by d = rc_actor body" "rd_reason d = ir_reason body"
    "rd_references d = re_references res"
    "\<exists>row \<in> set (db_decisions (rw_db v)). dr_alert_key row = k \<and> dr_record row = d"
proof -
  from assms(1) obtain w0 c row w1 i w2 r recent w3 digest where b: "begin_transaction w = (w0, c)"
    and s: "source env reference w0 = (Inr row, w1)" and n: "initialize row w1 = (Inr i, w2)" and k: "k = in_alert_key i"
    and read: "read_request (ir_request_id body) w2 = (Inr r, w2)" and l: "latest_request env i w2 = (Inr recent, w3)"
    and newest: "case recent of None \<Rightarrow> True | Some l \<Rightarrow> rv_request_id l = rv_request_id r"
    and close: "close_incident env i r body digest w3 = (Inr d, v)"
    by (rule confirm_fresh)
  note parts = begin_transaction_parts[OF b]
  from close obtain res finished current contract schema watermark g j t at u where
    gate: "in_status i \<noteq> ''resolved''" "in_revision i = ir_expected_revision body"
    and facts: "gate_facts env r w3 = (Inr ([], current, contract, schema, watermark), g)"
    and just: "justifies i r res finished current contract schema watermark"
    and none: "remediation_finished env i (db_approvals (rw_db w3))"
    and next_v: "next_version env i ''resolved'' t = (Inr j, u)" and d: "d = decision_of j r res body at"
    and step: "incident_step {} i (closed_version j r res body at)"
    and rest: "bnd (save_incident (closed_version j r res body at)) (\<lambda>_.
       bnd (insert_decision \<lparr>dr_hash = digest, dr_alert_key = in_alert_key i,
         dr_request_id = rv_request_id r, dr_record = d\<rparr>) (\<lambda>_.
       bnd (event env (closed_version j r res body at) ''incident_resolved'' (Resolved_Payload d (rc_actor body))) (\<lambda>_.
       ret d))) (snd (now env u)) = (Inr d, v)" and db: "rw_db (snd (now env u)) = rw_db w3"
    by (rule close_incident_Inr)
  have reached: "gate_reached env reference body (fst (begin_transaction w)) = (Inr (i, r, [], current, contract, schema, watermark), g)"
    using b s n read l facts by (simp add: gate_reached_def bnd_def)
  have q: "quiet w w2" using quieting.trans[OF quieting.trans[OF quiet_begin[OF b] evolvesD[OF quiet_source s]] evolvesD[OF quiet_initialize n]] .
  have st: "stored env r w2" and id: "rv_request_id r = ir_request_id body"
    using read_request_stored[OF _ read] quiet_calm[OF q, of env] assms(2) by (auto simp: calm_def modest_def)
  have r: "r \<in> qr_request ` set (db_requests (rw_db w))" and ok: "request_ok r"
    using st q by (auto simp: stored_def quiet_def requests_ok_def)
  have running: "rv_check_claimed r" "rv_expires_at r = Some (finished + minutes 10)"
    using ok just by (auto simp: request_ok_def justifies_def captured_within_def)
  have "latest_row k (rw_db w) \<noteq> None"
    using r just k unfolding latest_row_def justifies_def
    by (auto split: list.splits simp: filter_empty_conv)
  then have latest: "map_option (\<lambda>q. rv_request_id (qr_request q)) (latest_row k (rw_db w)) = Some (rv_request_id r)"
    using latest_request_Inr[OF l] newest latest_row_requests[of "rw_db w2" "rw_db w" k] q k
    by (auto simp: quiet_def split: option.splits)
  have appr: "untouched w w3"
    using evolvesD[OF untouched_source s] evolvesD[OF untouched_initialize n] evolvesD[OF untouched_latest l] parts
    by (simp add: untouched_def)
  then have finished: "remediation_finished env i (db_approvals (rw_db w))" using none by (simp add: untouched_def)
  have before: "i \<in> set (db_incidents (rw_db w)) \<or> (first_version i \<and> (\<forall>j \<in> set (db_incidents (rw_db w)). in_alert_key j \<noteq> k))"
    using initialize_cases[OF n] evolvesD[OF idle_source s] parts k by (simp add: idle_def)
  have "tracked {} w w2" using tracking.trans[OF idle_tracked evolvesD[OF initialize_tracked n], of w] evolvesD[OF idle_source s] parts
    by (simp add: idle_def)
  then have "held i w3" and "one_per_key (rw_db w3)"
    using initialize_held[OF n] evolvesD[OF idle_latest l] assms(3) held_idle
    by (auto simp: tracked_def idle_def one_per_key_def)
  then have "i \<in> set (db_incidents (rw_db (snd (now env u))))" using db by (simp add: held_def)
  note outcome = close_outcome[OF rest this step]
  have "in_status (closed_version j r res body at) = ''resolved''" "resolution_of (closed_version j r res body at) = Some d"
    using next_version_step(2)[OF next_v] by (simp_all add: closed_version_def d)
  then have after: "\<exists>j \<in> set (db_incidents (rw_db v)). incident_step {} i j \<and> in_status j = ''resolved'' \<and> resolution_of j = Some d"
    using outcome(1) step by blast
  have decided: "\<exists>row \<in> set (db_decisions (rw_db v)). dr_alert_key row = k \<and> dr_record row = d"
    using outcome(2) k by (intro bexI[of _ "\<lparr>dr_hash = digest, dr_alert_key = in_alert_key i, dr_request_id = rv_request_id r, dr_record = d\<rparr>"]) simp_all
  have "rd_request_id d = ir_request_id body" "rd_resolved_by d = rc_actor body" "rd_reason d = ir_reason body"
      "rd_references d = re_references res"
    using id by (simp_all add: d decision_of_def)
  then show thesis
    by (rule that[OF reached before k[symmetric] gate r id latest running just finished after _ _ _ _ decided])
qed

text \<open>The database shows a closure: a new decision, or a resolved version of an incident that was open.\<close>

definition closes :: "resolution_db \<Rightarrow> resolution_db \<Rightarrow> bool" where
  "closes d e \<longleftrightarrow> db_decisions e \<noteq> db_decisions d \<or>
     (\<exists>i \<in> set (db_incidents d). in_status i \<noteq> ''resolved'' \<and>
        (\<exists>j \<in> set (db_incidents e). in_alert_key j = in_alert_key i \<and> in_status j = ''resolved''))"

lemma added_not_closes:
  assumes "one_per_key d" and "db_decisions e = db_decisions d" and "db_incidents e = db_incidents d @ new"
    and "\<forall>n \<in> set new. in_alert_key n \<notin> in_alert_key ` set (db_incidents d)"
  shows "\<not> closes d e"
proof -
  have "in_status j \<noteq> ''resolved''" if i: "i \<in> set (db_incidents d)" "in_status i \<noteq> ''resolved''"
    and j: "j \<in> set (db_incidents e)" "in_alert_key j = in_alert_key i" for i j
  proof -
    have "j \<in> set (db_incidents d)" using j i(1) assms(3,4) by force
    then have "j = i" using assms(1) i(1) j(2) by (auto simp: one_per_key_def distinct_map inj_on_def)
    then show ?thesis using i(2) by simp
  qed
  then show ?thesis using assms(2) by (auto simp: closes_def)
qed

lemma initialize_db:
  assumes "initialize row s = (Inr i, t)"
  shows "\<exists>new. rw_db t = rw_db s\<lparr>db_incidents := db_incidents (rw_db s) @ new\<rparr> \<and>
     (\<forall>n \<in> set new. in_alert_key n \<notin> in_alert_key ` set (db_incidents (rw_db s)))"
proof (cases row)
  case (Some r)
  show ?thesis
  proof (cases "find (\<lambda>i. in_alert_key i = sn_alert_key r) (db_incidents (rw_db s))")
    case None
    then have none: "\<not> sql_any (\<lambda>i. in_alert_key i = sn_alert_key r) (db_incidents (rw_db s))"
      by (simp add: find_None_iff_any)
    then show ?thesis
      using assms None by (auto simp: initialize_def Some read_incident_def db_gets_def db_modify_def save_incident_def
          bnd_Inr new_incident_def sql_any_iff split: if_splits intro!: exI[of _ "[new_incident r]"])
  next
    case (Some j)
    then show ?thesis
      using assms \<open>row = Some r\<close>
      by (auto simp: initialize_def read_incident_def db_gets_def bnd_def intro!: exI[of _ "[]"])
  qed
qed (use assms in \<open>simp add: initialize_def\<close>)

lemma source_keeps: "source env reference s = (r, t) \<Longrightarrow> rw_db t = rw_db s"
  by (auto simp: source_def bnd_def service_def split: prod.splits sum.splits option.splits)

text \<open>A confirmation that replays a decision shows no new closure.\<close>

lemma confirm_body:
  "\<exists>B. confirm_transaction env reference body = control_transaction env B \<and>
     (\<forall>s d t. B s = (Inr (d, None), t) \<longrightarrow> one_per_key (rw_db s) \<longrightarrow> \<not> closes (rw_db s) (rw_db t))"
proof (intro exI conjI, rule confirm_transaction_def, intro allI impI, goal_cases)
  case (1 s d t)
  from 1(1) have "\<exists>row s1 i. source env reference s = (Inr row, s1) \<and> initialize row s1 = (Inr i, t)"
    by (auto simp: bnd_Inr Let_def db_gets_def split: option.splits if_splits)
  then obtain row s1 i where s: "source env reference s = (Inr row, s1)" and n: "initialize row s1 = (Inr i, t)" by blast
  then show ?case
    using initialize_db[OF n] source_keeps[OF s] added_not_closes[OF 1(2), of "rw_db t"] by auto
qed

text \<open>A closure whose acknowledgement was lost is the run in which it was not.\<close>

lemma closure_run:
  assumes run: "confirm_transaction env reference body w = (outcome, v)" and one: "one_per_key (rw_db w)"
    and shown: "(\<exists>d k. outcome = Inr (d, Some k)) \<or> closes (rw_db w) (rw_db v)"
  obtains d k schedule where "outcome \<in> {Inr (d, Some k), Inl Db_Failure}"
    "confirm_transaction env reference body (w\<lparr>rw_schedule := schedule\<rparr>) = (Inr (d, Some k), v)"
    "fst (begin_transaction (w\<lparr>rw_schedule := schedule\<rparr>)) = fst (begin_transaction w)"
proof -
  obtain B where B: "confirm_transaction env reference body = control_transaction env B"
    and replay: "\<And>s d t. B s = (Inr (d, None), t) \<Longrightarrow> one_per_key (rw_db s) \<Longrightarrow> \<not> closes (rw_db s) (rw_db t)"
    using confirm_body[of env reference body] by blast
  have none: "\<not> closes (rw_db w) (rw_db w)" by (rule added_not_closes[OF one, where new = "[]"]) simp_all
  obtain w0 c where b: "begin_transaction w = (w0, c)" by fastforce
  note db = begin_transaction_parts[OF b]
  show thesis
  proof (cases "B w0")
    case (Pair s u)
    have url: "strip (en_database_url env) \<noteq> []"
      using run shown none by (auto simp: B control_transaction_def split: if_splits)
    then have out: "(outcome, v) = (case s of Inl e \<Rightarrow> (Inl e, u\<lparr>rw_db := rw_db w0\<rparr>)
        | Inr x \<Rightarrow> (case c of Commit_Ok \<Rightarrow> (Inr x, u) | Commit_Fails \<Rightarrow> (Inl Db_Failure, u\<lparr>rw_db := rw_db w0\<rparr>)
             | Commit_Ack_Lost \<Rightarrow> (Inl Db_Failure, u)))"
      using run b Pair by (simp add: B control_transaction_def split: sum.splits)
    then obtain x where x: "s = Inr x" "v = u" "outcome = Inr x \<or> outcome = Inl Db_Failure"
      using shown none db by (auto split: sum.splits commit.splits)
    moreover obtain d where "snd x \<noteq> None"
      using replay[of w0 "fst x" u] Pair x shown one db by (cases x; cases "snd x") auto
    ultimately obtain d k where dk: "x = (d, Some k)" by (cases x) auto
    define schedule where "schedule = (case rw_schedule w of [] \<Rightarrow> [] | (t, _) # rest \<Rightarrow> (t, Commit_Ok) # rest)"
    have "begin_transaction (w\<lparr>rw_schedule := schedule\<rparr>) = (w0, Commit_Ok)"
      using b by (auto simp: begin_transaction_def schedule_def split: list.splits)
    then show thesis
      using that[of d k schedule] x dk Pair b url by (simp add: B control_transaction_def)
  qed
qed

text \<open>
  C3. An incident is closed by evidence only. Whenever \<open>confirm_resolution\<close> closes one (it says so, or its
  commit went through and only the acknowledgement was lost), the incident was open in the revision the
  caller named; the request named by the caller is the newest revalidation of this incident in this
  revision and scope; its workflow ran and recorded a passing result; every check of the result passed
  on the incident's table and one of them is the incident's rule, date and dimension; all evidence was
  captured between the start of the check and its end, before the deadline and at most ten minutes
  before the clock that this run read at its gate; the contract, schema and data that it read there are
  those that were checked, and it found no newer failure; and no remediation that touches the incident
  is waiting or running. The incident's next version is then resolved by a decision that names the
  caller, the request and its evidence, and the decision is stored.
\<close>

theorem closure_rests_on_evidence:
  assumes "confirm_transaction env reference body w = (outcome, v)"
    and "(\<exists>d k. outcome = Inr (d, Some k)) \<or> closes (rw_db w) (rw_db v)"
    and "requests_ok env w" and "one_per_key (rw_db w)"
  shows "\<exists>d k i r current contract schema watermark g res finished.
    outcome \<in> {Inr (d, Some k), Inl Db_Failure} \<and>
    gate_reached env reference body (fst (begin_transaction w)) = (Inr (i, r, [], current, contract, schema, watermark), g) \<and>
    (i \<in> set (db_incidents (rw_db w)) \<or>
       (first_version i \<and> (\<forall>j \<in> set (db_incidents (rw_db w)). in_alert_key j \<noteq> k))) \<and>
    in_alert_key i = k \<and> in_status i \<noteq> ''resolved'' \<and> in_revision i = ir_expected_revision body \<and>
    r \<in> qr_request ` set (db_requests (rw_db w)) \<and> rv_request_id r = ir_request_id body \<and>
    map_option (\<lambda>q. rv_request_id (qr_request q)) (latest_row k (rw_db w)) = Some (rv_request_id r) \<and>
    rv_check_claimed r \<and> rv_expires_at r = Some (finished + minutes 10) \<and>
    justifies i r res finished current contract schema watermark \<and>
    remediation_finished env i (db_approvals (rw_db w)) \<and>
    (\<exists>j \<in> set (db_incidents (rw_db v)). incident_step {} i j \<and> in_status j = ''resolved'' \<and> resolution_of j = Some d) \<and>
    rd_request_id d = ir_request_id body \<and> rd_resolved_by d = rc_actor body \<and> rd_reason d = ir_reason body \<and>
    rd_references d = re_references res \<and>
    (\<exists>row \<in> set (db_decisions (rw_db v)). dr_alert_key row = k \<and> dr_record row = d)"
proof -
  obtain d k schedule where out: "outcome \<in> {Inr (d, Some k), Inl Db_Failure}"
    and run: "confirm_transaction env reference body (w\<lparr>rw_schedule := schedule\<rparr>) = (Inr (d, Some k), v)"
    and same: "fst (begin_transaction (w\<lparr>rw_schedule := schedule\<rparr>)) = fst (begin_transaction w)"
    by (rule closure_run[OF assms(1,4,2)])
  have ok: "requests_ok env (w\<lparr>rw_schedule := schedule\<rparr>)" "one_per_key (rw_db (w\<lparr>rw_schedule := schedule\<rparr>))"
    using assms(3,4) by (simp_all add: requests_ok_def)
  show ?thesis
    by (rule acknowledged_closure[OF run ok])
       (unfold same, intro exI conjI, (assumption | rule out | simp)+)
qed

end
