(* ===== verification/Replay.thy ===== *)
theory Replay
  imports Closure
begin

text \<open>
  Repeating a closure: decisions are never changed or lost, so the same call finds the stored one.
\<close>

section \<open>Decisions only accumulate\<close>

definition accumulates :: "'w world \<Rightarrow> 'w world \<Rightarrow> bool" where
  "accumulates w v \<longleftrightarrow> (\<exists>new. db_decisions (rw_db v) = db_decisions (rw_db w) @ new)"

interpretation accumulating: evolution accumulates
  by unfold_locales (auto simp: accumulates_def)

lemma accumulates_same: "db_decisions (rw_db v) = db_decisions (rw_db w) \<Longrightarrow> accumulates w v"
  by (simp add: accumulates_def)

lemma accumulate_service: "evolves accumulates (service c)"
  by (simp add: evolves_def service_def accumulates_same split: prod.split)

lemma accumulate_outside: "evolves accumulates (outside c)"
  by (simp add: evolves_def outside_def accumulates_same split: prod.split)

lemma accumulate_uuid4: "evolves accumulates (uuid4 env)"
  by (simp add: evolves_def uuid4_def accumulates_same)

lemma accumulate_db_modify: "(\<And>d. db_decisions (f d) = db_decisions d) \<Longrightarrow> evolves accumulates (db_modify f)"
  by (simp add: evolves_def db_modify_def accumulates_same)

lemma accumulate_db_gets: "evolves accumulates (db_gets f)"
  unfolding db_gets_def by (rule accumulating.gets)

lemmas accumulate_rules = accumulating.rules accumulating.case_prod accumulate_service accumulate_outside
  accumulate_uuid4 accumulate_db_gets

lemma accumulate_insert_decision: "evolves accumulates (insert_decision r)"
  by (simp add: evolves_def insert_decision_def db_gets_def db_modify_def bnd_def accumulates_def)

lemma accumulate_writes:
  "evolves accumulates (now env)" "evolves accumulates (save_request r h)" "evolves accumulates (save_incident i)"
  "evolves accumulates (event env i kind payload)" "evolves accumulates (insert_key k)"
  "evolves accumulates (update_event e f)"
  unfolding now_def save_request_def save_incident_def event_def insert_key_def update_event_def
  by (intro accumulate_rules accumulate_db_modify; simp)+

lemma accumulate_reads:
  "evolves accumulates (source env reference)" "evolves accumulates (read_request k)"
  "evolves accumulates (read_incident k)" "evolves accumulates (read_incident_row k)"
  "evolves accumulates (next_version env i status)" "evolves accumulates (remediation_blockers env i t)"
  unfolding source_def read_request_def read_incident_def read_incident_row_def next_version_def remediation_blockers_def
  by (intro accumulate_rules accumulate_writes)+

lemmas accumulate_statements = accumulate_rules accumulate_writes accumulate_reads accumulate_insert_decision

lemma accumulate_steps:
  "evolves accumulates (initialize row)" "evolves accumulates (expire_if_due env r)"
  "evolves accumulates (open_request env i digest actor)" "evolves accumulates (notify_event env e)"
  "evolves accumulates (reopen env c i)" "evolves accumulates (completed_event env r refs)"
  "evolves accumulates (newer_blockers env r)"
  unfolding initialize_def expire_if_due_def open_request_def notify_event_def reopen_def completed_event_def
    newer_blockers_def Let_def
  by (intro accumulate_statements | (auto intro!: accumulate_statements split: option.split)[1])+

lemma accumulate_routines:
  "evolves accumulates (latest_request env i)" "evolves accumulates (deliver_event env deliver before i e)"
  "evolves accumulates (open_new env c)" "evolves accumulates (close_incident env i r body digest)"
  unfolding latest_request_def deliver_event_def open_new_def close_incident_def Let_def
  by (intro accumulate_statements accumulate_steps)+

lemma accumulate_deliver: "evolves accumulates (deliver_events env deliver before i es)"
  by (induction es) (simp_all only: deliver_events.simps, (intro accumulate_statements accumulate_routines)+)

lemma accumulate_transaction:
  assumes "evolves accumulates body"
  shows "evolves accumulates (control_transaction env body)"
proof (rule evolvesI)
  fix w
  obtain r v where run: "control_transaction env body w = (r, v)" by fastforce
  then have "accumulates w v"
  proof (cases rule: control_transaction_cases)
    case (committed w0 x c)
    then show ?thesis using evolvesD[OF assms committed(2)] begin_transaction_parts[OF committed(1)]
      by (simp add: accumulates_def)
  next
    case (rolled_back w0 c s u e)
    then show ?thesis using begin_transaction_parts[OF rolled_back(1)] by (simp add: accumulates_same)
  qed (simp add: accumulating.refl)
  then show "accumulates w (snd (control_transaction env body w))" by (simp add: run)
qed

lemma accumulate_transactions:
  "evolves accumulates (preview_transaction env reference)"
  "evolves accumulates (candidate_transaction env c)" "evolves accumulates (triage_transaction env s uri)"
  "evolves accumulates (synchronize_transaction env k deliver before)" "evolves accumulates (create_transaction env reference cbody)"
  "evolves accumulates (confirm_transaction env reference rbody)" "evolves accumulates (claim_trigger env k)"
  "evolves accumulates (trigger_failed env k previous)" "evolves accumulates (trigger_answered env k state)"
  "evolves accumulates (read_transaction env k)" "evolves accumulates (claim_check env k)"
  "evolves accumulates (record_capture env k res finished)" "evolves accumulates (record_failure env k e)"
  "evolves accumulates (persist_transaction env k)" "evolves accumulates (notify_transaction env k)"
  unfolding preview_transaction_def candidate_transaction_def triage_transaction_def synchronize_transaction_def create_transaction_def
    confirm_transaction_def claim_trigger_def trigger_failed_def trigger_answered_def read_transaction_def
    claim_check_def record_capture_def record_failure_def persist_transaction_def notify_transaction_def Let_def
  by (intro accumulate_transaction accumulate_statements accumulate_steps accumulate_routines accumulate_deliver evolves_running)+

interpretation decision_steps: resolution_steps accumulates env UNIV for env
  by unfold_locales (intro accumulate_transactions | simp add: accumulates_same)+

interpretation decision_histories: guarded_system accumulates "operation env" "\<lambda>_. True" for env
  by unfold_locales (simp add: decision_steps.operation)

section \<open>The same call again\<close>

definition recorded_decision :: "'w env \<Rightarrow> incident \<Rightarrow> string \<Rightarrow> resolution_db \<Rightarrow> decision_row option" where
  "recorded_decision env i key d =
     find (\<lambda>q. dr_hash q = operation_hash env ''resolve'' (in_alert_ref i) key) (db_decisions d)"

lemma recorded_accumulates:
  "accumulates w v \<Longrightarrow> recorded_decision env i key (rw_db w) = Some q \<Longrightarrow> in_alert_ref j = in_alert_ref i \<Longrightarrow>
     recorded_decision env j key (rw_db v) = Some q"
  by (auto simp: recorded_decision_def accumulates_def find_append)

lemma initialize_known:
  assumes "one_per_key (rw_db t)" and "i \<in> set (db_incidents (rw_db t))" and "sn_alert_key s = in_alert_key i"
  shows "initialize (Some s) t = (Inr i, t)"
proof -
  have "find (\<lambda>j. in_alert_key j = in_alert_key i) (db_incidents (rw_db t)) = Some i"
    using assms(1,2) find_distinct_key unfolding one_per_key_def by metis
  then show ?thesis by (simp add: initialize_def read_incident_def db_gets_def bnd_def assms(3))
qed

text \<open>The decision as a later call reports it: with the events of the incident that are still pending.\<close>

definition reported :: "incident \<Rightarrow> decision_row \<Rightarrow> resolution_db \<Rightarrow> decision" where
  "reported i q d = (dr_record q)\<lparr>rd_synchronization_pending := pending_events (in_alert_key i) d \<noteq> []\<rparr>"

definition same_decision :: "decision \<Rightarrow> incident_resolve \<Rightarrow> bool" where
  "same_decision d body \<longleftrightarrow>
     rd_request_id d = ir_request_id body \<and> rd_resolved_by d = rc_actor body \<and> rd_reason d = ir_reason body"

lemma confirm_replay:
  assumes "strip (en_database_url env) \<noteq> []" and "begin_transaction v = (v0, c)"
    and "source env reference v0 = (Inr (Some s), u)" and "sn_alert_key s = in_alert_key j"
    and "j \<in> set (db_incidents (rw_db v))" and "one_per_key (rw_db v)"
    and "recorded_decision env j (rc_idempotency_key body) (rw_db v) = Some q"
  shows "fst (confirm_transaction env reference body v) =
      (if \<not> same_decision (dr_record q) body then Inl (Resolution_Conflict Key_Of_Other_Decision)
       else if c = Commit_Ok then Inr (reported j q (rw_db v), None) else Inl Db_Failure)"
    and "rw_db (snd (confirm_transaction env reference body v)) = rw_db v"
proof -
  have db: "rw_db v0 = rw_db v" "rw_db u = rw_db v"
    using begin_transaction_parts[OF assms(2)] source_keeps[OF assms(3)] by simp_all
  then have init: "initialize (Some s) u = (Inr j, u)" using assms(4-6) by (intro initialize_known) simp_all
  have found: "find (\<lambda>q. dr_hash q = operation_hash env ''resolve'' (in_alert_ref j) (rc_idempotency_key body)) (db_decisions (rw_db v)) = Some q"
    using assms(7) by (simp add: recorded_decision_def)
  show "fst (confirm_transaction env reference body v) =
      (if \<not> same_decision (dr_record q) body then Inl (Resolution_Conflict Key_Of_Other_Decision)
       else if c = Commit_Ok then Inr (reported j q (rw_db v), None) else Inl Db_Failure)"
    and "rw_db (snd (confirm_transaction env reference body v)) = rw_db v"
    using assms(1,2) db
    by (simp_all add: confirm_transaction_def control_transaction_def bnd_def assms(3) init db_gets_def found
        same_decision_def reported_def Let_def split: commit.split)
qed

text \<open>A closure leaves such a record.\<close>

lemma insert_decision_found:
  assumes "bnd (save_incident k) (\<lambda>_. bnd (insert_decision row) (\<lambda>_. bnd (event env k kind p) (\<lambda>_. ret d))) s = (Inr y, v)"
  shows "find (\<lambda>q. dr_hash q = dr_hash row) (db_decisions (rw_db v)) = Some row"
proof -
  from assms obtain t u x where ins: "insert_decision row t = (Inr (), u)" and ev: "event env k kind p u = (Inr x, v)"
    by (auto simp: bnd_Inr)
  have "find (\<lambda>q. dr_hash q = dr_hash row) (db_decisions (rw_db u)) = Some row"
    using ins by (auto simp: insert_decision_def bnd_Inr db_gets_def db_modify_def find_append sql_any_iff
        split: if_splits option.split dest!: find_SomeD)
  then show ?thesis
    using evolvesD[OF accumulate_writes(4) ev] by (auto simp: accumulates_def find_append)
qed

lemma closure_recorded:
  assumes "confirm_transaction env reference body w = (Inr (d, Some k), v)" and "one_per_key (rw_db w)"
  shows "\<exists>i q. in_alert_key i = k \<and> i \<in> set (db_incidents (rw_db v)) \<and> dr_record q = d \<and>
    recorded_decision env i (rc_idempotency_key body) (rw_db v) = Some q"
proof -
  from assms(1) obtain w0 c row w1 i w2 r recent w3 digest where b: "begin_transaction w = (w0, c)"
    and s: "source env reference w0 = (Inr row, w1)" and n: "initialize row w1 = (Inr i, w2)" and k: "k = in_alert_key i"
    and digest: "digest = operation_hash env ''resolve'' (in_alert_ref i) (rc_idempotency_key body)"
    and l: "latest_request env i w2 = (Inr recent, w3)" and close: "close_incident env i r body digest w3 = (Inr d, v)"
    by (rule confirm_fresh)
  from close obtain res j at u where step: "incident_step {} i (closed_version j r res body at)"
    and rest: "bnd (save_incident (closed_version j r res body at)) (\<lambda>_.
       bnd (insert_decision \<lparr>dr_hash = digest, dr_alert_key = in_alert_key i,
         dr_request_id = rv_request_id r, dr_record = d\<rparr>) (\<lambda>_.
       bnd (event env (closed_version j r res body at) ''incident_resolved'' (Resolved_Payload d (rc_actor body))) (\<lambda>_.
       ret d))) (snd (now env u)) = (Inr d, v)" and db: "rw_db (snd (now env u)) = rw_db w3"
    by (rule close_incident_Inr)
  have "tracked {} w w1" using begin_transaction_parts[OF b] source_keeps[OF s] by (simp add: idle_tracked idle_def)
  then have "tracked {} w w2" using tracking.trans evolvesD[OF initialize_tracked n] by blast
  then have "held i w3" and "one_per_key (rw_db w3)"
    using initialize_held[OF n] evolvesD[OF idle_latest l] assms(2) held_idle
    by (auto simp: tracked_def idle_def one_per_key_def)
  then have "i \<in> set (db_incidents (rw_db (snd (now env u))))" using db by (simp add: held_def)
  note close_outcome(1)[OF rest this step] insert_decision_found[OF rest] step_identity[OF step]
  then show ?thesis
    using k digest by (intro exI[of _ "closed_version j r res body at"]) (auto simp: recorded_decision_def)
qed

text \<open>
  C12. A closure is idempotent. Once a decision has been stored under an idempotency key, whether or not
  its caller got the answer, and whatever has run since (reopening the incident included),
  confirming with this key again changes nothing in the database: the same request, actor and reason
  get the stored decision with the current state of its delivery, and anything else is refused as a
  conflict. The alert reference still leads to the incident.
\<close>

theorem closure_replay_returns_decision:
  assumes "moves\<^sup>*\<^sup>* (w, map (operation env) ops) (v, ps)" and "one_per_key (rw_db w)"
    and "i \<in> set (db_incidents (rw_db w))"
    and "recorded_decision env i (rc_idempotency_key body) (rw_db w) = Some q"
    and "strip (en_database_url env) \<noteq> []" and "begin_transaction v = (v0, c)"
    and "source env reference v0 = (Inr (Some s), u)" and "sn_alert_key s = in_alert_key i"
  shows "rw_db (snd (confirm_transaction env reference body v)) = rw_db v \<and>
    fst (confirm_transaction env reference body v) =
      (if \<not> same_decision (dr_record q) body then Inl (Resolution_Conflict Key_Of_Other_Decision)
       else if c = Commit_Ok then Inr (reported i q (rw_db v), None) else Inl Db_Failure)"
proof -
  have "tracked UNIV w v" by (rule incident_histories.interleaved[OF assms(1)]) simp
  then have one: "one_per_key (rw_db v)"
    and rows: "rows_evolve (incident_step UNIV) first_version (db_incidents (rw_db w)) (db_incidents (rw_db v))"
    using assms(2) by (simp_all add: tracked_def)
  obtain n where "n < length (db_incidents (rw_db w))" "db_incidents (rw_db w) ! n = i"
    using assms(3) by (metis in_set_conv_nth)
  then obtain j where j: "j \<in> set (db_incidents (rw_db v))" and "outlives i j"
    using rows_evolve_row[OF rows] steps_outlive by (metis nth_mem)
  then have same: "in_alert_key j = in_alert_key i" "in_alert_ref j = in_alert_ref i" by (simp_all add: outlives_def)
  have "recorded_decision env j (rc_idempotency_key body) (rw_db v) = Some q"
    using decision_histories.interleaved[OF assms(1) TrueI] assms(4) same(2) by (rule recorded_accumulates)
  with confirm_replay[OF assms(5-7) _ j one] assms(8) same show ?thesis by (simp add: reported_def)
qed

end
