(* ===== verification/Resolution_Instance.thy ===== *)
theory Resolution_Instance
  imports Replay
begin

text \<open>
  A concrete incident with a fixed clock and services that always answer: runs of the operations
  in which the theorems' hypotheses hold.
\<close>

section \<open>The outside\<close>

definition trial_snapshot :: snapshot where
  "trial_snapshot = \<lparr>sn_alert_id = ''id'', sn_alert_key = ''k'', sn_display_id = ''ALT-1'', sn_created_at = 1, sn_updated_at = 1,
     sn_status = ''open'', sn_alert_type = ''dq_failure'', sn_severity = ''high'', sn_table_name = ''orders'',
     sn_metric = ''rows'', sn_dt = Some (Date 2024 1 2), sn_dimension = [], sn_observed_value = JInt 0,
     sn_expected_value = JInt 1, sn_threshold_value = JInt 1, sn_source_check_run_id = Some ''run-1'',
     sn_details = \<lparr>de_producer = [], de_resolution = None, de_history = []\<rparr>, sn_report_s3_uri = [],
     sn_acknowledged_by = [], sn_resolved_at = None\<rparr>"

definition trial_check :: check_entry where
  "trial_check = \<lparr>ck_status = Some ''pass'', ck_table_name = Some ''orders'', ck_dt = Some (isoformat (Date 2024 1 2)),
     ck_metric = Some ''rows'', ck_dimension = None, ck_run_at = Some 100, ck_observed_at = None\<rparr>"

definition trial_capture :: check_result where
  "trial_capture = \<lparr>re_status = Verdict_Pass, re_expected = JInt 1, re_observed = JInt 1, re_summary = ''ok'',
     re_references = [''run-2''], re_contract_hash = ''c'', re_data_watermark = ''m'', re_schema_hash = ''s'',
     re_observed_at = Some 100, re_checks = [trial_check]\<rparr>"

definition trial_services :: "unit env" where
  "trial_services = \<lparr>en_database_url = ''db'', en_airflow = (\<lambda>_. ''set''), en_airflow_url_ok = (\<lambda>_. True),
     en_uuid = (\<lambda>n. ''u'' @ replicate n (CHR ''1'')), en_parse_uuid = Some, en_str = (\<lambda>_. []), en_sha = (\<lambda>_. []),
     en_now = (\<lambda>x. (100, x)), en_client = (\<lambda>x. (Inr (), x)), en_find_alert = (\<lambda>_ x. (Inr (Some ''k''), x)),
     en_source_row = (\<lambda>_ x. (Inr (Some trial_snapshot), x)), en_contract_hash = (\<lambda>_ x. (Inr ''c'', x)),
     en_schema_hash = (\<lambda>_ x. (Inr ''s'', x)), en_data_watermark = (\<lambda>_ x. (Inr ''m'', x)),
     en_newer_failures = (\<lambda>_ _ x. (Inr 0, x)), en_capture = (\<lambda>_ x. (Inr trial_capture, x)),
     en_insert_alert = (\<lambda>_ x. (Inr (), x)), en_audit = (\<lambda>_ _ x. (Inr (), x)), en_post_result = (\<lambda>_ x. (Inr (), x)),
     en_sync_message = (\<lambda>_ x. (Inr (JObj []), x)), en_auth = (\<lambda>x. (Answer 201 (Some (JObj [(''access_token'', JStr ''t'')])), x)),
     en_get_run = (\<lambda>_ x. (Answer 404 None, x)), en_post_run = (\<lambda>_ x. (Answer 200 (Some (JObj [(''state'', JStr ''queued'')])), x))\<rparr>"

definition trial_db :: "incident list \<Rightarrow> request_row list \<Rightarrow> decision_row list \<Rightarrow> resolution_db" where
  "trial_db is rs ds = \<lparr>db_incidents = is, db_requests = rs, db_keys = [], db_decisions = ds, db_events = [], db_approvals = []\<rparr>"

definition trial_world :: "resolution_db \<Rightarrow> nat \<Rightarrow> unit world" where
  "trial_world d n = \<lparr>rw_db = d, rw_now = 100, rw_schedule = [], rw_drawn = n, rw_posted = [], rw_captured = [], rw_ext = ()\<rparr>"

definition trial_body :: incident_resolve where
  "trial_body = \<lparr>rc_actor = ''ana'', rc_idempotency_key = ''key'', ir_request_id = ''u'', ir_expected_revision = 1, ir_reason = ''fixed it''\<rparr>"

section \<open>Evaluation\<close>

text \<open>The rules under which \<open>simp\<close> runs the processes.\<close>

lemma strip_text: "strip ''db'' = ''db''" "strip ''set'' = ''set''" "strip ''run-2'' = ''run-2''"
  by (simp_all add: strip_def py_space_def)

lemma trial_services_simps:
  "en_database_url trial_services = ''db''" "en_airflow trial_services k = ''set''" "en_airflow_url_ok trial_services s"
  "en_uuid trial_services n = ''u'' @ replicate n (CHR ''1'')" "en_parse_uuid trial_services s = Some s" 
  "en_sha trial_services = (\<lambda>_. [])" "en_now trial_services = (\<lambda>x. (100, x))" "en_client trial_services = (\<lambda>x. (Inr (), x))"
  "en_find_alert trial_services = (\<lambda>_ x. (Inr (Some ''k''), x))" "en_source_row trial_services = (\<lambda>_ x. (Inr (Some trial_snapshot), x))"
  "en_contract_hash trial_services = (\<lambda>_ x. (Inr ''c'', x))" "en_schema_hash trial_services = (\<lambda>_ x. (Inr ''s'', x))"
  "en_data_watermark trial_services = (\<lambda>_ x. (Inr ''m'', x))" "en_newer_failures trial_services = (\<lambda>_ _ x. (Inr 0, x))"
  "en_capture trial_services = (\<lambda>_ x. (Inr trial_capture, x))" 
  "en_auth trial_services = (\<lambda>x. (Answer 201 (Some (JObj [(''access_token'', JStr ''t'')])), x))"
  "en_get_run trial_services = (\<lambda>_ x. (Answer 404 None, x))"
  "en_post_run trial_services = (\<lambda>_ x. (Answer 200 (Some (JObj [(''state'', JStr ''queued'')])), x))"
  by (simp_all add: trial_services_def)

lemma trial_snapshot_simps: "sn_alert_key trial_snapshot = ''k''" "sn_display_id trial_snapshot = ''ALT-1''"
    "sn_status trial_snapshot = ''open''"
  by (simp_all add: trial_snapshot_def)

lemmas run_defs = bnd_def db_gets_def db_modify_def service_def outside_def now_def uuid4_def read_incident_def
  save_incident_def request_by_id_def read_request_def save_request_def event_def source_def initialize_def
  control_transaction_def begin_transaction_def trial_world_def trial_db_def new_incident_def incident_checks_def INCIDENT_STATUSES_def
  sql_any_def sql_update_def Let_def trial_services_simps trial_snapshot_simps strip_text
  atom_def seq_def catch_def forget_def

lemmas create_defs = create_revalidation_def airflow_client_def configured_def create_transaction_def replayed_def latest_request_def
  latest_row_def remediation_blockers_def open_request_def insert_key_def new_revalidation_def

lemmas dispatch_defs = dispatch_revalidation_def claim_trigger_def was_claimed_def trigger_def airflow_token_def body_get_def 
  get_json_def trigger_post_def post_dag_run_def after_post_def trigger_answered_def hashable_def

lemmas check_defs = run_request_stage_def run_stage_def get_revalidation_def run_checks_def read_transaction_def
  expire_if_due_def claim_check_def awaits_deadline_def capture_def read_incident_row_def minutes_def

lemma trial_uuid: "uuid_ok trial_services"
  by (auto simp: uuid_ok_def trial_services_simps inj_def)

section \<open>A revalidation\<close>

text \<open>A request is created while its Airflow run is requested a second time; then its evidence is captured.\<close>

definition trial_start :: "unit world \<times> (unit world, resolution_error + unit) process list" where
  "trial_start = (trial_world (trial_db [] [] []) 0, map (operation trial_services)
     [Create ''ALT-1'' \<lparr>rc_actor = ''ana'', rc_idempotency_key = ''q''\<rparr>, Dispatch ''u'', Stage ''u'' ''checks''])"

definition trial_end :: "unit world \<times> (unit world, resolution_error + unit) process list" where
  "trial_end = interleave [0, 0, 0, 0, 0, 1, 1, 0, 0, 2, 2, 2] trial_start"

lemma trial_effects: "rw_posted (fst trial_end) = [''u''] \<and> rw_captured (fst trial_end) = [''u'']"
  by (simp add: trial_end_def trial_start_def run_defs create_defs dispatch_defs check_defs numeral_eq_Suc)

lemma trial_moves: "moves\<^sup>*\<^sup>* trial_start (fst trial_end, snd trial_end)"
  unfolding trial_end_def prod.collapse by (rule interleave_moves)

lemma trial_empty: "no_requests (fst trial_start)"
  by (simp add: trial_start_def trial_world_def trial_db_def no_requests_def)

lemma one_dispatch_and_one_capture_witness:
  "\<exists>q \<in> set (db_requests (rw_db (fst trial_end))). rv_request_id (qr_request q) = ''u'' \<and> rv_check_claimed (qr_request q)"
  using one_dispatch_and_one_capture[OF trial_moves[unfolded trial_start_def] _ trial_uuid]
    trial_effects trial_empty by (simp add: trial_start_def)

lemma stored_requests_are_well_formed_witness:
  "list_all (request_ok \<circ> qr_request) (db_requests (rw_db (fst trial_end)))"
  using stored_requests_are_well_formed[OF trial_moves[unfolded trial_start_def] _ trial_uuid] trial_empty
  by (simp add: trial_start_def list_all_iff)

section \<open>A closure\<close>

definition trial_request :: revalidation where
  "trial_request = (new_revalidation ''u'' (new_incident trial_snapshot) 100 ''c'' ''ana'')
     \<lparr>rv_status := Pass, rv_finished_at := Some 100, rv_expires_at := Some (100 + minutes 10),
      rv_result := Some trial_capture, rv_check_claimed := True, rv_trigger_state := Trigger_Confirmed,
      rv_check_started_at := Some 100\<rparr>"

definition trial_open :: "unit world" where
  "trial_open = trial_world (trial_db [new_incident trial_snapshot] [\<lparr>qr_request = trial_request, qr_hash = ''h'', qr_created = 100\<rparr>] []) 1"

lemma trial_open_ok: "requests_ok trial_services trial_open" "one_per_key (rw_db trial_open)"
proof -
  show "requests_ok trial_services trial_open"
    by (auto simp: requests_ok_def request_ids_def request_ok_def trial_open_def trial_world_def trial_db_def trial_request_def
        trial_capture_def new_revalidation_def new_incident_def trial_services_simps)
  show "one_per_key (rw_db trial_open)"
    by (simp add: one_per_key_def trial_open_def trial_world_def trial_db_def)
qed

lemmas close_defs = confirm_transaction_def trial_body_def trial_request_def latest_request_def latest_row_def expire_if_due_def
  awaits_deadline_def remediation_blockers_def new_revalidation_def close_incident_def newer_blockers_def observation_time_def
  validate_closure_def known_check_def targets_rule_def or_empty_def evidence_time_def within_def capture_start_def
  trial_capture_def trial_check_def scope_for_def dt_text_def trial_snapshot_def next_version_def decision_of_def
  insert_decision_def minutes_def milliseconds_def

text \<open>The commit goes through and its acknowledgement is lost: the caller sees an error, the incident is closed.\<close>

definition trial_lost :: "unit world" where
  "trial_lost = trial_open\<lparr>rw_schedule := [(100, Commit_Ack_Lost)]\<rparr>"

lemma trial_lost_ok: "requests_ok trial_services trial_lost" "one_per_key (rw_db trial_lost)"
  using trial_open_ok by (simp_all add: trial_lost_def requests_ok_def)

lemma trial_closes:
  "fst (confirm_transaction trial_services ''ALT-1'' trial_body trial_lost) = Inl Db_Failure \<and>
     closes (rw_db trial_lost) (rw_db (snd (confirm_transaction trial_services ''ALT-1'' trial_body trial_lost)))"
  by (simp add: close_defs trial_lost_def trial_open_def run_defs closes_def)

lemma closure_rests_on_evidence_witness:
  "\<exists>d v. confirm_transaction trial_services ''ALT-1'' trial_body trial_lost = (Inl Db_Failure, v) \<and>
     (\<exists>j \<in> set (db_incidents (rw_db v)). in_status j = ''resolved'' \<and> resolution_of j = Some d) \<and>
     (\<exists>row \<in> set (db_decisions (rw_db v)). dr_record row = d)"
proof -
  obtain v where run: "confirm_transaction trial_services ''ALT-1'' trial_body trial_lost = (Inl Db_Failure, v)"
    and lost: "closes (rw_db trial_lost) (rw_db v)"
    using trial_closes by (cases "confirm_transaction trial_services ''ALT-1'' trial_body trial_lost") auto
  show ?thesis using closure_rests_on_evidence[OF run disjI2[OF lost] trial_lost_ok] run by blast
qed

section \<open>A closed incident\<close>

text \<open>It was resolved at time 50, and a check run at time 90 fails again.\<close>

definition trial_decision :: decision where
  "trial_decision = (decision_of (new_incident trial_snapshot) trial_request trial_capture trial_body 50)
     \<lparr>rd_synchronization_pending := False\<rparr>"

definition trial_resolved :: incident where
  "trial_resolved = (new_incident trial_snapshot)\<lparr>in_revision := 2, in_status := ''resolved'',
     in_snapshot := trial_snapshot\<lparr>sn_details := \<lparr>de_producer = [], de_resolution = Some trial_decision, de_history = []\<rparr>\<rparr>\<rparr>"

definition trial_failure :: candidate where
  "trial_failure = \<lparr>ca_alert_key = ''k'', ca_display_id = ''ALT-1'', ca_status = ''open'', ca_alert_type = ''dq_failure'',
     ca_severity = ''high'', ca_table_name = ''orders'', ca_metric = ''rows'', ca_dt = Some (Date 2024 1 2), ca_dimension = [],
     ca_observed_value = JInt 0, ca_expected_value = JInt 1, ca_threshold_value = JInt 1, ca_source_check_run_id = Some ''run-3'',
     ca_details = [], ca_source_run_at = Some 90, ca_detected_at = None\<rparr>"

definition closing_row :: decision_row where
  "closing_row = \<lparr>dr_hash = operation_hash trial_services ''resolve'' ''ALT-1'' ''key'', dr_alert_key = ''k'',
     dr_request_id = ''u'', dr_record = trial_decision\<rparr>"

definition trial_closed :: "unit world" where
  "trial_closed = trial_world (trial_db [trial_resolved] [] [closing_row]) 1"

definition trial_again :: "unit world \<times> (unit world, resolution_error + unit) process list" where
  "trial_again = interleave [0] (trial_closed, map (operation trial_services) [Publish [trial_failure]])"

lemma trial_reopens: "map in_episode (db_incidents (rw_db (fst trial_again))) = [2]"
  by (simp add: trial_again_def trial_closed_def trial_resolved_def trial_failure_def run_defs publish_candidates_def
      publish_candidate_def candidate_transaction_def reopen_def reopens_def detected_at_def resolved_time_def or_empty_def
      trial_decision_def decision_of_def next_version_def apply_candidate_def trial_snapshot_def)

lemma trial_again_moves: "moves\<^sup>*\<^sup>* (trial_closed, map (operation trial_services) [Publish [trial_failure]]) (fst trial_again, snd trial_again)"
  unfolding trial_again_def prod.collapse by (rule interleave_moves)

lemma trial_closed_key: "one_per_key (rw_db trial_closed)"
  by (simp add: one_per_key_def trial_closed_def trial_world_def trial_db_def)

lemma incident_versions_follow_each_other_witness:
  "\<exists>j. db_incidents (rw_db (fst trial_again)) = [j] \<and> in_episode j = 2 \<and> in_alert_ref j = ''ALT-1'' \<and> 2 \<le> in_revision j"
proof -
  obtain j where "db_incidents (rw_db (fst trial_again)) = [j]" "in_episode j = 2"
    using trial_reopens by (auto simp: map_eq_Cons_conv)
  then show ?thesis
    using incident_versions_follow_each_other[OF trial_again_moves trial_closed_key]
    by (simp add: trial_closed_def trial_world_def trial_db_def trial_resolved_def new_incident_def trial_snapshot_simps)
qed

lemma closure_replay_returns_decision_witness:
  "\<exists>v. map in_episode (db_incidents (rw_db v)) = [2] \<and>
     fst (confirm_transaction trial_services ''ALT-1'' trial_body v) \<in> {Inr (reported trial_resolved closing_row (rw_db v), None), Inl Db_Failure}"
proof -
  let ?v = "fst trial_again"
  obtain v0 c where begins: "begin_transaction ?v = (v0, c)" by fastforce
  have source: "source trial_services ''ALT-1'' v0 = (Inr (Some trial_snapshot), v0)"
    by (simp add: source_def bnd_def service_def trial_services_simps)
  have i: "trial_resolved \<in> set (db_incidents (rw_db trial_closed))"
    by (simp add: trial_closed_def trial_world_def trial_db_def)
  have row: "recorded_decision trial_services trial_resolved (rc_idempotency_key trial_body) (rw_db trial_closed) = Some closing_row"
    by (simp add: recorded_decision_def trial_closed_def trial_world_def trial_db_def trial_resolved_def closing_row_def
        trial_body_def new_incident_def trial_snapshot_simps)
  have url: "strip (en_database_url trial_services) \<noteq> []"
    by (simp add: trial_services_simps strip_text)
  have key: "sn_alert_key trial_snapshot = in_alert_key trial_resolved"
    by (simp add: trial_resolved_def new_incident_def)
  have same: "same_decision (dr_record closing_row) trial_body"
    by (simp add: same_decision_def closing_row_def trial_decision_def decision_of_def trial_body_def trial_request_def new_revalidation_def)
  show ?thesis
    using closure_replay_returns_decision[OF trial_again_moves trial_closed_key i row url begins source key] same trial_reopens
    by (intro exI[of _ ?v]) (auto split: if_splits)
qed

end
