(* ===== verification/Routing.thy ===== *)
theory Routing
  imports Execution_Plan Sql_Text
begin

text \<open>
  From an operator's request to a specialist's task: \<open>agent/supervisor/models.py\<close>,
  \<open>agent/supervisor/routing.py\<close> and the task builders of \<open>agent/specialists\<close>.

  The builders' random task identifier and creation time are the argument \<open>stamp\<close>. A task's payload
  is the dump of its typed input; where the code validates the dump again, the model validates the
  typed input again, as dumping and parsing keep texts, integers, booleans and floats.
\<close>

section \<open>Requests\<close>

datatype execution_mode = Single | Fanout_Mode

record 'f request =
  rq_intent :: intent
  rq_question :: string
  rq_alert_id :: string
  rq_alert_key :: string
  rq_qualified_name :: string
  rq_query :: string
  rq_domain :: string
  rq_data_layer :: string
  rq_certification :: string
  rq_lifecycle :: string
  rq_sql :: string
  rq_sql_purpose :: string
  rq_sql_hard_limit :: int
  rq_sql_require_date :: bool
  rq_sql_max_scan :: int
  rq_schema_run_id :: string
  rq_finding_limit :: int
  rq_result_limit :: int
  rq_max_depth :: int
  rq_max_nodes :: int
  rq_confidence :: 'f
  rq_iterations :: int
  rq_manifest :: string
  rq_bucket :: string
  rq_prefix :: string
  rq_requester :: string
  rq_mode :: execution_mode
  rq_max_workers :: int
  rq_max_concurrency :: int
  rq_allow_llm :: bool
  rq_max_handoffs :: int
  rq_max_retries :: int
  rq_max_calls :: int
  rq_tokens :: int
  rq_cost :: 'f
  rq_latency :: int

definition digit :: "char \<Rightarrow> bool" where
  "digit c \<longleftrightarrow> (let n = (of_char c :: nat) in 48 \<le> n \<and> n \<le> 57)"

definition upper_letter :: "char \<Rightarrow> bool" where
  "upper_letter c \<longleftrightarrow> (let n = (of_char c :: nat) in 65 \<le> n \<and> n \<le> 90)"

definition alphanumeric :: "char \<Rightarrow> bool" where
  "alphanumeric c \<longleftrightarrow> lower_letter c \<or> upper_letter c \<or> digit c"

definition bucket_char :: "char \<Rightarrow> bool" where
  "bucket_char c \<longleftrightarrow> lower_letter c \<or> digit c"

text \<open>\<open>[a-z0-9][a-z0-9.-]{1,61}[a-z0-9]\<close>\<close>

definition bucket_name :: "string \<Rightarrow> bool" where
  "bucket_name s \<longleftrightarrow> 3 \<le> length s \<and> length s \<le> 63 \<and> bucket_char (hd s) \<and> bucket_char (last s) \<and>
     list_all (\<lambda>c. bucket_char c \<or> c \<in> {CHR ''.'', CHR ''-''}) s"

definition SAFE_S3_URI :: "string \<Rightarrow> bool" where
  "SAFE_S3_URI s \<longleftrightarrow> has_prefix ''s3://'' s \<and>
     (let rest = drop 5 s; path = dropWhile (\<lambda>c. c \<noteq> CHR ''/'') rest
      in bucket_name (takeWhile (\<lambda>c. c \<noteq> CHR ''/'') rest) \<and>
         (path = [] \<or> (2 \<le> length path \<and> length path \<le> 2002 \<and> alphanumeric (path ! 1) \<and>
            list_all (\<lambda>c. alphanumeric c \<or> c \<in> {CHR ''.'', CHR ''_'', CHR ''/'', CHR ''-''}) (drop 2 path))))"

definition dotted_quad :: "string \<Rightarrow> bool" where
  "dotted_quad s \<longleftrightarrow> (let parts = split_on (CHR ''.'') s in length parts = 4 \<and> list_all (\<lambda>p. p \<noteq> [] \<and> list_all digit p) parts)"

definition SAFE_S3_BUCKET :: "string \<Rightarrow> bool" where
  "SAFE_S3_BUCKET s \<longleftrightarrow> bucket_name s \<and> \<not> contains ''..'' s \<and> \<not> dotted_quad s"

definition SAFE_ARTIFACT_PREFIX :: "string \<Rightarrow> bool" where
  "SAFE_ARTIFACT_PREFIX s \<longleftrightarrow> s \<noteq> [] \<and> length s \<le> 200 \<and> (alphanumeric (hd s) \<or> hd s = CHR ''_'') \<and>
     list_all (\<lambda>c. alphanumeric c \<or> c \<in> {CHR ''_'', CHR ''.'', CHR ''/'', CHR ''-''}) s"

definition run_id_char :: "char \<Rightarrow> bool" where
  "run_id_char c \<longleftrightarrow> alphanumeric c \<or> c \<in> {CHR ''_'', CHR ''.'', CHR '':'', CHR ''+'', CHR ''-''}"

text \<open>A text field: its bounds, then \<open>normalize_text\<close>.\<close>

definition text_field :: "nat \<Rightarrow> nat \<Rightarrow> string \<Rightarrow> string \<Rightarrow> refusal + string" where
  "text_field lo hi s name =
     and_then (sized lo hi s name) (\<lambda>_.
     and_then (check (single_line (strip s)) (Invalid name)) (\<lambda>_. Inr (strip s)))"

definition in_range :: "'f pylib \<Rightarrow> string \<Rightarrow> string \<Rightarrow> 'f \<Rightarrow> bool" where
  "in_range lib lo hi x \<longleftrightarrow> lib_le lib (lib_literal lib lo) x \<and> lib_le lib x (lib_literal lib hi)"

definition normalized :: "'f request \<Rightarrow> 'f request" where
  "normalized r = r\<lparr>rq_question := strip (rq_question r), rq_alert_id := strip (rq_alert_id r),
     rq_alert_key := strip (rq_alert_key r), rq_qualified_name := strip (rq_qualified_name r), rq_query := strip (rq_query r),
     rq_domain := strip (rq_domain r), rq_data_layer := strip (rq_data_layer r),
     rq_certification := strip (rq_certification r), rq_lifecycle := strip (rq_lifecycle r), rq_sql := strip (rq_sql r),
     rq_sql_purpose := strip (rq_sql_purpose r), rq_schema_run_id := strip (rq_schema_run_id r),
     rq_manifest := strip (rq_manifest r), rq_bucket := strip (rq_bucket r), rq_prefix := strip (rq_prefix r),
     rq_requester := strip (rq_requester r)\<rparr>"

definition request_texts :: "'f request \<Rightarrow> refusal + 'f request" where
  "request_texts r =
     and_then (text_field 0 1000 (rq_question r) ''question'') (\<lambda>_.
     and_then (text_field 0 36 (rq_alert_id r) ''alert_id'') (\<lambda>_.
     and_then (text_field 0 500 (rq_alert_key r) ''alert_key'') (\<lambda>_.
     and_then (text_field 0 200 (rq_qualified_name r) ''qualified_name'') (\<lambda>_.
     and_then (text_field 0 120 (rq_query r) ''query'') (\<lambda>_.
     and_then (text_field 0 80 (rq_domain r) ''domain'') (\<lambda>_.
     and_then (text_field 0 40 (rq_data_layer r) ''data_layer'') (\<lambda>_.
     and_then (text_field 0 40 (rq_certification r) ''certification_status'') (\<lambda>_.
     and_then (text_field 0 40 (rq_lifecycle r) ''lifecycle_status'') (\<lambda>_.
     and_then (sized 0 20000 (rq_sql r) ''sql_proposal'') (\<lambda>_.
     and_then (check (CHR 0x00 \<notin> set (strip (rq_sql r))) (Invalid ''sql_proposal'')) (\<lambda>_.
     and_then (text_field 0 500 (rq_sql_purpose r) ''sql_purpose'') (\<lambda>_.
     and_then (check (list_all run_id_char (rq_schema_run_id r)) (Invalid ''schema_run_id'')) (\<lambda>_.
     and_then (text_field 0 250 (rq_schema_run_id r) ''schema_run_id'') (\<lambda>_.
     and_then (text_field 0 2048 (rq_manifest r) ''manifest_s3_uri'') (\<lambda>_.
     and_then (text_field 0 100 (rq_bucket r) ''artifacts_bucket'') (\<lambda>_.
     and_then (text_field 0 200 (rq_prefix r) ''artifacts_prefix'') (\<lambda>_.
     and_then (text_field 1 100 (rq_requester r) ''requester'') (\<lambda>_.
     Inr (normalized r)))))))))))))))))))"

definition request_numbers :: "'f pylib \<Rightarrow> 'f request \<Rightarrow> refusal + unit" where
  "request_numbers lib r =
     and_then (ranged 1 1000 (rq_sql_hard_limit r) ''sql_hard_limit'') (\<lambda>_.
     and_then (ranged (1024 * 1024) (1024 * 1024 * 1024 * 1024) (rq_sql_max_scan r) ''sql_max_scan_bytes'') (\<lambda>_.
     and_then (ranged 1 100 (rq_finding_limit r) ''schema_finding_limit'') (\<lambda>_.
     and_then (ranged 1 25 (rq_result_limit r) ''result_limit'') (\<lambda>_.
     and_then (ranged 1 10 (rq_max_depth r) ''max_depth'') (\<lambda>_.
     and_then (ranged 1 250 (rq_max_nodes r) ''max_nodes'') (\<lambda>_.
     and_then (check (in_range lib ''0.10'' ''0.95'' (rq_confidence r)) (Invalid ''confidence_threshold'')) (\<lambda>_.
     and_then (ranged 0 5 (rq_iterations r) ''max_evidence_iterations'') (\<lambda>_.
     and_then (ranged 1 10 (rq_max_workers r) ''max_workers'') (\<lambda>_.
     and_then (ranged 1 3 (rq_max_concurrency r) ''max_concurrency'') (\<lambda>_.
     and_then (ranged 1 10 (rq_max_handoffs r) ''max_handoffs'') (\<lambda>_.
     and_then (ranged 0 2 (rq_max_retries r) ''max_retries'') (\<lambda>_.
     and_then (ranged 0 10 (rq_max_calls r) ''max_model_calls'') (\<lambda>_.
     and_then (ranged 0 64000 (rq_tokens r) ''token_budget'') (\<lambda>_.
     and_then (check (within lib ''0.15'' (rq_cost r)) (Invalid ''estimated_cost_budget_usd'')) (\<lambda>_.
     ranged 1000 900000 (rq_latency r) ''latency_budget_ms'')))))))))))))))"

definition explicit_inputs :: "'f pylib \<Rightarrow> 'f request \<Rightarrow> bool" where
  "explicit_inputs lib r \<longleftrightarrow> (case rq_intent r of
      Triage_Alert \<Rightarrow> rq_alert_id r \<noteq> [] \<or> rq_alert_key r \<noteq> []
    | Interpret_Incident_Evidence \<Rightarrow>
        rq_alert_key r \<noteq> [] \<and> rq_mode r = Fanout_Mode \<and> 3 \<le> rq_max_workers r \<and> 3 \<le> rq_max_calls r \<and>
        24576 \<le> rq_tokens r \<and> \<not> lib_less lib (rq_cost r) (lib_literal lib ''0.048'')
    | Asset_Context \<Rightarrow> rq_qualified_name r \<noteq> []
    | Blast_Radius \<Rightarrow> rq_qualified_name r \<noteq> []
    | Trusted_Asset_Search \<Rightarrow> rq_query r \<noteq> [] \<or> rq_question r \<noteq> []
    | Review_Sql \<Rightarrow> rq_sql r \<noteq> []
    | Schema_Drift_Assessment \<Rightarrow> rq_schema_run_id r \<noteq> [] \<and> rq_qualified_name r \<noteq> []
    | Auto_Intent \<Rightarrow>
        list_ex (\<lambda>s. s \<noteq> []) [rq_question r, rq_alert_id r, rq_alert_key r, rq_qualified_name r, rq_query r, rq_sql r,
          rq_schema_run_id r])"

definition proposals_fit :: "'f request \<Rightarrow> bool" where
  "proposals_fit r \<longleftrightarrow>
     (rq_sql r \<noteq> [] \<longrightarrow> rq_intent r \<in> {Auto_Intent, Review_Sql}) \<and>
     (rq_schema_run_id r \<noteq> [] \<longrightarrow> rq_intent r \<in> {Auto_Intent, Schema_Drift_Assessment} \<and> rq_qualified_name r \<noteq> [])"

definition mode_fits :: "'f request \<Rightarrow> bool" where
  "mode_fits r \<longleftrightarrow> (case rq_mode r of
      Single \<Rightarrow> rq_max_workers r = 1 \<and> rq_max_concurrency r = 1 \<and> rq_max_handoffs r = 1
    | Fanout_Mode \<Rightarrow> 2 \<le> rq_max_workers r \<and> rq_max_workers r \<le> rq_max_handoffs r \<and> rq_max_concurrency r \<le> rq_max_workers r)"

definition storage_safe :: "'f request \<Rightarrow> bool" where
  "storage_safe r \<longleftrightarrow>
     (rq_manifest r \<noteq> [] \<longrightarrow> SAFE_S3_URI (rq_manifest r) \<and> ''..'' \<notin> set (split_on (CHR ''/'') (drop 5 (rq_manifest r)))) \<and>
     (rq_bucket r \<noteq> [] \<longrightarrow> SAFE_S3_BUCKET (rq_bucket r)) \<and>
     SAFE_ARTIFACT_PREFIX (rq_prefix r) \<and> ''..'' \<notin> set (split_on (CHR ''/'') (rq_prefix r))"

definition validate_request :: "'f pylib \<Rightarrow> 'f request \<Rightarrow> refusal + 'f request" where
  "validate_request lib r0 =
     and_then (request_texts r0) (\<lambda>r.
     and_then (request_numbers lib r) (\<lambda>_.
     and_then (check (\<not> (rq_alert_id r \<noteq> [] \<and> rq_alert_key r \<noteq> [])) (Invalid ''alert_id'')) (\<lambda>_.
     and_then (check (explicit_inputs lib r) (Invalid ''intent'')) (\<lambda>_.
     and_then (check (proposals_fit r) (Invalid ''proposal'')) (\<lambda>_.
     and_then (check (mode_fits r) (Invalid ''execution_mode'')) (\<lambda>_.
     and_then (check (storage_safe r) (Invalid ''storage'')) (\<lambda>_. Inr r)))))))"

section \<open>Routes\<close>

record route =
  rt_intent :: intent
  rt_specialist :: string
  rt_type :: string
  rt_rationale :: string

definition TRIAGE_KEYWORDS :: "string list" where
  "TRIAGE_KEYWORDS = [''alert'', ''incident'', ''root cause'', ''triage'', ''why did'', ''what happened'']"

definition BLAST_RADIUS_KEYWORDS :: "string list" where
  "BLAST_RADIUS_KEYWORDS = [''blast radius'', ''downstream'', ''impact'', ''impacted'']"

definition ASSET_CONTEXT_KEYWORDS :: "string list" where
  "ASSET_CONTEXT_KEYWORDS = [''asset context'', ''metadata'', ''owner'', ''ownership'', ''grain'', ''sla'', ''trust'']"

definition SEARCH_KEYWORDS :: "string list" where
  "SEARCH_KEYWORDS = [''find table'', ''find asset'', ''search table'', ''search asset'', ''trusted table'', ''trusted asset'']"

definition ROUTE_BY_INTENT :: "(intent \<times> route) list" where
  "ROUTE_BY_INTENT = map (\<lambda>(i, specialist, task_type, rationale).
       (i, \<lparr>rt_intent = i, rt_specialist = specialist, rt_type = task_type, rt_rationale = rationale\<rparr>))
     [(Interpret_Incident_Evidence, INCIDENT_TRIAGE_SPECIALIST_NAME, ''interpret_dq_history'',
         ''Interpret independent DQ, pipeline, and lineage evidence through three bounded tasks.''),
      (Triage_Alert, INCIDENT_TRIAGE_SPECIALIST_NAME, ''triage_alert'',
         ''An explicit alert identity requires the evidence-driven incident workflow.''),
      (Asset_Context, METADATA_LINEAGE_SPECIALIST_NAME, ''asset_context'',
         ''An exact warehouse asset requires trusted metadata and direct lineage context.''),
      (Blast_Radius, METADATA_LINEAGE_SPECIALIST_NAME, ''blast_radius'',
         ''A downstream impact request requires bounded transitive dbt lineage traversal.''),
      (Trusted_Asset_Search, METADATA_LINEAGE_SPECIALIST_NAME, ''trusted_asset_search'',
         ''A discovery request requires bounded metadata trust registry search.''),
      (Review_Sql, SQL_REVIEW_SPECIALIST_NAME, ''review_sql'',
         ''A SQL proposal requires deterministic safety, metadata trust, and scan-risk '' @
         ''review before any separate read-only execution request.''),
      (Schema_Drift_Assessment, SCHEMA_DRIFT_SPECIALIST_NAME, ''assess_schema_drift'',
         ''An exact persisted detector run requires deterministic compatibility, metadata, '' @
         ''and bounded downstream-impact assessment without schema mutation.'')]"

definition contains_any :: "string \<Rightarrow> string list \<Rightarrow> bool" where
  "contains_any value keywords = list_ex (\<lambda>k. contains k value) keywords"

text \<open>The set \<open>candidates\<close>, as a list without repetitions.\<close>

definition intent_candidates :: "'f request \<Rightarrow> intent list" where
  "intent_candidates r =
     (let question = lower (rq_question r) in
      (if (rq_alert_id r \<noteq> [] \<or> rq_alert_key r \<noteq> []) \<and> (question = [] \<or> contains_any question TRIAGE_KEYWORDS)
       then [Triage_Alert] else []) @
      (if rq_qualified_name r = [] then []
       else if contains_any question BLAST_RADIUS_KEYWORDS then [Blast_Radius]
       else if question = [] \<or> contains_any question ASSET_CONTEXT_KEYWORDS then [Asset_Context] else []) @
      (if rq_query r \<noteq> [] \<or> contains_any question SEARCH_KEYWORDS then [Trusted_Asset_Search] else []))"

definition classify_supervisor_intent :: "'f request \<Rightarrow> refusal + intent" where
  "classify_supervisor_intent r =
     (if rq_intent r \<noteq> Auto_Intent then Inr (rq_intent r)
      else if rq_sql r \<noteq> [] then Inr Review_Sql
      else if rq_schema_run_id r \<noteq> [] then Inr Schema_Drift_Assessment
      else case intent_candidates r of [i] \<Rightarrow> Inr i | _ \<Rightarrow> Inl (Invalid ''routing''))"

definition resolve_supervisor_route :: "'f request \<Rightarrow> refusal + route" where
  "resolve_supervisor_route r =
     and_then (classify_supervisor_intent r) (\<lambda>i.
     case map_of ROUTE_BY_INTENT i of None \<Rightarrow> Inl (Invalid ''routing'') | Some route \<Rightarrow> Inr route)"

section \<open>Task builders\<close>

type_synonym stamp = "string \<times> int"

text \<open>The envelope with the defaults of its model; \<open>validate_task\<close> is its construction.\<close>

definition new_task :: "stamp \<Rightarrow> string \<Rightarrow> string \<Rightarrow> string \<Rightarrow> string list \<Rightarrow> string \<Rightarrow> string \<Rightarrow> fields \<Rightarrow> 'f \<Rightarrow> 'f task" where
  "new_task stamp parent specialist task_type tools requester alert_key payload cost =
     \<lparr>tk_task_id = fst stamp, tk_parent = parent, tk_specialist = specialist, tk_type = task_type, tk_risk = Low_Risk,
      tk_tools = tools, tk_context = [], tk_route = No_Llm_Fallback, tk_model_calls = 0, tk_tokens = 0, tk_cost = cost,
      tk_timeout = 60, tk_requester = requester, tk_alert_key = alert_key, tk_payload = payload, tk_created_at = snd stamp\<rparr>"

definition context_of :: "reference_kind \<Rightarrow> string \<Rightarrow> string \<Rightarrow> context_reference" where
  "context_of k reference description = \<lparr>cx_kind = k, cx_reference = reference, cx_description = description\<rparr>"

subsection \<open>Incident triage\<close>

record 'f triage_input =
  ti_alert_id :: string
  ti_alert_key :: string
  ti_confidence :: 'f
  ti_iterations :: int
  ti_manifest :: string
  ti_bucket :: string
  ti_prefix :: string

definition validate_triage_input :: "'f pylib \<Rightarrow> 'f triage_input \<Rightarrow> refusal + 'f triage_input" where
  "validate_triage_input lib x0 =
     and_then (text_field 0 36 (ti_alert_id x0) ''alert_id'') (\<lambda>alert_id.
     and_then (text_field 0 500 (ti_alert_key x0) ''alert_key'') (\<lambda>alert_key.
     and_then (check (in_range lib ''0.10'' ''0.95'' (ti_confidence x0)) (Invalid ''confidence_threshold'')) (\<lambda>_.
     and_then (ranged 0 5 (ti_iterations x0) ''max_evidence_iterations'') (\<lambda>_.
     and_then (text_field 0 2048 (ti_manifest x0) ''manifest_s3_uri'') (\<lambda>manifest.
     and_then (text_field 0 100 (ti_bucket x0) ''artifacts_bucket'') (\<lambda>bucket.
     and_then (text_field 0 200 (ti_prefix x0) ''artifacts_prefix'') (\<lambda>prefix.
     and_then (check ((alert_id \<noteq> []) \<noteq> (alert_key \<noteq> [])) (Invalid ''alert_id'')) (\<lambda>_.
     and_then (check (manifest \<noteq> [] \<longrightarrow> has_prefix ''s3://'' manifest) (Invalid ''manifest_s3_uri'')) (\<lambda>_.
     and_then (check (CHR ''/'' \<notin> set bucket \<and> CHR 0x5C \<notin> set bucket) (Invalid ''artifacts_bucket'')) (\<lambda>_.
     and_then (check (\<not> has_prefix ''/'' prefix \<and> ''..'' \<notin> set (split_on (CHR ''/'') prefix)) (Invalid ''artifacts_prefix'')) (\<lambda>_.
     Inr (x0\<lparr>ti_alert_id := alert_id, ti_alert_key := alert_key, ti_manifest := manifest, ti_bucket := bucket,
             ti_prefix := prefix\<rparr>))))))))))))"

definition triage_payload :: "'f planner \<Rightarrow> 'f triage_input \<Rightarrow> fields" where
  "triage_payload pn x =
     [(''alert_id'', JStr (ti_alert_id x)), (''alert_key'', JStr (ti_alert_key x)),
      (''confidence_threshold'', pn_real pn (ti_confidence x)), (''max_evidence_iterations'', JInt (ti_iterations x)),
      (''manifest_s3_uri'', JStr (ti_manifest x)), (''artifacts_bucket'', JStr (ti_bucket x)),
      (''artifacts_prefix'', JStr (ti_prefix x))]"

definition validate_incident_triage_task :: "'f pylib \<Rightarrow> 'f task \<Rightarrow> 'f triage_input \<Rightarrow> refusal + 'f triage_input" where
  "validate_incident_triage_task lib t x =
     and_then (enforce_task_capability t) (\<lambda>_.
     and_then (check (tk_specialist t = INCIDENT_TRIAGE_SPECIALIST_NAME) (Denied ''specialist'')) (\<lambda>_.
     and_then (check (tk_type t = ''triage_alert'') (Denied ''task_type'')) (\<lambda>_.
     validate_triage_input lib x)))"

definition triage_context :: "'f triage_input \<Rightarrow> context_reference list" where
  "triage_context x =
     context_of Ref_Alert (if ti_alert_key x \<noteq> [] then ti_alert_key x else ti_alert_id x)
       ''Alert selected for bounded evidence-driven incident triage.'' #
     (if ti_manifest x = [] then []
      else [context_of Ref_S3_Artifact (ti_manifest x) ''dbt manifest artifact used for lineage evidence.''])"

definition build_incident_triage_task ::
    "'f pylib \<Rightarrow> 'f planner \<Rightarrow> stamp \<Rightarrow> string \<Rightarrow> 'f triage_input \<Rightarrow> string \<Rightarrow> refusal + 'f task" where
  "build_incident_triage_task lib pn stamp parent x0 requester =
     and_then (validate_triage_input lib x0) (\<lambda>x.
     and_then (required_tools_for_task INCIDENT_TRIAGE_SPECIALIST_NAME ''triage_alert'') (\<lambda>tools.
     and_then (validate_task lib ((new_task stamp parent INCIDENT_TRIAGE_SPECIALIST_NAME ''triage_alert'' tools requester
                 (ti_alert_key x) (triage_payload pn x) (lib_literal lib ''0.05''))
                 \<lparr>tk_risk := Medium_Risk, tk_context := triage_context x, tk_route := Deepthink_Llm,
                  tk_model_calls := 3, tk_tokens := 16384, tk_timeout := 300\<rparr>)) (\<lambda>t.
     and_then (validate_incident_triage_task lib t x) (\<lambda>_. Inr t))))"

subsection \<open>Evidence interpretation\<close>

record evidence_input =
  ei_alert_key :: string
  ei_manifest :: string

definition validate_evidence_input :: "evidence_input \<Rightarrow> refusal + evidence_input" where
  "validate_evidence_input x0 =
     and_then (text_field 1 500 (ei_alert_key x0) ''alert_key'') (\<lambda>alert_key.
     and_then (text_field 0 2048 (ei_manifest x0) ''manifest_s3_uri'') (\<lambda>manifest.
     and_then (check (manifest \<noteq> [] \<longrightarrow> has_prefix ''s3://'' manifest) (Invalid ''manifest_s3_uri'')) (\<lambda>_.
     Inr \<lparr>ei_alert_key = alert_key, ei_manifest = manifest\<rparr>)))"

definition evidence_payload :: "evidence_input \<Rightarrow> fields" where
  "evidence_payload x = [(''alert_key'', JStr (ei_alert_key x)), (''manifest_s3_uri'', JStr (ei_manifest x))]"

definition EVIDENCE_WORKER_COST_BUDGET_USD :: string where
  "EVIDENCE_WORKER_COST_BUDGET_USD = ''0.016''"

definition NIL_UUID :: string where
  "NIL_UUID = ''00000000-0000-0000-0000-000000000000''"

text \<open>\<open>!=\<close> of floats.\<close>

definition float_eq :: "'f pylib \<Rightarrow> 'f \<Rightarrow> 'f \<Rightarrow> bool" where
  "float_eq lib a b \<longleftrightarrow> lib_le lib a b \<and> lib_le lib b a"

definition evidence_worker_limits :: "'f pylib \<Rightarrow> 'f task \<Rightarrow> bool" where
  "evidence_worker_limits lib t \<longleftrightarrow> tk_model_calls t = 1 \<and> tk_tokens t = 8192 \<and>
     float_eq lib (tk_cost t) (lib_literal lib EVIDENCE_WORKER_COST_BUDGET_USD) \<and> tk_timeout t = 60"

definition validate_evidence_worker_task :: "'f pylib \<Rightarrow> 'f task \<Rightarrow> evidence_input \<Rightarrow> refusal + evidence_input" where
  "validate_evidence_worker_task lib t x =
     and_then (check (tk_task_id t \<noteq> NIL_UUID) (Invalid ''task_id'')) (\<lambda>_.
     and_then (check (tk_parent t \<noteq> NIL_UUID) (Invalid ''parent_run_id'')) (\<lambda>_.
     and_then (check (map_of EVIDENCE_INTERPRETATION_TASKS (tk_type t) = Some (tk_specialist t)) (Denied ''specialist'')) (\<lambda>_.
     and_then (required_tools_for_task (tk_specialist t) (tk_type t)) (\<lambda>tools.
     and_then (check (tk_tools t = tools) (Denied ''allowlist'')) (\<lambda>_.
     and_then (check (tk_context t = []) (Denied ''context_references'')) (\<lambda>_.
     and_then (check (tk_risk t = Low_Risk) (Denied ''risk_tier'')) (\<lambda>_.
     and_then (check (tk_route t = Quickthink_Llm) (Denied ''model_route'')) (\<lambda>_.
     and_then (check (evidence_worker_limits lib t) (Denied ''limits'')) (\<lambda>_.
     and_then (enforce_task_capability t) (\<lambda>_.
     and_then (validate_evidence_input x) (\<lambda>y.
     and_then (check (ei_alert_key y = tk_alert_key t) (Invalid ''alert_key'')) (\<lambda>_. Inr y))))))))))))"

definition build_evidence_worker_task ::
    "'f pylib \<Rightarrow> stamp \<Rightarrow> string \<Rightarrow> string \<Rightarrow> evidence_input \<Rightarrow> string \<Rightarrow> refusal + 'f task" where
  "build_evidence_worker_task lib stamp parent task_type x0 requester =
     (case map_of EVIDENCE_INTERPRETATION_TASKS (lower (strip task_type)) of
        None \<Rightarrow> Inl (Invalid ''task_type'')
      | Some specialist \<Rightarrow>
          and_then (validate_evidence_input x0) (\<lambda>x.
          and_then (required_tools_for_task specialist (lower (strip task_type))) (\<lambda>tools.
          and_then (validate_task lib ((new_task stamp parent specialist (lower (strip task_type)) tools requester
                      (ei_alert_key x) (evidence_payload x) (lib_literal lib EVIDENCE_WORKER_COST_BUDGET_USD))
                      \<lparr>tk_route := Quickthink_Llm, tk_model_calls := 1, tk_tokens := 8192\<rparr>)) (\<lambda>t.
          and_then (validate_evidence_worker_task lib t x) (\<lambda>_. Inr t)))))"

subsection \<open>Metadata and lineage\<close>

record metadata_input =
  mi_qualified_name :: string
  mi_query :: string
  mi_domain :: string
  mi_data_layer :: string
  mi_certification :: string
  mi_lifecycle :: string
  mi_limit :: int
  mi_max_depth :: int
  mi_max_nodes :: int

definition validate_metadata_input :: "metadata_input \<Rightarrow> refusal + metadata_input" where
  "validate_metadata_input x =
     and_then (sized 0 255 (mi_qualified_name x) ''qualified_name'') (\<lambda>_.
     and_then (sized 0 120 (mi_query x) ''query'') (\<lambda>_.
     and_then (sized 0 80 (mi_domain x) ''domain'') (\<lambda>_.
     and_then (sized 0 20 (mi_data_layer x) ''data_layer'') (\<lambda>_.
     and_then (sized 0 30 (mi_certification x) ''certification_status'') (\<lambda>_.
     and_then (sized 0 30 (mi_lifecycle x) ''lifecycle_status'') (\<lambda>_.
     and_then (ranged 1 25 (mi_limit x) ''limit'') (\<lambda>_.
     and_then (ranged 1 10 (mi_max_depth x) ''max_depth'') (\<lambda>_.
     and_then (ranged 1 250 (mi_max_nodes x) ''max_nodes'') (\<lambda>_.
     Inr (x\<lparr>mi_qualified_name := strip (mi_qualified_name x), mi_query := strip (mi_query x),
            mi_domain := strip (mi_domain x), mi_data_layer := strip (mi_data_layer x),
            mi_certification := strip (mi_certification x), mi_lifecycle := strip (mi_lifecycle x)\<rparr>))))))))))"

definition metadata_payload :: "metadata_input \<Rightarrow> fields" where
  "metadata_payload x =
     [(''qualified_name'', JStr (mi_qualified_name x)), (''query'', JStr (mi_query x)), (''domain'', JStr (mi_domain x)),
      (''data_layer'', JStr (mi_data_layer x)), (''certification_status'', JStr (mi_certification x)),
      (''lifecycle_status'', JStr (mi_lifecycle x)), (''limit'', JInt (mi_limit x)),
      (''max_depth'', JInt (mi_max_depth x)), (''max_nodes'', JInt (mi_max_nodes x))]"

definition qualified_table :: "string \<Rightarrow> refusal + string" where
  "qualified_table s = (case validate_qualified_table_name s of Inl _ \<Rightarrow> Inl (Invalid ''qualified_name'') | Inr q \<Rightarrow> Inr q)"

definition validate_metadata_lineage_task :: "'f task \<Rightarrow> metadata_input \<Rightarrow> refusal + metadata_input" where
  "validate_metadata_lineage_task t x =
     and_then (enforce_task_capability t) (\<lambda>_.
     and_then (validate_metadata_input x) (\<lambda>y.
     if tk_type t \<in> {''asset_context'', ''blast_radius''}
     then and_then (check (mi_qualified_name y \<noteq> []) (Invalid ''qualified_name'')) (\<lambda>_.
          and_then (qualified_table (mi_qualified_name y)) (\<lambda>q. Inr (y\<lparr>mi_qualified_name := q\<rparr>)))
     else Inr y))"

definition build_metadata_lineage_task ::
    "'f pylib \<Rightarrow> stamp \<Rightarrow> string \<Rightarrow> string \<Rightarrow> metadata_input \<Rightarrow> string \<Rightarrow> string \<Rightarrow> refusal + 'f task" where
  "build_metadata_lineage_task lib stamp parent task_type x0 requester alert_key =
     (let normalized = lower (strip task_type)
      in and_then (validate_metadata_input x0) (\<lambda>y.
         let x = (if normalized = ''trusted_asset_search'' then y\<lparr>mi_qualified_name := []\<rparr> else y);
             context_references = (if mi_qualified_name x = [] then []
               else [context_of Ref_Metadata_Asset (mi_qualified_name x)
                       ''Warehouse asset requested for trusted metadata and dbt lineage context.''])
         in and_then (required_tools_for_task METADATA_LINEAGE_SPECIALIST_NAME normalized) (\<lambda>tools.
            and_then (validate_task lib ((new_task stamp parent METADATA_LINEAGE_SPECIALIST_NAME normalized tools requester
                        alert_key (metadata_payload x) (lib_zero lib))\<lparr>tk_context := context_references\<rparr>)) (\<lambda>t.
            and_then (validate_metadata_lineage_task t x) (\<lambda>_. Inr t)))))"

subsection \<open>SQL review\<close>

record sql_input =
  si_sql :: string
  si_purpose :: string
  si_hard_limit :: int
  si_require_date :: bool
  si_max_scan :: int

definition validate_sql_input :: "sql_input \<Rightarrow> refusal + sql_input" where
  "validate_sql_input x =
     and_then (sized 1 20000 (si_sql x) ''sql_proposal'') (\<lambda>_.
     and_then (check (CHR 0x00 \<notin> set (strip (si_sql x))) (Invalid ''sql_proposal'')) (\<lambda>_.
     and_then (text_field 0 500 (si_purpose x) ''purpose'') (\<lambda>purpose.
     and_then (ranged 1 1000 (si_hard_limit x) ''hard_limit'') (\<lambda>_.
     and_then (ranged (1024 * 1024) (1024 * 1024 * 1024 * 1024) (si_max_scan x) ''max_scan_bytes'') (\<lambda>_.
     Inr (x\<lparr>si_sql := strip (si_sql x), si_purpose := purpose\<rparr>))))))"

definition sql_payload :: "sql_input \<Rightarrow> fields" where
  "sql_payload x =
     [(''sql_proposal'', JStr (si_sql x)), (''purpose'', JStr (si_purpose x)), (''hard_limit'', JInt (si_hard_limit x)),
      (''require_date_filter'', JBool (si_require_date x)), (''max_scan_bytes'', JInt (si_max_scan x))]"

definition validate_sql_review_task :: "'f task \<Rightarrow> sql_input \<Rightarrow> refusal + sql_input" where
  "validate_sql_review_task t x = and_then (enforce_task_capability t) (\<lambda>_. validate_sql_input x)"

definition build_sql_review_task ::
    "'f pylib \<Rightarrow> stamp \<Rightarrow> string \<Rightarrow> sql_input \<Rightarrow> string \<Rightarrow> string \<Rightarrow> refusal + 'f task" where
  "build_sql_review_task lib stamp parent x0 requester alert_key =
     and_then (validate_sql_input x0) (\<lambda>x.
     and_then (required_tools_for_task SQL_REVIEW_SPECIALIST_NAME ''review_sql'') (\<lambda>tools.
     and_then (validate_task lib ((new_task stamp parent SQL_REVIEW_SPECIALIST_NAME ''review_sql'' tools requester
                 alert_key (sql_payload x) (lib_zero lib))\<lparr>tk_risk := Medium_Risk\<rparr>)) (\<lambda>t.
     and_then (validate_sql_review_task t x) (\<lambda>_. Inr t))))"

subsection \<open>Schema drift\<close>

record drift_input =
  di_run_id :: string
  di_qualified_name :: string
  di_finding_limit :: int
  di_max_depth :: int
  di_max_nodes :: int

definition validate_schema_run_id :: "string \<Rightarrow> refusal + string" where
  "validate_schema_run_id run_id =
     (let normalized = strip run_id
      in if normalized \<noteq> [] \<and> length normalized \<le> 250 \<and> list_all run_id_char normalized
         then Inr normalized else Inl (Invalid ''run_id''))"

definition validate_drift_input :: "drift_input \<Rightarrow> refusal + drift_input" where
  "validate_drift_input x =
     and_then (sized 1 250 (di_run_id x) ''source_schema_run_id'') (\<lambda>_.
     and_then (validate_schema_run_id (di_run_id x)) (\<lambda>run_id.
     and_then (sized 3 255 (di_qualified_name x) ''qualified_name'') (\<lambda>_.
     and_then (qualified_table (di_qualified_name x)) (\<lambda>qualified_name.
     and_then (ranged 1 100 (di_finding_limit x) ''finding_limit'') (\<lambda>_.
     and_then (ranged 1 10 (di_max_depth x) ''max_depth'') (\<lambda>_.
     and_then (ranged 1 250 (di_max_nodes x) ''max_nodes'') (\<lambda>_.
     Inr (x\<lparr>di_run_id := run_id, di_qualified_name := qualified_name\<rparr>))))))))"

definition drift_payload :: "drift_input \<Rightarrow> fields" where
  "drift_payload x =
     [(''source_schema_run_id'', JStr (di_run_id x)), (''qualified_name'', JStr (di_qualified_name x)),
      (''finding_limit'', JInt (di_finding_limit x)), (''max_depth'', JInt (di_max_depth x)),
      (''max_nodes'', JInt (di_max_nodes x))]"

definition validate_schema_drift_task :: "'f task \<Rightarrow> drift_input \<Rightarrow> refusal + drift_input" where
  "validate_schema_drift_task t x = and_then (enforce_task_capability t) (\<lambda>_. validate_drift_input x)"

definition drift_context :: "drift_input \<Rightarrow> string \<Rightarrow> context_reference list" where
  "drift_context x manifest =
     [context_of Ref_Audit_Run (di_run_id x) ''Exact deterministic schema detector run used as source evidence.'',
      context_of Ref_Metadata_Asset (di_qualified_name x)
        ''Warehouse asset assessed for schema compatibility and downstream impact.''] @
     (if manifest = [] then []
      else [context_of Ref_Dbt_Manifest manifest ''dbt manifest used for bounded downstream impact analysis.''])"

definition build_schema_drift_task ::
    "'f pylib \<Rightarrow> stamp \<Rightarrow> string \<Rightarrow> drift_input \<Rightarrow> string \<Rightarrow> string \<Rightarrow> string \<Rightarrow> refusal + 'f task" where
  "build_schema_drift_task lib stamp parent x0 manifest requester alert_key =
     and_then (validate_drift_input x0) (\<lambda>x.
     and_then (required_tools_for_task SCHEMA_DRIFT_SPECIALIST_NAME ''assess_schema_drift'') (\<lambda>tools.
     and_then (validate_task lib ((new_task stamp parent SCHEMA_DRIFT_SPECIALIST_NAME ''assess_schema_drift'' tools requester
                 alert_key (drift_payload x) (lib_zero lib))
                 \<lparr>tk_risk := Medium_Risk, tk_context := drift_context x manifest, tk_timeout := 90\<rparr>)) (\<lambda>t.
     and_then (validate_schema_drift_task t x) (\<lambda>_. Inr t))))"

section \<open>Handoffs\<close>

definition triage_of :: "'f request \<Rightarrow> 'f triage_input" where
  "triage_of r = \<lparr>ti_alert_id = rq_alert_id r, ti_alert_key = rq_alert_key r, ti_confidence = rq_confidence r,
     ti_iterations = rq_iterations r, ti_manifest = rq_manifest r, ti_bucket = rq_bucket r, ti_prefix = rq_prefix r\<rparr>"

definition evidence_of :: "'f request \<Rightarrow> evidence_input" where
  "evidence_of r = \<lparr>ei_alert_key = rq_alert_key r, ei_manifest = rq_manifest r\<rparr>"

definition metadata_of :: "'f request \<Rightarrow> metadata_input" where
  "metadata_of r = \<lparr>mi_qualified_name = rq_qualified_name r,
     mi_query = (if rq_query r \<noteq> [] then rq_query r else rq_question r), mi_domain = rq_domain r,
     mi_data_layer = rq_data_layer r, mi_certification = rq_certification r, mi_lifecycle = rq_lifecycle r,
     mi_limit = rq_result_limit r, mi_max_depth = rq_max_depth r, mi_max_nodes = rq_max_nodes r\<rparr>"

definition sql_of :: "'f request \<Rightarrow> string \<Rightarrow> sql_input" where
  "sql_of r purpose = \<lparr>si_sql = rq_sql r, si_purpose = purpose, si_hard_limit = rq_sql_hard_limit r,
     si_require_date = rq_sql_require_date r, si_max_scan = rq_sql_max_scan r\<rparr>"

definition drift_of :: "'f request \<Rightarrow> drift_input" where
  "drift_of r = \<lparr>di_run_id = rq_schema_run_id r, di_qualified_name = rq_qualified_name r,
     di_finding_limit = rq_finding_limit r, di_max_depth = rq_max_depth r, di_max_nodes = rq_max_nodes r\<rparr>"

definition build_supervisor_handoff ::
    "'f pylib \<Rightarrow> 'f planner \<Rightarrow> stamp \<Rightarrow> 'f request \<Rightarrow> route \<Rightarrow> string \<Rightarrow> refusal + 'f task" where
  "build_supervisor_handoff lib pn stamp r route parent =
     (if map_of EVIDENCE_INTERPRETATION_TASKS (rt_type route) = Some (rt_specialist route)
      then build_evidence_worker_task lib stamp parent (rt_type route) (evidence_of r) (rq_requester r)
      else if rt_specialist route = INCIDENT_TRIAGE_SPECIALIST_NAME
      then build_incident_triage_task lib pn stamp parent (triage_of r) (rq_requester r)
      else if rt_specialist route = METADATA_LINEAGE_SPECIALIST_NAME
      then build_metadata_lineage_task lib stamp parent (rt_type route) (metadata_of r) (rq_requester r) (rq_alert_key r)
      else if rt_specialist route = SQL_REVIEW_SPECIALIST_NAME
      then build_sql_review_task lib stamp parent
             (sql_of r (if rq_sql_purpose r \<noteq> [] then rq_sql_purpose r else rq_question r)) (rq_requester r) (rq_alert_key r)
      else if rt_specialist route = SCHEMA_DRIFT_SPECIALIST_NAME
      then build_schema_drift_task lib stamp parent (drift_of r) (rq_manifest r) (rq_requester r) (rq_alert_key r)
      else Inl (Invalid ''routing''))"

text \<open>The task types the metadata specialist accepts from a proposal or a route.\<close>

definition METADATA_PROPOSALS :: "string list" where
  "METADATA_PROPOSALS = [''asset_context'', ''blast_radius'', ''trusted_asset_search'']"

section \<open>What the builders build\<close>

declare sized_Inr [simp] ranged_Inr [simp]

lemma tools_fixed:
  "list_all (\<lambda>(n, policy). list_all (\<lambda>(ty, tools). map (lower \<circ> strip) tools = tools) policy) REQUIRED_TOOLS_BY_SPECIALIST"
  by code_simp

lemma required_tools_fixed: "required_tools_for_task s ty = Inr tools \<Longrightarrow> map (\<lambda>t. lower (strip t)) tools = tools"
  using tools_fixed
  by (auto simp: required_tools_for_task_def list_all_iff comp_def split: option.splits dest!: map_of_SomeD)

lemma admitted_never_mutates: "enforce_task_capability t = Inr c \<Longrightarrow> \<not> cp_mutation c"
  using registry_sound by (auto simp: enforce_task_Inr list_all_iff dest!: map_of_SomeD)

lemma validate_task_Inr:
  assumes "validate_task lib t = Inr u"
  shows "tk_task_id u = tk_task_id t" "tk_parent u = tk_parent t"
    "tk_specialist u = lower (strip (tk_specialist t))" "tk_type u = lower (strip (tk_type t))"
    "tk_risk u = tk_risk t" "tk_tools u = map (\<lambda>x. lower (strip x)) (tk_tools t)" "tk_route u = tk_route t"
    "tk_model_calls u = tk_model_calls t" "tk_tokens u = tk_tokens t" "tk_cost u = tk_cost t"
    "tk_timeout u = tk_timeout t" "tk_requester u = strip (tk_requester t)" "tk_alert_key u = strip (tk_alert_key t)"
    "tk_payload u = tk_payload t" "tk_created_at u = tk_created_at t" "route_policy lib u"
  using assms
  by (auto simp: validate_task_def validate_contract_name_Inr validate_allowed_tools_def Let_def)


text \<open>The references of a validated task: validating them again changes none.\<close>

definition references_kept :: "'f task \<Rightarrow> bool" where
  "references_kept t \<longleftrightarrow>
     list_all (\<lambda>c. strip (cx_reference c) = cx_reference c \<and> strip (cx_description c) = cx_description c) (tk_context t)"

lemma validate_task_context: "validate_task lib t = Inr u \<Longrightarrow> try_map validate_context_reference (tk_context t) = Inr (tk_context u)"
  by (auto simp: validate_task_def Let_def)

lemma validated_references:
  assumes "validate_task lib t = Inr u"
  shows "references_kept u" "references_kept t \<Longrightarrow> tk_context u = tk_context t"
proof -
  have m: "map validate_context_reference (tk_context t) = map Inr (tk_context u)"
    using validate_task_context[OF assms] by (simp only: try_map_Inr)
  then have len: "length (tk_context u) = length (tk_context t)" by (metis length_map)
  have each: "validate_context_reference (tk_context t ! i) = Inr (tk_context u ! i)" if "i < length (tk_context t)" for i
    using m that len by (metis nth_map)
  then have stripped: "tk_context u ! i = (tk_context t ! i)\<lparr>cx_reference := strip (cx_reference (tk_context t ! i)),
      cx_description := strip (cx_description (tk_context t ! i))\<rparr>" if "i < length (tk_context t)" for i
    using that by (fastforce simp: validate_context_reference_def)
  then show "references_kept u" by (simp add: references_kept_def list_all_length len)
  show "tk_context u = tk_context t" if "references_kept t"
    using that stripped len by (intro nth_equalityI) (simp_all add: references_kept_def list_all_length)
qed

definition policy_route :: "string \<Rightarrow> model_route" where
  "policy_route task_type = (if task_type = ''triage_alert'' then Deepthink_Llm
     else if task_type \<in> set (map fst EVIDENCE_INTERPRETATION_TASKS) then Quickthink_Llm else No_Llm_Fallback)"

definition built :: "'f task \<Rightarrow> string \<Rightarrow> string \<Rightarrow> string \<Rightarrow> string \<Rightarrow> string \<Rightarrow> fields \<Rightarrow> bool" where
  "built t parent specialist task_type requester alert_key payload \<longleftrightarrow> tk_payload t = payload \<and> references_kept t \<and>
     tk_parent t = parent \<and> tk_specialist t = specialist \<and> tk_type t = task_type \<and>
     tk_requester t = strip requester \<and> tk_alert_key t = strip alert_key \<and>
     required_tools_for_task specialist task_type = Inr (tk_tools t) \<and>
     (\<exists>c. enforce_task_capability t = Inr c \<and> \<not> cp_mutation c) \<and>
     tk_route t = policy_route task_type"

lemma specialist_names_fixed [simp]:
  "lower (strip INCIDENT_TRIAGE_SPECIALIST_NAME) = INCIDENT_TRIAGE_SPECIALIST_NAME"
  "lower (strip METADATA_LINEAGE_SPECIALIST_NAME) = METADATA_LINEAGE_SPECIALIST_NAME"
  "lower (strip SQL_REVIEW_SPECIALIST_NAME) = SQL_REVIEW_SPECIALIST_NAME"
  "lower (strip SCHEMA_DRIFT_SPECIALIST_NAME) = SCHEMA_DRIFT_SPECIALIST_NAME"
  by code_simp+

lemma type_names_fixed [simp]:
  "lower (strip ''triage_alert'') = ''triage_alert''" "lower (strip ''review_sql'') = ''review_sql''"
  "lower (strip ''assess_schema_drift'') = ''assess_schema_drift''"
  by code_simp+

lemma evidence_tasks_fixed:
  "list_all (\<lambda>(ty, n). lower (strip ty) = ty \<and> lower (strip n) = n \<and> policy_route ty = Quickthink_Llm) EVIDENCE_INTERPRETATION_TASKS"
  by code_simp

lemma other_types [simp]: "policy_route ''triage_alert'' = Deepthink_Llm" "policy_route ''review_sql'' = No_Llm_Fallback"
  "policy_route ''assess_schema_drift'' = No_Llm_Fallback"
  by code_simp+

lemma metadata_types: "list_all (\<lambda>ty. lower (strip ty) = ty \<and> policy_route ty = No_Llm_Fallback) METADATA_PROPOSALS"
  by code_simp

lemma new_task_fields [simp]:
  "tk_task_id (new_task st p s ty ts rq ak pl co) = fst st" "tk_parent (new_task st p s ty ts rq ak pl co) = p"
  "tk_specialist (new_task st p s ty ts rq ak pl co) = s" "tk_type (new_task st p s ty ts rq ak pl co) = ty"
  "tk_tools (new_task st p s ty ts rq ak pl co) = ts" "tk_requester (new_task st p s ty ts rq ak pl co) = rq"
  "tk_alert_key (new_task st p s ty ts rq ak pl co) = ak" "tk_route (new_task st p s ty ts rq ak pl co) = No_Llm_Fallback"
  "tk_payload (new_task st p s ty ts rq ak pl co) = pl" "tk_cost (new_task st p s ty ts rq ak pl co) = co"
  "tk_model_calls (new_task st p s ty ts rq ak pl co) = 0" "tk_tokens (new_task st p s ty ts rq ak pl co) = 0"
  "tk_timeout (new_task st p s ty ts rq ak pl co) = 60" "tk_context (new_task st p s ty ts rq ak pl co) = []"
  "tk_risk (new_task st p s ty ts rq ak pl co) = Low_Risk" "tk_created_at (new_task st p s ty ts rq ak pl co) = snd st"
  by (simp_all add: new_task_def)

lemma text_field_Inr [simp]: "text_field lo hi s f = Inr u \<longleftrightarrow>
    u = strip s \<and> lo \<le> length s \<and> length s \<le> hi \<and> single_line (strip s)"
  by (auto simp: text_field_def)


lemma built_from:
  assumes "validate_task lib t0 = Inr t" and "enforce_task_capability t = Inr c"
    and "required_tools_for_task (tk_specialist t0) (tk_type t0) = Inr (tk_tools t0)"
    and "lower (strip (tk_specialist t0)) = tk_specialist t0" and "lower (strip (tk_type t0)) = tk_type t0"
    and "tk_route t0 = policy_route (tk_type t0)"
  shows "built t (tk_parent t0) (tk_specialist t0) (tk_type t0) (tk_requester t0) (tk_alert_key t0)
    (tk_payload t0)"
  using assms validate_task_Inr[OF assms(1)] validated_references(1)[OF assms(1)] required_tools_fixed[OF assms(3)] admitted_never_mutates[OF assms(2)]
  by (simp add: built_def)

definition search_input :: "string \<Rightarrow> metadata_input \<Rightarrow> metadata_input" where
  "search_input task_type y = (if task_type = ''trusted_asset_search'' then y\<lparr>mi_qualified_name := []\<rparr> else y)"

lemma triage_built:
  assumes "build_incident_triage_task lib pn stamp parent x requester = Inr t"
  shows "built t parent INCIDENT_TRIAGE_SPECIALIST_NAME ''triage_alert'' requester (ti_alert_key x)
      (triage_payload pn (projr (validate_triage_input lib x)))"
proof -
  obtain y t0 c tools where "validate_triage_input lib x = Inr y" "validate_task lib t0 = Inr t" "enforce_task_capability t = Inr c"
    "required_tools_for_task INCIDENT_TRIAGE_SPECIALIST_NAME ''triage_alert'' = Inr tools"
    and t0: "t0 = (new_task stamp parent INCIDENT_TRIAGE_SPECIALIST_NAME ''triage_alert'' tools requester
                 (ti_alert_key y) (triage_payload pn y) (lib_literal lib ''0.05''))
                 \<lparr>tk_risk := Medium_Risk, tk_context := triage_context y, tk_route := Deepthink_Llm,
                  tk_model_calls := 3, tk_tokens := 16384, tk_timeout := 300\<rparr>"
    using assms unfolding build_incident_triage_task_def validate_incident_triage_task_def and_then_Inr by blast
  moreover have "ti_alert_key y = strip (ti_alert_key x)"
    using calculation(1) by (auto simp: validate_triage_input_def)
  ultimately show ?thesis using built_from[of lib t0 t c] by (simp add: built_def)
qed

lemma evidence_built:
  assumes built: "build_evidence_worker_task lib stamp parent task_type x requester = Inr t"
    and n: "map_of EVIDENCE_INTERPRETATION_TASKS task_type = Some n"
  shows "built t parent n task_type requester (ei_alert_key x)
      (evidence_payload (projr (validate_evidence_input x)))"
proof -
  have fixed: "lower (strip task_type) = task_type" "lower (strip n) = n" "policy_route task_type = Quickthink_Llm"
    using evidence_tasks_fixed map_of_SomeD[OF n] by (auto simp: list_all_iff)
  obtain y t0 c tools z where "validate_evidence_input x = Inr y" "validate_task lib t0 = Inr t" "enforce_task_capability t = Inr c"
    "required_tools_for_task n task_type = Inr tools"
    and t0: "t0 = (new_task stamp parent n task_type tools requester
                      (ei_alert_key y) (evidence_payload y) (lib_literal lib EVIDENCE_WORKER_COST_BUDGET_USD))
                      \<lparr>tk_route := Quickthink_Llm, tk_model_calls := 1, tk_tokens := 8192\<rparr>"
    and "validate_evidence_worker_task lib t y = Inr z"
    using built unfolding build_evidence_worker_task_def validate_evidence_worker_task_def fixed n option.case and_then_Inr by blast
  moreover have "ei_alert_key y = strip (ei_alert_key x)"
    using calculation(1) by (auto simp: validate_evidence_input_def)
  ultimately show ?thesis using built_from[of lib t0 t c] fixed by (simp add: built_def)
qed

lemma metadata_built:
  assumes built: "build_metadata_lineage_task lib stamp parent task_type x requester alert_key = Inr t"
    and ty: "task_type \<in> set METADATA_PROPOSALS"
  shows "built t parent METADATA_LINEAGE_SPECIALIST_NAME task_type requester alert_key
      (metadata_payload (search_input task_type (projr (validate_metadata_input x))))"
proof -
  have fixed: "lower (strip task_type) = task_type" "policy_route task_type = No_Llm_Fallback"
    using metadata_types ty by (auto simp: list_all_iff)
  obtain z y refs t0 c tools where "validate_metadata_input x = Inr z" "y = search_input task_type z" "validate_task lib t0 = Inr t" "enforce_task_capability t = Inr c"
    "required_tools_for_task METADATA_LINEAGE_SPECIALIST_NAME task_type = Inr tools"
    and t0: "t0 = (new_task stamp parent METADATA_LINEAGE_SPECIALIST_NAME task_type tools requester
                        alert_key (metadata_payload y) (lib_zero lib))\<lparr>tk_context := refs\<rparr>"
    using built unfolding build_metadata_lineage_task_def validate_metadata_lineage_task_def fixed Let_def and_then_Inr search_input_def by blast
  then show ?thesis using built_from[of lib t0 t c] fixed by (simp add: built_def)
qed

lemma sql_built:
  assumes "build_sql_review_task lib stamp parent x requester alert_key = Inr t"
  shows "built t parent SQL_REVIEW_SPECIALIST_NAME ''review_sql'' requester alert_key
      (sql_payload (projr (validate_sql_input x)))"
proof -
  obtain y t0 c tools where "validate_sql_input x = Inr y" "validate_task lib t0 = Inr t" "enforce_task_capability t = Inr c"
    "required_tools_for_task SQL_REVIEW_SPECIALIST_NAME ''review_sql'' = Inr tools"
    and t0: "t0 = (new_task stamp parent SQL_REVIEW_SPECIALIST_NAME ''review_sql'' tools requester
                 alert_key (sql_payload y) (lib_zero lib))\<lparr>tk_risk := Medium_Risk\<rparr>"
    using assms unfolding build_sql_review_task_def validate_sql_review_task_def and_then_Inr by blast
  then show ?thesis using built_from[of lib t0 t c] by (simp add: built_def)
qed

lemma drift_built:
  assumes "build_schema_drift_task lib stamp parent x manifest requester alert_key = Inr t"
  shows "built t parent SCHEMA_DRIFT_SPECIALIST_NAME ''assess_schema_drift'' requester alert_key
      (drift_payload (projr (validate_drift_input x)))"
proof -
  obtain y t0 c tools where "validate_drift_input x = Inr y" "validate_task lib t0 = Inr t" "enforce_task_capability t = Inr c"
    "required_tools_for_task SCHEMA_DRIFT_SPECIALIST_NAME ''assess_schema_drift'' = Inr tools"
    and t0: "t0 = (new_task stamp parent SCHEMA_DRIFT_SPECIALIST_NAME ''assess_schema_drift'' tools requester
                 alert_key (drift_payload y) (lib_zero lib))
                 \<lparr>tk_risk := Medium_Risk, tk_context := drift_context y manifest, tk_timeout := 90\<rparr>"
    using assms unfolding build_schema_drift_task_def validate_schema_drift_task_def and_then_Inr by blast
  then show ?thesis using built_from[of lib t0 t c] by (simp add: built_def)
qed

section \<open>Payloads\<close>

text \<open>
  The payload the request alone gives a task type.
\<close>

definition payload_of_request :: "'f planner \<Rightarrow> 'f request \<Rightarrow> string \<Rightarrow> string \<Rightarrow> fields" where
  "payload_of_request pn r purpose task_type =
     (if task_type = ''triage_alert'' then triage_payload pn (triage_of r)
      else if task_type \<in> set (map fst EVIDENCE_INTERPRETATION_TASKS) then evidence_payload (evidence_of r)
      else if task_type \<in> set METADATA_PROPOSALS then metadata_payload (search_input task_type (metadata_of r))
      else if task_type = ''review_sql'' then sql_payload (sql_of r purpose)
      else drift_payload (drift_of r))"

definition texts_stripped :: "'f request \<Rightarrow> bool" where
  "texts_stripped r \<longleftrightarrow> list_all (\<lambda>s. strip s = s)
     [rq_question r, rq_alert_id r, rq_alert_key r, rq_qualified_name r, rq_query r, rq_domain r, rq_data_layer r,
      rq_certification r, rq_lifecycle r, rq_sql r, rq_sql_purpose r, rq_schema_run_id r, rq_manifest r, rq_bucket r,
      rq_prefix r, rq_requester r]"


lemma normalized_fields [simp]:
  "rq_qualified_name (normalized r) = strip (rq_qualified_name r)" "rq_domain (normalized r) = strip (rq_domain r)"
  "rq_alert_key (normalized r) = strip (rq_alert_key r)" "rq_requester (normalized r) = strip (rq_requester r)"
  "texts_stripped (normalized r)"
  by (simp_all add: normalized_def texts_stripped_def)

lemma request_texts_Inr:
  assumes "request_texts r0 = Inr r"
  shows "r = normalized r0 \<and> length (rq_qualified_name r0) \<le> 200 \<and> length (rq_domain r0) \<le> 80 \<and>
    single_line (strip (rq_qualified_name r0)) \<and> length (rq_alert_key r0) \<le> 500 \<and> length (rq_requester r0) \<le> 100"
  using assms unfolding request_texts_def and_then_Inr text_field_Inr sum.inject
  by (elim exE conjE) (intro conjI; (assumption | erule sym[of _ r]))

lemma request_Inr:
  assumes "validate_request lib r0 = Inr r"
  shows "texts_stripped r" "explicit_inputs lib r" "proposals_fit r" "mode_fits r" "storage_safe r"
    "request_numbers lib r = Inr ()" "request_texts r0 = Inr r"
  using assms request_texts_Inr[of r0] by (auto simp: validate_request_def)

lemma triage_input_same: "texts_stripped r \<Longrightarrow> validate_triage_input lib (triage_of r) = Inr y \<Longrightarrow> y = triage_of r"
  by (auto simp: validate_triage_input_def triage_of_def texts_stripped_def)

lemma evidence_input_same: "texts_stripped r \<Longrightarrow> validate_evidence_input (evidence_of r) = Inr y \<Longrightarrow> y = evidence_of r"
  by (auto simp: validate_evidence_input_def evidence_of_def texts_stripped_def)

lemma metadata_input_same: "texts_stripped r \<Longrightarrow> validate_metadata_input (metadata_of r) = Inr y \<Longrightarrow> y = metadata_of r"
  by (auto simp: validate_metadata_input_def metadata_of_def texts_stripped_def)

lemma sql_input_same: "texts_stripped r \<Longrightarrow> strip purpose = purpose \<Longrightarrow> validate_sql_input (sql_of r purpose) = Inr y \<Longrightarrow> y = sql_of r purpose"
  by (auto simp: validate_sql_input_def sql_of_def texts_stripped_def)

lemma qualified_same: "qualified_table s = Inr q \<Longrightarrow> q = s"
  by (auto simp: qualified_table_def validate_qualified_table_name_def split: sum.splits)

lemma drift_input_same: "texts_stripped r \<Longrightarrow> validate_drift_input (drift_of r) = Inr y \<Longrightarrow> y = drift_of r"
  by (auto simp: validate_drift_input_def validate_schema_run_id_def Let_def drift_of_def texts_stripped_def
      dest!: qualified_same split: if_splits)

section \<open>Handoffs\<close>

lemma route_table:
  "list_all (\<lambda>(i, route). rt_intent route = i \<and> i \<noteq> Auto_Intent \<and>
      map_of intent_mapping (rt_specialist route, rt_type route) = Some i \<and>
      (map_of EVIDENCE_INTERPRETATION_TASKS (rt_type route) = Some (rt_specialist route) \<or>
       map_of EVIDENCE_INTERPRETATION_TASKS (rt_type route) = None \<and>
       (rt_specialist route, rt_type route) \<in> {(INCIDENT_TRIAGE_SPECIALIST_NAME, ''triage_alert''),
          (SQL_REVIEW_SPECIALIST_NAME, ''review_sql''), (SCHEMA_DRIFT_SPECIALIST_NAME, ''assess_schema_drift'')} \<union>
          Pair METADATA_LINEAGE_SPECIALIST_NAME ` set METADATA_PROPOSALS)) ROUTE_BY_INTENT"
  by code_simp

lemma specialists_distinct [simp]:
  "METADATA_LINEAGE_SPECIALIST_NAME \<noteq> INCIDENT_TRIAGE_SPECIALIST_NAME"
  "SQL_REVIEW_SPECIALIST_NAME \<noteq> INCIDENT_TRIAGE_SPECIALIST_NAME"
  "SQL_REVIEW_SPECIALIST_NAME \<noteq> METADATA_LINEAGE_SPECIALIST_NAME"
  "SCHEMA_DRIFT_SPECIALIST_NAME \<noteq> INCIDENT_TRIAGE_SPECIALIST_NAME"
  "SCHEMA_DRIFT_SPECIALIST_NAME \<noteq> METADATA_LINEAGE_SPECIALIST_NAME"
  "SCHEMA_DRIFT_SPECIALIST_NAME \<noteq> SQL_REVIEW_SPECIALIST_NAME"
  by code_simp+

abbreviation handoff_purpose :: "'f request \<Rightarrow> string" where
  "handoff_purpose r \<equiv> (if rq_sql_purpose r \<noteq> [] then rq_sql_purpose r else rq_question r)"

lemma type_cases [simp]:
  "''triage_alert'' \<notin> set (map fst EVIDENCE_INTERPRETATION_TASKS)" "''review_sql'' \<notin> set (map fst EVIDENCE_INTERPRETATION_TASKS)"
  "''assess_schema_drift'' \<notin> set (map fst EVIDENCE_INTERPRETATION_TASKS)"
  "''review_sql'' \<notin> set METADATA_PROPOSALS" "''assess_schema_drift'' \<notin> set METADATA_PROPOSALS"
  "set METADATA_PROPOSALS \<inter> set (map fst EVIDENCE_INTERPRETATION_TASKS) = {}" "''triage_alert'' \<notin> set METADATA_PROPOSALS"
  by code_simp+

lemma payload_of_evidence: "map_of EVIDENCE_INTERPRETATION_TASKS ty = Some n \<Longrightarrow>
    payload_of_request pn r purpose ty = evidence_payload (evidence_of r)"
  using type_cases(1) by (auto simp: payload_of_request_def image_iff dest!: map_of_SomeD)

lemma payload_of_metadata: "ty \<in> set METADATA_PROPOSALS \<Longrightarrow>
    payload_of_request pn r purpose ty = metadata_payload (search_input ty (metadata_of r))"
  using type_cases by (auto simp: payload_of_request_def image_iff)

text \<open>The five builders on a request whose texts are stripped.\<close>

lemma alert_key_of [simp]: "ti_alert_key (triage_of r) = rq_alert_key r" "ei_alert_key (evidence_of r) = rq_alert_key r"
  by (simp_all add: triage_of_def evidence_of_def)

abbreviation built_for :: "'f planner \<Rightarrow> 'f request \<Rightarrow> string \<Rightarrow> string \<Rightarrow> string \<Rightarrow> string \<Rightarrow> 'f task \<Rightarrow> bool" where
  "built_for pn r purpose parent specialist task_type t \<equiv>
     built t parent specialist task_type (rq_requester r) (rq_alert_key r) (payload_of_request pn r purpose task_type)"

lemma triage_built_for:
  assumes "texts_stripped r" and t: "build_incident_triage_task lib pn stamp parent (triage_of r) (rq_requester r) = Inr t"
  shows "built_for pn r purpose parent INCIDENT_TRIAGE_SPECIALIST_NAME ''triage_alert'' t"
proof -
  obtain y where y: "validate_triage_input lib (triage_of r) = Inr y"
    using t unfolding build_incident_triage_task_def and_then_Inr by blast
  then show ?thesis
    using triage_built[OF t] y triage_input_same[OF assms(1) y] by (simp add: payload_of_request_def)
qed

lemma evidence_built_for:
  assumes "texts_stripped r" and t: "build_evidence_worker_task lib stamp parent ty (evidence_of r) (rq_requester r) = Inr t"
    and n: "map_of EVIDENCE_INTERPRETATION_TASKS ty = Some n"
  shows "built_for pn r purpose parent n ty t"
proof -
  have "lower (strip ty) = ty" using evidence_tasks_fixed map_of_SomeD[OF n] by (auto simp: list_all_iff)
  then obtain y where y: "validate_evidence_input (evidence_of r) = Inr y"
    using t n unfolding build_evidence_worker_task_def by auto
  then show ?thesis
    using evidence_built[OF t n] y evidence_input_same[OF assms(1) y] by (simp add: payload_of_evidence[OF n])
qed

lemma metadata_built_for:
  assumes "texts_stripped r" and ty: "ty \<in> set METADATA_PROPOSALS"
    and t: "build_metadata_lineage_task lib stamp parent ty (metadata_of r) (rq_requester r) (rq_alert_key r) = Inr t"
  shows "built_for pn r purpose parent METADATA_LINEAGE_SPECIALIST_NAME ty t"
proof -
  obtain y where "validate_metadata_input (metadata_of r) = Inr y"
    using t unfolding build_metadata_lineage_task_def Let_def and_then_Inr by blast
  then show ?thesis using metadata_built[OF t ty] metadata_input_same[OF assms(1)] by (simp add: payload_of_metadata[OF ty])
qed

lemma sql_built_for:
  assumes "texts_stripped r" and "strip purpose = purpose"
    and t: "build_sql_review_task lib stamp parent (sql_of r purpose) (rq_requester r) (rq_alert_key r) = Inr t"
  shows "built_for pn r purpose parent SQL_REVIEW_SPECIALIST_NAME ''review_sql'' t"
proof -
  obtain y where "validate_sql_input (sql_of r purpose) = Inr y"
    using t unfolding build_sql_review_task_def and_then_Inr by blast
  then show ?thesis
    using sql_built[OF t] sql_input_same[OF assms(1,2)] type_cases by (simp add: payload_of_request_def)
qed

lemma drift_built_for:
  assumes "texts_stripped r"
    and t: "build_schema_drift_task lib stamp parent (drift_of r) m (rq_requester r) (rq_alert_key r) = Inr t"
  shows "built_for pn r purpose parent SCHEMA_DRIFT_SPECIALIST_NAME ''assess_schema_drift'' t"
proof -
  obtain y where "validate_drift_input (drift_of r) = Inr y"
    using t unfolding build_schema_drift_task_def and_then_Inr by blast
  then show ?thesis
    using drift_built[OF t] drift_input_same[OF assms(1)] type_cases by (simp add: payload_of_request_def)
qed

lemma handoff_built:
  assumes route: "(i, route) \<in> set ROUTE_BY_INTENT" and t: "build_supervisor_handoff lib pn stamp r route parent = Inr t"
    and texts: "texts_stripped r"
  shows "built_for pn r (handoff_purpose r) parent (rt_specialist route) (rt_type route) t"
proof (cases "map_of EVIDENCE_INTERPRETATION_TASKS (rt_type route) = Some (rt_specialist route)")
  case True
  then show ?thesis using t evidence_built_for[OF texts _ True] by (simp add: build_supervisor_handoff_def)
next
  case False
  then consider "rt_specialist route = INCIDENT_TRIAGE_SPECIALIST_NAME" "rt_type route = ''triage_alert''"
    | "rt_specialist route = METADATA_LINEAGE_SPECIALIST_NAME" "rt_type route \<in> set METADATA_PROPOSALS"
    | "rt_specialist route = SQL_REVIEW_SPECIALIST_NAME" "rt_type route = ''review_sql''"
    | "rt_specialist route = SCHEMA_DRIFT_SPECIALIST_NAME" "rt_type route = ''assess_schema_drift''"
    using route route_table by (auto simp: list_all_iff)
  then show ?thesis
  proof cases
    case 1
    then show ?thesis using t False triage_built_for[OF texts] by (simp add: build_supervisor_handoff_def)
  next
    case 2
    then show ?thesis using t False metadata_built_for[OF texts 2(2)] by (simp add: build_supervisor_handoff_def)
  next
    case 3
    have "strip (handoff_purpose r) = handoff_purpose r" using texts by (simp add: texts_stripped_def)
    then show ?thesis using t False 3 sql_built_for[OF texts] by (simp add: build_supervisor_handoff_def)
  next
    case 4
    then show ?thesis using t False drift_built_for[OF texts] by (simp add: build_supervisor_handoff_def)
  qed
qed

lemma classified_is_routed: "classify_supervisor_intent r = Inr i \<Longrightarrow> i \<noteq> Auto_Intent \<Longrightarrow>
    \<exists>route. resolve_supervisor_route r = Inr route \<and> rt_intent route = i"
  by (cases i) (simp_all add: resolve_supervisor_route_def ROUTE_BY_INTENT_def)

lemma resolved_route:
  assumes "resolve_supervisor_route r = Inr route"
  shows "classify_supervisor_intent r = Inr (rt_intent route)" "(rt_intent route, route) \<in> set ROUTE_BY_INTENT"
    "map_of intent_mapping (rt_specialist route, rt_type route) = Some (rt_intent route)" "rt_intent route \<noteq> Auto_Intent"
proof -
  obtain i where i: "classify_supervisor_intent r = Inr i" "map_of ROUTE_BY_INTENT i = Some route"
    using assms by (auto simp: resolve_supervisor_route_def split: option.splits)
  then have "(i, route) \<in> set ROUTE_BY_INTENT" by (simp add: map_of_SomeD)
  moreover from this have "rt_intent route = i" "map_of intent_mapping (rt_specialist route, rt_type route) = Some i" "i \<noteq> Auto_Intent"
    using route_table by (auto simp: list_all_iff)
  ultimately show "classify_supervisor_intent r = Inr (rt_intent route)" "(rt_intent route, route) \<in> set ROUTE_BY_INTENT"
    "map_of intent_mapping (rt_specialist route, rt_type route) = Some (rt_intent route)" "rt_intent route \<noteq> Auto_Intent"
    using i by auto
qed


lemma payload_keys: "find_forbidden_context_key name (JObj (metadata_payload x)) = None"
  by (simp add: metadata_payload_def, code_simp?)

lemma search_keywords: "contains_any (lower []) SEARCH_KEYWORDS = False"
  by code_simp

lemma auto_inputs:
  assumes "classify_supervisor_intent r = Inr i" and "rq_intent r = Auto_Intent" and "proposals_fit r"
  shows "explicit_inputs lib (r\<lparr>rq_intent := i\<rparr>)"
proof -
  have [simp]: "contains_any (lower (rq_question r)) SEARCH_KEYWORDS \<Longrightarrow> rq_question r \<noteq> []"
    using search_keywords by metis
  consider "rq_sql r \<noteq> []" "i = Review_Sql" | "rq_schema_run_id r \<noteq> []" "i = Schema_Drift_Assessment"
    | "intent_candidates r = [i]"
    using assms(1,2) by (auto simp: classify_supervisor_intent_def split: if_splits list.splits)
  then show ?thesis
  proof cases
    case 3
    then have "i \<in> set (intent_candidates r)" by simp
    then show ?thesis by (auto simp: intent_candidates_def Let_def explicit_inputs_def split: if_splits)
  qed (use assms(3) in \<open>auto simp: explicit_inputs_def proposals_fit_def\<close>)
qed

lemma escape_char_length: "length (Json.escape_char c) \<le> 6"
  by (simp add: Json.escape_char_def hex4_def Let_def)

lemma json_string_length: "length (json_string s) \<le> 6 * length s + 2"
proof -
  have "length (concat (map Json.escape_char s)) \<le> 6 * length s"
    by (induction s) (use escape_char_length in \<open>auto intro: add_mono simp: add.commute\<close>)
  then show ?thesis by (simp add: json_string_def)
qed

lemma nat_str_length: "n < 1000 \<Longrightarrow> length (nat_str n) \<le> 3"
  by (subst nat_str.simps, subst nat_str.simps, subst nat_str.simps) auto

lemma metadata_payload_fits:
  assumes "length (mi_qualified_name x) \<le> 255" "length (mi_query x) \<le> 120" "length (mi_domain x) \<le> 80"
    "length (mi_data_layer x) \<le> 20" "length (mi_certification x) \<le> 30" "length (mi_lifecycle x) \<le> 30"
    "0 \<le> mi_limit x" "mi_limit x < 1000" "0 \<le> mi_max_depth x" "mi_max_depth x < 1000" "0 \<le> mi_max_nodes x" "mi_max_nodes x < 1000"
  shows "validate_bounded_payload lib (metadata_payload x) name = Inr (metadata_payload x)"
proof -
  have "length (int_str (mi_limit x)) \<le> 3" "length (int_str (mi_max_depth x)) \<le> 3" "length (int_str (mi_max_nodes x)) \<le> 3"
    using assms nat_str_length by (auto simp: int_str_def)
  then have "length (spaced (lib_json lib) (JObj (metadata_payload x))) \<le> MAX_CONTEXT_PAYLOAD_BYTES"
    using assms(1-6) json_string_length[of "mi_qualified_name x"] json_string_length[of "mi_query x"] json_string_length[of "mi_domain x"]
      json_string_length[of "mi_data_layer x"] json_string_length[of "mi_certification x"] json_string_length[of "mi_lifecycle x"]
      json_string_length[of "''qualified_name''"] json_string_length[of "''query''"] json_string_length[of "''domain''"]
      json_string_length[of "''data_layer''"] json_string_length[of "''certification_status''"]
      json_string_length[of "''lifecycle_status''"] json_string_length[of "''limit''"] json_string_length[of "''max_depth''"]
      json_string_length[of "''max_nodes''"]
    by (simp add: metadata_payload_def MAX_CONTEXT_PAYLOAD_BYTES_def)
  then show ?thesis unfolding validate_bounded_payload_def payload_keys by simp
qed

section \<open>The properties of a handoff\<close>

text \<open>
  C28. A handoff follows policy, whatever the request says: its task is the one the classified intent
  maps back from, the request has the inputs this intent demands and an explicit intent is kept,
  the task asks for exactly the tools its type requires and passes the capability gate, only
  incident triage and evidence interpretation may call an external model, and its identity, its
  requester and its payload are the request's.
\<close>

theorem handoff_follows_policy:
  assumes "validate_request lib r0 = Inr r" and "resolve_supervisor_route r = Inr route"
    and "build_supervisor_handoff lib pn stamp r route parent = Inr t"
  shows "intent_for_task t = Inr (rt_intent route) \<and> explicit_inputs lib (r\<lparr>rq_intent := rt_intent route\<rparr>) \<and>
    rq_intent r \<in> {Auto_Intent, rt_intent route} \<and> tk_parent t = parent \<and> tk_requester t = rq_requester r \<and>
    tk_alert_key t = rq_alert_key r \<and> tk_payload t = payload_of_request pn r (handoff_purpose r) (rt_type route) \<and>
    required_tools_for_task (rt_specialist route) (rt_type route) = Inr (tk_tools t) \<and>
    (\<exists>c. enforce_task_capability t = Inr c \<and> \<not> cp_mutation c) \<and>
    (tk_route t = No_Llm_Fallback \<longleftrightarrow> rt_intent route \<notin> {Triage_Alert, Interpret_Incident_Evidence})"
proof -
  note r = request_Inr[OF assms(1)] and route = resolved_route[OF assms(2)]
  have b: "built_for pn r (handoff_purpose r) parent (rt_specialist route) (rt_type route) t"
    by (rule handoff_built[OF route(2) assms(3) r(1)])
  have "rq_intent r \<in> {Auto_Intent, rt_intent route}"
    using route(1) by (auto simp: classify_supervisor_intent_def split: if_splits)
  moreover have "r\<lparr>rq_intent := rt_intent route\<rparr> = r" if "rq_intent r = rt_intent route"
    using that by (metis request.surjective request.update_convs(1))
  then have "explicit_inputs lib (r\<lparr>rq_intent := rt_intent route\<rparr>)"
    using calculation auto_inputs[OF route(1) _ r(3)] r(2) by (metis insertE singletonD)
  moreover have "list_all (\<lambda>(i, route). policy_route (rt_type route) = No_Llm_Fallback \<longleftrightarrow>
      i \<notin> {Triage_Alert, Interpret_Incident_Evidence}) ROUTE_BY_INTENT" by code_simp
  ultimately show ?thesis
    using b route(2,3) r(1) by (auto simp: built_def intent_for_task_def texts_stripped_def list_all_iff)
qed


definition metadata_intents :: "intent list" where
  "metadata_intents = [Asset_Context, Blast_Radius, Trusted_Asset_Search]"

lemma metadata_routes: "list_all (\<lambda>(i, route). i \<in> set metadata_intents \<longrightarrow>
    rt_specialist route = METADATA_LINEAGE_SPECIALIST_NAME \<and> rt_type route \<in> set METADATA_PROPOSALS \<and>
    map_of EVIDENCE_INTERPRETATION_TASKS (rt_type route) = None \<and>
    (i = Trusted_Asset_Search \<longleftrightarrow> rt_type route = ''trusted_asset_search'')) ROUTE_BY_INTENT"
  by code_simp

lemma metadata_policies: "list_all (\<lambda>ty. case required_tools_for_task METADATA_LINEAGE_SPECIALIST_NAME ty of Inl _ \<Rightarrow> False
    | Inr tools \<Rightarrow> validate_allowed_tools tools = Inr tools \<and> validate_contract_name ty ''task_type'' = Inr ty \<and>
        validate_contract_name METADATA_LINEAGE_SPECIALIST_NAME ''specialist_name'' = Inr METADATA_LINEAGE_SPECIALIST_NAME \<and>
        (case map_of AGENT_CAPABILITY_REGISTRY METADATA_LINEAGE_SPECIALIST_NAME of None \<Rightarrow> False | Some c \<Rightarrow>
           ty \<in> set (cp_task_types c) \<and> set tools \<subseteq> set (cp_tools c) \<and> cp_route c = No_Llm_Fallback) \<and>
        map_of TASK_MODEL_ROUTE_POLICY (METADATA_LINEAGE_SPECIALIST_NAME, ty) = None)
    METADATA_PROPOSALS"
  by code_simp


lemma metadata_numbers:
  assumes "request_numbers lib r = Inr ()"
  shows "1 \<le> rq_result_limit r" "rq_result_limit r \<le> 25" "1 \<le> rq_max_depth r" "rq_max_depth r \<le> 10"
    "1 \<le> rq_max_nodes r" "rq_max_nodes r \<le> 250"
  using assms by (auto simp: request_numbers_def)

text \<open>The limits a metadata task sets below the request's.\<close>

definition metadata_fits :: "'f request \<Rightarrow> bool" where
  "metadata_fits r \<longleftrightarrow> length (if rq_query r \<noteq> [] then rq_query r else rq_question r) \<le> 120 \<and>
     length (rq_data_layer r) \<le> 20 \<and> length (rq_certification r) \<le> 30 \<and> length (rq_lifecycle r) \<le> 30"

lemma metadata_input_accepted:
  assumes "texts_stripped r" and "request_numbers lib r = Inr ()" and "length (rq_qualified_name r) \<le> 200" "length (rq_domain r) \<le> 80"
  shows "validate_metadata_input (metadata_of r) = Inr y \<longleftrightarrow> y = metadata_of r \<and> metadata_fits r"
  using assms metadata_numbers[OF assms(2)]
  by (auto simp: validate_metadata_input_def metadata_of_def metadata_fits_def texts_stripped_def)

lemma strip_length: "length (strip s) \<le> length s"
  unfolding strip_def by (metis length_dropWhile_le length_rev order_trans)

lemma request_sizes:
  assumes "request_texts r0 = Inr r"
  shows "length (rq_qualified_name r) \<le> 200" "length (rq_domain r) \<le> 80" "single_line (rq_qualified_name r)"
    "length (rq_alert_key r) \<le> 500" "length (rq_requester r) \<le> 100"
  using request_texts_Inr[OF assms] strip_length[of "rq_qualified_name r0"] strip_length[of "rq_domain r0"]
    strip_length[of "rq_alert_key r0"] strip_length[of "rq_requester r0"] by simp_all

lemma registry_metadata: "ty \<in> set METADATA_PROPOSALS \<Longrightarrow> \<exists>tools c.
    required_tools_for_task METADATA_LINEAGE_SPECIALIST_NAME ty = Inr tools \<and> validate_allowed_tools tools = Inr tools \<and>
    validate_contract_name ty ''task_type'' = Inr ty \<and>
    validate_contract_name METADATA_LINEAGE_SPECIALIST_NAME ''specialist_name'' = Inr METADATA_LINEAGE_SPECIALIST_NAME \<and>
    map_of AGENT_CAPABILITY_REGISTRY METADATA_LINEAGE_SPECIALIST_NAME = Some c \<and> ty \<in> set (cp_task_types c) \<and>
    set tools \<subseteq> set (cp_tools c) \<and> cp_route c = No_Llm_Fallback \<and>
    map_of TASK_MODEL_ROUTE_POLICY (METADATA_LINEAGE_SPECIALIST_NAME, ty) = None"
  using metadata_policies unfolding list_all_iff
  by (cases "required_tools_for_task METADATA_LINEAGE_SPECIALIST_NAME ty";
      cases "map_of AGENT_CAPABILITY_REGISTRY METADATA_LINEAGE_SPECIALIST_NAME") force+

text \<open>A metadata task with a valid input is built: no other check of its builder can refuse it.\<close>

lemma metadata_envelope_valid:
  fixes lib :: "'f pylib" and stamp :: stamp and parent :: string
  assumes ty: "ty \<in> set METADATA_PROPOSALS" and tools: "required_tools_for_task METADATA_LINEAGE_SPECIALIST_NAME ty = Inr tools"
    and zero: "within lib ''0.05'' (lib_zero lib)"
    and requester: "1 \<le> length requester" "length requester \<le> 100" and alert: "length alert_key \<le> 500"
    and refs: "try_map validate_context_reference refs = Inr refs'" "length refs \<le> 20"
    and payload: "validate_bounded_payload lib payload ''input_payload'' = Inr payload"
  defines "t0 \<equiv> (new_task stamp parent METADATA_LINEAGE_SPECIALIST_NAME ty tools requester alert_key payload (lib_zero lib))
      \<lparr>tk_context := refs\<rparr>"
  shows "\<exists>t c. validate_task lib t0 = Inr t \<and> enforce_task_capability t = Inr c \<and> tk_type t = ty"
proof -
  obtain c where reg: "validate_allowed_tools tools = Inr tools" "validate_contract_name ty ''task_type'' = Inr ty"
    "validate_contract_name METADATA_LINEAGE_SPECIALIST_NAME ''specialist_name'' = Inr METADATA_LINEAGE_SPECIALIST_NAME"
    "map_of AGENT_CAPABILITY_REGISTRY METADATA_LINEAGE_SPECIALIST_NAME = Some c" "ty \<in> set (cp_task_types c)"
    "set tools \<subseteq> set (cp_tools c)" "cp_route c = No_Llm_Fallback"
    "map_of TASK_MODEL_ROUTE_POLICY (METADATA_LINEAGE_SPECIALIST_NAME, ty) = None"
    using registry_metadata[OF ty] tools by auto
  have "\<not> nonzero lib (lib_zero lib)" using zero by (auto simp: nonzero_def within_def)
  then obtain t where t: "validate_task lib t0 = Inr t" "tk_specialist t = METADATA_LINEAGE_SPECIALIST_NAME" "tk_type t = ty"
    "tk_tools t = tools" "tk_route t = No_Llm_Fallback" "tk_risk t = Low_Risk"
    using reg(1-3) zero requester alert refs payload
    by (simp add: t0_def validate_task_def Let_def route_policy_def sized_def ranged_def)
  have "risk_order Low_Risk \<le> risk_order (cp_max_risk c)" by (cases "cp_max_risk c") simp_all
  moreover have "ty \<notin> set (map fst EVIDENCE_INTERPRETATION_TASKS)" using type_cases(6) ty by blast
  ultimately have "enforce_task_capability t = Inr c"
    using reg tools t by (auto simp: enforce_task_Inr expected_model_route_def)
  then show ?thesis using t by blast
qed

lemma metadata_input_fixed: "validate_metadata_input x = Inr x \<longleftrightarrow>
    length (mi_qualified_name x) \<le> 255 \<and> length (mi_query x) \<le> 120 \<and> length (mi_domain x) \<le> 80 \<and>
    length (mi_data_layer x) \<le> 20 \<and> length (mi_certification x) \<le> 30 \<and> length (mi_lifecycle x) \<le> 30 \<and>
    1 \<le> mi_limit x \<and> mi_limit x \<le> 25 \<and> 1 \<le> mi_max_depth x \<and> mi_max_depth x \<le> 10 \<and>
    1 \<le> mi_max_nodes x \<and> mi_max_nodes x \<le> 250 \<and> strip (mi_qualified_name x) = mi_qualified_name x \<and>
    strip (mi_query x) = mi_query x \<and> strip (mi_domain x) = mi_domain x \<and> strip (mi_data_layer x) = mi_data_layer x \<and>
    strip (mi_certification x) = mi_certification x \<and> strip (mi_lifecycle x) = mi_lifecycle x"
  by (cases x) (auto simp: validate_metadata_input_def)

lemma context_description: "single_line (strip ''Warehouse asset requested for trusted metadata and dbt lineage context.'')"
  by code_simp

lemma metadata_task_accepted:
  fixes lib :: "'f pylib"
  assumes ty: "ty \<in> set METADATA_PROPOSALS" and zero: "within lib ''0.05'' (lib_zero lib)"
    and x: "validate_metadata_input x = Inr x" and line: "single_line (mi_qualified_name x)"
    and requester: "1 \<le> length requester" "length requester \<le> 100" and alert: "length alert_key \<le> 500"
  shows "(\<exists>t :: 'f task. build_metadata_lineage_task lib stamp parent ty x requester alert_key = Inr t) \<longleftrightarrow>
    (ty \<noteq> ''trusted_asset_search'' \<longrightarrow> mi_qualified_name x \<noteq> [] \<and> (\<exists>q. qualified_table (mi_qualified_name x) = Inr q))"
proof -
  let ?y = "search_input ty x"
  let ?refs = "if mi_qualified_name ?y = [] then []
    else [context_of Ref_Metadata_Asset (mi_qualified_name ?y) ''Warehouse asset requested for trusted metadata and dbt lineage context.'']"
  have fixed: "lower (strip ty) = ty" using metadata_types ty by (auto simp: list_all_iff)
  have stripped: "strip (mi_qualified_name x) = mi_qualified_name x"
    using x by (simp add: metadata_input_fixed)
  have y: "validate_metadata_input ?y = Inr ?y"
    using x by (simp add: metadata_input_fixed search_input_def strip_def)
  obtain tools where tools: "required_tools_for_task METADATA_LINEAGE_SPECIALIST_NAME ty = Inr tools"
    using registry_metadata[OF ty] by blast
  have "validate_bounded_payload lib (metadata_payload ?y) ''input_payload'' = Inr (metadata_payload ?y)"
    using y by (intro metadata_payload_fits) (simp_all add: metadata_input_fixed)
  moreover have "single_line []" "strip (mi_qualified_name ?y) = mi_qualified_name ?y" "length (mi_qualified_name ?y) \<le> 2048"
    using y by (simp_all add: single_line_def metadata_input_fixed)
  then obtain refs' where "try_map validate_context_reference ?refs = Inr refs'"
    using line by (cases "mi_qualified_name ?y") (auto simp: context_of_def validate_context_reference_def search_input_def context_description split: if_splits)
  moreover have "length ?refs \<le> 20" by simp
  ultimately obtain t c where t: "validate_task lib ((new_task stamp parent METADATA_LINEAGE_SPECIALIST_NAME ty tools requester alert_key
      (metadata_payload ?y) (lib_zero lib))\<lparr>tk_context := ?refs\<rparr>) = Inr t" "enforce_task_capability t = Inr c" "tk_type t = ty"
    using metadata_envelope_valid[OF ty tools zero requester alert, of ?refs _ "metadata_payload ?y" stamp parent] by blast
  have "build_metadata_lineage_task lib stamp parent ty x requester alert_key =
      and_then (validate_metadata_lineage_task t ?y) (\<lambda>_. Inr t)"
    unfolding build_metadata_lineage_task_def Let_def fixed x and_then_run search_input_def[symmetric] tools t(1) by (rule refl)
  moreover have "ty \<in> {''asset_context'', ''blast_radius''} \<longleftrightarrow> ty \<noteq> ''trusted_asset_search''"
    using ty by (auto simp: METADATA_PROPOSALS_def)
  ultimately show ?thesis
    using t y by (auto simp: validate_metadata_lineage_task_def search_input_def)
qed

text \<open>
  C21. When an accepted request is still refused a metadata task: exactly when its search text, its layer
  or one of its status filters is longer than the task's input allows, when its requester was blank,
  or when the table a lookup needs is not a qualified table name. No other check of the builder,
  of the envelope or of the capability gate can fail.
\<close>

theorem metadata_handoff_built_iff:
  fixes lib :: "'f pylib" and r0 r :: "'f request"
  assumes "validate_request lib r0 = Inr r" and "resolve_supervisor_route r = Inr route"
    and "rt_intent route \<in> {Asset_Context, Blast_Radius, Trusted_Asset_Search}" and "within lib ''0.05'' (lib_zero lib)"
  shows "(\<exists>t. build_supervisor_handoff lib pn stamp r route parent = Inr t) \<longleftrightarrow>
    length (if rq_query r \<noteq> [] then rq_query r else rq_question r) \<le> 120 \<and> length (rq_data_layer r) \<le> 20 \<and>
    length (rq_certification r) \<le> 30 \<and> length (rq_lifecycle r) \<le> 30 \<and> rq_requester r \<noteq> [] \<and>
    (rt_intent route = Trusted_Asset_Search \<or> (\<exists>q. validate_qualified_table_name (rq_qualified_name r) = Inr q))"
proof -
  note r = request_Inr[OF assms(1)] and route = resolved_route[OF assms(2)]
  note sizes = request_sizes[OF r(7)]
  have meta: "rt_specialist route = METADATA_LINEAGE_SPECIALIST_NAME" "rt_type route \<in> set METADATA_PROPOSALS"
    "map_of EVIDENCE_INTERPRETATION_TASKS (rt_type route) = None"
    "rt_intent route = Trusted_Asset_Search \<longleftrightarrow> rt_type route = ''trusted_asset_search''"
    using metadata_routes route(2) assms(3) by (auto simp: list_all_iff metadata_intents_def)
  have build: "build_supervisor_handoff lib pn stamp r route parent =
      build_metadata_lineage_task lib stamp parent (rt_type route) (metadata_of r) (rq_requester r) (rq_alert_key r)"
    using meta by (simp add: build_supervisor_handoff_def)
  have input: "validate_metadata_input (metadata_of r) = Inr y \<longleftrightarrow> y = metadata_of r \<and> metadata_fits r" for y
    by (rule metadata_input_accepted[OF r(1) r(6) sizes(1,2)])
  have qualified_iff: "(\<exists>q. qualified_table s = Inr q) \<longleftrightarrow> (\<exists>q. validate_qualified_table_name s = Inr q)" for s
    by (auto simp: qualified_table_def split: sum.splits)
  have named: "validate_qualified_table_name [] \<noteq> Inr q" for q
    by (simp add: validate_qualified_table_name_def split_table_name_def)
  show ?thesis
  proof (cases "metadata_fits r \<and> rq_requester r \<noteq> []")
    case True
    then have "1 \<le> length (rq_requester r)" by (cases "rq_requester r") auto
    moreover have "mi_qualified_name (metadata_of r) = rq_qualified_name r" by (simp add: metadata_of_def)
    ultimately show ?thesis unfolding build
      using metadata_task_accepted[OF meta(2) assms(4), of "metadata_of r" "rq_requester r" "rq_alert_key r" stamp parent]
        True input sizes meta(4) qualified_iff named by (auto simp: metadata_fits_def)
  next
    case False
    moreover have "metadata_fits r \<and> rq_requester r \<noteq> []"
      if "build_metadata_lineage_task lib stamp parent (rt_type route) (metadata_of r) (rq_requester r) (rq_alert_key r) = Inr t" for t
      using that unfolding build_metadata_lineage_task_def Let_def and_then_Inr input
      by (auto simp: validate_task_def)
    ultimately show ?thesis unfolding build by (auto simp: metadata_fits_def)
  qed
qed

end
