(* ===== verification/Planning.thy ===== *)
theory Planning
  imports Routing
begin

text \<open>
  From a request to a fan-out plan: the proposal, the tasks policy builds for it and the compiled
  plan (the first half of \<open>agent/supervisor/execution_plan.py\<close>).

  The random identifiers and times of a compilation are the argument \<open>stamps\<close>, one per proposed
  task, and \<open>now\<close>. A random identifier never reaches the plan: the stable identity replaces it.
\<close>

section \<open>Proposals\<close>

record proposed_task =
  pt_specialist :: string
  pt_type :: string
  pt_requirement :: requirement
  pt_rationale :: string

definition normalize_proposed_task :: "proposed_task \<Rightarrow> refusal + proposed_task" where
  "normalize_proposed_task x =
     and_then (sized 3 80 (pt_specialist x) ''specialist_name'') (\<lambda>_.
     and_then (sized 3 80 (pt_type x) ''task_type'') (\<lambda>_.
     and_then (sized 0 500 (pt_rationale x) ''rationale'') (\<lambda>_.
     Inr (x\<lparr>pt_specialist := strip (pt_specialist x), pt_type := strip (pt_type x),
            pt_rationale := strip (pt_rationale x)\<rparr>))))"

definition planning_proposal :: "proposed_task list \<Rightarrow> refusal + proposed_task list" where
  "planning_proposal items =
     and_then (sized 1 MAX_AGENT_WORKERS items ''tasks'') (\<lambda>_. try_map normalize_proposed_task items)"

definition proposed :: "string \<Rightarrow> string \<Rightarrow> requirement \<Rightarrow> string \<Rightarrow> proposed_task" where
  "proposed specialist task_type req rationale =
     \<lparr>pt_specialist = specialist, pt_type = task_type, pt_requirement = req, pt_rationale = rationale\<rparr>"

text \<open>The second task of the default plan, by the intent of the first.\<close>

definition secondary_task :: "'f request \<Rightarrow> intent \<Rightarrow> proposed_task option" where
  "secondary_task r i =
     (let metadata = (\<lambda>task_type rationale. Some (proposed METADATA_LINEAGE_SPECIALIST_NAME task_type Optional_Worker rationale))
      in if i = Asset_Context
         then metadata ''blast_radius'' ''Collect independent downstream-impact evidence for the requested asset.''
         else if i = Blast_Radius
         then metadata ''asset_context'' ''Collect owner, grain, lifecycle, and trust context beside blast-radius evidence.''
         else if i = Schema_Drift_Assessment
         then metadata ''blast_radius'' ''Collect independent lineage impact for the schema finding.''
         else if i = Triage_Alert \<and> rq_qualified_name r \<noteq> []
         then metadata ''blast_radius'' ''Collect downstream impact while incident evidence is investigated.''
         else if i = Review_Sql \<and> rq_qualified_name r \<noteq> []
         then metadata ''asset_context'' ''Collect independent table trust context for the SQL review.''
         else None)"

definition build_deterministic_proposal :: "'f request \<Rightarrow> refusal + proposed_task list" where
  "build_deterministic_proposal r =
     and_then (resolve_supervisor_route r) (\<lambda>route.
     if rt_intent route = Interpret_Incident_Evidence
     then planning_proposal (map (\<lambda>(task_type, specialist). proposed specialist task_type Required_Worker
            ''Collect and interpret this independent evidence category for the same alert.'') EVIDENCE_INTERPRETATION_TASKS)
     else case secondary_task r (rt_intent route) of
            None \<Rightarrow> Inl (Invalid ''proposal'')
          | Some secondary \<Rightarrow>
              planning_proposal [proposed (rt_specialist route) (rt_type route) Required_Worker (rt_rationale route), secondary])"

section \<open>The task of a proposal\<close>

text \<open>The envelope the parent request gives a specialist and a task type.\<close>

definition proposed_envelope ::
    "'f pylib \<Rightarrow> 'f planner \<Rightarrow> stamp \<Rightarrow> 'f request \<Rightarrow> string \<Rightarrow> string \<Rightarrow> string \<Rightarrow> refusal + 'f task" where
  "proposed_envelope lib pn stamp r parent specialist task_type =
     (if map_of EVIDENCE_INTERPRETATION_TASKS task_type = Some specialist
      then and_then (check (rq_intent r = Interpret_Incident_Evidence) (Invalid ''proposal'')) (\<lambda>_.
           build_evidence_worker_task lib stamp parent task_type (evidence_of r) (rq_requester r))
      else if specialist = INCIDENT_TRIAGE_SPECIALIST_NAME \<and> task_type = ''triage_alert''
      then and_then (check (rq_alert_id r \<noteq> [] \<or> rq_alert_key r \<noteq> []) (Invalid ''proposal'')) (\<lambda>_.
           build_incident_triage_task lib pn stamp parent (triage_of r) (rq_requester r))
      else if specialist = METADATA_LINEAGE_SPECIALIST_NAME \<and> task_type \<in> set METADATA_PROPOSALS
      then and_then (check (task_type \<noteq> ''trusted_asset_search'' \<longrightarrow> rq_qualified_name r \<noteq> []) (Invalid ''proposal'')) (\<lambda>_.
           and_then (check (task_type = ''trusted_asset_search'' \<longrightarrow> rq_query r \<noteq> [] \<or> rq_question r \<noteq> [])
                       (Invalid ''proposal'')) (\<lambda>_.
           build_metadata_lineage_task lib stamp parent task_type (metadata_of r) (rq_requester r) (rq_alert_key r)))
      else if specialist = SQL_REVIEW_SPECIALIST_NAME \<and> task_type = ''review_sql''
      then and_then (check (rq_sql r \<noteq> []) (Invalid ''proposal'')) (\<lambda>_.
           build_sql_review_task lib stamp parent (sql_of r (rq_sql_purpose r)) (rq_requester r) (rq_alert_key r))
      else if specialist = SCHEMA_DRIFT_SPECIALIST_NAME \<and> task_type = ''assess_schema_drift''
      then and_then (check (rq_schema_run_id r \<noteq> [] \<and> rq_qualified_name r \<noteq> []) (Invalid ''proposal'')) (\<lambda>_.
           build_schema_drift_task lib stamp parent (drift_of r) (rq_manifest r) (rq_requester r) (rq_alert_key r))
      else Inl (Invalid ''proposal''))"

definition build_task_for_proposal ::
    "'f pylib \<Rightarrow> 'f planner \<Rightarrow> stamp \<Rightarrow> 'f request \<Rightarrow> string \<Rightarrow> proposed_task \<Rightarrow> refusal + 'f task" where
  "build_task_for_proposal lib pn stamp r parent x =
     and_then (proposed_envelope lib pn stamp r parent (lower (strip (pt_specialist x))) (lower (strip (pt_type x)))) (\<lambda>t.
     and_then (assign_stable_task_identity lib pn t) (\<lambda>stable.
     and_then (enforce_task_capability stable) (\<lambda>_. Inr stable)))"

section \<open>The compiled plan\<close>

fun underscored :: "bool \<Rightarrow> string \<Rightarrow> string" where
  "underscored _ [] = []"
| "underscored gap (c # cs) =
     (if lower_letter c \<or> digit c \<or> c = CHR ''_'' then c # underscored False cs
      else if gap then underscored True cs else CHR ''_'' # underscored True cs)"

definition strip_underscores :: "string \<Rightarrow> string" where
  "strip_underscores s =
     rev (dropWhile (\<lambda>c. c = CHR ''_'') (rev (dropWhile (\<lambda>c. c = CHR ''_'') s)))"

definition namespace_char :: "char \<Rightarrow> bool" where
  "namespace_char c \<longleftrightarrow> alphanumeric c \<or> c \<in> {CHR ''.'', CHR ''_'', CHR '':'', CHR ''-''}"

definition SAFE_CHECKPOINT_NAMESPACE :: "string \<Rightarrow> bool" where
  "SAFE_CHECKPOINT_NAMESPACE s \<longleftrightarrow> s \<noteq> [] \<and> length s \<le> 200 \<and> alphanumeric (hd s) \<and> list_all namespace_char s"

definition build_specialist_checkpoint_namespace :: "'f planner \<Rightarrow> string \<Rightarrow> string \<Rightarrow> string \<Rightarrow> refusal + string" where
  "build_specialist_checkpoint_namespace pn parent_run_id task_id specialist_name =
     (let parent = strip parent_run_id; task = strip task_id; specialist = lower (strip specialist_name)
      in and_then (check (parent \<noteq> [] \<and> task \<noteq> [] \<and> specialist \<noteq> []) (Invalid ''namespace'')) (\<lambda>_.
         let safe_specialist = take 48 (strip_underscores (underscored False specialist));
             digest = take 20 (pn_sha256 pn (parent @ ''|'' @ task @ ''|'' @ specialist));
             namespace = ''child:'' @ safe_specialist @ '':'' @ digest
         in and_then (check (SAFE_CHECKPOINT_NAMESPACE namespace) (Invalid ''namespace'')) (\<lambda>_. Inr namespace)))"

definition plan_worker :: "'f planner \<Rightarrow> string \<Rightarrow> 'f task \<Rightarrow> proposed_task \<Rightarrow> refusal + 'f worker" where
  "plan_worker pn parent t x =
     and_then (intent_for_task t) (\<lambda>i.
     and_then (build_specialist_checkpoint_namespace pn parent (tk_task_id t) (tk_specialist t)) (\<lambda>namespace.
     validate_worker \<lparr>wk_task = t, wk_intent = i, wk_requirement = pt_requirement x, wk_retry_budget = 0,
        wk_namespace = namespace, wk_rationale = pt_rationale x\<rparr>))"

text \<open>The loop over the proposal: \<open>seen\<close> holds the signatures of the workers so far.\<close>

fun compile_workers ::
    "'f pylib \<Rightarrow> 'f planner \<Rightarrow> (nat \<Rightarrow> stamp) \<Rightarrow> 'f request \<Rightarrow> string \<Rightarrow> nat \<Rightarrow> string list \<Rightarrow> proposed_task list \<Rightarrow>
       refusal + 'f worker list" where
  "compile_workers lib pn stamps r parent n seen [] = Inr []"
| "compile_workers lib pn stamps r parent n seen (x # xs) =
     and_then (build_task_for_proposal lib pn (stamps n) r parent x) (\<lambda>t.
     if task_signature lib pn t \<in> set seen then compile_workers lib pn stamps r parent (Suc n) seen xs
     else and_then (plan_worker pn parent t x) (\<lambda>w.
          and_then (compile_workers lib pn stamps r parent (Suc n) (task_signature lib pn t # seen) xs) (\<lambda>ws.
          Inr (w # ws))))"

definition selected_proposal :: "'f request \<Rightarrow> proposed_task list option \<Rightarrow> refusal + proposed_task list" where
  "selected_proposal r proposal =
     and_then (case proposal of Some items \<Rightarrow> Inr items | None \<Rightarrow> build_deterministic_proposal r) (\<lambda>items.
     and_then (check (\<not> (rq_intent r = Interpret_Incident_Evidence \<and> proposal \<noteq> None)) (Invalid ''proposal'')) (\<lambda>_.
     Inr items))"

definition policy_of_request :: "'f request \<Rightarrow> nat \<Rightarrow> 'f fanout_policy" where
  "policy_of_request r workers =
     \<lparr>fp_max_workers = rq_max_workers r, fp_max_concurrency = min (rq_max_concurrency r) (int workers),
      fp_max_calls = rq_max_calls r, fp_tokens = rq_tokens r, fp_cost = rq_cost r, fp_latency = rq_latency r,
      fp_external_llm = rq_allow_llm r, fp_mutation = False\<rparr>"

definition assembled_plan ::
    "string \<Rightarrow> 'f worker list \<Rightarrow> dependency list \<Rightarrow> 'f fanout_policy \<Rightarrow> wave list \<Rightarrow> plan_source \<Rightarrow> int \<Rightarrow> 'f plan" where
  "assembled_plan parent workers deps policy waves origin now =
     \<lparr>pl_parent = parent, pl_workers = workers, pl_dependencies = deps, pl_policy = policy, pl_waves = waves,
      pl_strategy = Evidence_First, pl_source = origin, pl_hash = [], pl_created_at = now\<rparr>"

definition compile_execution_plan ::
    "'f pylib \<Rightarrow> 'f planner \<Rightarrow> (nat \<Rightarrow> stamp) \<Rightarrow> int \<Rightarrow> 'f request \<Rightarrow> string \<Rightarrow> proposed_task list option \<Rightarrow>
       dependency list \<Rightarrow> refusal + 'f plan" where
  "compile_execution_plan lib pn stamps now r parent proposal deps =
     and_then (check (rq_mode r = Fanout_Mode) (Invalid ''execution_mode'')) (\<lambda>_.
     and_then (selected_proposal r proposal) (\<lambda>items.
     and_then (compile_workers lib pn stamps r parent 0 [] items) (\<lambda>candidates.
     let workers = take (nat (rq_max_workers r)) candidates
     in and_then (check (2 \<le> length workers) (Invalid ''workers'')) (\<lambda>_.
        and_then (validate_concurrency_policy lib (policy_of_request r (length workers))) (\<lambda>policy.
        and_then (build_execution_waves (map (tk_task_id \<circ> wk_task) workers) deps) (\<lambda>waves.
        let draft = assembled_plan parent workers deps policy waves
              (if proposal = None then Deterministic else Llm_Proposal) now
        in and_then (plan_fields (draft\<lparr>pl_hash := calculate_plan_hash lib pn draft\<rparr>)) (\<lambda>plan.
           validate_execution_plan lib pn plan)))))))"

section \<open>What a proposal can decide\<close>

lemma envelope_built:
  assumes t: "proposed_envelope lib pn stamp r parent specialist ty = Inr t" and texts: "texts_stripped r"
  shows "built_for pn r (rq_sql_purpose r) parent specialist ty t \<and>
    (map_of EVIDENCE_INTERPRETATION_TASKS ty = Some specialist \<longrightarrow> rq_intent r = Interpret_Incident_Evidence) \<and>
    map_of intent_mapping (specialist, ty) \<noteq> None"
proof -
  have purpose: "strip (rq_sql_purpose r) = rq_sql_purpose r" using texts by (simp add: texts_stripped_def)
  consider "map_of EVIDENCE_INTERPRETATION_TASKS ty = Some specialist"
    | "map_of EVIDENCE_INTERPRETATION_TASKS ty \<noteq> Some specialist" "specialist = INCIDENT_TRIAGE_SPECIALIST_NAME" "ty = ''triage_alert''"
    | "map_of EVIDENCE_INTERPRETATION_TASKS ty \<noteq> Some specialist" "specialist = METADATA_LINEAGE_SPECIALIST_NAME" "ty \<in> set METADATA_PROPOSALS"
    | "map_of EVIDENCE_INTERPRETATION_TASKS ty \<noteq> Some specialist" "specialist = SQL_REVIEW_SPECIALIST_NAME" "ty = ''review_sql''"
    | "map_of EVIDENCE_INTERPRETATION_TASKS ty \<noteq> Some specialist" "specialist = SCHEMA_DRIFT_SPECIALIST_NAME" "ty = ''assess_schema_drift''"
    using t by (auto simp: proposed_envelope_def split: if_splits)
  then show ?thesis
  proof cases
    case 1
    have "(ty, specialist) \<in> set EVIDENCE_INTERPRETATION_TASKS" using 1 by (rule map_of_SomeD)
    moreover have "list_all (\<lambda>(ty, n). map_of intent_mapping (n, ty) \<noteq> None) EVIDENCE_INTERPRETATION_TASKS" by code_simp
    moreover have "build_evidence_worker_task lib stamp parent ty (evidence_of r) (rq_requester r) = Inr t"
      "rq_intent r = Interpret_Incident_Evidence" using t 1 by (simp_all add: proposed_envelope_def)
    ultimately show ?thesis using evidence_built_for[OF texts _ 1, of lib stamp parent t pn] by (fastforce simp: list_all_iff)
  next
    case 2
    moreover have "map_of intent_mapping (INCIDENT_TRIAGE_SPECIALIST_NAME, ''triage_alert'') \<noteq> None" by code_simp
    ultimately show ?thesis using t triage_built_for[OF texts, of lib pn stamp parent t] by (auto simp add: proposed_envelope_def)
  next
    case 3
    moreover have "list_all (\<lambda>ty. map_of intent_mapping (METADATA_LINEAGE_SPECIALIST_NAME, ty) \<noteq> None) METADATA_PROPOSALS" by code_simp
    ultimately show ?thesis using t metadata_built_for[OF texts 3(3), of lib stamp parent t] by (auto simp: proposed_envelope_def list_all_iff)
  next
    case 4
    moreover have "map_of intent_mapping (SQL_REVIEW_SPECIALIST_NAME, ''review_sql'') \<noteq> None" by code_simp
    ultimately show ?thesis using t sql_built_for[OF texts purpose, of lib stamp parent t] by (auto simp add: proposed_envelope_def)
  next
    case 5
    moreover have "map_of intent_mapping (SCHEMA_DRIFT_SPECIALIST_NAME, ''assess_schema_drift'') \<noteq> None" by code_simp
    ultimately show ?thesis using t drift_built_for[OF texts, of lib stamp parent _ t] by (auto simp add: proposed_envelope_def)
  qed
qed

text \<open>A task of a proposal is the request's task of the named type, with a stable identity.\<close>

lemma proposed_task_built:
  assumes "build_task_for_proposal lib pn stamp r parent x = Inr t" and texts: "texts_stripped r"
  defines "specialist \<equiv> lower (strip (pt_specialist x))" and "ty \<equiv> lower (strip (pt_type x))"
  shows "built_for pn r (rq_sql_purpose r) parent specialist ty t \<and>
    (map_of EVIDENCE_INTERPRETATION_TASKS ty = Some specialist \<longrightarrow> rq_intent r = Interpret_Incident_Evidence) \<and>
    tk_task_id t = pn_uuid5 pn parent (task_signature lib pn t)"
proof -
  obtain t0 c where t0: "proposed_envelope lib pn stamp r parent specialist ty = Inr t0"
    and id: "assign_stable_task_identity lib pn t0 = Inr t" and c: "enforce_task_capability t = Inr c"
    using assms(1) by (auto simp: build_task_for_proposal_def specialist_def ty_def)
  have b: "built_for pn r (rq_sql_purpose r) parent specialist ty t0"
    and e: "map_of EVIDENCE_INTERPRETATION_TASKS ty = Some specialist \<longrightarrow> rq_intent r = Interpret_Incident_Evidence"
    and m: "map_of intent_mapping (specialist, ty) \<noteq> None"
    using envelope_built[OF t0 texts] by blast+
  have "list_all (\<lambda>((n, ty), i). lower (strip n) = n \<and> lower (strip ty) = ty) intent_mapping" by code_simp
  then have fixed: "lower (strip specialist) = specialist" "lower (strip ty) = ty"
    using m by (auto simp: list_all_iff dest!: map_of_SomeD)
  have v: "validate_task lib (t0\<lparr>tk_task_id := pn_uuid5 pn (tk_parent t0) (task_signature lib pn t0)\<rparr>) = Inr t"
    using id by (simp add: assign_stable_task_identity_def)
  note same = validate_task_Inr[OF v]
  have tools: "tk_tools t = tk_tools t0" using same(6) required_tools_fixed b by (auto simp: built_def)
  have "tk_context t = tk_context t0" "references_kept t" using validated_references[OF v] b by (auto simp: built_def references_kept_def)
  moreover from this have "task_signature lib pn t = task_signature lib pn t0"
    using same b fixed by (simp add: task_signature_def task_signature_json_def built_def)
  ultimately show ?thesis
    using b e same fixed tools c admitted_never_mutates[OF c] by (auto simp: built_def)
qed


definition planned_from :: "'f pylib \<Rightarrow> 'f planner \<Rightarrow> 'f request \<Rightarrow> string \<Rightarrow> proposed_task list \<Rightarrow> 'f worker \<Rightarrow> bool" where
  "planned_from lib pn r parent xs w \<longleftrightarrow> (\<exists>x \<in> set xs. \<exists>stamp. build_task_for_proposal lib pn stamp r parent x = Inr (wk_task w) \<and>
     plan_worker pn parent (wk_task w) x = Inr w)"

lemma plan_worker_task: "plan_worker pn parent t x = Inr w \<Longrightarrow> wk_task w = t \<and> intent_for_task t = Inr (wk_intent w) \<and>
    wk_requirement w = pt_requirement x \<and> wk_rationale w = pt_rationale x \<and> wk_retry_budget w = 0"
  by (auto simp: plan_worker_def validate_worker_def)

lemma compiled_workers:
  "compile_workers lib pn stamps r parent n seen xs = Inr ws \<Longrightarrow>
     distinct (map (task_signature lib pn \<circ> wk_task) ws) \<and>
     (\<forall>w \<in> set ws. task_signature lib pn (wk_task w) \<notin> set seen \<and> planned_from lib pn r parent xs w)"
proof (induction xs arbitrary: n seen ws)
  case (Cons x xs)
  obtain t where t: "build_task_for_proposal lib pn (stamps n) r parent x = Inr t" using Cons.prems by auto
  have more: "planned_from lib pn r parent xs w \<Longrightarrow> planned_from lib pn r parent (x # xs) w" for w
    by (auto simp: planned_from_def)
  show ?case
  proof (cases "task_signature lib pn t \<in> set seen")
    case True
    then have "compile_workers lib pn stamps r parent (Suc n) seen xs = Inr ws" using Cons.prems t by simp
    from Cons.IH[OF this] show ?thesis using more by blast
  next
    case False
    then obtain w ws' where w: "plan_worker pn parent t x = Inr w" and ws: "ws = w # ws'"
      and rest: "compile_workers lib pn stamps r parent (Suc n) (task_signature lib pn t # seen) xs = Inr ws'"
      using Cons.prems t by auto
    have "planned_from lib pn r parent (x # xs) w" unfolding planned_from_def using t w plan_worker_task[OF w] by (metis list.set_intros(1))
    then show ?thesis using Cons.IH[OF rest] more plan_worker_task[OF w] False by (auto simp: ws)
  qed
qed simp

definition policy_owned :: "'f planner \<Rightarrow> 'f request \<Rightarrow> string \<Rightarrow> 'f task \<Rightarrow> bool" where
  "policy_owned pn r parent t \<longleftrightarrow>
     tk_parent t = parent \<and> tk_requester t = rq_requester r \<and> tk_alert_key t = rq_alert_key r \<and>
     tk_payload t = payload_of_request pn r (rq_sql_purpose r) (tk_type t) \<and>
     required_tools_for_task (tk_specialist t) (tk_type t) = Inr (tk_tools t) \<and>
     (\<exists>c. enforce_task_capability t = Inr c \<and> \<not> cp_mutation c) \<and> tk_route t = policy_route (tk_type t)"

lemma evidence_intents: "map_of intent_mapping (n, ty) = Some Interpret_Incident_Evidence \<Longrightarrow>
    map_of EVIDENCE_INTERPRETATION_TASKS ty = Some n"
proof -
  have "list_all (\<lambda>((n, ty), i). i = Interpret_Incident_Evidence \<longrightarrow> map_of EVIDENCE_INTERPRETATION_TASKS ty = Some n) intent_mapping"
    by code_simp
  then show "map_of intent_mapping (n, ty) = Some Interpret_Incident_Evidence \<Longrightarrow> ?thesis"
    by (auto simp: list_all_iff dest!: map_of_SomeD)
qed

text \<open>
  C35. A model's proposal selects and nothing else. Whatever tasks a proposal names, a compiled plan has
  between two workers and the request's number of them, no two with the same content, under the
  request's own budgets and permission. Every worker comes from an item of the proposal, of which it
  keeps the two names, the requirement and the rationale; its inputs, its tools, its model route and
  its identity are what policy derives from the request. Evidence interpretation is never planned
  from a model's proposal.
\<close>

theorem proposal_only_selects:
  assumes "validate_request lib r0 = Inr r" and "compile_execution_plan lib pn stamps now r parent proposal deps = Inr p"
  shows "validate_execution_plan lib pn p = Inr p \<and> pl_parent p = parent \<and> pl_dependencies p = deps \<and>
    2 \<le> length (pl_workers p) \<and> int (length (pl_workers p)) \<le> rq_max_workers r \<and>
    pl_policy p = policy_of_request r (length (pl_workers p)) \<and>
    distinct (map (task_signature lib pn \<circ> wk_task) (pl_workers p)) \<and>
    (\<exists>items. selected_proposal r proposal = Inr items \<and> (\<forall>w \<in> set (pl_workers p).
       policy_owned pn r parent (wk_task w) \<and> tk_task_id (wk_task w) = pn_uuid5 pn parent (task_signature lib pn (wk_task w)) \<and>
       intent_for_task (wk_task w) = Inr (wk_intent w) \<and> wk_retry_budget w = 0 \<and>
       (wk_intent w = Interpret_Incident_Evidence \<longrightarrow> rq_intent r = Interpret_Incident_Evidence \<and> proposal = None) \<and>
       (\<exists>x \<in> set items. tk_specialist (wk_task w) = lower (strip (pt_specialist x)) \<and>
          tk_type (wk_task w) = lower (strip (pt_type x)) \<and> wk_requirement w = pt_requirement x \<and> wk_rationale w = pt_rationale x)))"
proof -
  have texts: "texts_stripped r" using request_Inr[OF assms(1)] by blast
  obtain items candidates workers policy waves plan where items: "selected_proposal r proposal = Inr items"
    and candidates: "compile_workers lib pn stamps r parent 0 [] items = Inr candidates"
    and workers: "workers = take (nat (rq_max_workers r)) candidates" "2 \<le> length workers"
    and policy: "validate_concurrency_policy lib (policy_of_request r (length workers)) = Inr policy"
    and draft: "plan_fields (assembled_plan parent workers deps policy waves (if proposal = None then Deterministic else Llm_Proposal) now
      \<lparr>pl_hash := calculate_plan_hash lib pn (assembled_plan parent workers deps policy waves (if proposal = None then Deterministic else Llm_Proposal) now)\<rparr>)
      = Inr plan"
    and valid: "validate_execution_plan lib pn plan = Inr p"
    using assms(2) unfolding compile_execution_plan_def Let_def and_then_Inr check_Inr by blast
  have p: "p = plan" using valid by (auto simp: validate_execution_plan_def)
  have fields: "pl_workers p = workers" "pl_parent p = parent" "pl_dependencies p = deps" "pl_policy p = policy"
    using draft by (auto simp: p plan_fields_def assembled_plan_def)
  have "policy = policy_of_request r (length workers)" using policy by (auto simp: validate_concurrency_policy_def)
  moreover have "distinct (map (task_signature lib pn \<circ> wk_task) workers)"
    using valid fields by (auto simp: p validate_execution_plan_def)
  moreover have "int (length workers) \<le> rq_max_workers r"
    using workers by (cases "0 \<le> rq_max_workers r") auto
  moreover have "policy_owned pn r parent (wk_task w) \<and> tk_task_id (wk_task w) = pn_uuid5 pn parent (task_signature lib pn (wk_task w)) \<and>
       intent_for_task (wk_task w) = Inr (wk_intent w) \<and> wk_retry_budget w = 0 \<and>
       (wk_intent w = Interpret_Incident_Evidence \<longrightarrow> rq_intent r = Interpret_Incident_Evidence \<and> proposal = None) \<and>
       (\<exists>x \<in> set items. tk_specialist (wk_task w) = lower (strip (pt_specialist x)) \<and>
          tk_type (wk_task w) = lower (strip (pt_type x)) \<and> wk_requirement w = pt_requirement x \<and> wk_rationale w = pt_rationale x)"
    if w: "w \<in> set workers" for w
  proof -
    have "w \<in> set candidates" using w workers(1) by (auto dest: in_set_takeD)
    then obtain x stamp where x: "x \<in> set items" and b: "build_task_for_proposal lib pn stamp r parent x = Inr (wk_task w)"
      and plan: "plan_worker pn parent (wk_task w) x = Inr w"
      using compiled_workers[OF candidates] by (auto simp: planned_from_def)
    note own = proposed_task_built[OF b texts] and worker = plan_worker_task[OF plan]
    have "rq_intent r = Interpret_Incident_Evidence" if "wk_intent w = Interpret_Incident_Evidence"
      using that worker own evidence_intents by (auto simp: intent_for_task_def built_def split: option.splits)
    then have "wk_intent w = Interpret_Incident_Evidence \<longrightarrow> rq_intent r = Interpret_Incident_Evidence \<and> proposal = None"
      using items by (auto simp: selected_proposal_def)
    then show ?thesis using own worker x texts by (auto simp: policy_owned_def built_def texts_stripped_def)
  qed
  ultimately show ?thesis using fields items workers(2) valid p by blast
qed

end
