(* ===== verification/Routing_Policy.thy ===== *)
theory Routing_Policy
  imports Registry
begin

text \<open>
  The routing policy of the supervisor, \<open>agent/supervisor/policy.py\<close>: incident complexity, the
  route of the report's narrative, and the decisions before and after a handoff.

  The conversions of Python whose result no decision depends on in detail, of a container to text
  and of a text or a float to a number, are the record \<open>reader\<close>; \<open>None\<close> is a \<open>ValueError\<close> or a
  \<open>TypeError\<close>. A state holds the fields the policy reads.
\<close>

section \<open>Conversions\<close>

record 'f reader =
  rd_repr :: "json \<Rightarrow> string"
  rd_of_int :: "int \<Rightarrow> 'f"
  rd_of_real :: "json \<Rightarrow> 'f"
  rd_float_text :: "string \<Rightarrow> 'f option"
  rd_int_text :: "string \<Rightarrow> int option"
  rd_int_real :: "json \<Rightarrow> int option"
  rd_round4 :: "'f \<Rightarrow> 'f"

definition value_str :: "'f reader \<Rightarrow> json \<Rightarrow> string" where
  "value_str rd j = (case j of JNull \<Rightarrow> ''None'' | JBool b \<Rightarrow> (if b then ''True'' else ''False'')
     | JInt i \<Rightarrow> int_str i | JReal r \<Rightarrow> r | JStr s \<Rightarrow> s | _ \<Rightarrow> rd_repr rd j)"

definition value_float :: "'f reader \<Rightarrow> json \<Rightarrow> 'f option" where
  "value_float rd j = (case j of JBool b \<Rightarrow> Some (rd_of_int rd (if b then 1 else 0)) | JInt i \<Rightarrow> Some (rd_of_int rd i)
     | JReal r \<Rightarrow> Some (rd_of_real rd j) | JNon_Finite \<Rightarrow> Some (rd_of_real rd j) | JStr s \<Rightarrow> rd_float_text rd s | _ \<Rightarrow> None)"

definition value_int :: "'f reader \<Rightarrow> json \<Rightarrow> int option" where
  "value_int rd j = (case j of JBool b \<Rightarrow> Some (if b then 1 else 0) | JInt i \<Rightarrow> Some i
     | JReal r \<Rightarrow> rd_int_real rd j | JNon_Finite \<Rightarrow> None | JStr s \<Rightarrow> rd_int_text rd s | _ \<Rightarrow> None)"

section \<open>Incident complexity\<close>

datatype complexity_tier = Low_Complexity | Moderate_Complexity | High_Complexity_Tier

datatype complexity_reason = Critical_Severity | Broad_Evidence | Competing_Hypotheses | Contradictory_Evidence
  | Wide_Lineage_Impact | Schema_Drift_Context | Unresolved_Tool_Errors

record evidence_item =
  it_type :: json
  it_rows :: "json list"
  it_contradicts :: "string list"

record 'f hypothesis =
  hy_confidence :: 'f
  hy_opposing :: "string list"

record 'f triage_state =
  ts_severity :: "json option"
  ts_evidence :: "evidence_item list"
  ts_hypotheses :: "'f hypothesis list"
  ts_errors :: "string list"

record 'f complexity =
  cm_tier :: complexity_tier
  cm_score :: nat
  cm_strong :: bool
  cm_reasons :: "complexity_reason list"
  cm_types :: "string list"
  cm_hypotheses :: nat
  cm_gap :: "'f option"
  cm_contradictions :: nat
  cm_lineage :: nat
  cm_findings :: nat
  cm_errors :: nat

definition DETERMINISTIC_COMPLEXITY_EVIDENCE_TYPES :: "string list" where
  "DETERMINISTIC_COMPLEXITY_EVIDENCE_TYPES =
     [''sql_result'', ''dq_history'', ''incident_history'', ''lineage'', ''pipeline_run'', ''schema_drift'']"

definition BROAD_EVIDENCE_TYPE_THRESHOLD :: nat where "BROAD_EVIDENCE_TYPE_THRESHOLD = 5"
definition COMPETING_HYPOTHESIS_GAP :: string where "COMPETING_HYPOTHESIS_GAP = ''0.12''"
definition WIDE_LINEAGE_ASSET_THRESHOLD :: nat where "WIDE_LINEAGE_ASSET_THRESHOLD = 4"
definition MODERATE_COMPLEXITY_THRESHOLD :: nat where "MODERATE_COMPLEXITY_THRESHOLD = 2"
definition HIGH_COMPLEXITY_THRESHOLD :: nat where "HIGH_COMPLEXITY_THRESHOLD = 4"

definition SCHEMA_COMPLEXITY_FINDING_STATUSES :: "string list" where
  "SCHEMA_COMPLEXITY_FINDING_STATUSES = [''warn'', ''fail'']"

definition LINEAGE_REFERENCE_KEYS :: "string list" where
  "LINEAGE_REFERENCE_KEYS = [''parents'', ''children'', ''upstream'', ''downstream'', ''upstream_assets'',
     ''downstream_assets'', ''direct_upstream'', ''direct_downstream'']"

definition normalized_enum_text :: "'f reader \<Rightarrow> json \<Rightarrow> string" where
  "normalized_enum_text rd value = lower (strip (if json_truthy value then value_str rd value else []))"

fun first_reference :: "'f reader \<Rightarrow> fields \<Rightarrow> string list \<Rightarrow> string" where
  "first_reference rd kvs [] = []"
| "first_reference rd kvs (k # ks) =
     (let value = get_json kvs k JNull; candidate = strip (if json_truthy value then value_str rd value else [])
      in if candidate \<noteq> [] then take 500 candidate else first_reference rd kvs ks)"

definition lineage_reference :: "'f reader \<Rightarrow> json \<Rightarrow> string" where
  "lineage_reference rd value = (case value of
      JStr s \<Rightarrow> take 500 (strip s)
    | JObj kvs \<Rightarrow> first_reference rd kvs [''unique_id'', ''qualified_name'', ''name'', ''relation_name'', ''node_id'']
    | _ \<Rightarrow> [])"

definition row_references :: "'f reader \<Rightarrow> json \<Rightarrow> string list" where
  "row_references rd row = (case row of
      JObj kvs \<Rightarrow> concat (map (\<lambda>k. map (lineage_reference rd) (case get_json kvs k (JArr []) of JArr xs \<Rightarrow> xs | v \<Rightarrow> [v]))
        LINEAGE_REFERENCE_KEYS)
    | _ \<Rightarrow> [])"

definition items_of_type :: "'f reader \<Rightarrow> 'f triage_state \<Rightarrow> string \<Rightarrow> evidence_item list" where
  "items_of_type rd s evidence_type = filter (\<lambda>e. normalized_enum_text rd (it_type e) = evidence_type) (ts_evidence s)"

definition count_lineage_assets :: "'f reader \<Rightarrow> 'f triage_state \<Rightarrow> nat" where
  "count_lineage_assets rd s =
     length (remdups (filter (\<lambda>x. x \<noteq> []) (concat (map (\<lambda>e. concat (map (row_references rd) (it_rows e))) (items_of_type rd s ''lineage'')))))"

definition schema_finding :: "'f reader \<Rightarrow> json \<Rightarrow> bool" where
  "schema_finding rd row = (case row of
      JObj kvs \<Rightarrow> normalized_enum_text rd (get_json kvs ''status'' JNull) \<in> set SCHEMA_COMPLEXITY_FINDING_STATUSES
    | _ \<Rightarrow> False)"

definition count_schema_findings :: "'f reader \<Rightarrow> 'f triage_state \<Rightarrow> nat" where
  "count_schema_findings rd s =
     length (filter (schema_finding rd) (concat (map it_rows (items_of_type rd s ''schema_drift''))))"

text \<open>\<open>sorted(..., reverse=True)\<close> of confidences, none of which is a NaN.\<close>

fun insert_ranked :: "'f pylib \<Rightarrow> 'f \<Rightarrow> 'f list \<Rightarrow> 'f list" where
  "insert_ranked lib x [] = [x]"
| "insert_ranked lib x (y # ys) = (if lib_less lib y x then x # y # ys else y # insert_ranked lib x ys)"

definition ranked_confidences :: "'f pylib \<Rightarrow> 'f triage_state \<Rightarrow> 'f list" where
  "ranked_confidences lib s = foldl (\<lambda>acc h. insert_ranked lib (hy_confidence h) acc) [] (ts_hypotheses s)"

definition top_hypothesis_gap :: "'f pylib \<Rightarrow> 'f reader \<Rightarrow> 'f triage_state \<Rightarrow> 'f option" where
  "top_hypothesis_gap lib rd s = (case ranked_confidences lib s of
      a # b # _ \<Rightarrow> Some (rd_round4 rd (if lib_less lib (lib_zero lib) (lib_sub lib a b) then lib_sub lib a b else lib_zero lib))
    | _ \<Rightarrow> None)"

definition contradiction_count :: "'f triage_state \<Rightarrow> nat" where
  "contradiction_count s = sum_list (map (\<lambda>e. length (it_contradicts e)) (ts_evidence s)) +
     sum_list (map (\<lambda>h. length (hy_opposing h)) (ts_hypotheses s))"

definition evidence_types :: "'f reader \<Rightarrow> 'f triage_state \<Rightarrow> string list" where
  "evidence_types rd s = sort (remdups (filter (\<lambda>x. x \<in> set DETERMINISTIC_COMPLEXITY_EVIDENCE_TYPES)
     (map (\<lambda>e. normalized_enum_text rd (it_type e)) (ts_evidence s))))"

text \<open>The signals in the order of the code, each with its weight.\<close>

definition complexity_signals :: "'f pylib \<Rightarrow> 'f reader \<Rightarrow> 'f triage_state \<Rightarrow> (bool \<times> nat \<times> complexity_reason) list" where
  "complexity_signals lib rd s =
     [((case ts_severity s of Some v \<Rightarrow> normalized_enum_text rd v | None \<Rightarrow> []) = ''critical'', 1, Critical_Severity),
      (BROAD_EVIDENCE_TYPE_THRESHOLD \<le> length (evidence_types rd s), 1, Broad_Evidence),
      ((case top_hypothesis_gap lib rd s of Some g \<Rightarrow> lib_le lib g (lib_literal lib COMPETING_HYPOTHESIS_GAP) | None \<Rightarrow> False),
         3, Competing_Hypotheses),
      (0 < contradiction_count s, 4, Contradictory_Evidence),
      (WIDE_LINEAGE_ASSET_THRESHOLD \<le> count_lineage_assets rd s, 3, Wide_Lineage_Impact),
      (0 < count_schema_findings rd s, 3, Schema_Drift_Context),
      (0 < length (filter (\<lambda>e. strip e \<noteq> []) (ts_errors s)), 3, Unresolved_Tool_Errors)]"

definition tier_of_score :: "nat \<Rightarrow> complexity_tier" where
  "tier_of_score score = (if HIGH_COMPLEXITY_THRESHOLD \<le> score then High_Complexity_Tier
     else if MODERATE_COMPLEXITY_THRESHOLD \<le> score then Moderate_Complexity else Low_Complexity)"

text \<open>The model's fields and \<open>validate_strong_reasoning_tier\<close>.\<close>

definition validate_complexity :: "'f pylib \<Rightarrow> 'f complexity \<Rightarrow> refusal + 'f complexity" where
  "validate_complexity lib a =
     and_then (check (cm_score a \<le> 100) (Invalid ''score'')) (\<lambda>_.
     and_then (sized 0 20 (cm_reasons a) ''reason_codes'') (\<lambda>_.
     and_then (sized 0 20 (cm_types a) ''deterministic_evidence_types'') (\<lambda>_.
     and_then (check (cm_hypotheses a \<le> 100) (Invalid ''hypothesis_count'')) (\<lambda>_.
     and_then (check (case cm_gap a of None \<Rightarrow> True | Some g \<Rightarrow> within lib ''1.0'' g) (Invalid ''top_hypothesis_gap'')) (\<lambda>_.
     and_then (check (cm_contradictions a \<le> 10000) (Invalid ''contradiction_count'')) (\<lambda>_.
     and_then (check (cm_lineage a \<le> 10000) (Invalid ''lineage_asset_count'')) (\<lambda>_.
     and_then (check (cm_findings a \<le> 10000) (Invalid ''schema_finding_count'')) (\<lambda>_.
     and_then (check (cm_errors a \<le> 1000) (Invalid ''unresolved_error_count'')) (\<lambda>_.
     and_then (check (cm_strong a = (cm_tier a = High_Complexity_Tier)) (Invalid ''tier'')) (\<lambda>_.
     and_then (check (distinct (cm_reasons a)) (Invalid ''reason_codes'')) (\<lambda>_. Inr a)))))))))))"

definition assess_incident_complexity :: "'f pylib \<Rightarrow> 'f reader \<Rightarrow> 'f triage_state \<Rightarrow> refusal + 'f complexity" where
  "assess_incident_complexity lib rd s =
     (let present = filter fst (complexity_signals lib rd s);
          score = sum_list (map (fst \<circ> snd) present)
      in validate_complexity lib
           \<lparr>cm_tier = tier_of_score score, cm_score = score, cm_strong = (tier_of_score score = High_Complexity_Tier),
            cm_reasons = map (snd \<circ> snd) present, cm_types = evidence_types rd s, cm_hypotheses = length (ts_hypotheses s),
            cm_gap = top_hypothesis_gap lib rd s, cm_contradictions = contradiction_count s,
            cm_lineage = count_lineage_assets rd s, cm_findings = count_schema_findings rd s,
            cm_errors = length (filter (\<lambda>e. strip e \<noteq> []) (ts_errors s))\<rparr>)"

section \<open>Decisions\<close>

datatype policy_stage = Pre_Handoff | Post_Evidence

datatype disposition = Allow | Human_Review_Required | Block

datatype policy_reason = Deterministic_Task | Llm_Capability_Authorized | Standard_Confidence | Low_Confidence | High_Complexity
  | Strong_Review_Requested | Strong_Review_Satisfied | Strong_Review_Fallback | Approval_Gated_Action | Elevated_Query_Risk
  | Breaking_Schema_Change | Elevated_Schema_Impact | Human_Review_Assigned | Specialist_Terminal_Failure

record report_policy =
  rp_route :: string
  rp_capability :: model_route
  rp_strong :: bool
  rp_reason :: policy_reason

definition NORMAL_REPORT_REASONING_ROUTE :: string where "NORMAL_REPORT_REASONING_ROUTE = ''triage_reasoning''"
definition STRONG_REPORT_REASONING_ROUTE :: string where "STRONG_REPORT_REASONING_ROUTE = ''low_confidence_rca''"

definition resolve_report_reasoning_policy :: "'f pylib \<Rightarrow> 'f \<Rightarrow> 'f \<Rightarrow> 'f complexity option \<Rightarrow> report_policy" where
  "resolve_report_reasoning_policy lib confidence confidence_threshold assessment =
     (let low_confidence = lib_less lib confidence confidence_threshold;
          high_complexity = (case assessment of Some a \<Rightarrow> cm_strong a | None \<Rightarrow> False)
      in if low_confidence \<or> high_complexity
         then \<lparr>rp_route = STRONG_REPORT_REASONING_ROUTE, rp_capability = Deepthink_Llm, rp_strong = True,
               rp_reason = (if low_confidence then Low_Confidence else High_Complexity)\<rparr>
         else \<lparr>rp_route = NORMAL_REPORT_REASONING_ROUTE, rp_capability = Quickthink_Llm, rp_strong = False,
               rp_reason = Standard_Confidence\<rparr>)"

record policy_decision =
  pd_stage :: policy_stage
  pd_risk :: risk_tier
  pd_authorized :: model_route
  pd_actual :: model_route
  pd_requested :: "string list"
  pd_executed :: "string list"
  pd_strong_required :: bool
  pd_strong_satisfied :: bool
  pd_approval :: bool
  pd_disposition :: disposition
  pd_reasons :: "policy_reason list"

definition elevated :: "risk_tier \<Rightarrow> bool" where
  "elevated risk \<longleftrightarrow> risk_order High_Risk \<le> risk_order risk"

definition validate_policy_invariants :: "policy_decision \<Rightarrow> refusal + policy_decision" where
  "validate_policy_invariants d =
     and_then (sized 1 20 (pd_reasons d) ''reason_codes'') (\<lambda>_.
     and_then (check (route_order (pd_actual d) \<le> route_order (pd_authorized d)) (Invalid ''actual_model_route'')) (\<lambda>_.
     and_then (check (\<not> (pd_strong_satisfied d \<and> pd_actual d \<noteq> Deepthink_Llm)) (Invalid ''strong_review'')) (\<lambda>_.
     and_then (check (pd_approval d = (pd_disposition d = Human_Review_Required)) (Invalid ''disposition'')) (\<lambda>_.
     and_then (check (\<not> (elevated (pd_risk d) \<and> \<not> pd_strong_satisfied d \<and> \<not> pd_approval d \<and> pd_disposition d \<noteq> Block))
                (Invalid ''risk'')) (\<lambda>_.
     and_then (check (distinct (pd_reasons d)) (Invalid ''reason_codes'')) (\<lambda>_. Inr d))))))"

definition highest_risk :: "risk_tier \<Rightarrow> risk_tier \<Rightarrow> risk_tier" where
  "highest_risk current candidate = (if risk_order current < risk_order candidate then candidate else current)"

definition HIGH_RISK_LEVELS :: "(string \<times> risk_tier) list" where
  "HIGH_RISK_LEVELS = [(''high'', High_Risk), (''critical'', Critical_Risk)]"

definition stable_string_tuple :: "'f reader \<Rightarrow> json \<Rightarrow> string list" where
  "stable_string_tuple rd value = (case value of
      JArr xs \<Rightarrow> foldl (\<lambda>normalized x. let text = strip (value_str rd x)
        in if text \<noteq> [] \<and> text \<notin> set normalized then normalized @ [take 120 text] else normalized) [] xs
    | _ \<Rightarrow> [])"

text \<open>\<open>tuple(dict.fromkeys(xs))\<close>\<close>

definition first_occurrences :: "'a list \<Rightarrow> 'a list" where
  "first_occurrences xs = rev (remdups (rev xs))"

definition evaluate_pre_handoff_policy :: "'f task \<Rightarrow> refusal + policy_decision" where
  "evaluate_pre_handoff_policy t = validate_policy_invariants
     \<lparr>pd_stage = Pre_Handoff, pd_risk = tk_risk t, pd_authorized = tk_route t, pd_actual = No_Llm_Fallback, pd_requested = [],
      pd_executed = [], pd_strong_required = False, pd_strong_satisfied = False, pd_approval = False, pd_disposition = Allow,
      pd_reasons = [if tk_route t = No_Llm_Fallback then Deterministic_Task else Llm_Capability_Authorized]\<rparr>"

text \<open>\<open>str(structured.get(k, "")).strip().lower()\<close>, and the truth of a flag.\<close>

definition output_text :: "'f reader \<Rightarrow> 'f result \<Rightarrow> string \<Rightarrow> string" where
  "output_text rd r k = lower (strip (value_str rd (get_json (rs_output r) k (JStr []))))"

definition output_flag :: "'f result \<Rightarrow> string \<Rightarrow> bool" where
  "output_flag r k = json_truthy (get_json (rs_output r) k (JBool False))"

definition confidence_limit :: "'f pylib \<Rightarrow> 'f reader \<Rightarrow> 'f task \<Rightarrow> 'f option" where
  "confidence_limit lib rd t = (case map_of (tk_payload t) ''confidence_threshold'' of
      None \<Rightarrow> Some (lib_literal lib ''0.70'')
    | Some v \<Rightarrow> if json_truthy v then value_float rd v else Some (lib_literal lib ''0.70''))"

definition approval_actions :: "'f reader \<Rightarrow> 'f result \<Rightarrow> int option" where
  "approval_actions rd r = (let v = get_json (rs_output r) ''approval_gated_action_count'' (JInt 0)
     in if json_truthy v then value_int rd v else Some 0)"

text \<open>
  The steps of the evaluation in the order of the code: whether a step applies, the tier it raises
  the risk to and its reason.
\<close>

type_synonym policy_step = "bool \<times> risk_tier option \<times> policy_reason"

definition schema_breaking :: "'f reader \<Rightarrow> 'f result \<Rightarrow> bool" where
  "schema_breaking rd r \<longleftrightarrow> (let assessment = output_text rd r ''assessment''
     in assessment \<noteq> [] \<and> assessment \<notin> {''compatible'', ''no_change''})"

definition policy_steps :: "'f reader \<Rightarrow> 'f result \<Rightarrow> bool \<Rightarrow> bool \<Rightarrow> bool \<Rightarrow> policy_step list" where
  "policy_steps rd r low_confidence high_complexity gated =
     (let query_risk = map_of HIGH_RISK_LEVELS (output_text rd r ''query_risk_level'');
          impact = map_of HIGH_RISK_LEVELS (output_text rd r ''impact_level'')
      in [(low_confidence, Some High_Risk, Low_Confidence),
          (\<not> low_confidence, None, Standard_Confidence),
          (high_complexity, Some High_Risk, High_Complexity),
          (query_risk \<noteq> None, query_risk, Elevated_Query_Risk),
          (schema_breaking rd r, Some High_Risk, Breaking_Schema_Change),
          (impact \<noteq> None, impact, Elevated_Schema_Impact),
          (gated, Some High_Risk, Approval_Gated_Action)])"

definition raise_risk :: "risk_tier \<Rightarrow> policy_step \<Rightarrow> risk_tier" where
  "raise_risk risk s = (case s of (True, Some tier, _) \<Rightarrow> highest_risk risk tier | _ \<Rightarrow> risk)"

definition post_decision ::
    "'f reader \<Rightarrow> 'f task \<Rightarrow> 'f result \<Rightarrow> bool \<Rightarrow> bool \<Rightarrow> int \<Rightarrow> policy_decision" where
  "post_decision rd t r low_confidence high_complexity actions =
     (let gated = rs_needs_approval r \<or> 0 < actions;
          steps = policy_steps rd r low_confidence high_complexity gated;
          risk = foldl raise_risk (tk_risk t) steps;
          requested = output_flag r ''strong_review_requested'' \<or> low_confidence \<or> high_complexity;
          satisfied = output_flag r ''strong_review_satisfied'';
          approval = (gated \<or> elevated risk \<and> \<not> satisfied);
          reasons = map (snd \<circ> snd) (filter fst steps) @
            (if requested then [Strong_Review_Requested, if satisfied then Strong_Review_Satisfied else Strong_Review_Fallback] else []) @
            (if approval then [Human_Review_Assigned] else [])
      in \<lparr>pd_stage = Post_Evidence, pd_risk = risk, pd_authorized = tk_route t, pd_actual = rs_route r,
          pd_requested = stable_string_tuple rd (get_json (rs_output r) ''requested_model_routes'' JNull),
          pd_executed = stable_string_tuple rd (get_json (rs_output r) ''executed_model_routes'' JNull),
          pd_strong_required = (low_confidence \<or> high_complexity), pd_strong_satisfied = satisfied, pd_approval = approval,
          pd_disposition = (if approval then Human_Review_Required else Allow), pd_reasons = first_occurrences reasons\<rparr>)"

definition blocked_decision :: "'f reader \<Rightarrow> 'f task \<Rightarrow> 'f result \<Rightarrow> policy_decision" where
  "blocked_decision rd t r =
     \<lparr>pd_stage = Post_Evidence, pd_risk = tk_risk t, pd_authorized = tk_route t, pd_actual = rs_route r,
      pd_requested = stable_string_tuple rd (get_json (rs_output r) ''requested_model_routes'' JNull),
      pd_executed = stable_string_tuple rd (get_json (rs_output r) ''executed_model_routes'' JNull),
      pd_strong_required = False, pd_strong_satisfied = False, pd_approval = False, pd_disposition = Block,
      pd_reasons = [Specialist_Terminal_Failure]\<rparr>"

definition evaluate_post_handoff_policy ::
    "'f pylib \<Rightarrow> 'f reader \<Rightarrow> 'f task \<Rightarrow> 'f result \<Rightarrow> refusal + policy_decision" where
  "evaluate_post_handoff_policy lib rd t r =
     (if rs_status r \<in> {Task_Failed, Task_Blocked} then validate_policy_invariants (blocked_decision rd t r)
      else case confidence_limit lib rd t of
        None \<Rightarrow> Inl (Invalid ''confidence_threshold'')
      | Some limit \<Rightarrow>
          (case approval_actions rd r of
             None \<Rightarrow> Inl (Invalid ''approval_gated_action_count'')
           | Some actions \<Rightarrow>
               validate_policy_invariants (post_decision rd t r
                 (tk_type t = ''triage_alert'' \<and> lib_less lib (rs_confidence r) limit)
                 (tk_type t = ''triage_alert'' \<and> output_text rd r ''complexity_tier'' = ''high'') actions)))"

section \<open>What the decisions promise\<close>

lemma first_occurrences [simp]: "set (first_occurrences xs) = set xs" "distinct (first_occurrences xs)"
  "length (first_occurrences xs) \<le> length xs"
  by (simp_all add: first_occurrences_def) (metis length_remdups_leq length_rev)

lemma highest_risk_order: "risk_order (highest_risk a b) = max (risk_order a) (risk_order b)"
  by (simp add: highest_risk_def)

lemma raise_risk_order: "risk_order risk \<le> risk_order (raise_risk risk s)"
  by (cases s rule: prod_cases3) (auto simp: raise_risk_def highest_risk_order split: bool.split option.split)

lemma raised_risk_order: "risk_order risk \<le> risk_order (foldl raise_risk risk steps)"
  by (induction steps arbitrary: risk) (auto intro: order_trans raise_risk_order)

lemma raised_to: "(True, Some tier, why) \<in> set steps \<Longrightarrow> risk_order tier \<le> risk_order (foldl raise_risk risk steps)"
proof (induction steps arbitrary: risk)
  case (Cons s steps)
  show ?case
  proof (cases "s = (True, Some tier, why)")
    case True
    then have "risk_order tier \<le> risk_order (raise_risk risk s)" by (simp add: raise_risk_def highest_risk_order)
    then show ?thesis using raised_risk_order[of "raise_risk risk s" steps] by simp
  qed (use Cons in auto)
qed simp

lemma validate_policy_Inr: "validate_policy_invariants d = Inr d' \<longleftrightarrow> d' = d \<and>
    pd_reasons d \<noteq> [] \<and> length (pd_reasons d) \<le> 20 \<and> route_order (pd_actual d) \<le> route_order (pd_authorized d) \<and>
    (pd_strong_satisfied d \<longrightarrow> pd_actual d = Deepthink_Llm) \<and> (pd_approval d \<longleftrightarrow> pd_disposition d = Human_Review_Required) \<and>
    (elevated (pd_risk d) \<longrightarrow> pd_strong_satisfied d \<or> pd_approval d \<or> pd_disposition d = Block) \<and> distinct (pd_reasons d)"
  unfolding validate_policy_invariants_def and_then_Inr check_Inr sized_Inr sum.inject
  by (cases "pd_reasons d = []") (simp_all add: Suc_le_eq, blast)

text \<open>The decision the code builds satisfies every invariant but the two about the model's route.\<close>

lemma post_decision_valid:
  "validate_policy_invariants (post_decision rd t r low high n) = Inr d \<longleftrightarrow> d = post_decision rd t r low high n \<and>
     route_order (rs_route r) \<le> route_order (tk_route t) \<and> (output_flag r ''strong_review_satisfied'' \<longrightarrow> rs_route r = Deepthink_Llm)"
proof -
  let ?d = "post_decision rd t r low high n"
  have "length (pd_reasons ?d) \<le> 20"
  proof -
    have steps: "length (filter fst (policy_steps rd r a b c)) \<le> 7" for a b c
      by (rule order_trans[OF length_filter_le]) (simp add: policy_steps_def Let_def)
    have "length (pd_reasons ?d) \<le> 7 + (2 + 1)"
      unfolding post_decision_def Let_def policy_decision.simps
      by (rule order_trans[OF first_occurrences(3)]) (simp only: length_append length_map, intro add_mono steps, auto)
    then show ?thesis by simp
  qed
  moreover have "pd_reasons ?d \<noteq> []"
  proof -
    have "Low_Confidence \<in> set (pd_reasons ?d) \<or> Standard_Confidence \<in> set (pd_reasons ?d)"
      by (cases low) (simp_all add: post_decision_def policy_steps_def Let_def)
    then show ?thesis by auto
  qed
  moreover have "distinct (pd_reasons ?d)" by (simp add: post_decision_def Let_def)
  ultimately show ?thesis
    unfolding validate_policy_Inr by (auto simp: post_decision_def Let_def)
qed

lemma blocked_decision_valid: "validate_policy_invariants (blocked_decision rd t r) = Inr d \<longleftrightarrow>
    d = blocked_decision rd t r \<and> route_order (rs_route r) \<le> route_order (tk_route t)"
  by (auto simp: validate_policy_Inr blocked_decision_def)

lemma decision_fields:
  "risk_order (tk_risk t) \<le> risk_order (pd_risk (post_decision rd t r low high n))"
  "pd_disposition (post_decision rd t r low high n) \<noteq> Block"
  "pd_disposition (post_decision rd t r low high n) = Allow \<longleftrightarrow> \<not> rs_needs_approval r \<and> n \<le> 0 \<and>
     (elevated (pd_risk (post_decision rd t r low high n)) \<longrightarrow> output_flag r ''strong_review_satisfied'')"
  "pd_risk (blocked_decision rd t r) = tk_risk t" "pd_disposition (blocked_decision rd t r) = Block"
  by (simp_all add: post_decision_def blocked_decision_def Let_def raised_risk_order, auto)

definition failed_result :: "'f result \<Rightarrow> bool" where
  "failed_result r \<longleftrightarrow> rs_status r \<in> {Task_Failed, Task_Blocked}"

lemma post_policy_cases:
  "evaluate_post_handoff_policy lib rd t r = Inr d \<longleftrightarrow> route_order (rs_route r) \<le> route_order (tk_route t) \<and>
     (if failed_result r then d = blocked_decision rd t r
      else (\<exists>limit n. confidence_limit lib rd t = Some limit \<and> approval_actions rd r = Some n \<and>
        (output_flag r ''strong_review_satisfied'' \<longrightarrow> rs_route r = Deepthink_Llm) \<and>
        d = post_decision rd t r (tk_type t = ''triage_alert'' \<and> lib_less lib (rs_confidence r) limit)
              (tk_type t = ''triage_alert'' \<and> output_text rd r ''complexity_tier'' = ''high'') n))"
  by (auto simp: evaluate_post_handoff_policy_def failed_result_def post_decision_valid blocked_decision_valid split: option.splits)

text \<open>The facts of a result that call for a person or a proven strong review.\<close>

definition risk_signal :: "'f pylib \<Rightarrow> 'f reader \<Rightarrow> 'f task \<Rightarrow> 'f result \<Rightarrow> bool" where
  "risk_signal lib rd t r \<longleftrightarrow>
     (tk_type t = ''triage_alert'' \<and> (\<exists>limit. confidence_limit lib rd t = Some limit \<and> lib_less lib (rs_confidence r) limit)) \<or>
     (tk_type t = ''triage_alert'' \<and> output_text rd r ''complexity_tier'' = ''high'') \<or> schema_breaking rd r \<or>
     output_text rd r ''query_risk_level'' \<in> {''high'', ''critical''} \<or> output_text rd r ''impact_level'' \<in> {''high'', ''critical''} \<or>
     rs_needs_approval r \<or> (\<exists>n > 0. approval_actions rd r = Some n)"

lemma elevated_mono: "elevated a \<Longrightarrow> risk_order a \<le> risk_order b \<Longrightarrow> elevated b"
  by (simp add: elevated_def)

lemma signal_elevates:
  assumes "confidence_limit lib rd t = Some limit" and "approval_actions rd r = Some n" and "risk_signal lib rd t r"
  shows "elevated (pd_risk (post_decision rd t r (tk_type t = ''triage_alert'' \<and> lib_less lib (rs_confidence r) limit)
    (tk_type t = ''triage_alert'' \<and> output_text rd r ''complexity_tier'' = ''high'') n))"
proof -
  let ?low = "tk_type t = ''triage_alert'' \<and> lib_less lib (rs_confidence r) limit"
  let ?high = "tk_type t = ''triage_alert'' \<and> output_text rd r ''complexity_tier'' = ''high''"
  let ?steps = "policy_steps rd r ?low ?high (rs_needs_approval r \<or> 0 < n)"
  have "\<exists>tier why. (True, Some tier, why) \<in> set ?steps \<and> elevated tier"
  proof -
    have levels: "elevated High_Risk" "elevated Critical_Risk" by (simp_all add: elevated_def)
    consider ?low | ?high | "schema_breaking rd r" | "output_text rd r ''query_risk_level'' \<in> {''high'', ''critical''}"
      | "output_text rd r ''impact_level'' \<in> {''high'', ''critical''}" | "rs_needs_approval r \<or> 0 < n"
      using assms by (auto simp: risk_signal_def)
    then show ?thesis
    proof cases
      case 1 then have "(True, Some High_Risk, Low_Confidence) \<in> set ?steps" by (simp add: policy_steps_def Let_def)
      then show ?thesis using levels by blast
    next
      case 2 then have "(True, Some High_Risk, High_Complexity) \<in> set ?steps" by (simp add: policy_steps_def Let_def)
      then show ?thesis using levels by blast
    next
      case 3 then have "(True, Some High_Risk, Breaking_Schema_Change) \<in> set ?steps" by (simp add: policy_steps_def Let_def)
      then show ?thesis using levels by blast
    next
      case 4
      then obtain tier where "map_of HIGH_RISK_LEVELS (output_text rd r ''query_risk_level'') = Some tier" "elevated tier"
        using levels by (auto simp: HIGH_RISK_LEVELS_def)
      then have "(True, Some tier, Elevated_Query_Risk) \<in> set ?steps" "elevated tier" by (simp_all add: policy_steps_def Let_def)
      then show ?thesis by blast
    next
      case 5
      then obtain tier where "map_of HIGH_RISK_LEVELS (output_text rd r ''impact_level'') = Some tier" "elevated tier"
        using levels by (auto simp: HIGH_RISK_LEVELS_def)
      then have "(True, Some tier, Elevated_Schema_Impact) \<in> set ?steps" "elevated tier" by (simp_all add: policy_steps_def Let_def)
      then show ?thesis by blast
    next
      case 6 then have "(True, Some High_Risk, Approval_Gated_Action) \<in> set ?steps" by (simp add: policy_steps_def Let_def)
      then show ?thesis using levels by blast
    qed
  qed
  then have "elevated (foldl raise_risk (tk_risk t) ?steps)" using raised_to elevated_mono by metis
  then show ?thesis by (simp add: post_decision_def Let_def)
qed

text \<open>
  C25. The decision after a handoff exists for every result that used no stronger model than its task
  was given, was readable and did not claim a strong review without the strong model. A risk never
  falls below the task's. A failed or blocked result is blocked, with the risk of its task and whatever
  its other signals, and nothing else is blocked. Any other result with a risk signal, low confidence,
  high complexity, a breaking schema change, a risky query, a wide impact or an action behind approval,
  has an elevated risk and goes to a person unless the strong model, which only a task authorised for it
  can use, has reviewed it; and one that needs approval always goes to a person.
\<close>

theorem post_handoff_policy_is_safe:
  "((\<exists>d. evaluate_post_handoff_policy lib rd t r = Inr d) \<longleftrightarrow> route_order (rs_route r) \<le> route_order (tk_route t) \<and>
      (failed_result r \<or> confidence_limit lib rd t \<noteq> None \<and> approval_actions rd r \<noteq> None \<and>
         (output_flag r ''strong_review_satisfied'' \<longrightarrow> rs_route r = Deepthink_Llm))) \<and>
   (\<forall>d. evaluate_post_handoff_policy lib rd t r = Inr d \<longrightarrow>
      risk_order (tk_risk t) \<le> risk_order (pd_risk d) \<and> (pd_disposition d = Block \<longleftrightarrow> failed_result r) \<and>
      (failed_result r \<longrightarrow> pd_risk d = tk_risk t) \<and>
      (\<not> failed_result r \<and> risk_signal lib rd t r \<longrightarrow> elevated (pd_risk d)) \<and>
      (pd_disposition d = Allow \<and> elevated (pd_risk d) \<longrightarrow>
         output_flag r ''strong_review_satisfied'' \<and> rs_route r = Deepthink_Llm \<and> tk_route t = Deepthink_Llm) \<and>
      (pd_disposition d = Allow \<longrightarrow> \<not> rs_needs_approval r \<and> (\<exists>n \<le> 0. approval_actions rd r = Some n)))"
proof (intro conjI allI impI)
  have strongest: "route_order Deepthink_Llm \<le> route_order m \<Longrightarrow> m = Deepthink_Llm" for m by (cases m) simp_all
  show "(\<exists>d. evaluate_post_handoff_policy lib rd t r = Inr d) \<longleftrightarrow> route_order (rs_route r) \<le> route_order (tk_route t) \<and>
      (failed_result r \<or> confidence_limit lib rd t \<noteq> None \<and> approval_actions rd r \<noteq> None \<and>
         (output_flag r ''strong_review_satisfied'' \<longrightarrow> rs_route r = Deepthink_Llm))"
    unfolding post_policy_cases by auto
  fix d
  assume d: "evaluate_post_handoff_policy lib rd t r = Inr d"
  show "risk_order (tk_risk t) \<le> risk_order (pd_risk d)"
    using d decision_fields(1) by (auto simp: post_policy_cases decision_fields(4) split: if_splits)
  show "pd_disposition d = Block \<longleftrightarrow> failed_result r"
    using d by (auto simp: post_policy_cases decision_fields(2,5) split: if_splits)
  show "pd_risk d = tk_risk t" if "failed_result r"
    using that d by (auto simp: post_policy_cases decision_fields(4) split: if_splits)
  show "elevated (pd_risk d)" if "\<not> failed_result r \<and> risk_signal lib rd t r"
    using that d signal_elevates[of lib rd t _ r] by (auto simp: post_policy_cases)
  show "output_flag r ''strong_review_satisfied''" "rs_route r = Deepthink_Llm" "tk_route t = Deepthink_Llm"
    if "pd_disposition d = Allow \<and> elevated (pd_risk d)"
    using that d strongest by (auto simp: post_policy_cases decision_fields(3,5) split: if_splits)
  show "\<not> rs_needs_approval r" "\<exists>n \<le> 0. approval_actions rd r = Some n" if "pd_disposition d = Allow"
    using that d by (auto simp: post_policy_cases decision_fields(3,5) split: if_splits)
qed

section \<open>When an incident is complex\<close>

definition critical_alert :: "'f reader \<Rightarrow> 'f triage_state \<Rightarrow> bool" where
  "critical_alert rd s \<longleftrightarrow> (\<exists>v. ts_severity s = Some v \<and> normalized_enum_text rd v = ''critical'')"

definition broad_evidence :: "'f reader \<Rightarrow> 'f triage_state \<Rightarrow> bool" where
  "broad_evidence rd s \<longleftrightarrow> 5 \<le> length (evidence_types rd s)"

definition competing :: "'f pylib \<Rightarrow> 'f reader \<Rightarrow> 'f triage_state \<Rightarrow> bool" where
  "competing lib rd s \<longleftrightarrow> (\<exists>g. top_hypothesis_gap lib rd s = Some g \<and> lib_le lib g (lib_literal lib ''0.12''))"

definition visible_errors :: "'f triage_state \<Rightarrow> string list" where
  "visible_errors s = filter (\<lambda>e. strip e \<noteq> []) (ts_errors s)"

definition cross_signals :: "'f pylib \<Rightarrow> 'f reader \<Rightarrow> 'f triage_state \<Rightarrow> nat" where
  "cross_signals lib rd s = of_bool (competing lib rd s) + of_bool (4 \<le> count_lineage_assets rd s) +
     of_bool (count_schema_findings rd s \<noteq> 0) + of_bool (visible_errors s \<noteq> [])"

abbreviation complexity_score :: "'f pylib \<Rightarrow> 'f reader \<Rightarrow> 'f triage_state \<Rightarrow> nat" where
  "complexity_score lib rd s \<equiv> sum_list (map (fst \<circ> snd) (filter fst (complexity_signals lib rd s)))"

lemma complexity_score_eq: "complexity_score lib rd s =
    of_bool (critical_alert rd s) + of_bool (broad_evidence rd s) + 3 * cross_signals lib rd s + 4 * of_bool (contradiction_count s \<noteq> 0)"
proof -
  have severity: "(case ts_severity s of Some v \<Rightarrow> normalized_enum_text rd v | None \<Rightarrow> []) = ''critical'' \<longleftrightarrow> critical_alert rd s"
    by (auto simp: critical_alert_def split: option.splits)
  have gap: "(case top_hypothesis_gap lib rd s of Some g \<Rightarrow> lib_le lib g (lib_literal lib COMPETING_HYPOTHESIS_GAP) | None \<Rightarrow> False)
      \<longleftrightarrow> competing lib rd s"
    by (auto simp: competing_def COMPETING_HYPOTHESIS_GAP_def split: option.splits)
  have errors: "0 < length (filter (\<lambda>e. strip e \<noteq> []) (ts_errors s)) \<longleftrightarrow> visible_errors s \<noteq> []"
    by (simp add: visible_errors_def)
  show ?thesis
    unfolding sum_list_map_filter' complexity_signals_def severity gap errors BROAD_EVIDENCE_TYPE_THRESHOLD_def
      broad_evidence_def[symmetric] WIDE_LINEAGE_ASSET_THRESHOLD_def neq0_conv[symmetric]
    by (simp add: cross_signals_def of_bool_def visible_errors_def)
qed

lemma complexity_reasons: "distinct (map (snd \<circ> snd) (filter fst (complexity_signals lib rd s)))"
  "length (filter fst (complexity_signals lib rd s)) \<le> 7"
  by (rule distinct_map_filter, simp add: complexity_signals_def, rule order_trans[OF length_filter_le],
      simp add: complexity_signals_def)

lemma evidence_types_few: "length (evidence_types rd s) \<le> 6"
proof -
  have "set (evidence_types rd s) \<subseteq> set DETERMINISTIC_COMPLEXITY_EVIDENCE_TYPES" by (auto simp: evidence_types_def)
  then have "card (set (evidence_types rd s)) \<le> card (set DETERMINISTIC_COMPLEXITY_EVIDENCE_TYPES)" by (simp add: card_mono)
  also have "\<dots> \<le> length DETERMINISTIC_COMPLEXITY_EVIDENCE_TYPES" by (rule card_length)
  also have "\<dots> = 6" by (simp only: DETERMINISTIC_COMPLEXITY_EVIDENCE_TYPES_def) simp
  finally have "card (set (evidence_types rd s)) \<le> 6" .
  moreover have "distinct (evidence_types rd s)" by (simp add: evidence_types_def)
  ultimately show ?thesis by (simp add: distinct_card)
qed

lemma assessed:
  "assess_incident_complexity lib rd s = Inr a \<longleftrightarrow>
     length (ts_hypotheses s) \<le> 100 \<and> (\<forall>g. top_hypothesis_gap lib rd s = Some g \<longrightarrow> within lib ''1.0'' g) \<and>
     contradiction_count s \<le> 10000 \<and> count_lineage_assets rd s \<le> 10000 \<and> count_schema_findings rd s \<le> 10000 \<and>
     length (visible_errors s) \<le> 1000 \<and>
     a = \<lparr>cm_tier = tier_of_score (complexity_score lib rd s), cm_score = complexity_score lib rd s,
          cm_strong = (tier_of_score (complexity_score lib rd s) = High_Complexity_Tier),
          cm_reasons = map (snd \<circ> snd) (filter fst (complexity_signals lib rd s)), cm_types = evidence_types rd s,
          cm_hypotheses = length (ts_hypotheses s), cm_gap = top_hypothesis_gap lib rd s,
          cm_contradictions = contradiction_count s, cm_lineage = count_lineage_assets rd s,
          cm_findings = count_schema_findings rd s, cm_errors = length (visible_errors s)\<rparr>"
proof -
  have "cross_signals lib rd s \<le> 4" by (simp add: cross_signals_def of_bool_def)
  then have "complexity_score lib rd s \<le> 100" unfolding complexity_score_eq by (simp add: of_bool_def)
  moreover have "length (filter fst (complexity_signals lib rd s)) \<le> 20" "length (evidence_types rd s) \<le> 20"
    using complexity_reasons(2)[of lib rd s] evidence_types_few[of rd s] by linarith+
  ultimately show ?thesis
    using complexity_reasons(1)[of lib rd s]
    unfolding assess_incident_complexity_def Let_def validate_complexity_def and_then_Inr check_Inr sized_Inr visible_errors_def[symmetric]
    by (auto split: option.splits)
qed

text \<open>
  C16. An assessment exists for every state within the limits of its model, and high complexity, the
  only tier that asks for the strong model, is reached exactly by a contradiction, by two of the
  four cross-signals (competing hypotheses, wide lineage, schema findings, unresolved errors), or
  by one of them under a critical alert or broad evidence. A critical severity alone, even with
  broad evidence, stays below it.
\<close>

theorem high_complexity_iff:
  "((\<exists>a. assess_incident_complexity lib rd s = Inr a) \<longleftrightarrow> length (ts_hypotheses s) \<le> 100 \<and>
      (top_hypothesis_gap lib rd s = None \<or> within lib ''1.0'' (the (top_hypothesis_gap lib rd s))) \<and>
      contradiction_count s \<le> 10000 \<and> count_lineage_assets rd s \<le> 10000 \<and> count_schema_findings rd s \<le> 10000 \<and>
      length (visible_errors s) \<le> 1000) \<and>
   (\<forall>a. assess_incident_complexity lib rd s = Inr a \<longrightarrow>
      (cm_strong a \<longleftrightarrow> contradiction_count s \<noteq> 0 \<or> 2 \<le> cross_signals lib rd s \<or>
         cross_signals lib rd s = 1 \<and> (critical_alert rd s \<or> broad_evidence rd s)) \<and>
      (cm_tier a = High_Complexity_Tier \<longleftrightarrow> cm_strong a) \<and>
      (rp_strong (resolve_report_reasoning_policy lib c limit (Some a)) \<longleftrightarrow> lib_less lib c limit \<or> cm_strong a))"
proof (intro conjI allI impI)
  show "(\<exists>a. assess_incident_complexity lib rd s = Inr a) \<longleftrightarrow> length (ts_hypotheses s) \<le> 100 \<and>
      (top_hypothesis_gap lib rd s = None \<or> within lib ''1.0'' (the (top_hypothesis_gap lib rd s))) \<and>
      contradiction_count s \<le> 10000 \<and> count_lineage_assets rd s \<le> 10000 \<and> count_schema_findings rd s \<le> 10000 \<and>
      length (visible_errors s) \<le> 1000"
    unfolding assessed by (cases "top_hypothesis_gap lib rd s") auto
  fix a
  assume a: "assess_incident_complexity lib rd s = Inr a"
  show "cm_strong a \<longleftrightarrow> contradiction_count s \<noteq> 0 \<or> 2 \<le> cross_signals lib rd s \<or>
      cross_signals lib rd s = 1 \<and> (critical_alert rd s \<or> broad_evidence rd s)"
    using a unfolding assessed complexity_score_eq
    by (auto simp: tier_of_score_def HIGH_COMPLEXITY_THRESHOLD_def of_bool_def split: if_splits)
  show "cm_tier a = High_Complexity_Tier \<longleftrightarrow> cm_strong a" using a unfolding assessed by auto
  show "rp_strong (resolve_report_reasoning_policy lib c limit (Some a)) \<longleftrightarrow> lib_less lib c limit \<or> cm_strong a"
    by (simp add: resolve_report_reasoning_policy_def Let_def)
qed

end
