(* ===== verification/Routing_Instance.thy ===== *)
theory Routing_Instance
  imports Planning Routing_Policy Supervisor_Instance
begin

text \<open>
  A request for the context of one asset, its handoff and its default plan of two workers, a risky
  result and a contradicted state, at which the theorems' hypotheses hold. Floats are integers in units of 1/100.
\<close>

definition desk_lib :: "int pylib" where
  "desk_lib = trial_lib\<lparr>lib_literal := (\<lambda>s. if s = ''0.10'' then 10 else if s = ''0.95'' then 95 else lib_literal trial_lib s)\<rparr>"

definition desk_digest :: "string \<Rightarrow> string" where
  "desk_digest s = (if even (length s) then CHR ''a'' else CHR ''b'') # replicate 63 CHR ''0''"

definition desk_planner :: "int planner" where
  "desk_planner = \<lparr>pn_sha256 = desk_digest, pn_uuid5 = (\<lambda>a b. take 8 b), pn_real = (\<lambda>i. JReal (int_str i @ ''.0''))\<rparr>"

definition desk_request :: "int request" where
  "desk_request = \<lparr>rq_intent = Asset_Context, rq_question = [], rq_alert_id = [], rq_alert_key = [],
     rq_qualified_name = ''mart.sales'', rq_query = [], rq_domain = [], rq_data_layer = [], rq_certification = [],
     rq_lifecycle = [], rq_sql = [], rq_sql_purpose = [], rq_sql_hard_limit = 100, rq_sql_require_date = True,
     rq_sql_max_scan = 1073741824, rq_schema_run_id = [], rq_finding_limit = 50, rq_result_limit = 10, rq_max_depth = 5,
     rq_max_nodes = 100, rq_confidence = 70, rq_iterations = 2, rq_manifest = [], rq_bucket = [],
     rq_prefix = ''agent-reports'', rq_requester = ''airflow'', rq_mode = Fanout_Mode, rq_max_workers = 2,
     rq_max_concurrency = 2, rq_allow_llm = False, rq_max_handoffs = 2, rq_max_retries = 0, rq_max_calls = 3,
     rq_tokens = 16384, rq_cost = 5, rq_latency = 300000\<rparr>"

definition desk_input :: metadata_input where
  "desk_input = metadata_of desk_request"

lemma desk_input_fields: "mi_qualified_name desk_input = ''mart.sales''" "mi_query desk_input = []" "mi_domain desk_input = []"
  "mi_data_layer desk_input = []" "mi_certification desk_input = []" "mi_lifecycle desk_input = []" "mi_limit desk_input = 10"
  "mi_max_depth desk_input = 5" "mi_max_nodes desk_input = 100"
  by (simp_all add: desk_input_def metadata_of_def desk_request_def)

lemma desk_texts: "strip ''mart.sales'' = ''mart.sales''" "strip ''airflow'' = ''airflow''" "strip [] = []"
  "qualified_table ''mart.sales'' = Inr ''mart.sales''"
  by code_simp+

lemma desk_input_valid: "validate_metadata_input desk_input = Inr desk_input"
  by (simp add: metadata_input_fixed desk_input_fields desk_texts)

definition desk_reference :: context_reference where
  "desk_reference = context_of Ref_Metadata_Asset ''mart.sales''
     ''Warehouse asset requested for trusted metadata and dbt lineage context.''"

lemma desk_reference_valid: "validate_context_reference desk_reference = Inr desk_reference"
  by code_simp

definition desk_task :: "string \<Rightarrow> string list \<Rightarrow> stamp \<Rightarrow> int task" where
  "desk_task ty tools stamp = (new_task stamp ''run'' METADATA_LINEAGE_SPECIALIST_NAME ty tools ''airflow'' []
     (metadata_payload desk_input) (lib_zero desk_lib))\<lparr>tk_context := [desk_reference]\<rparr>"

lemma desk_payload: "validate_bounded_payload desk_lib (metadata_payload desk_input) name = Inr (metadata_payload desk_input)"
  by (rule metadata_payload_fits) (simp_all add: desk_input_fields)

lemma desk_zero: "within desk_lib ''0.05'' (lib_zero desk_lib)" "\<not> nonzero desk_lib (lib_zero desk_lib)"
  by (simp_all add: within_def nonzero_def lib_zero_def desk_lib_def trial_lib_def)

lemma desk_task_valid:
  assumes "ty \<in> set METADATA_PROPOSALS" and "required_tools_for_task METADATA_LINEAGE_SPECIALIST_NAME ty = Inr tools"
  shows "validate_task desk_lib (desk_task ty tools stamp) = Inr (desk_task ty tools stamp)"
    "\<exists>c. enforce_task_capability (desk_task ty tools stamp) = Inr c"
proof -
  obtain t c where t: "validate_task desk_lib (desk_task ty tools stamp) = Inr t" "enforce_task_capability t = Inr c"
    using metadata_envelope_valid[OF assms desk_zero(1), of "''airflow''" "[]" "[desk_reference]" "[desk_reference]"
        "metadata_payload desk_input" stamp "''run''"] desk_reference_valid desk_payload
    by (auto simp: desk_task_def)
  have names: "lower (strip ty) = ty" using metadata_types assms(1) by (auto simp: list_all_iff)
  have "t = desk_task ty tools stamp"
    using validate_task_Inr[OF t(1)] validate_task_context[OF t(1)] desk_reference_valid required_tools_fixed[OF assms(2)] names
    by (auto intro!: task.equality simp: desk_task_def desk_texts)
  then show "validate_task desk_lib (desk_task ty tools stamp) = Inr (desk_task ty tools stamp)"
    "\<exists>c. enforce_task_capability (desk_task ty tools stamp) = Inr c" using t by auto
qed

lemma desk_built:
  assumes "ty \<in> {''asset_context'', ''blast_radius''}" and "required_tools_for_task METADATA_LINEAGE_SPECIALIST_NAME ty = Inr tools"
  shows "build_metadata_lineage_task desk_lib stamp ''run'' ty desk_input ''airflow'' [] = Inr (desk_task ty tools stamp)"
proof -
  have ty: "ty \<in> set METADATA_PROPOSALS" "ty \<noteq> ''trusted_asset_search''" "lower (strip ty) = ty"
    using assms(1) metadata_types by (auto simp: METADATA_PROPOSALS_def)
  have "new_task stamp ''run'' METADATA_LINEAGE_SPECIALIST_NAME ty tools ''airflow'' [] (metadata_payload desk_input) (lib_zero desk_lib)
      \<lparr>tk_context := [desk_reference]\<rparr> = desk_task ty tools stamp" by (simp add: desk_task_def)
  then show ?thesis
    using desk_task_valid[OF ty(1) assms(2), of stamp] desk_input_valid assms ty
    by (auto simp: build_metadata_lineage_task_def Let_def desk_input_fields desk_reference_def[symmetric]
        validate_metadata_lineage_task_def desk_texts desk_task_def)
qed

definition desk_text :: "string \<Rightarrow> string" where
  "desk_text ty = canonical_json (lib_json desk_lib) (task_signature_json (desk_task ty [] ([], 0)))"

lemma desk_signature: "task_signature desk_lib desk_planner (desk_task ty tools stamp) = desk_digest (desk_text ty)"
  by (simp add: task_signature_def desk_planner_def desk_text_def task_signature_json_def desk_task_def)

lemma desk_texts_differ: "odd (length (desk_text ''blast_radius''))" "even (length (desk_text ''asset_context''))"
  by code_simp+

definition desk_id :: "string \<Rightarrow> string" where
  "desk_id ty = (if ty = ''asset_context'' then ''a0000000'' else ''b0000000'')"

lemma desk_proposal:
  assumes "ty \<in> {''asset_context'', ''blast_radius''}" and "required_tools_for_task METADATA_LINEAGE_SPECIALIST_NAME ty = Inr tools"
  shows "build_task_for_proposal desk_lib desk_planner stamp desk_request ''run'' (proposed METADATA_LINEAGE_SPECIALIST_NAME ty req why) =
    Inr (desk_task ty tools (desk_id ty, snd stamp))"
proof -
  have ty: "ty \<in> set METADATA_PROPOSALS" "ty \<noteq> ''trusted_asset_search''" "lower (strip ty) = ty"
    "map_of EVIDENCE_INTERPRETATION_TASKS ty \<noteq> Some METADATA_LINEAGE_SPECIALIST_NAME" "policy_route ty = No_Llm_Fallback"
    using assms(1) metadata_types by (auto simp: METADATA_PROPOSALS_def EVIDENCE_INTERPRETATION_TASKS_def)
  have request: "rq_qualified_name desk_request \<noteq> []" "rq_requester desk_request = ''airflow''" "rq_alert_key desk_request = []"
    "metadata_of desk_request = desk_input"
    by (simp_all add: desk_request_def desk_input_def)
  have envelope: "proposed_envelope desk_lib desk_planner stamp desk_request ''run'' METADATA_LINEAGE_SPECIALIST_NAME ty =
      Inr (desk_task ty tools stamp)"
    using ty desk_built[OF assms, of stamp] request by (simp add: proposed_envelope_def)
  have id: "take 8 (desk_digest (desk_text ty)) = desk_id ty"
    using assms(1) desk_texts_differ by (auto simp: desk_digest_def desk_id_def numeral_eq_Suc)
  have "desk_task ty tools stamp\<lparr>tk_task_id := pn_uuid5 desk_planner (tk_parent (desk_task ty tools stamp))
      (task_signature desk_lib desk_planner (desk_task ty tools stamp))\<rparr> = desk_task ty tools (desk_id ty, snd stamp)"
    unfolding desk_signature by (simp add: desk_planner_def id) (simp add: desk_task_def new_task_def)
  then show ?thesis
    using envelope ty desk_task_valid[OF ty(1) assms(2)]
    by (auto simp: build_task_for_proposal_def proposed_def assign_stable_task_identity_def)
qed

lemma desk_plan_worker:
  assumes "ty \<in> {''asset_context'', ''blast_radius''}" "length why \<le> 500"
  shows "\<exists>w. plan_worker desk_planner ''run'' (desk_task ty tools (desk_id ty, i)) (proposed METADATA_LINEAGE_SPECIALIST_NAME ty req why) = Inr w \<and>
    wk_task w = desk_task ty tools (desk_id ty, i) \<and> wk_retry_budget w = 0"
proof -
  have "(case build_specialist_checkpoint_namespace desk_planner ''run'' ''a0000000'' METADATA_LINEAGE_SPECIALIST_NAME of Inl _ \<Rightarrow> False
      | Inr n \<Rightarrow> 1 \<le> length n \<and> length n \<le> 200)"
    "(case build_specialist_checkpoint_namespace desk_planner ''run'' ''b0000000'' METADATA_LINEAGE_SPECIALIST_NAME of Inl _ \<Rightarrow> False
      | Inr n \<Rightarrow> 1 \<le> length n \<and> length n \<le> 200)"
    by code_simp+
  moreover have "list_all (\<lambda>ty. map_of intent_mapping (METADATA_LINEAGE_SPECIALIST_NAME, ty) \<noteq> None) [''asset_context'', ''blast_radius'']"
    by code_simp
  ultimately show ?thesis
    using assms
    by (auto simp: plan_worker_def validate_worker_def intent_for_task_def desk_id_def desk_task_def proposed_def split: sum.splits)
qed

definition desk_items :: "proposed_task list" where
  "desk_items = projr (build_deterministic_proposal desk_request)"

lemma desk_items: "build_deterministic_proposal desk_request = Inr desk_items"
  "\<exists>why1 why2. desk_items = [proposed METADATA_LINEAGE_SPECIALIST_NAME ''asset_context'' Required_Worker why1,
     proposed METADATA_LINEAGE_SPECIALIST_NAME ''blast_radius'' Optional_Worker why2] \<and> length why1 \<le> 500 \<and> length why2 \<le> 500"
proof -
  have run: "(case build_deterministic_proposal desk_request of Inl _ \<Rightarrow> False | Inr xs \<Rightarrow>
      map (\<lambda>x. (pt_specialist x, pt_type x, pt_requirement x)) xs =
        [(METADATA_LINEAGE_SPECIALIST_NAME, ''asset_context'', Required_Worker),
         (METADATA_LINEAGE_SPECIALIST_NAME, ''blast_radius'', Optional_Worker)] \<and>
      list_all (\<lambda>x. length (pt_rationale x) \<le> 500) xs)"
    by code_simp
  then show "build_deterministic_proposal desk_request = Inr desk_items"
    by (auto simp: desk_items_def split: sum.splits)
  then show "\<exists>why1 why2. desk_items = [proposed METADATA_LINEAGE_SPECIALIST_NAME ''asset_context'' Required_Worker why1,
     proposed METADATA_LINEAGE_SPECIALIST_NAME ''blast_radius'' Optional_Worker why2] \<and> length why1 \<le> 500 \<and> length why2 \<le> 500"
  proof -
    assume items: "build_deterministic_proposal desk_request = Inr desk_items"
    have names: "map (\<lambda>x. (pt_specialist x, pt_type x, pt_requirement x)) desk_items =
        [(METADATA_LINEAGE_SPECIALIST_NAME, ''asset_context'', Required_Worker),
         (METADATA_LINEAGE_SPECIALIST_NAME, ''blast_radius'', Optional_Worker)]"
      and whys: "list_all (\<lambda>x. length (pt_rationale x) \<le> 500) desk_items"
      using run unfolding items by simp_all
    from arg_cong[OF names, of length] obtain x1 x2 where two: "desk_items = [x1, x2]"
      by (auto simp: length_Suc_conv)
    have "x = proposed (pt_specialist x) (pt_type x) (pt_requirement x) (pt_rationale x)" for x
      by (cases x) (simp add: proposed_def)
    from this[of x1] this[of x2]
    have "desk_items = [proposed METADATA_LINEAGE_SPECIALIST_NAME ''asset_context'' Required_Worker (pt_rationale x1),
        proposed METADATA_LINEAGE_SPECIALIST_NAME ''blast_radius'' Optional_Worker (pt_rationale x2)]"
      using names unfolding two by simp
    then show ?thesis using whys unfolding two by auto
  qed
qed

lemma desk_workers: "\<exists>w1 w2 tools1 tools2. compile_workers desk_lib desk_planner stamps desk_request ''run'' 0 [] desk_items = Inr [w1, w2] \<and>
    required_tools_for_task METADATA_LINEAGE_SPECIALIST_NAME ''asset_context'' = Inr tools1 \<and>
    required_tools_for_task METADATA_LINEAGE_SPECIALIST_NAME ''blast_radius'' = Inr tools2 \<and>
    wk_task w1 = desk_task ''asset_context'' tools1 (desk_id ''asset_context'', snd (stamps 0)) \<and> wk_retry_budget w1 = 0 \<and>
    wk_task w2 = desk_task ''blast_radius'' tools2 (desk_id ''blast_radius'', snd (stamps 1)) \<and> wk_retry_budget w2 = 0"
proof -
  obtain tools1 tools2 where tools: "required_tools_for_task METADATA_LINEAGE_SPECIALIST_NAME ''asset_context'' = Inr tools1"
    "required_tools_for_task METADATA_LINEAGE_SPECIALIST_NAME ''blast_radius'' = Inr tools2"
    using registry_metadata[of "''asset_context''"] registry_metadata[of "''blast_radius''"] by (auto simp: METADATA_PROPOSALS_def)
  obtain why1 why2 where items: "desk_items = [proposed METADATA_LINEAGE_SPECIALIST_NAME ''asset_context'' Required_Worker why1,
     proposed METADATA_LINEAGE_SPECIALIST_NAME ''blast_radius'' Optional_Worker why2]" "length why1 \<le> 500" "length why2 \<le> 500"
    using desk_items(2) by blast
  have differ: "desk_digest (desk_text ''asset_context'') \<noteq> desk_digest (desk_text ''blast_radius'')"
    using desk_texts_differ by (simp add: desk_digest_def)
  obtain w1 where w1: "plan_worker desk_planner ''run'' (desk_task ''asset_context'' tools1 (desk_id ''asset_context'', snd (stamps 0)))
      (proposed METADATA_LINEAGE_SPECIALIST_NAME ''asset_context'' Required_Worker why1) = Inr w1"
    "wk_task w1 = desk_task ''asset_context'' tools1 (desk_id ''asset_context'', snd (stamps 0))" "wk_retry_budget w1 = 0"
    using desk_plan_worker[OF _ items(2), of "''asset_context''"] by blast
  obtain w2 where w2: "plan_worker desk_planner ''run'' (desk_task ''blast_radius'' tools2 (desk_id ''blast_radius'', snd (stamps 1)))
      (proposed METADATA_LINEAGE_SPECIALIST_NAME ''blast_radius'' Optional_Worker why2) = Inr w2"
    "wk_task w2 = desk_task ''blast_radius'' tools2 (desk_id ''blast_radius'', snd (stamps 1))" "wk_retry_budget w2 = 0"
    using desk_plan_worker[OF _ items(3), of "''blast_radius''"] by blast
  have "compile_workers desk_lib desk_planner stamps desk_request ''run'' 0 [] desk_items = Inr [w1, w2]"
    using desk_proposal[OF _ tools(1), of "stamps 0" Required_Worker why1] desk_proposal[OF _ tools(2), of "stamps 1" Optional_Worker why2]
      w1(1) w2(1) differ by (simp add: items(1) desk_signature)
  then show ?thesis using tools w1 w2 by blast
qed

lemma desk_task_parent: "tk_parent (desk_task ty tools stamp) = ''run''"
  by (simp add: desk_task_def)

lemma desk_no_budget: "vector desk_lib (no_budget desk_lib) = Inr (no_budget desk_lib)"
  by code_simp

lemma desk_plan: "\<exists>p. compile_execution_plan desk_lib desk_planner stamps now desk_request ''run'' None [] = Inr p \<and>
    map (tk_type \<circ> wk_task) (pl_workers p) = [''asset_context'', ''blast_radius'']"
proof -
  obtain w1 w2 tools1 tools2 where ws: "compile_workers desk_lib desk_planner stamps desk_request ''run'' 0 [] desk_items = Inr [w1, w2]"
    and tools: "required_tools_for_task METADATA_LINEAGE_SPECIALIST_NAME ''asset_context'' = Inr tools1"
      "required_tools_for_task METADATA_LINEAGE_SPECIALIST_NAME ''blast_radius'' = Inr tools2"
    and w1: "wk_task w1 = desk_task ''asset_context'' tools1 (desk_id ''asset_context'', snd (stamps 0))" "wk_retry_budget w1 = 0"
    and w2: "wk_task w2 = desk_task ''blast_radius'' tools2 (desk_id ''blast_radius'', snd (stamps 1))" "wk_retry_budget w2 = 0"
    using desk_workers[of stamps] by blast
  let ?policy = "policy_of_request desk_request 2"
  have request: "rq_mode desk_request = Fanout_Mode" "rq_max_workers desk_request = 2" "rq_intent desk_request = Asset_Context"
    by (simp_all add: desk_request_def)
  have policy: "validate_concurrency_policy desk_lib ?policy = Inr ?policy"
    by (simp add: policy_of_request_def desk_request_def validate_concurrency_policy_def within_def lib_zero_def desk_lib_def trial_lib_def
        MAX_AGENT_WORKERS_def)
  have "(case build_execution_waves [''a0000000'', ''b0000000''] [] of Inl _ \<Rightarrow> False | Inr ws \<Rightarrow> length ws = 1)" by code_simp
  then obtain waves where waves: "build_execution_waves [''a0000000'', ''b0000000''] [] = Inr waves" "length waves = 1"
    by (auto split: sum.splits)
  have ids: "map (tk_task_id \<circ> wk_task) [w1, w2] = [''a0000000'', ''b0000000'']"
    by (simp add: w1 w2 desk_task_def desk_id_def)
  let ?draft = "assembled_plan ''run'' [w1, w2] [] ?policy waves Deterministic now"
  let ?plan = "?draft\<lparr>pl_hash := calculate_plan_hash desk_lib desk_planner ?draft\<rparr>"
  have "plan_fields ?plan = Inr ?plan"
    using waves(2) by (simp add: plan_fields_def assembled_plan_def MAX_AGENT_WORKERS_def MAX_PLAN_DEPENDENCIES_def
        PLAN_HASH_LENGTH_def calculate_plan_hash_def desk_planner_def desk_digest_def)
  moreover have "validate_execution_plan desk_lib desk_planner ?plan = Inr ?plan"
  proof -
    have fields: "pl_workers ?plan = [w1, w2]" "pl_parent ?plan = ''run''" "pl_dependencies ?plan = []" "pl_policy ?plan = ?policy"
      "pl_waves ?plan = waves" "pl_hash ?plan = calculate_plan_hash desk_lib desk_planner ?plan"
      by (simp_all add: assembled_plan_def calculate_plan_hash_def plan_hash_payload_def)
    have policy: "fp_max_workers ?policy = 2" "fp_external_llm ?policy = False" "fp_max_calls ?policy = 3" "fp_tokens ?policy = 16384"
      "fp_cost ?policy = 5" by (simp_all add: policy_of_request_def desk_request_def)
    have admitted: "\<exists>c. enforce_task_capability (desk_task ''asset_context'' tools1 st) = Inr c \<and> \<not> cp_mutation c"
      "\<exists>c. enforce_task_capability (desk_task ''blast_radius'' tools2 st) = Inr c \<and> \<not> cp_mutation c" for st
      using desk_task_valid(2)[OF _ tools(1), of st] desk_task_valid(2)[OF _ tools(2), of st] admitted_never_mutates
      by (auto simp: METADATA_PROPOSALS_def)
    have "\<exists>us. try_map (admit_worker ?plan) [w1, w2] = Inr us"
      using admitted fields(2) by (simp add: admit_worker_def w1 w2 desk_task_parent)
    moreover have "try_map (worker_budget desk_lib False 3) [w1, w2] = Inr [no_budget desk_lib, no_budget desk_lib]"
      by (simp add: worker_budget_def effective_fanout_worker_budget_def desk_no_budget)
    moreover have "\<not> lib_less desk_lib 5 (float_sum desk_lib [lib_zero desk_lib, lib_zero desk_lib])"
      by (simp add: float_sum_def desk_lib_def trial_lib_def lib_zero_def)
    moreover have "task_signature desk_lib desk_planner (wk_task w1) \<noteq> task_signature desk_lib desk_planner (wk_task w2)"
      using desk_texts_differ by (simp add: w1 w2 desk_signature desk_digest_def)
    moreover have "plan_ids ?plan = [''a0000000'', ''b0000000'']" using ids fields(1) by (simp add: plan_ids_def)
    ultimately show ?thesis
      using waves(1) w1(2) w2(2) unfolding validate_execution_plan_def fields policy
      by (auto simp: MAX_AGENT_WORKERS_def no_budget_def)
  qed
  moreover have "selected_proposal desk_request None = Inr desk_items"
    using desk_items(1) by (simp add: selected_proposal_def)
  ultimately have "compile_execution_plan desk_lib desk_planner stamps now desk_request ''run'' None [] = Inr ?plan"
    using ws policy waves(1) ids request by (simp add: compile_execution_plan_def Let_def numeral_2_eq_2)
  then show ?thesis using w1 w2 by (auto simp: assembled_plan_def desk_task_def)
qed

section \<open>The properties on it\<close>

lemma desk_request_valid: "validate_request desk_lib desk_request = Inr desk_request"
proof -
  have run: "(case validate_request desk_lib desk_request of Inl _ \<Rightarrow> False | Inr r \<Rightarrow> True)" by code_simp
  then obtain r where r: "validate_request desk_lib desk_request = Inr r" by (auto split: sum.splits)
  have "list_all (\<lambda>s. strip s = s) [''mart.sales'', ''agent-reports'', ''airflow'', []]" by code_simp
  then have "normalized desk_request = desk_request" by (simp add: normalized_def desk_request_def)
  then show ?thesis using r request_Inr(7)[OF r] request_texts_Inr by metis
qed

definition desk_route :: route where
  "desk_route = projr (resolve_supervisor_route desk_request)"

lemma desk_route: "resolve_supervisor_route desk_request = Inr desk_route" "rt_intent desk_route = Asset_Context"
    "rt_specialist desk_route = METADATA_LINEAGE_SPECIALIST_NAME" "rt_type desk_route = ''asset_context''"
proof -
  have run: "(case resolve_supervisor_route desk_request of Inl _ \<Rightarrow> False | Inr route \<Rightarrow> rt_intent route = Asset_Context \<and>
      rt_specialist route = METADATA_LINEAGE_SPECIALIST_NAME \<and> rt_type route = ''asset_context'')"
    by code_simp
  then show "resolve_supervisor_route desk_request = Inr desk_route" by (auto simp: desk_route_def split: sum.splits)
  then show "rt_intent desk_route = Asset_Context" "rt_specialist desk_route = METADATA_LINEAGE_SPECIALIST_NAME"
    "rt_type desk_route = ''asset_context''" using run by simp_all
qed

lemma metadata_handoff_built_iff_witness:
  "\<exists>t. build_supervisor_handoff desk_lib desk_planner (''u'', 3) desk_request desk_route ''run'' = Inr t"
proof -
  have "validate_qualified_table_name ''mart.sales'' = Inr ''mart.sales''" by code_simp
  then show ?thesis
    using metadata_handoff_built_iff[OF desk_request_valid desk_route(1) _ desk_zero(1), of desk_planner "(''u'', 3)" "''run''"]
    by (simp add: desk_route(2)) (simp add: desk_request_def)
qed

lemma desk_handoff: "\<exists>t. build_supervisor_handoff desk_lib desk_planner (''u'', 3) desk_request desk_route ''run'' = Inr t"
proof -
  obtain tools where "required_tools_for_task METADATA_LINEAGE_SPECIALIST_NAME ''asset_context'' = Inr tools"
    using registry_metadata[of "''asset_context''"] by (auto simp: METADATA_PROPOSALS_def)
  then have "build_metadata_lineage_task desk_lib (''u'', 3) ''run'' ''asset_context'' (metadata_of desk_request) ''airflow'' [] =
      Inr (desk_task ''asset_context'' tools (''u'', 3))" using desk_built unfolding desk_input_def by blast
  moreover have "map_of EVIDENCE_INTERPRETATION_TASKS ''asset_context'' = None" by code_simp
  moreover have "rq_requester desk_request = ''airflow''" "rq_alert_key desk_request = []" by (simp_all add: desk_request_def)
  ultimately show ?thesis by (simp add: build_supervisor_handoff_def desk_route)
qed

lemma handoff_follows_policy_witness:
  "\<exists>t. build_supervisor_handoff desk_lib desk_planner (''u'', 3) desk_request desk_route ''run'' = Inr t \<and>
     intent_for_task t = Inr Asset_Context \<and> tk_route t = No_Llm_Fallback \<and> tk_requester t = ''airflow''"
proof -
  obtain t where t: "build_supervisor_handoff desk_lib desk_planner (''u'', 3) desk_request desk_route ''run'' = Inr t"
    using desk_handoff by blast
  have requester: "rq_requester desk_request = ''airflow''" by (simp add: desk_request_def)
  note policy = handoff_follows_policy[OF desk_request_valid desk_route(1) t, unfolded desk_route(2) requester]
  have facts: "intent_for_task t = Inr Asset_Context \<and> tk_requester t = ''airflow'' \<and>
      (tk_route t = No_Llm_Fallback \<longleftrightarrow> Asset_Context \<notin> {Triage_Alert, Interpret_Incident_Evidence})"
    using policy by (elim conjE) (intro conjI)
  then have "tk_route t = No_Llm_Fallback" by simp
  with t facts show ?thesis by blast
qed

lemma proposal_only_selects_witness:
  "\<exists>p. compile_execution_plan desk_lib desk_planner (\<lambda>i. ([], int i)) 9 desk_request ''run'' None [] = Inr p \<and>
     map (tk_type \<circ> wk_task) (pl_workers p) = [''asset_context'', ''blast_radius''] \<and>
     list_all (policy_owned desk_planner desk_request ''run'' \<circ> wk_task) (pl_workers p)"
proof -
  obtain p where p: "compile_execution_plan desk_lib desk_planner (\<lambda>i. ([], int i)) 9 desk_request ''run'' None [] = Inr p"
    "map (tk_type \<circ> wk_task) (pl_workers p) = [''asset_context'', ''blast_radius'']" 
    using desk_plan[of "\<lambda>i. ([], int i)" 9] by (elim exE conjE) (rule that)
  have "policy_owned desk_planner desk_request ''run'' (wk_task w)" if "w \<in> set (pl_workers p)" for w
    using proposal_only_selects[OF desk_request_valid p(1)]
    by (elim conjE exE) (drule bspec[OF _ that], elim conjE, assumption)
  then have "list_all (policy_owned desk_planner desk_request ''run'' \<circ> wk_task) (pl_workers p)" by (simp add: list_all_iff)
  with p show ?thesis by (intro exI[of _ p]) simp
qed

section \<open>Policy\<close>

definition desk_reader :: "int reader" where
  "desk_reader = \<lparr>rd_repr = (\<lambda>_. ''[]''), rd_of_int = (\<lambda>i. 100 * i), rd_of_real = (\<lambda>_. 70), rd_float_text = (\<lambda>_. None),
     rd_int_text = (\<lambda>_. None), rd_int_real = (\<lambda>_. None), rd_round4 = (\<lambda>x. x)\<rparr>"

definition reviewed_task :: "int task" where
  "reviewed_task = new_task (''u'', 3) ''run'' SQL_REVIEW_SPECIALIST_NAME ''review_sql'' [] ''airflow'' [] [] 0"

definition risky_result :: "int result" where
  "risky_result = trial_result\<lparr>rs_status := Task_Success, rs_output := [(''query_risk_level'', JStr ''Critical'')]\<rparr>"

lemma post_handoff_policy_is_safe_witness:
  "\<exists>d. evaluate_post_handoff_policy desk_lib desk_reader reviewed_task risky_result = Inr d \<and>
     elevated (pd_risk d) \<and> pd_disposition d = Human_Review_Required"
proof -
  have facts: "\<not> failed_result risky_result" "rs_route risky_result = No_Llm_Fallback" "tk_route reviewed_task = No_Llm_Fallback"
    "confidence_limit desk_lib desk_reader reviewed_task \<noteq> None" "approval_actions desk_reader risky_result = Some 0"
    "\<not> output_flag risky_result ''strong_review_satisfied''"
    by (simp_all add: failed_result_def risky_result_def trial_result_def reviewed_task_def confidence_limit_def approval_actions_def
        output_flag_def get_json_def json_truthy_def)
  have "output_text desk_reader risky_result ''query_risk_level'' = ''critical''" by code_simp
  then have signal: "risk_signal desk_lib desk_reader reviewed_task risky_result" by (simp add: risk_signal_def)
  obtain d where d: "evaluate_post_handoff_policy desk_lib desk_reader reviewed_task risky_result = Inr d"
    using post_handoff_policy_is_safe[of desk_lib desk_reader reviewed_task risky_result] facts by auto
  then have "elevated (pd_risk d)" "pd_disposition d \<noteq> Block" "pd_disposition d \<noteq> Allow"
    using post_handoff_policy_is_safe[of desk_lib desk_reader reviewed_task risky_result] facts signal by auto
  then show ?thesis using d by (cases "pd_disposition d") auto
qed

definition contradicted_state :: "int triage_state" where
  "contradicted_state = \<lparr>ts_severity = Some (JStr ''warning''),
     ts_evidence = [\<lparr>it_type = JStr ''lineage'', it_rows = [], it_contradicts = [''h'']\<rparr>], ts_hypotheses = [], ts_errors = []\<rparr>"

lemma high_complexity_iff_witness:
  "\<exists>a. assess_incident_complexity desk_lib desk_reader contradicted_state = Inr a \<and> cm_strong a"
proof -
  have "contradiction_count contradicted_state = 1" "ts_hypotheses contradicted_state = []" "visible_errors contradicted_state = []"
    "top_hypothesis_gap desk_lib desk_reader contradicted_state = None" "count_lineage_assets desk_reader contradicted_state = 0"
    "count_schema_findings desk_reader contradicted_state = 0"
    by (simp_all add: contradicted_state_def contradiction_count_def visible_errors_def top_hypothesis_gap_def ranked_confidences_def
        count_lineage_assets_def count_schema_findings_def items_of_type_def)
  then show ?thesis
    using high_complexity_iff[of desk_lib desk_reader contradicted_state 0 0] by auto
qed

end
