(* ===== verification/Spec2Isabelle.thy ===== *)
theory Spec2Isabelle
  imports Publication_Instance Approval_Instance Approval_Queue_Instance Approved_Actions_Instance Supervisor_Instance Fanout_Instance
    Resolution_Instance Routing_Instance
begin

text \<open>
  A model of the control core of the data-quality triage platform (\<open>src/\<close>), and the theorems that
  make it correct. The platform finds bad partitions of a warehouse, lets agents investigate them
  with bounded budgets, and changes or closes anything only through a PostgreSQL control store that a
  human approves in. The model covers that control core; what surrounds it (warehouse, models,
  Airflow, Discord, user interfaces) appears as parameters.

  Parts, the theories that model them, and how they interact:

  \<^item> \<open>Sql_Text\<close>: identifiers and literals of \<open>pipelines/common/clickhouse.py\<close>, which every
    statement of the other parts is built from.
  \<^item> \<open>Publication\<close>, \<open>Publication_Group\<close>: \<open>pipelines/common/publication.py\<close> and
    \<open>10_partition_publication.sql\<close>. A writer takes the advisory lock of a dataset and date, prepares
    partitions in a scratch database, and publishes them one by one or as a group that is
    compensated when a member fails. State: the journal tables and what this connection owns; the
    ClickHouse server is an arbitrary client that may fail before or after it has acted.
  \<^item> \<open>Approval_Control\<close> (with \<open>Json\<close>): \<open>agent/tools/approval_control_store.py\<close>,
    \<open>01_approval_control_store.sql\<close> and \<open>11_legacy_approval_control.sql\<close>: the requests, their
    life cycle under optimistic versions, the constraints, the trigger that fills the outbox, and the
    flush of the outbox to the audit log and the projection. \<open>Approval_Queue\<close> is the public queue
    over it with the bounded backfill contract, and \<open>Approved_Actions\<close> the execution of approved
    actions through their providers.
  \<^item> \<open>Contracts\<close>, \<open>Registry\<close>: what crosses the boundary to a specialist agent, and the gates before
    and after each invocation. \<open>Budgets\<close> is the ledger of model calls and the worker allocator,
    \<open>Resilience\<close> the circuit breaker and the retry loop of \<open>agent/supervisor/runtime.py\<close>.
  \<^item> \<open>Execution_Plan\<close>, \<open>Fanout\<close> (with \<open>Json_Text\<close>): plans of several specialists, their waves and
    identities, and the run of a plan with budgets, isolated workers and aggregation
    (\<open>agent/supervisor/execution_plan.py\<close>, \<open>agent/supervisor/fanout.py\<close>). They use the gates, budgets
    and contracts above.
  \<^item> \<open>Routing\<close>, \<open>Planning\<close>: from an operator's request to tasks. \<open>Routing\<close> is the request of
    \<open>agent/supervisor/models.py\<close> with its validators, classification, routes and handoffs of \<open>routing.py\<close>
    and the task builders of \<open>agent/specialists\<close>; \<open>Planning\<close> compiles a request, or a model's proposal for
    it, into a plan (the first half of \<open>execution_plan.py\<close>), which \<open>Execution_Plan\<close> validates and \<open>Fanout\<close> runs.
    \<open>Routing_Policy\<close> is \<open>agent/supervisor/policy.py\<close>: incident complexity, the model for the report, and the
    decisions before and after a handoff.
  \<^item> \<open>Resolution\<close>: \<open>agent/tools/incident_resolution.py\<close>, its store, \<open>agent/resolution_contracts.py\<close>,
    the Airflow client of \<open>apps/common/airflow_api.py\<close> and \<open>03_incident_resolution.sql\<close>. It reads the
    approval requests of \<open>Approval_Control\<close> to see whether remediation is under way, and its incident
    statuses are what \<open>create_request\<close> there looks at.

  How the code is represented:

  \<^item> A function that reads and writes state and may raise is a program \<open>'s \<Rightarrow> ('e + 'a) \<times> 's\<close> (\<open>Prelude\<close>);
    a transaction gives the state of its start back when it fails, and its commit may fail or lose its
    acknowledgement. Every raise and early return is a branch.
  \<^item> Concurrency: in \<open>Publication\<close> and \<open>Approval_Control\<close> operations are sequences of transactions
    under a lock or optimistic versions, and the theorems quantify over arbitrary operation lists. In
    \<open>Resolution\<close> an operation is a process (\<open>Processes\<close>): one step per transaction, which the
    platform-wide advisory lock makes atomic, and one step per call or other piece of code between
    two transactions; the theorems hold for every interleaving of every list of operations, and for
    processes that never go on. The exchange with Airflow inside one call of \<open>trigger\<close> is one step: it
    does not touch the database, and the answers are arbitrary.
  \<^item> Library code and services are record arguments: \<open>pydantic\<close> (conversion of field values),
    \<open>pylib\<close> (Python floats), \<open>reader\<close> (conversions of JSON values), \<open>planner\<close> (SHA-256, UUIDs and the printing of floats), \<open>fan_env\<close>,
    \<open>surroundings\<close> and \<open>network\<close> (clocks, subprocesses, audit, HTTP), the ClickHouse client of
    \<open>Publication\<close>, and \<open>env\<close> of \<open>Resolution\<close>. Hypotheses about them are named definitions, such as
    \<open>uuid_ok\<close>, and every property with hypotheses has a witness in an \<open>_Instance\<close> theory.
  \<^item> Python's integers are \<open>int\<close>; dictionaries with fixed keys are records, JSON values the datatype of
    \<open>Json\<close>; ISO timestamps are instants in microseconds. A character is eight bits wide, so text is
    Latin-1.

  What the lemmas show, by group:

  \<^item> Statements: a quoted value stays inside its literal for every reader of the documented syntax (C1).
  \<^item> Publication: what each outcome of a publication says about live data (C2); an outcome that stays
    unknown blocks the next writer (C4); groups are all or nothing, or the journal and the live content
    say exactly where the compensation was refused (C5, C6); the journal moves along its life cycle
    only (C7).
  \<^item> Approvals: every executed request was approved by somebody else or imported with its execution from
    the legacy store (C9), versions admit one transition
    (C10, C11), the constraints of the schema are never hit by a valid transition (C18), creation is
    idempotent (C15) and refused for a resolved incident (C17), and the outbox neither loses a state
    (C13) nor marks an undelivered one (C14). The queue authorises exactly what was approved
    (C19, C20). External effects happen at most once (C23) and their outcome is recorded (C24).
  \<^item> Agents: what a handoff is (C28) and when an accepted request gets one (C21), the gate of the registry
    (C27), when an incident is complex (C16) and what happens after a handoff (C25); budgets as accounts that never exceed their limits
    (C29, C30), the circuit breaker against its specification on histories (C31), bounded retries (C32).
  \<^item> Plans: a model's proposal only selects from what policy allows (C35), schedules respect dependencies
    and exist exactly for acyclic plans (C33, C34), a plan's hash commits to its content, when that is plain JSON (C40), and the fan-out refines "every worker gets one answer, run, blocked or failed" (C36 to C38);
    an error leaves a worker only from creating or closing its audit client or writing its failure (C39).
  \<^item> Incidents: a closure, acknowledged or not, rests on evidence of this incident that is fresh by the
    clock the run itself read (C3), one Airflow run and one capture per
    request (C8), idempotent closure (C12), well-formed requests (C22), the life cycle of versions (C26).

  Interfaces are locales, interpreted on the model: \<open>evolution\<close> (a reflexive and transitive relation
  kept by every statement), \<open>control_relation\<close> (the same for the approval store's operations),
  \<open>account\<close> and \<open>settled_account\<close> (budgets), \<open>guarded_system\<close> and \<open>resolution_steps\<close> (relations kept
  along interleaved processes), and \<open>tokens\<close> (effects that are paid with a claim).

  Bounds and termination: a plan has at most ten tasks, so at most ten waves; waves, parsing and printing
  terminate by measures, the retry loop by the retries that remain. No fuel is used.

  Not modelled, with the reasons:

  \<^item> Reading the evidence itself: \<open>pipelines/dq/incident_revalidation.py\<close>, the checks of
    \<open>pipelines/dq\<close> and the drift detector of \<open>pipelines/schema_drift\<close>. Their statements run in the
    warehouse; the checks on the captured result are modelled.
  \<^item> \<open>agent/recovery\<close> (recovery of partitions). In \<open>Resolution\<close> the approval
    requests do not change while its operations run, because no operation of that file writes them.
  \<^item> The single-handoff orchestration around the retry loop, running a specialist, checkpoints, agent graph,
    LLM clients and prompts: the answers of the models are not determined by the repository's code.
  \<^item> Pipelines around S3, dbt and seeding, read-only tools, context bundles, the evaluation harness, the MCP
    and HTTP servers, Discord, Streamlit and web front ends: glue around third-party code.
\<close>

end
